(* ===== verification/Json.thy ===== *)
theory Json
  imports Prelude "HOL-Library.Multiset" "HOL-Library.List_Lexorder" "HOL-Library.Char_ord"
begin

text \<open>
  Package \<open>encoding/json\<close> as the source uses it, on parse trees: a value is what a
  \<open>json.Decoder\<close> with \<open>UseNumber\<close> makes of a text, a \<open>json.RawMessage\<close> is the text up to what the
  decoder makes of it (nothing, one value, or not one complete value). Number literals are kept as
  text, canonical integer literals as the integer they write, so \<open>1\<close> and \<open>1.0\<close> differ as they do
  under \<open>UseNumber\<close>. The order of strings is Go's byte order.
\<close>

section \<open>Values and raw messages\<close>

datatype json =
    JNull
  | JBool bool
  | JInt int
  | JNum string
  | JStr string
  | JArr "json list"
  | JObj "(string \<times> json) list"

text \<open>\<open>RawNil\<close> is the empty byte slice, \<open>RawBad\<close> a text that is malformed or has trailing content.\<close>

datatype raw_message = RawNil | Raw json | RawBad

section \<open>Go maps decoded from objects\<close>

text \<open>Decoding an object into a Go map assigns its members in order, so the last duplicate wins.\<close>

definition map_of_members :: "(string \<times> 'a) list \<Rightarrow> 'a gomap" where
  "map_of_members kvs = foldl (\<lambda>m (k, v). gm_set k v m) [] kvs"

text \<open>\<open>json.Marshal\<close> of a Go map writes the members sorted by key.\<close>

definition sort_members :: "'a gomap \<Rightarrow> 'a gomap" where
  "sort_members m = sort_key fst m"

text \<open>
  The normal form of a value decoded into \<open>any\<close>: every object is a Go map, written with its keys
  sorted. \<open>reflect.DeepEqual\<close> of two decoded values is equality of the normal forms.
\<close>

fun jcanon :: "json \<Rightarrow> json" where
  "jcanon (JArr vs) = JArr (map jcanon vs)"
| "jcanon (JObj kvs) = JObj (sort_members (map_of_members (map (\<lambda>(k, v). (k, jcanon v)) kvs)))"
| "jcanon v = v"

definition deep_equal :: "json \<Rightarrow> json \<Rightarrow> bool" where
  "deep_equal a b \<longleftrightarrow> jcanon a = jcanon b"

lemma deep_equal_refl [simp]: "deep_equal v v"
  by (simp add: deep_equal_def)

lemma deep_equal_sym: "deep_equal a b \<Longrightarrow> deep_equal b a"
  by (simp add: deep_equal_def)

lemma deep_equal_trans: "deep_equal a b \<Longrightarrow> deep_equal b c \<Longrightarrow> deep_equal a c"
  by (simp add: deep_equal_def)

subsection \<open>Members and maps\<close>

lemma foldl_gm_set_wf: "gm_wf m \<Longrightarrow> gm_wf (foldl (\<lambda>m (k, v). gm_set k v m) m kvs)"
  by (induction kvs arbitrary: m) auto

lemma gm_wf_map_of_members [simp, intro]: "gm_wf (map_of_members kvs)"
  unfolding map_of_members_def by (rule foldl_gm_set_wf) simp

lemma foldl_gm_set_get:
  "gm_get (foldl (\<lambda>m (k, v). gm_set k v m) m kvs) x =
     (case map_of (rev kvs) x of Some v \<Rightarrow> Some v | None \<Rightarrow> gm_get m x)"
proof (induction kvs arbitrary: m)
  case Nil
  then show ?case by simp
next
  case (Cons kv kvs)
  then show ?case
    by (cases kv) (auto simp: map_add_def split: option.splits)
qed

lemma map_of_members_get: "gm_get (map_of_members kvs) x = map_of (rev kvs) x"
  by (simp add: map_of_members_def foldl_gm_set_get split: option.splits)

lemma update_new: "k \<notin> fst ` set m \<Longrightarrow> gm_set k v m = m @ [(k, v)]"
  by (induction m) auto

lemma foldl_gm_set_distinct:
  "distinct (map fst (m @ kvs)) \<Longrightarrow> foldl (\<lambda>m (k, v). gm_set k v m) m kvs = m @ kvs"
proof (induction kvs arbitrary: m)
  case Nil
  then show ?case by simp
next
  case (Cons kv kvs)
  obtain k v where kv: "kv = (k, v)" by (cases kv)
  have "k \<notin> fst ` set m" using Cons.prems by (auto simp: kv)
  then have "gm_set k v m = m @ [(k, v)]" by (rule update_new)
  then show ?case using Cons.prems Cons.IH [of "m @ [(k, v)]"] by (simp add: kv)
qed

lemma map_of_members_wf [simp]: "gm_wf m \<Longrightarrow> map_of_members m = m"
  unfolding map_of_members_def gm_wf_def by (subst foldl_gm_set_distinct) auto

subsection \<open>Normal forms\<close>

lemma set_foldl_gm_set: "set (foldl (\<lambda>m (k, v). gm_set k v m) m kvs) \<subseteq> set m \<union> set kvs"
proof (induction kvs arbitrary: m)
  case (Cons kv kvs)
  obtain k v where kv: "kv = (k, v)" by (cases kv)
  have "set (gm_set k v m) \<subseteq> insert (k, v) (set m)" by (induction m) auto
  then show ?case using Cons.IH [of "gm_set k v m"] by (auto simp: kv)
qed simp

lemma set_map_of_members: "set (map_of_members kvs) \<subseteq> set kvs"
  using set_foldl_gm_set [of "[]" kvs] by (simp add: map_of_members_def)

lemma sort_members_wf [simp]: "gm_wf (sort_members m) = gm_wf m"
proof -
  have "mset (map fst (sort_members m)) = mset (map fst m)"
    by (simp only: sort_members_def mset_map mset_sort)
  then show ?thesis by (metis gm_wf_def mset_eq_imp_distinct_iff)
qed

lemma set_sort_members [simp]: "set (sort_members m) = set m"
  by (simp add: sort_members_def)

lemma gm_get_sort_members [simp]: "gm_wf m \<Longrightarrow> gm_get (sort_members m) k = gm_get m k"
  by (metis gm_get_mem not_Some_eq set_sort_members sort_members_wf)

lemma sort_members_idem [simp]: "sort_members (sort_members m) = sort_members m"
  by (simp add: sort_members_def sort_key_id_if_sorted)

lemma jcanon_idem [simp]: "jcanon (jcanon v) = jcanon v"
proof (induction v rule: jcanon.induct)
  case (2 kvs)
  let ?m = "sort_members (map_of_members (map (\<lambda>(k, v). (k, jcanon v)) kvs))"
  have "map (\<lambda>(k, v). (k, jcanon v)) ?m = ?m"
  proof (rule map_idI)
    fix kv assume "kv \<in> set ?m"
    then have "kv \<in> set (map (\<lambda>(k, v). (k, jcanon v)) kvs)"
      using set_map_of_members [of "map (\<lambda>(k, v). (k, jcanon v)) kvs"] by (simp only: set_sort_members) blast
    then obtain k v where "(k, v) \<in> set kvs" "kv = (k, jcanon v)" by auto
    with 2 show "(case kv of (k, v) \<Rightarrow> (k, jcanon v)) = kv" by fastforce
  qed
  then show ?case by simp
qed (simp_all add: comp_def cong: map_cong)

section \<open>Raw messages\<close>

text \<open>
  Decoding a raw message: the empty text is no value, a text that is not exactly one value is an
  error.
\<close>

datatype json_error = MalformedJSON | TypeMismatch string | UnknownField string

definition raw_decode :: "raw_message \<Rightarrow> json_error + json option" where
  "raw_decode r = (case r of RawNil \<Rightarrow> Inr None | Raw v \<Rightarrow> Inr (Some v) | RawBad \<Rightarrow> Inl MalformedJSON)"

section \<open>Decoding into struct fields\<close>

text \<open>
  A \<open>null\<close> leaves a string, boolean or integer field as it is; another kind of value is an
  \<open>UnmarshalTypeError\<close>. An integer literal must fit the 64-bit \<open>int\<close>; the only non-canonical
  integer literal JSON allows is \<open>-0\<close>.
\<close>

definition dec_string :: "json \<Rightarrow> string \<Rightarrow> json_error + string" where
  "dec_string v cur = (case v of JStr s \<Rightarrow> Inr s | JNull \<Rightarrow> Inr cur | _ \<Rightarrow> Inl (TypeMismatch ''string''))"

definition dec_bool :: "json \<Rightarrow> bool \<Rightarrow> json_error + bool" where
  "dec_bool v cur = (case v of JBool b \<Rightarrow> Inr b | JNull \<Rightarrow> Inr cur | _ \<Rightarrow> Inl (TypeMismatch ''bool''))"

definition int64_range :: "int \<Rightarrow> bool" where
  "int64_range i \<longleftrightarrow> - (2 ^ 63) \<le> i \<and> i < 2 ^ 63"

definition dec_int :: "json \<Rightarrow> int \<Rightarrow> json_error + int" where
  "dec_int v cur = (case v of
      JInt i \<Rightarrow> (if int64_range i then Inr i else Inl (TypeMismatch ''int''))
    | JNum s \<Rightarrow> (if s = ''-0'' then Inr 0 else Inl (TypeMismatch ''int''))
    | JNull \<Rightarrow> Inr cur
    | _ \<Rightarrow> Inl (TypeMismatch ''int''))"

lemma dec_scalar_simps [simp]:
  "dec_string (JStr s) cur = Inr s" "dec_string JNull cur = Inr cur"
  "dec_bool (JBool b) cur'' = Inr b" "dec_bool JNull cur'' = Inr cur''"
  "int64_range i \<Longrightarrow> dec_int (JInt i) cur' = Inr i" "dec_int JNull cur' = Inr cur'"
  by (simp_all add: dec_string_def dec_bool_def dec_int_def)

text \<open>
  The decoder matches a member to a field by its exact name, else ignoring case.
\<close>

definition match_field :: "string list \<Rightarrow> string \<Rightarrow> string option" where
  "match_field fields k =
     (if k \<in> set fields then Some k else List.find (\<lambda>f. equal_fold f k) fields)"

lemma match_field_exact [simp]: "k \<in> set fields \<Longrightarrow> match_field fields k = Some k"
  by (simp add: match_field_def)

text \<open>Members are decoded one after another; the first error stops the decoding.\<close>

fun decode_members ::
    "(string \<Rightarrow> json \<Rightarrow> 'a \<Rightarrow> json_error + 'a) \<Rightarrow> (string \<times> json) list \<Rightarrow> 'a \<Rightarrow> json_error + 'a" where
  "decode_members f [] a = Inr a"
| "decode_members f ((k, v) # kvs) a =
     (case f k v a of Inl e \<Rightarrow> Inl e | Inr a' \<Rightarrow> decode_members f kvs a')"

lemma decode_members_append:
  "decode_members f (xs @ ys) a =
     (case decode_members f xs a of Inl e \<Rightarrow> Inl e | Inr a' \<Rightarrow> decode_members f ys a')"
  by (induction f xs a rule: decode_members.induct) (auto split: sum.splits)

lemma decode_members_inv:
  assumes "\<And>k v a b. f k v a = Inr b \<Longrightarrow> P a \<Longrightarrow> P b"
  shows "decode_members f kvs a = Inr b \<Longrightarrow> P a \<Longrightarrow> P b"
proof (induction kvs arbitrary: a)
  case (Cons kv kvs)
  then show ?case by (cases kv) (auto split: sum.splits intro: assms)
qed simp

lemma dec_int_range: "dec_int v cur = Inr i \<Longrightarrow> int64_range cur \<Longrightarrow> int64_range i"
  by (auto simp: dec_int_def int64_range_def split: json.splits if_splits)

text \<open>\<open>omitempty\<close>: a member that is written only when the field is not the zero value.\<close>

definition omit_str :: "string \<Rightarrow> string \<Rightarrow> (string \<times> json) list" where
  "omit_str k s = (if s = [] then [] else [(k, JStr s)])"

end
