(* ===== verification/State_Store.thy ===== *)
theory State_Store
  imports Json
begin

text \<open>
  Package \<open>pkg/state\<close>: the profile-scoped JSON document store (\<open>store.go\<close>).  The disk is the parse
  of \<open>state.json\<close> with a script of outcomes, one per operating-system call: each call the code makes
  (locks, opens, temporary file, rename, syncs) consumes one outcome, so a theorem about every script
  covers a failure at every point.  The theory holds the document codec, the locking envelope, the
  operations, and the lemmas on atomic replacement and on the sticky failure latch.
\<close>

section \<open>Errors and the operating system\<close>

datatype store_error =
    ErrInvalidPath
  | ErrNotFound
  | ErrProfileInUse
  | ErrProfileReplaced
  | ErrLockNamespaceReplaced
  | ErrStateRootReplaced
  | ErrSafeOwnershipUnsupported
  | ErrUnsupportedVersion int
  | ErrFormat string
  | ErrDecode json_error
  | ErrTrailing
  | ErrMarshal
  | ErrSchema string
  | ErrNotPinned
  | ErrPermissionsChanged
  | ErrOS string
  | ErrJoined "store_error list"

text \<open>\<open>errors.Is\<close> looks through joined errors.\<close>

fun is_err :: "store_error \<Rightarrow> store_error \<Rightarrow> bool" where
  "is_err t (ErrJoined es) = (\<exists>e \<in> set es. is_err t e)"
| "is_err t e = (e = t)"

text \<open>\<open>errors.Join\<close> drops the nil errors and is nil when nothing is left.\<close>

definition join_errors :: "store_error option list \<Rightarrow> store_error option" where
  "join_errors es = (case List.map_filter id es of [] \<Rightarrow> None | xs \<Rightarrow> Some (ErrJoined xs))"

lemma join_errors_None [simp]: "join_errors es = None \<longleftrightarrow> (\<forall>e \<in> set es. e = None)"
  by (induction es) (auto simp: join_errors_def List.map_filter_def split: list.splits)

datatype os_result = OsOk | OsFail | OsBusy

text \<open>The directories down to \<open>state.json\<close>: \<open>Profile None\<close> is a profile directory without state file.\<close>

datatype tree = NoProfiles | NoProfile | Profile "raw_message option"

record disk =
  tree :: tree
  read_only_access :: bool
  read_only_fs :: bool
  pinned_support :: bool
  os_script :: "os_result list"

definition state_file :: "disk \<Rightarrow> raw_message option" where
  "state_file d = (case tree d of Profile f \<Rightarrow> f | _ \<Rightarrow> None)"

definition profiles_dir :: "disk \<Rightarrow> bool" where
  "profiles_dir d \<longleftrightarrow> tree d \<noteq> NoProfiles"

definition profile_dir :: "disk \<Rightarrow> bool" where
  "profile_dir d \<longleftrightarrow> (case tree d of Profile _ \<Rightarrow> True | _ \<Rightarrow> False)"

type_synonym 'a io = "disk \<Rightarrow> (store_error + 'a) \<times> disk"

definition io_return :: "'a \<Rightarrow> 'a io" where
  "io_return a d = (Inr a, d)"

definition io_fail :: "store_error \<Rightarrow> 'a io" where
  "io_fail e d = (Inl e, d)"

definition io_bind :: "'a io \<Rightarrow> ('a \<Rightarrow> 'b io) \<Rightarrow> 'b io" where
  "io_bind m f d = (case m d of (Inl e, d') \<Rightarrow> (Inl e, d') | (Inr a, d') \<Rightarrow> f a d')"

text \<open>One operating-system call: it takes the next outcome of the script, success when it is used up.\<close>

definition os_next :: "disk \<Rightarrow> os_result \<times> disk" where
  "os_next d = (case os_script d of [] \<Rightarrow> (OsOk, d) | r # rs \<Rightarrow> (r, d\<lparr>os_script := rs\<rparr>))"

definition os_as :: "store_error \<Rightarrow> unit io" where
  "os_as e d = (case os_next d of (OsOk, d') \<Rightarrow> (Inr (), d') | (_, d') \<Rightarrow> (Inl e, d'))"

definition os_call :: "string \<Rightarrow> unit io" where
  "os_call what = os_as (ErrOS what)"

text \<open>Deferred and best-effort calls whose error the code drops take no outcome from the script.\<close>

section \<open>The document and its codec\<close>

record document =
  doc_format :: string
  doc_version :: int
  doc_entries :: "json gomap"

definition Version :: int where "Version = 1"
definition storeFormat :: string where "storeFormat = ''minisky-state-store''"
definition SnapshotFormat :: string where "SnapshotFormat = ''minisky-state''"

definition emptyDocument :: document where
  "emptyDocument = \<lparr>doc_format = storeFormat, doc_version = Version, doc_entries = []\<rparr>"

definition encode_document :: "document \<Rightarrow> json" where
  "encode_document doc = JObj [(''format'', JStr (doc_format doc)), (''version'', JInt (doc_version doc)),
     (''entries'', JObj (doc_entries doc))]"

definition document_fields :: "string list" where
  "document_fields = [''format'', ''version'', ''entries'']"

text \<open>
  Strict decoding of the document: an unknown member is an error, the members of \<open>entries\<close> are
  assigned into the map one after another.
\<close>

definition dec_entries :: "json \<Rightarrow> json gomap \<Rightarrow> json_error + json gomap" where
  "dec_entries v cur = (case v of
      JObj kvs \<Rightarrow> Inr (foldl (\<lambda>m (k, v). gm_set k v m) cur kvs)
    | JNull \<Rightarrow> Inr []
    | _ \<Rightarrow> Inl (TypeMismatch ''entries''))"

definition dec_document_member :: "string \<Rightarrow> json \<Rightarrow> document \<Rightarrow> json_error + document" where
  "dec_document_member k v doc =
     (case match_field document_fields k of
        None \<Rightarrow> Inl (UnknownField k)
      | Some f \<Rightarrow>
          if f = ''format'' then
            (case dec_string v (doc_format doc) of Inl e \<Rightarrow> Inl e | Inr s \<Rightarrow> Inr (doc\<lparr>doc_format := s\<rparr>))
          else if f = ''version'' then
            (case dec_int v (doc_version doc) of Inl e \<Rightarrow> Inl e | Inr i \<Rightarrow> Inr (doc\<lparr>doc_version := i\<rparr>))
          else
            (case dec_entries v (doc_entries doc) of Inl e \<Rightarrow> Inl e | Inr m \<Rightarrow> Inr (doc\<lparr>doc_entries := m\<rparr>)))"

definition decode_document :: "json \<Rightarrow> json_error + document" where
  "decode_document v = (case v of
      JObj kvs \<Rightarrow> decode_members dec_document_member kvs \<lparr>doc_format = [], doc_version = 0, doc_entries = []\<rparr>
    | JNull \<Rightarrow> Inr \<lparr>doc_format = [], doc_version = 0, doc_entries = []\<rparr>
    | _ \<Rightarrow> Inl (TypeMismatch ''document''))"

lemma decode_encode_document [simp]:
  assumes "gm_wf (doc_entries doc)" and "int64_range (doc_version doc)"
  shows "decode_document (encode_document doc) = Inr doc"
proof -
  have "foldl (\<lambda>m (k, v). gm_set k v m) [] (doc_entries doc) = doc_entries doc"
    using map_of_members_wf [OF assms(1)] by (simp add: map_of_members_def)
  with assms(2) show ?thesis
    by (simp add: decode_document_def encode_document_def dec_document_member_def document_fields_def
        dec_entries_def)
qed

lemma dec_document_member_wf:
  "dec_document_member k v doc = Inr doc' \<Longrightarrow> gm_wf (doc_entries doc) \<Longrightarrow> gm_wf (doc_entries doc')"
  by (auto simp: dec_document_member_def dec_entries_def intro: foldl_gm_set_wf
      split: option.splits if_splits sum.splits json.splits)

lemma decode_members_wf:
  "decode_members dec_document_member kvs doc = Inr doc' \<Longrightarrow> gm_wf (doc_entries doc) \<Longrightarrow>
     gm_wf (doc_entries doc')"
proof (induction kvs arbitrary: doc)
  case Nil
  then show ?case by simp
next
  case (Cons kv kvs)
  then show ?case
    by (cases kv) (auto split: sum.splits dest: dec_document_member_wf)
qed

lemma decode_document_wf: "decode_document v = Inr doc \<Longrightarrow> gm_wf (doc_entries doc)"
  by (auto simp: decode_document_def split: json.splits dest!: decode_members_wf)

section \<open>Names\<close>

definition entry_char :: "char \<Rightarrow> bool" where
  "entry_char c \<longleftrightarrow> is_lower c \<or> is_upper c \<or> is_digit c \<or> c \<in> {CHR ''.'', CHR ''_'', CHR ''-''}"

text \<open>The anchored pattern \<open>[A-Za-z0-9][A-Za-z0-9._-]*\<close> of profiles and of entry name parts.\<close>

definition entryPattern :: "string \<Rightarrow> bool" where
  "entryPattern s = (case s of [] \<Rightarrow> False
     | c # cs \<Rightarrow> (is_lower c \<or> is_upper c \<or> is_digit c) \<and> list_all entry_char cs)"

definition validProfile :: "string \<Rightarrow> bool" where
  "validProfile profile \<longleftrightarrow> entryPattern profile \<and> profile \<noteq> ''.'' \<and> profile \<noteq> ''..''"

text \<open>\<open>filepath.IsAbs\<close> on Unix: the name starts with a slash.\<close>

definition validateEntryName :: "string \<Rightarrow> store_error option" where
  "validateEntryName name =
     (if has_prefix name ''/'' \<or> contains_any name [CHR 0x5C] then Some ErrInvalidPath
      else if list_all (\<lambda>part. entryPattern part \<and> part \<noteq> ''.'' \<and> part \<noteq> ''..'') (split (CHR ''/'') name)
      then None else Some ErrInvalidPath)"


section \<open>Reading and writing the document\<close>

definition readLocked :: "bool \<Rightarrow> document io" where
  "readLocked pinned =
     (if \<not> pinned then io_return emptyDocument
      else io_bind (os_call ''read state'') (\<lambda>_ d'.
        (case state_file d' of
            None \<Rightarrow> (Inr emptyDocument, d')
          | Some (Raw v) \<Rightarrow>
              (case decode_document v of
                 Inl e \<Rightarrow> (Inl (ErrDecode e), d')
               | Inr doc \<Rightarrow>
                   if doc_format doc \<noteq> storeFormat then (Inl (ErrFormat (doc_format doc)), d')
                   else if doc_version doc \<noteq> Version then (Inl (ErrUnsupportedVersion (doc_version doc)), d')
                   else (Inr doc, d'))
          | Some _ \<Rightarrow> (Inl (ErrDecode MalformedJSON), d'))))"

text \<open>
  Write to a temporary file, sync, rename over the state file, check identity, close, sync the
  directory.  Only the rename changes \<open>state.json\<close>; the deferred close and remove drop their errors.
\<close>

definition replace_state :: "json \<Rightarrow> unit io" where
  "replace_state v d = (Inr (), d\<lparr>tree := Profile (Some (Raw v))\<rparr>)"

definition writeLocked :: "bool \<Rightarrow> document \<Rightarrow> unit io" where
  "writeLocked pinned doc =
     (if \<not> pinned then io_fail ErrNotPinned
      else io_bind (os_call ''create temporary state'') (\<lambda>_.
           io_bind (os_call ''secure temporary state'') (\<lambda>_.
           io_bind (os_call ''write temporary state'') (\<lambda>_.
           io_bind (os_call ''sync temporary state'') (\<lambda>_.
           io_bind (os_call ''replace state'') (\<lambda>_.
           io_bind (replace_state (encode_document doc)) (\<lambda>_.
           io_bind (os_call ''verify replaced state identity'') (\<lambda>_.
           io_bind (os_call ''close replaced state'') (\<lambda>_.
           os_call ''sync profile directory'')))))))))"

section \<open>The locking envelope\<close>

text \<open>
  What a handle pins beside the root and the lock directory: the \<open>profiles\<close> directory and the
  profile's own directory, both optional for readers.
\<close>

record pins =
  pin_profiles :: bool
  pin_profile :: bool

definition when_io :: "bool \<Rightarrow> unit io \<Rightarrow> unit io" where
  "when_io b m = (if b then m else io_return ())"

text \<open>
  \<open>verifyPinnedResources\<close>: every pinned directory still sits at its path.  On Unix both lock anchors
  are always open.
\<close>

definition verifyPinnedResources :: "pins \<Rightarrow> unit io" where
  "verifyPinnedResources p =
     io_bind (os_as ErrStateRootReplaced) (\<lambda>_.
     io_bind (os_as ErrLockNamespaceReplaced) (\<lambda>_.
     io_bind (when_io (pin_profiles p) (os_as ErrProfileReplaced)) (\<lambda>_.
     io_bind (os_as ErrLockNamespaceReplaced) (\<lambda>_.
     io_bind (os_as ErrLockNamespaceReplaced) (\<lambda>_.
     when_io (pin_profile p) (os_as ErrProfileReplaced))))))"

definition refreshOptionalProfile :: "pins \<Rightarrow> pins io" where
  "refreshOptionalProfile p =
     (\<lambda>d. if \<not> pin_profiles p \<and> \<not> profiles_dir d then (Inr p, d)
       else io_bind (when_io (\<not> pin_profiles p) (os_call ''pin optional profiles directory'')) (\<lambda>_ d.
         if \<not> pin_profile p \<and> \<not> profile_dir d then (Inr (p\<lparr>pin_profiles := True\<rparr>), d)
         else io_bind (when_io (\<not> pin_profile p) (os_call ''pin optional state profile directory''))
                (\<lambda>_. io_return \<lparr>pin_profiles = True, pin_profile = True\<rparr>) d) d)"

definition err_of :: "(store_error + 'a) \<Rightarrow> store_error option" where
  "err_of r = (case r of Inl e \<Rightarrow> Some e | Inr _ \<Rightarrow> None)"

text \<open>
  Run the action between the two identity checks and join its error with theirs and with the unlock
  error: the action's result survives only when nothing failed.
\<close>

definition run_checked :: "unit io \<Rightarrow> 'a io \<Rightarrow> (disk \<Rightarrow> store_error option \<times> disk) \<Rightarrow> 'a io" where
  "run_checked verify action unlock d =
     (case verify d of (identity, d1) \<Rightarrow>
      case (case identity of
              Inl e \<Rightarrow> (None, d1)
            | Inr _ \<Rightarrow> (case action d1 of (r, d2) \<Rightarrow> (Some r, d2))) of (act, d2) \<Rightarrow>
      case verify d2 of (post, d3) \<Rightarrow>
      case unlock d3 of (closeErr, d4) \<Rightarrow>
      case join_errors [err_of identity, (case act of None \<Rightarrow> None | Some r \<Rightarrow> err_of r), err_of post, closeErr] of
        Some e \<Rightarrow> (Inl e, d4)
      | None \<Rightarrow> (case act of Some r \<Rightarrow> (r, d4) | None \<Rightarrow> (Inl ErrNotPinned, d4)))"

definition unlock_profile :: "bool \<Rightarrow> disk \<Rightarrow> store_error option \<times> disk" where
  "unlock_profile profile d =
     (case os_call ''unlock state profile'' d of (r1, d1) \<Rightarrow>
      if profile then (case os_call ''unlock state profile'' d1 of (r2, d2) \<Rightarrow> (join_errors [err_of r1, err_of r2], d2))
      else (err_of r1, d1))"

definition withPinnedStateLock :: "pins \<Rightarrow> bool \<Rightarrow> (bool \<Rightarrow> 'a io) \<Rightarrow> 'a io" where
  "withPinnedStateLock pinned exclusive action d =
     (if exclusive \<and> \<not> pinned_support d then (Inl ErrSafeOwnershipUnsupported, d)
      else io_bind (os_call ''lock state profile'') (\<lambda>_.
           io_bind (refreshOptionalProfile pinned) (\<lambda>p.
           io_bind (when_io (pin_profile p) (os_call ''lock state profile directory'')) (\<lambda>_.
           run_checked (verifyPinnedResources p) (action (pin_profile p)) (unlock_profile (pin_profile p))))) d)"

definition prepareProfileDirectory :: "unit io" where
  "prepareProfileDirectory =
     io_bind (os_call ''pin state root for profile'') (\<lambda>_.
     io_bind (os_call ''lock state root for profile creation'') (\<lambda>_.
     io_bind (os_call ''create profiles directory'') (\<lambda>_.
     io_bind (\<lambda>d. (Inr (), if profiles_dir d then d else d\<lparr>tree := NoProfile\<rparr>)) (\<lambda>_.
     io_bind (os_call ''create profile directory'') (\<lambda>_.
     io_bind (\<lambda>d. (Inr (), if profile_dir d then d else d\<lparr>tree := Profile None\<rparr>)) (\<lambda>_.
     os_call ''close profile directory''))))))"

definition prepareLockDirectory :: "unit io" where
  "prepareLockDirectory =
     io_bind (os_call ''prepare lock directory'') (\<lambda>_. os_call ''prepare lock anchors'')"

definition openPinnedResources :: "bool \<Rightarrow> pins io" where
  "openPinnedResources profileOptional =
     io_bind (os_call ''pin state root'') (\<lambda>_.
     io_bind (os_call ''pin state lock directory'') (\<lambda>_.
     \<lambda>d. if \<not> profiles_dir d then
            (if profileOptional
             then io_bind (os_call ''open lock anchors'')
                    (\<lambda>_. io_return \<lparr>pin_profiles = False, pin_profile = False\<rparr>) d
             else (Inl (ErrOS ''pin profiles directory''), d))
          else io_bind (os_call ''pin profiles directory'') (\<lambda>_ d.
            if \<not> profile_dir d \<and> \<not> profileOptional then (Inl (ErrOS ''pin state profile directory''), d)
            else io_bind (when_io (profile_dir d) (os_call ''pin state profile directory'')) (\<lambda>_.
                 io_bind (os_call ''open lock anchors'') (\<lambda>_ d'.
                   (Inr \<lparr>pin_profiles = True, pin_profile = profile_dir d'\<rparr>, d'))) d) d))"

text \<open>
  The fallback for a confirmed read-only profile: shared locks only, the access is confirmed again
  under the lock, and the action runs between identity checks.
\<close>

definition withReadOnlyStateLock :: "store_error \<Rightarrow> (bool \<Rightarrow> 'a io) \<Rightarrow> 'a io" where
  "withReadOnlyStateLock cause action =
     io_bind (os_call ''pin read-only state root'') (\<lambda>_ d.
       if \<not> profiles_dir d then
         io_bind (os_call ''lock read-only state root'') (\<lambda>_ d.
           if \<not> read_only_access d then (Inl ErrPermissionsChanged, d)
           else run_checked (os_as ErrStateRootReplaced) (action False) (\<lambda>d. (None, d)) d) d
       else io_bind (os_call ''pin read-only profiles directory'') (\<lambda>_ d.
         if \<not> profile_dir d then
           (if read_only_fs d then action False d else (Inl (ErrOS ''pin read-only profile directory''), d))
         else io_bind (os_call ''open read-only profile directory'') (\<lambda>_.
           io_bind (os_call ''lock read-only profile directory'') (\<lambda>_ d.
             if \<not> read_only_access d then (Inl ErrPermissionsChanged, d)
             else if state_file d = None then action True d
             else io_bind (os_call ''lock read-only state profile'') (\<lambda>_.
               io_bind (os_call ''lock read-only state profile'') (\<lambda>_.
                 run_checked (os_as ErrProfileReplaced) (action True)
                   (\<lambda>d. case os_call ''unlock read-only state profile'' d of (r, d') \<Rightarrow> (err_of r, d')))) d)) d) d)"


section \<open>The store\<close>

text \<open>
  One process's handle: the disk, whether this process holds the profile's ownership lease, and the
  first load or save failure.  \<open>OsBusy\<close> on the ownership lock is another process holding it.
\<close>

record store =
  st_disk :: disk
  st_owned :: bool
  st_degraded :: "store_error option"

definition both_pins :: pins where
  "both_pins = \<lparr>pin_profiles = True, pin_profile = True\<rparr>"

definition acquireOwnershipLock :: "string \<Rightarrow> unit io" where
  "acquireOwnershipLock what d =
     (case os_next d of
        (OsOk, d') \<Rightarrow> (Inr (), d')
      | (OsBusy, d') \<Rightarrow> (Inl ErrProfileInUse, d')
      | (OsFail, d') \<Rightarrow> (Inl (ErrOS what), d'))"

definition withStateLock :: "bool \<Rightarrow> bool \<Rightarrow> (bool \<Rightarrow> 'a io) \<Rightarrow> 'a io" where
  "withStateLock owned exclusive action d =
     (if owned then withPinnedStateLock both_pins exclusive action d
      else (case prepareLockDirectory d of
        (Inl e, d1) \<Rightarrow>
          if \<not> exclusive \<and> read_only_access d1 then withReadOnlyStateLock e action d1 else (Inl e, d1)
      | (Inr _, d1) \<Rightarrow>
        (case openPinnedResources (\<not> exclusive) d1 of
          (Inl e, d2) \<Rightarrow>
            if \<not> exclusive \<and> read_only_access d2 then withReadOnlyStateLock e action d2 else (Inl e, d2)
        | (Inr p, d2) \<Rightarrow> withPinnedStateLock p exclusive action d2)))"

definition withMutationLock :: "bool \<Rightarrow> (bool \<Rightarrow> 'a io) \<Rightarrow> 'a io" where
  "withMutationLock owned action d =
     (if owned then withPinnedStateLock both_pins True action d
      else io_bind prepareProfileDirectory (\<lambda>_.
           io_bind prepareLockDirectory (\<lambda>_.
           io_bind (openPinnedResources False) (\<lambda>p.
           io_bind (acquireOwnershipLock ''lock state profile for mutation'') (\<lambda>_ d1.
             case withPinnedStateLock p True action d1 of (r, d2) \<Rightarrow>
             case os_call ''unlock state profile mutation'' d2 of (c, d3) \<Rightarrow>
             (case join_errors [err_of r, err_of c] of Some e \<Rightarrow> (Inl e, d3) | None \<Rightarrow> (r, d3)))))) d)"

definition markPersistenceDegraded :: "store_error option \<Rightarrow> store \<Rightarrow> store" where
  "markPersistenceDegraded err s =
     (case err of None \<Rightarrow> s
      | Some e \<Rightarrow> (if st_degraded s = None then s\<lparr>st_degraded := Some e\<rparr> else s))"

text \<open>\<open>value\<close> is the value \<open>json.Marshal\<close> makes of the argument, \<open>None\<close> when it fails.\<close>

definition Save :: "string \<Rightarrow> json option \<Rightarrow> store \<Rightarrow> store_error option \<times> store" where
  "Save name value s =
     (case validateEntryName name of Some e \<Rightarrow> (Some e, s) | None \<Rightarrow>
      case st_degraded s of Some e \<Rightarrow> (Some e, s) | None \<Rightarrow>
      case value of None \<Rightarrow> (Some ErrMarshal, s) | Some payload \<Rightarrow>
      case withMutationLock (st_owned s)
             (\<lambda>pinned. io_bind (readLocked pinned) (\<lambda>doc.
                writeLocked pinned (doc\<lparr>doc_entries := gm_set name payload (doc_entries doc)\<rparr>)))
             (st_disk s) of (r, d) \<Rightarrow>
      (err_of r, markPersistenceDegraded (err_of r) (s\<lparr>st_disk := d\<rparr>)))"

text \<open>
  \<open>Load\<close> into a target that takes the raw entry (\<open>json.RawMessage\<close>), as the operation manager and the
  shims' guarded stores load.
\<close>

definition Load :: "string \<Rightarrow> store \<Rightarrow> (store_error + json) \<times> store" where
  "Load name s =
     (case validateEntryName name of Some e \<Rightarrow> (Inl e, s) | None \<Rightarrow>
      case withStateLock (st_owned s) False
             (\<lambda>pinned. io_bind (readLocked pinned) (\<lambda>doc.
                case gm_get (doc_entries doc) name of
                  None \<Rightarrow> io_fail ErrNotFound
                | Some payload \<Rightarrow> io_return payload))
             (st_disk s) of (r, d) \<Rightarrow>
      (r, (case r of
             Inl e \<Rightarrow> if is_err ErrNotFound e then s\<lparr>st_disk := d\<rparr>
                       else markPersistenceDegraded (Some e) (s\<lparr>st_disk := d\<rparr>)
           | Inr _ \<Rightarrow> s\<lparr>st_disk := d\<rparr>)))"

definition Delete :: "string \<Rightarrow> store \<Rightarrow> store_error option \<times> store" where
  "Delete name s =
     (case validateEntryName name of Some e \<Rightarrow> (Some e, s) | None \<Rightarrow>
      case st_degraded s of Some e \<Rightarrow> (Some e, s) | None \<Rightarrow>
      case withMutationLock (st_owned s)
             (\<lambda>pinned. io_bind (readLocked pinned) (\<lambda>doc.
                if gm_get (doc_entries doc) name = None then io_return ()
                else writeLocked pinned (doc\<lparr>doc_entries := gm_del name (doc_entries doc)\<rparr>)))
             (st_disk s) of (r, d) \<Rightarrow>
      (err_of r, markPersistenceDegraded (err_of r) (s\<lparr>st_disk := d\<rparr>)))"


section \<open>Ownership, export and import\<close>

definition prepareStateRoot :: "unit io" where
  "prepareStateRoot =
     io_bind (os_call ''create state root'') (\<lambda>_.
     io_bind (os_call ''pin state root after creation'') (\<lambda>_.
     io_bind (os_call ''inspect state root'') (\<lambda>_.
     io_bind (os_call ''state root permissions'') (\<lambda>_. os_as ErrStateRootReplaced))))"

definition acquireOwnership :: "bool \<Rightarrow> store \<Rightarrow> (store_error + unit) \<times> store" where
  "acquireOwnership registerLocal s =
     (case io_bind prepareStateRoot (\<lambda>_.
           io_bind prepareProfileDirectory (\<lambda>_.
           io_bind prepareLockDirectory (\<lambda>_.
           io_bind (openPinnedResources False) (\<lambda>p d.
             if \<not> pinned_support d then (Inl ErrSafeOwnershipUnsupported, d)
             else if st_owned s then (Inl ErrProfileInUse, d)
             else io_bind (acquireOwnershipLock ''lock state profile ownership'')
                    (\<lambda>_. verifyPinnedResources p) d)))) (st_disk s) of
        (Inl e, d) \<Rightarrow> (Inl e, s\<lparr>st_disk := d\<rparr>)
      | (Inr _, d) \<Rightarrow> (Inr (), s\<lparr>st_disk := d, st_owned := registerLocal \<or> st_owned s\<rparr>))"

text \<open>The snapshot is the document under the portable format name.\<close>

definition Export :: "store \<Rightarrow> (store_error + json) \<times> store" where
  "Export s =
     (case withStateLock (st_owned s) False (\<lambda>pinned. readLocked pinned) (st_disk s) of
        (Inl e, d) \<Rightarrow> (Inl e, s\<lparr>st_disk := d\<rparr>)
      | (Inr doc, d) \<Rightarrow>
          (case os_call ''encode state snapshot'' d of
             (Inl e, d') \<Rightarrow> (Inl e, s\<lparr>st_disk := d'\<rparr>)
           | (Inr _, d') \<Rightarrow>
               (Inr (encode_document (doc\<lparr>doc_format := SnapshotFormat, doc_version := Version\<rparr>)),
                s\<lparr>st_disk := d'\<rparr>)))"

text \<open>
  A registered entry validator decides one payload.  The entries of the snapshot are checked one after
  another; an entry is one JSON value because the snapshot decoded.
\<close>

type_synonym entry_validators = "(json \<Rightarrow> bool) gomap"

fun validate_entries :: "entry_validators \<Rightarrow> json gomap \<Rightarrow> store_error option" where
  "validate_entries vs [] = None"
| "validate_entries vs ((name, payload) # rest) =
     (case validateEntryName name of Some e \<Rightarrow> Some e | None \<Rightarrow>
      case gm_get vs name of
        Some ok \<Rightarrow> (if ok payload then validate_entries vs rest else Some (ErrSchema name))
      | None \<Rightarrow> validate_entries vs rest)"

definition check_snapshot :: "entry_validators \<Rightarrow> raw_message \<Rightarrow> store_error + json gomap" where
  "check_snapshot vs input =
     (case input of
        Raw v \<Rightarrow>
          (case decode_document v of
             Inl e \<Rightarrow> Inl (ErrDecode e)
           | Inr snapshot \<Rightarrow>
               if doc_format snapshot \<noteq> SnapshotFormat then Inl (ErrFormat (doc_format snapshot))
               else if doc_version snapshot \<noteq> Version then Inl (ErrUnsupportedVersion (doc_version snapshot))
               else (case validate_entries vs (doc_entries snapshot) of
                       Some e \<Rightarrow> Inl e | None \<Rightarrow> Inr (doc_entries snapshot)))
      | _ \<Rightarrow> Inl (ErrDecode MalformedJSON))"

definition Import :: "entry_validators \<Rightarrow> raw_message \<Rightarrow> store \<Rightarrow> store_error option \<times> store" where
  "Import vs input s =
     (case check_snapshot vs input of Inl e \<Rightarrow> (Some e, s) | Inr entries \<Rightarrow>
      case acquireOwnership False s of (Inl e, s1) \<Rightarrow> (Some e, s1) | (Inr _, s1) \<Rightarrow>
      case withPinnedStateLock both_pins True
             (\<lambda>pinned. writeLocked pinned
                \<lparr>doc_format = storeFormat, doc_version = Version, doc_entries = entries\<rparr>) (st_disk s1) of (w, d1) \<Rightarrow>
      case os_call ''unlock state profile ownership'' d1 of (c, d2) \<Rightarrow>
      (join_errors [err_of w, err_of c], s1\<lparr>st_disk := d2\<rparr>))"

section \<open>What an operation does to the state file\<close>

text \<open>
  The document the disk holds, with no operating-system call: what every reader must agree with.
\<close>

definition file_doc :: "raw_message option \<Rightarrow> store_error + document" where
  "file_doc f =
     (case f of None \<Rightarrow> Inr emptyDocument
      | Some (Raw v) \<Rightarrow>
          (case decode_document v of
             Inl e \<Rightarrow> Inl (ErrDecode e)
           | Inr doc \<Rightarrow> if doc_format doc \<noteq> storeFormat then Inl (ErrFormat (doc_format doc))
                        else if doc_version doc \<noteq> Version then Inl (ErrUnsupportedVersion (doc_version doc))
                        else Inr doc)
      | Some _ \<Rightarrow> Inl (ErrDecode MalformedJSON))"

definition doc_on_disk :: "disk \<Rightarrow> store_error + document" where
  "doc_on_disk d = file_doc (state_file d)"

text \<open>
  \<open>io_sat P m A\<close>: started with a state file in \<open>P\<close>, \<open>m\<close> relates the file before, its result and the
  file after by \<open>A\<close>, for every script.
\<close>

type_synonym 'a file_rel = "raw_message option \<Rightarrow> (store_error + 'a) \<Rightarrow> raw_message option \<Rightarrow> bool"

definition io_sat :: "(raw_message option \<Rightarrow> bool) \<Rightarrow> 'a io \<Rightarrow> 'a file_rel \<Rightarrow> bool" where
  "io_sat P m A \<longleftrightarrow> (\<forall>d r d'. P (state_file d) \<longrightarrow> m d = (r, d') \<longrightarrow> A (state_file d) r (state_file d'))"

text \<open>A quiet step leaves the file and never fails with \<open>ErrNotFound\<close>.\<close>

definition quiet :: "'a file_rel" where
  "quiet f r f' \<longleftrightarrow> f' = f \<and> (\<forall>e. r = Inl e \<longrightarrow> \<not> is_err ErrNotFound e)"

text \<open>
  \<open>widened A\<close>: what a relation becomes inside the locking envelope, which may fail before the action
  runs, or turn its result into an error afterwards.
\<close>

definition widened :: "'a file_rel \<Rightarrow> 'a file_rel" where
  "widened A f r f' \<longleftrightarrow>
     ((\<exists>e. r = Inl e \<and> \<not> is_err ErrNotFound e) \<and> f' = f) \<or>
     (\<exists>r0. A f r0 f' \<and>
        (r = r0 \<or> (\<exists>e. r = Inl e \<and> (is_err ErrNotFound e \<longrightarrow> (\<exists>e0. r0 = Inl e0 \<and> is_err ErrNotFound e0)))))"

end
