(* ===== verification/State_Store_Envelope.thy ===== *)
theory State_Store_Envelope
  imports State_Store
begin

text \<open>
  What the locking envelope of the document store can do to the action it runs, for every script of
  operating-system outcomes: the relation of the action holds of the whole call, \<open>widened\<close> by failures
  before the action and by errors joined to its result afterwards.
\<close>

named_theorems quiet_intros \<open>steps that leave the state file alone\<close>

section \<open>Relations through the monad\<close>

lemma io_satI: "(\<And>d r d'. P (state_file d) \<Longrightarrow> m d = (r, d') \<Longrightarrow> A (state_file d) r (state_file d')) \<Longrightarrow> io_sat P m A"
  by (auto simp: io_sat_def)

lemma io_satD: "io_sat P m A \<Longrightarrow> P (state_file d) \<Longrightarrow> m d = (r, d') \<Longrightarrow> A (state_file d) r (state_file d')"
  by (auto simp: io_sat_def)

lemma io_sat_mono: "io_sat P m A \<Longrightarrow> (\<And>f. Q f \<Longrightarrow> P f) \<Longrightarrow> (\<And>f r f'. A f r f' \<Longrightarrow> B f r f') \<Longrightarrow> io_sat Q m B"
  by (auto simp: io_sat_def)

lemma widened_refl: "A f r f' \<Longrightarrow> widened A f r f'"
  by (auto simp: widened_def)

lemma quiet_widened: "quiet f (Inl e) f' \<Longrightarrow> widened A f (Inl e) f'"
  by (auto simp: quiet_def widened_def)

lemma bind_quiet_gen:
  assumes m: "io_sat P m quiet"
    and k: "\<And>a d d'. P (state_file d) \<Longrightarrow> m d = (Inr a, d') \<Longrightarrow> state_file d' = state_file d \<Longrightarrow>
              widened A (state_file d') (fst (f a d')) (state_file (snd (f a d')))"
  shows "io_sat P (io_bind m f) (widened A)"
proof (rule io_satI)
  fix d r d'
  assume P: "P (state_file d)" and run: "io_bind m f d = (r, d')"
  obtain x d1 where x: "m d = (x, d1)" by (cases "m d")
  have q: "quiet (state_file d) x (state_file d1)" by (rule io_satD [OF m P x])
  show "widened A (state_file d) r (state_file d')"
  proof (cases x)
    case (Inl e)
    with run x have "r = Inl e" "d' = d1" by (auto simp: io_bind_def)
    with q Inl show ?thesis by (auto intro: quiet_widened)
  next
    case (Inr a)
    from q have same: "state_file d1 = state_file d" by (simp add: quiet_def)
    from run x Inr have "f a d1 = (r, d')" by (simp add: io_bind_def)
    with k [OF P] x Inr same show ?thesis by fastforce
  qed
qed

lemma bind_quiet:
  assumes "io_sat P m quiet" and "\<And>a. io_sat P (f a) (widened A)"
  shows "io_sat P (io_bind m f) (widened A)"
  by (rule bind_quiet_gen [OF assms(1)]) (metis assms(2) io_satD prod.collapse)

lemma bind_quiet_quiet [quiet_intros]:
  assumes "io_sat P m quiet" and "\<And>a. io_sat P (f a) quiet"
  shows "io_sat P (io_bind m f) quiet"
proof (rule io_satI)
  fix d r d'
  assume P: "P (state_file d)" and run: "io_bind m f d = (r, d')"
  obtain x d1 where x: "m d = (x, d1)" by (cases "m d")
  have q: "quiet (state_file d) x (state_file d1)" by (rule io_satD [OF assms(1) P x])
  show "quiet (state_file d) r (state_file d')"
  proof (cases x)
    case (Inl e)
    with run x q show ?thesis by (auto simp: io_bind_def quiet_def)
  next
    case (Inr a)
    with q have same: "state_file d1 = state_file d" by (simp add: quiet_def)
    from run x Inr have "f a d1 = (r, d')" by (simp add: io_bind_def)
    then show ?thesis using io_satD [OF assms(2), of d1 a] P same by (metis quiet_def)
  qed
qed

section \<open>Quiet steps\<close>

lemma state_file_script [simp]: "state_file (d\<lparr>os_script := rs\<rparr>) = state_file d"
  by (simp add: state_file_def)

lemma os_next_file [simp]: "state_file (snd (os_next d)) = state_file d"
  by (simp add: os_next_def split: list.splits)

lemma os_as_quiet [quiet_intros]: "\<not> is_err ErrNotFound e \<Longrightarrow> io_sat P (os_as e) quiet"
  by (rule io_satI) (auto simp: os_as_def quiet_def os_next_def split: prod.splits os_result.splits list.splits)

lemma os_call_quiet [quiet_intros]: "io_sat P (os_call what) quiet"
  unfolding os_call_def by (rule os_as_quiet) simp

lemma io_return_quiet [quiet_intros]: "io_sat P (io_return a) quiet"
  by (rule io_satI) (auto simp: io_return_def quiet_def)

lemma when_io_quiet [quiet_intros]: "io_sat P m quiet \<Longrightarrow> io_sat P (when_io b m) quiet"
  by (simp add: when_io_def io_return_quiet)

lemma verifyPinnedResources_quiet [quiet_intros]: "io_sat P (verifyPinnedResources p) quiet"
  unfolding verifyPinnedResources_def by (intro quiet_intros) simp_all

lemma state_file_tree:
  "\<not> profiles_dir d \<Longrightarrow> state_file d = None" "\<not> profile_dir d \<Longrightarrow> state_file d = None"
  by (auto simp: profiles_dir_def profile_dir_def state_file_def split: tree.splits)

lemma prepareProfileDirectory_quiet [quiet_intros]: "io_sat P prepareProfileDirectory quiet"
proof -
  have 1: "io_sat P (\<lambda>d. (Inr (), if profiles_dir d then d else d\<lparr>tree := NoProfile\<rparr>)) quiet" for P
    by (rule io_satI) (auto simp: quiet_def state_file_def profiles_dir_def split: tree.splits if_splits)
  have 2: "io_sat P (\<lambda>d. (Inr (), if profile_dir d then d else d\<lparr>tree := Profile None\<rparr>)) quiet" for P
    by (rule io_satI) (auto simp: quiet_def state_file_def profile_dir_def split: tree.splits if_splits)
  show ?thesis
    unfolding prepareProfileDirectory_def by (intro quiet_intros 1 2)
qed

lemma prepareLockDirectory_quiet [quiet_intros]: "io_sat P prepareLockDirectory quiet"
  unfolding prepareLockDirectory_def by (intro quiet_intros)

lemma prepareStateRoot_quiet [quiet_intros]: "io_sat P prepareStateRoot quiet"
  unfolding prepareStateRoot_def by (intro quiet_intros) simp

lemma acquireOwnershipLock_quiet [quiet_intros]: "io_sat P (acquireOwnershipLock w) quiet"
  by (rule io_satI)
    (auto simp: acquireOwnershipLock_def quiet_def os_next_def split: prod.splits os_result.splits list.splits)

lemma os_call_tree: "os_call w d = (r, d') \<Longrightarrow> tree d' = tree d"
  by (auto simp: os_call_def os_as_def os_next_def split: prod.splits os_result.splits list.splits)

lemma same_tree: "tree d' = tree d \<Longrightarrow> state_file d' = state_file d \<and> profile_dir d' = profile_dir d \<and> profiles_dir d' = profiles_dir d"
  by (simp add: state_file_def profile_dir_def profiles_dir_def)

text \<open>
  Opening and refreshing the pinned directories leave the file, and a profile that is not pinned has no
  state file.
\<close>

definition pins_rel :: "pins file_rel" where
  "pins_rel f r f' \<longleftrightarrow> quiet f r f' \<and> (\<forall>p. r = Inr p \<longrightarrow> \<not> pin_profile p \<longrightarrow> f = None)"

lemma io_bind_cases:
  assumes "io_bind m f d = (r, d')"
  obtains (fail) e where "m d = (Inl e, d')" "r = Inl e"
    | (ok) a d1 where "m d = (Inr a, d1)" "f a d1 = (r, d')"
  using assms by (auto simp: io_bind_def split: prod.splits sum.splits)

lemma os_call_res:
  assumes "os_call w d = (r, d')"
  shows "(\<forall>e. r = Inl e \<longrightarrow> e = ErrOS w) \<and> state_file d' = state_file d \<and>
    profile_dir d' = profile_dir d \<and> profiles_dir d' = profiles_dir d"
  using assms same_tree [OF os_call_tree [OF assms]]
  by (auto simp: os_call_def os_as_def split: prod.splits os_result.splits)

lemma when_os_call_res:
  assumes "when_io b (os_call w) d = (r, d')"
  shows "(\<forall>e. r = Inl e \<longrightarrow> e = ErrOS w) \<and> state_file d' = state_file d \<and>
    profile_dir d' = profile_dir d \<and> profiles_dir d' = profiles_dir d"
  using assms by (auto simp: when_io_def io_return_def dest: os_call_res split: if_splits)

definition os_step :: "disk \<Rightarrow> disk" where
  "os_step d = snd (os_next d)"

lemma os_step_same [simp]:
  "state_file (os_step d) = state_file d" "profile_dir (os_step d) = profile_dir d"
  "profiles_dir (os_step d) = profiles_dir d"
  by (auto simp: os_step_def os_next_def state_file_def profile_dir_def profiles_dir_def split: list.splits)

lemma os_call_eq:
  "os_call w d = (if fst (os_next d) = OsOk then Inr () else Inl (ErrOS w), os_step d)"
  by (auto simp: os_call_def os_as_def os_step_def split: prod.splits os_result.splits)

lemmas pin_steps = io_bind_def when_io_def io_return_def os_call_eq pins_rel_def quiet_def

lemma openPinnedResources_rel: "io_sat P (openPinnedResources opt) pins_rel"
  by (rule io_satI)
    (auto simp: openPinnedResources_def pin_steps state_file_tree split: if_splits)

lemma refreshOptionalProfile_rel: "io_sat P (refreshOptionalProfile p) pins_rel"
  by (rule io_satI)
    (auto simp: refreshOptionalProfile_def pin_steps state_file_tree split: if_splits)


section \<open>The envelope\<close>

lemma set_map_filter_id: "x \<in> set (List.map_filter id es) \<longleftrightarrow> Some x \<in> set es"
  by (induction es) (auto simp: map_filter_simps split: option.splits)

lemma join_errors_Some:
  assumes "join_errors es = Some e" and "is_err ErrNotFound e"
  shows "\<exists>x. Some x \<in> set es \<and> is_err ErrNotFound x"
proof -
  from assms(1) have "e = ErrJoined (List.map_filter id es)"
    by (auto simp: join_errors_def split: list.splits)
  with assms(2) show ?thesis by (auto simp: set_map_filter_id)
qed

lemma run_checked_widened:
  assumes v: "\<And>P. io_sat P verify quiet"
    and a: "io_sat P action A"
    and u: "\<And>d c d'. unlock d = (c, d') \<Longrightarrow> state_file d' = state_file d \<and> (\<forall>e. c = Some e \<longrightarrow> \<not> is_err ErrNotFound e)"
  shows "io_sat P (run_checked verify action unlock) (widened A)"
proof (rule io_satI)
  fix d r d'
  assume P: "P (state_file d)" and run: "run_checked verify action unlock d = (r, d')"
  obtain i d1 where i: "verify d = (i, d1)" by (cases "verify d")
  have qi: "quiet (state_file d) i (state_file d1)" by (rule io_satD [OF v [of P] P i])
  show "widened A (state_file d) r (state_file d')"
  proof (cases i)
    case (Inl e)
    obtain q d2 where q: "verify d1 = (q, d2)" by (cases "verify d1")
    have qq: "quiet (state_file d1) q (state_file d2)" by (rule io_satD [OF v [of "\<lambda>_. True"] TrueI q])
    obtain c d3 where c: "unlock d2 = (c, d3)" by (cases "unlock d2")
    note uc = u [OF c]
    from run i Inl q c have "d' = d3" and
      "\<exists>e'. r = Inl e' \<and> join_errors [Some e, None, err_of q, c] = Some e'"
      by (auto simp: run_checked_def err_of_def split: option.splits)
    with qi qq uc Inl show ?thesis
      by (auto simp: widened_def quiet_def err_of_def split: sum.splits dest!: join_errors_Some)
  next
    case (Inr _)
    obtain x d2 where x: "action d1 = (x, d2)" by (cases "action d1")
    from qi Inr have same: "state_file d1 = state_file d" by (simp add: quiet_def)
    have Ax: "A (state_file d) x (state_file d2)" using io_satD [OF a _ x] P same by simp
    obtain q d3 where q: "verify d2 = (q, d3)" by (cases "verify d2")
    have qq: "quiet (state_file d2) q (state_file d3)" by (rule io_satD [OF v [of "\<lambda>_. True"] TrueI q])
    obtain c d4 where c: "unlock d3 = (c, d4)" by (cases "unlock d3")
    note uc = u [OF c]
    from qq uc have sf: "state_file d4 = state_file d2" by (simp add: quiet_def)
    from run i Inr x q c have "d' = d4" and
      "r = x \<or> (\<exists>e'. r = Inl e' \<and> join_errors [None, err_of x, err_of q, c] = Some e')"
      by (auto simp: run_checked_def err_of_def split: option.splits)
    with Ax sf qq uc show ?thesis
      unfolding widened_def quiet_def
      by (auto simp: err_of_def split: sum.splits dest!: join_errors_Some intro!: exI [of _ x])
  qed
qed

lemma os_unlock_quiet:
  "(case os_call w d of (r, d') \<Rightarrow> (err_of r, d')) = (c, d') \<Longrightarrow>
     state_file d' = state_file d \<and> (\<forall>e. c = Some e \<longrightarrow> \<not> is_err ErrNotFound e)"
  by (auto simp: err_of_def split: prod.splits sum.splits dest!: os_call_res)

lemma unlock_profile_quiet:
  "unlock_profile p d = (c, d') \<Longrightarrow>
     state_file d' = state_file d \<and> (\<forall>e. c = Some e \<longrightarrow> \<not> is_err ErrNotFound e)"
proof -
  assume u: "unlock_profile p d = (c, d')"
  obtain r1 d1 where r1: "os_call ''unlock state profile'' d = (r1, d1)" by (cases "os_call ''unlock state profile'' d")
  obtain r2 d2 where r2: "os_call ''unlock state profile'' d1 = (r2, d2)" by (cases "os_call ''unlock state profile'' d1")
  have q1: "state_file d1 = state_file d \<and> (\<forall>e. err_of r1 = Some e \<longrightarrow> \<not> is_err ErrNotFound e)"
    by (rule os_unlock_quiet [of "''unlock state profile''"]) (simp add: r1)
  have q2: "state_file d2 = state_file d1 \<and> (\<forall>e. err_of r2 = Some e \<longrightarrow> \<not> is_err ErrNotFound e)"
    by (rule os_unlock_quiet [of "''unlock state profile''"]) (simp add: r2)
  show ?thesis
  proof (cases p)
    case True
    with u r1 r2 have c: "c = join_errors [err_of r1, err_of r2]" "d' = d2" by (simp_all add: unlock_profile_def)
    with q1 q2 show ?thesis by (auto dest!: join_errors_Some)
  next
    case False
    with u r1 q1 show ?thesis by (simp add: unlock_profile_def)
  qed
qed

lemma pins_rel_quiet: "io_sat P m pins_rel \<Longrightarrow> io_sat P m quiet"
  by (auto simp: io_sat_def pins_rel_def)

text \<open>
  Whatever the action is related by on the pinned profile, and on the missing profile when there is no
  state file, it is related by inside the envelope, widened.
\<close>

definition action_sat :: "(bool \<Rightarrow> 'a io) \<Rightarrow> 'a file_rel \<Rightarrow> bool" where
  "action_sat action A \<longleftrightarrow> io_sat (\<lambda>_. True) (action True) A \<and> io_sat (\<lambda>f. f = None) (action False) A"

lemma action_satD:
  "action_sat action A \<Longrightarrow> p \<or> state_file d = None \<Longrightarrow> action p d = (r, d') \<Longrightarrow> A (state_file d) r (state_file d')"
  by (cases p) (auto simp: action_sat_def io_sat_def)

lemma checked_action_widened:
  assumes "action_sat action A"
  shows "io_sat (\<lambda>f. p \<or> f = None) (run_checked (verifyPinnedResources q) (action p) (unlock_profile u)) (widened A)"
proof (rule run_checked_widened)
  show "io_sat (\<lambda>f. p \<or> f = None) (action p) A"
    by (rule io_satI, rule action_satD [OF assms])
qed (auto intro: verifyPinnedResources_quiet dest: unlock_profile_quiet)

lemma withPinnedStateLock_widened:
  assumes "action_sat action A"
  shows "io_sat (\<lambda>_. True) (withPinnedStateLock pinned exclusive action) (widened A)"
proof -
  let ?k = "\<lambda>p. io_bind (when_io (pin_profile p) (os_call ''lock state profile directory'')) (\<lambda>_.
           run_checked (verifyPinnedResources p) (action (pin_profile p)) (unlock_profile (pin_profile p)))"
  have k: "io_sat (\<lambda>f. pin_profile p \<or> f = None) (?k p) (widened A)" for p
    by (intro bind_quiet quiet_intros checked_action_widened [OF assms])
  have r: "io_sat (\<lambda>_. True) (io_bind (refreshOptionalProfile pinned) ?k) (widened A)"
  proof (rule bind_quiet_gen [OF pins_rel_quiet [OF refreshOptionalProfile_rel]])
    fix p d d'
    assume run: "refreshOptionalProfile pinned d = (Inr p, d')" and same: "state_file d' = state_file d"
    have "pin_profile p \<or> state_file d' = None"
      using io_satD [OF refreshOptionalProfile_rel TrueI run] same by (auto simp: pins_rel_def)
    then show "widened A (state_file d') (fst (?k p d')) (state_file (snd (?k p d')))"
      using io_satD [OF k] by (metis prod.collapse)
  qed
  have "io_sat (\<lambda>_. True) (io_bind (os_call ''lock state profile'') (\<lambda>_. io_bind (refreshOptionalProfile pinned) ?k))
      (widened A)"
    by (intro bind_quiet os_call_quiet r)
  then show ?thesis
    by (auto simp: io_sat_def withPinnedStateLock_def widened_def split: if_splits)
qed


end
