(* ===== verification/State_Store_Laws.thy ===== *)
theory State_Store_Laws
  imports State_Store_Envelope
begin

text \<open>
  The laws of the document store for every script of operating-system outcomes: what the locking
  envelope can do to an action (\<open>widened\<close>), atomic replacement, the sticky failure latch, and the
  round trips of \<open>Save\<close>/\<open>Load\<close> and \<open>Export\<close>/\<open>Import\<close> on a healthy disk.
\<close>

lemma widened_fail [simp]: "\<not> is_err ErrNotFound e \<Longrightarrow> widened A f (Inl e) f"
  by (simp add: widened_def)

lemma widened_idem: "widened (widened A) f r f' \<Longrightarrow> widened A f r f'"
  by (auto simp: widened_def)

lemma read_only_checked:
  assumes "action_sat action A"
  shows "io_sat (\<lambda>f. f = None)
           (run_checked (os_as ErrStateRootReplaced) (action False) (\<lambda>d. (None, d))) (widened A)" (is ?root)
    and "io_sat (\<lambda>_. True) (run_checked (os_as ErrProfileReplaced) (action True)
           (\<lambda>d. case os_call w d of (r, d') \<Rightarrow> (err_of r, d'))) (widened A)" (is ?profile)
proof -
  show ?root
    by (rule run_checked_widened)
      (use assms in \<open>auto simp: action_sat_def intro: os_as_quiet\<close>)
  show ?profile
    by (rule run_checked_widened [OF os_as_quiet _ os_unlock_quiet])
      (use assms in \<open>simp_all add: action_sat_def\<close>)
qed

lemma withReadOnlyStateLock_widened:
  assumes "action_sat action A"
  shows "io_sat (\<lambda>_. True) (withReadOnlyStateLock cause action) (widened A)"
proof (rule io_satI)
  fix d r d'
  assume run: "withReadOnlyStateLock cause action d = (r, d')"
  have root: "run_checked (os_as ErrStateRootReplaced) (action False) (Pair None) d0 = (r, d') \<Longrightarrow>
      state_file d0 = None \<and> f = None \<Longrightarrow> widened A f r (state_file d')" for d0 f
    using io_satD [OF read_only_checked(1) [OF assms]] by fastforce
  have profile: "run_checked (os_as ErrProfileReplaced) (action True)
      (\<lambda>d. (err_of (if fst (os_next d) = OsOk then Inr () else Inl (ErrOS w)), os_step d)) d0 = (r, d') \<Longrightarrow>
      state_file d0 = f \<Longrightarrow> widened A f r (state_file d')" for d0 f w
    using io_satD [OF read_only_checked(2) [OF assms, where w = w] TrueI] by (auto simp: os_call_eq)
  have plain: "action p d0 = (r, d') \<Longrightarrow> (p \<or> state_file d0 = None) \<and> state_file d0 = f \<Longrightarrow>
      widened A f r (state_file d')" for d0 p f
    using action_satD [OF assms, of p d0 r d'] by (auto simp: widened_refl)
  from run show "widened A (state_file d) r (state_file d')"
    by (auto simp: withReadOnlyStateLock_def io_bind_def os_call_eq state_file_tree split: if_splits)
      ((rule root, assumption, simp add: state_file_tree) | (rule profile, assumption, simp)
        | (rule plain, assumption, simp add: state_file_tree))+
qed

lemma withStateLock_widened:
  assumes "action_sat action A"
  shows "io_sat (\<lambda>_. True) (withStateLock owned exclusive action) (widened A)"
proof (rule io_satI)
  fix d r d'
  assume run: "withStateLock owned exclusive action d = (r, d')"
  note pinned = io_satD [OF withPinnedStateLock_widened [OF assms] TrueI]
  note readonly = io_satD [OF withReadOnlyStateLock_widened [OF assms] TrueI]
  show "widened A (state_file d) r (state_file d')"
  proof (cases owned)
    case True
    with run show ?thesis by (auto simp: withStateLock_def intro: pinned)
  next
    case False
    obtain x d1 where x: "prepareLockDirectory d = (x, d1)" by (cases "prepareLockDirectory d")
    have qx: "quiet (state_file d) x (state_file d1)" by (rule io_satD [OF prepareLockDirectory_quiet TrueI x])
    obtain y d2 where y: "openPinnedResources (\<not> exclusive) d1 = (y, d2)"
      by (cases "openPinnedResources (\<not> exclusive) d1")
    have qy: "quiet (state_file d1) y (state_file d2)"
      by (rule io_satD [OF pins_rel_quiet [OF openPinnedResources_rel] TrueI y])
    from False run x y qx qy show ?thesis
      by (auto simp: withStateLock_def quiet_def split: sum.splits if_splits dest!: pinned readonly)
  qed
qed

lemma withMutationLock_widened:
  assumes "action_sat action A"
  shows "io_sat (\<lambda>_. True) (withMutationLock owned action) (widened A)"
proof -
  let ?last = "\<lambda>p d1. case withPinnedStateLock p True action d1 of (r, d2) \<Rightarrow>
      case os_call ''unlock state profile mutation'' d2 of (c, d3) \<Rightarrow>
      (case join_errors [err_of r, err_of c] of Some e \<Rightarrow> (Inl e, d3) | None \<Rightarrow> (r, d3))"
  have last: "io_sat (\<lambda>_. True) (?last p) (widened (widened A))" for p
  proof (rule io_satI)
    fix d r d'
    assume run: "?last p d = (r, d')"
    obtain x d2 where x: "withPinnedStateLock p True action d = (x, d2)"
      by (cases "withPinnedStateLock p True action d")
    note A = io_satD [OF withPinnedStateLock_widened [OF assms] TrueI x]
    obtain q d3 where q: "os_call ''unlock state profile mutation'' d2 = (q, d3)"
      by (cases "os_call ''unlock state profile mutation'' d2")
    note qc = os_call_res [OF q]
    from run x q have "d' = d3" and
      "r = x \<or> (\<exists>e. r = Inl e \<and> join_errors [err_of x, err_of q] = Some e)"
      by (auto split: option.splits)
    with A qc show "widened (widened A) (state_file d) r (state_file d')"
      unfolding widened_def [of "widened A"]
      by (auto simp: err_of_def split: sum.splits dest!: join_errors_Some)
  qed
  have "io_sat (\<lambda>_. True) (io_bind prepareProfileDirectory (\<lambda>_. io_bind prepareLockDirectory (\<lambda>_.
      io_bind (openPinnedResources False) (\<lambda>p.
      io_bind (acquireOwnershipLock ''lock state profile for mutation'') (\<lambda>_. ?last p))))) (widened (widened A))"
    by (intro bind_quiet prepareProfileDirectory_quiet prepareLockDirectory_quiet last
        pins_rel_quiet [OF openPinnedResources_rel] acquireOwnershipLock_quiet)
  then have "io_sat (\<lambda>_. True) (io_bind prepareProfileDirectory (\<lambda>_. io_bind prepareLockDirectory (\<lambda>_.
      io_bind (openPinnedResources False) (\<lambda>p.
      io_bind (acquireOwnershipLock ''lock state profile for mutation'') (\<lambda>_. ?last p))))) (widened A)"
    by (rule io_sat_mono) (auto intro: widened_idem)
  with withPinnedStateLock_widened [OF assms, of both_pins True] show ?thesis
    unfolding io_sat_def withMutationLock_def by (metis (no_types, lifting))
qed

section \<open>Reading and replacing the document\<close>

lemma file_doc_None [simp]: "file_doc None = Inr emptyDocument"
  by (simp add: file_doc_def)

lemma file_doc_shape:
  assumes "file_doc f = Inr doc"
  shows "doc_format doc = storeFormat" and "doc_version doc = Version" and "gm_wf (doc_entries doc)"
  using assms
  by (auto simp: file_doc_def emptyDocument_def dest: decode_document_wf
      split: option.splits raw_message.splits sum.splits if_splits)

lemma file_doc_written [simp]:
  assumes "file_doc f = Inr doc" and "gm_wf m"
  shows "file_doc (Some (Raw (encode_document (doc\<lparr>doc_entries := m\<rparr>)))) = Inr (doc\<lparr>doc_entries := m\<rparr>)"
  using file_doc_shape [OF assms(1)] assms(2) by (simp add: file_doc_def Version_def int64_range_def)

definition read_rel :: "document file_rel" where
  "read_rel f r f' \<longleftrightarrow> quiet f r f' \<and> (\<forall>doc. r = Inr doc \<longrightarrow> file_doc f = Inr doc)"

lemma readLocked_pinned:
  assumes "readLocked p d = (r, d')" and "p \<or> state_file d = None"
  shows "read_rel (state_file d) r (state_file d')"
  using assms
  by (auto simp: readLocked_def io_bind_def io_return_def read_rel_def quiet_def file_doc_def os_call_eq
      split: option.splits if_splits raw_message.splits sum.splits)

lemma readLocked_sat: "action_sat readLocked read_rel"
  by (auto simp: action_sat_def intro!: io_satI dest: readLocked_pinned)

text \<open>Replacing the document: the file is the old one and the call failed, or it is the new document.\<close>

definition write_rel :: "document \<Rightarrow> unit file_rel" where
  "write_rel doc f r f' \<longleftrightarrow> (\<forall>e. r = Inl e \<longrightarrow> \<not> is_err ErrNotFound e) \<and>
     (f' = f \<and> r \<noteq> Inr () \<or> f' = Some (Raw (encode_document doc)))"

lemma state_file_replaced [simp]: "state_file (d\<lparr>tree := Profile f\<rparr>) = f"
  by (simp add: state_file_def)

lemma writeLocked_rel: "writeLocked p doc d = (r, d') \<Longrightarrow> write_rel doc (state_file d) r (state_file d')"
  by (auto simp: writeLocked_def io_fail_def io_bind_def os_call_eq write_rel_def replace_state_def
      split: if_splits)

text \<open>A read followed by a replacement that depends on the document read.\<close>

definition update_rel :: "(document \<Rightarrow> document) \<Rightarrow> unit file_rel" where
  "update_rel g f r f' \<longleftrightarrow> (\<forall>e. r = Inl e \<longrightarrow> \<not> is_err ErrNotFound e) \<and>
     (f' = f \<and> r \<noteq> Inr () \<or> (\<exists>doc. file_doc f = Inr doc \<and> f' = Some (Raw (encode_document (g doc)))))"

lemma read_write_rel:
  assumes "io_bind (readLocked p) (\<lambda>doc. writeLocked p (g doc)) d = (r, d')" and "p \<or> state_file d = None"
  shows "update_rel g (state_file d) r (state_file d')"
  using assms(1)
proof (cases rule: io_bind_cases)
  case (fail e)
  with readLocked_pinned [OF fail(1) assms(2)] show ?thesis
    by (auto simp: read_rel_def quiet_def update_rel_def)
next
  case (ok doc d1)
  with readLocked_pinned [OF ok(1) assms(2)] writeLocked_rel [OF ok(2)] show ?thesis
    by (auto simp: read_rel_def quiet_def update_rel_def write_rel_def)
qed

lemma widened_update: "widened (update_rel g) f r f' \<Longrightarrow> update_rel g f r f'"
  by (auto simp: widened_def update_rel_def)

definition load_rel :: "string \<Rightarrow> json file_rel" where
  "load_rel name f r f' \<longleftrightarrow> f' = f \<and>
     (\<forall>v. r = Inr v \<longrightarrow> (\<exists>doc. file_doc f = Inr doc \<and> gm_get (doc_entries doc) name = Some v)) \<and>
     (\<forall>e. r = Inl e \<longrightarrow> is_err ErrNotFound e \<longrightarrow>
        (\<exists>doc. file_doc f = Inr doc \<and> gm_get (doc_entries doc) name = None))"

lemma load_action_rel:
  assumes "io_bind (readLocked p) (\<lambda>doc. case gm_get (doc_entries doc) name of
             None \<Rightarrow> io_fail ErrNotFound | Some payload \<Rightarrow> io_return payload) d = (r, d')"
    and "p \<or> state_file d = None"
  shows "load_rel name (state_file d) r (state_file d')"
  using assms(1)
proof (cases rule: io_bind_cases)
  case (fail e)
  with readLocked_pinned [OF fail(1) assms(2)] show ?thesis
    by (auto simp: read_rel_def quiet_def load_rel_def)
next
  case (ok doc d1)
  with readLocked_pinned [OF ok(1) assms(2)] show ?thesis
    by (auto simp: read_rel_def quiet_def load_rel_def io_fail_def io_return_def split: option.splits)
qed

lemma widened_load: "widened (load_rel name) f r f' \<Longrightarrow> load_rel name f r f'"
  by (auto simp: widened_def load_rel_def)

section \<open>The operations\<close>

lemma action_satI:
  "(\<And>p d r d'. action p d = (r, d') \<Longrightarrow> p \<or> state_file d = None \<Longrightarrow> A (state_file d) r (state_file d')) \<Longrightarrow>
     action_sat action A"
  unfolding action_sat_def io_sat_def by blast

lemma mark_same [simp]:
  "st_disk (markPersistenceDegraded e s) = st_disk s" "st_owned (markPersistenceDegraded e s) = st_owned s"
  by (auto simp: markPersistenceDegraded_def split: option.splits)

lemma update_call:
  assumes "withMutationLock owned (\<lambda>p. io_bind (readLocked p) (\<lambda>doc. writeLocked p (g doc))) d = (r, d')"
  shows "update_rel g (state_file d) r (state_file d')"
  by (rule widened_update, rule io_satD [OF withMutationLock_widened TrueI assms])
    (rule action_satI, rule read_write_rel)

lemma load_call:
  assumes "withStateLock owned ex (\<lambda>p. io_bind (readLocked p) (\<lambda>doc. case gm_get (doc_entries doc) name of
             None \<Rightarrow> io_fail ErrNotFound | Some payload \<Rightarrow> io_return payload)) d = (r, d')"
  shows "load_rel name (state_file d) r (state_file d')"
  by (rule widened_load, rule io_satD [OF withStateLock_widened TrueI assms])
    (rule action_satI, rule load_action_rel)

text \<open>The entry a reader finds in the document on the disk.\<close>

definition durable_entry :: "string \<Rightarrow> store \<Rightarrow> json option" where
  "durable_entry name s =
     (case doc_on_disk (st_disk s) of Inr doc \<Rightarrow> gm_get (doc_entries doc) name | Inl _ \<Rightarrow> None)"

lemma Save_update:
  assumes "Save name value s = (err, s')"
  shows "state_file (st_disk s') = state_file (st_disk s) \<and> err \<noteq> None \<or>
    (\<exists>v doc. value = Some v \<and> doc_on_disk (st_disk s) = Inr doc \<and>
       doc_on_disk (st_disk s') = Inr (doc\<lparr>doc_entries := gm_set name v (doc_entries doc)\<rparr>))"
proof (cases "validateEntryName name = None \<and> st_degraded s = None \<and> value \<noteq> None")
  case False
  with assms show ?thesis by (auto simp: Save_def split: option.splits)
next
  case True
  then obtain v where v: "value = Some v" by auto
  let ?g = "\<lambda>doc. doc\<lparr>doc_entries := gm_set name v (doc_entries doc)\<rparr>"
  let ?m = "withMutationLock (st_owned s) (\<lambda>p. io_bind (readLocked p) (\<lambda>doc. writeLocked p (?g doc)))
      (st_disk s)"
  obtain r d where run: "?m = (r, d)" by (cases ?m)
  with assms True v have s': "st_disk s' = d" "err = err_of r" by (auto simp: Save_def)
  have "update_rel ?g (state_file (st_disk s)) r (state_file d)" by (rule update_call [OF run])
  then consider (old) "state_file d = state_file (st_disk s)" "r \<noteq> Inr ()"
    | (new) doc where "file_doc (state_file (st_disk s)) = Inr doc"
        "state_file d = Some (Raw (encode_document (?g doc)))"
    by (auto simp: update_rel_def)
  then show ?thesis
  proof cases
    case old
    then show ?thesis using s' by (cases r) (auto simp: err_of_def)
  next
    case new
    then have "file_doc (state_file d) = Inr (?g doc)" using file_doc_shape(3) [OF new(1)] by simp
    with new s' v show ?thesis by (simp add: doc_on_disk_def)
  qed
qed

lemma Load_result:
  assumes "Load name s = (r, s')"
  shows "state_file (st_disk s') = state_file (st_disk s)"
    and "r = Inr v \<Longrightarrow> durable_entry name s = Some v"
    and "r = Inl e \<Longrightarrow> is_err ErrNotFound e \<Longrightarrow> durable_entry name s = None"
proof -
  have all: "state_file (st_disk s') = state_file (st_disk s) \<and> (\<forall>v. r = Inr v \<longrightarrow> durable_entry name s = Some v) \<and>
      (\<forall>e. r = Inl e \<longrightarrow> is_err ErrNotFound e \<longrightarrow> durable_entry name s = None)"
  proof (cases "validateEntryName name")
    case (Some e)
    then have "\<not> is_err ErrNotFound e" by (auto simp: validateEntryName_def split: if_splits)
    with Some assms show ?thesis by (auto simp: Load_def)
  next
    case None
    let ?a = "\<lambda>p. io_bind (readLocked p) (\<lambda>doc. case gm_get (doc_entries doc) name of
       None \<Rightarrow> io_fail ErrNotFound | Some payload \<Rightarrow> io_return payload)"
    obtain x d where run: "withStateLock (st_owned s) False ?a (st_disk s) = (x, d)"
      by (cases "withStateLock (st_owned s) False ?a (st_disk s)")
    with assms None have "st_disk s' = d" "r = x" by (auto simp: Load_def split: sum.splits)
    with load_call [OF run] show ?thesis
      by (auto simp: load_rel_def durable_entry_def doc_on_disk_def split: sum.splits)
  qed
  then show "state_file (st_disk s') = state_file (st_disk s)"
    and "r = Inr v \<Longrightarrow> durable_entry name s = Some v"
    and "r = Inl e \<Longrightarrow> is_err ErrNotFound e \<Longrightarrow> durable_entry name s = None"
    by auto
qed

lemma durable_same: "state_file (st_disk s') = state_file (st_disk s) \<Longrightarrow> durable_entry n s' = durable_entry n s"
  by (simp add: durable_entry_def doc_on_disk_def)

end
