(* ===== verification/Entry_Store.thy ===== *)
theory Entry_Store
  imports State_Store
begin

text \<open>
  The interface of a durable entry store as its clients see it (\<open>state.EntryStore\<close> in
  \<open>pkg/state/guard.go\<close>): a save either makes the value durable or fails and keeps the old one, a load
  answers from what is durable.  \<open>guard.go\<close> wraps any such store with a sticky failure latch.
\<close>

section \<open>The contract\<close>

locale entry_store =
  fixes save :: "string \<Rightarrow> json option \<Rightarrow> 's \<Rightarrow> store_error option \<times> 's"
    and load :: "string \<Rightarrow> 's \<Rightarrow> (store_error + json) \<times> 's"
    and durable :: "string \<Rightarrow> 's \<Rightarrow> json option"
  assumes save_ok: "save n v s = (None, s') \<Longrightarrow> v = durable n s' \<and> v \<noteq> None"
    and save_fail: "save n v s = (Some e, s') \<Longrightarrow> durable n s' = durable n s \<or> v = durable n s' \<and> v \<noteq> None"
    and save_other: "save n v s = (err, s') \<Longrightarrow> n' \<noteq> n \<Longrightarrow> durable n' s' = durable n' s"
    and load_same: "load n s = (r, s') \<Longrightarrow> durable n' s' = durable n' s"
    and load_value: "load n s = (Inr j, s') \<Longrightarrow> durable n s = Some j"
    and load_absent: "load n s = (Inl e, s') \<Longrightarrow> is_err ErrNotFound e \<Longrightarrow> durable n s = None"
begin

lemma save_cases:
  assumes "save n v s = (err, s')"
  obtains (new) j where "v = Some j" "durable n s' = Some j"
    | (old) e where "err = Some e" "durable n s' = durable n s"
  using assms save_ok save_fail by (cases err) (metis option.exhaust)+

lemma save_then_load:
  assumes "save n v s = (None, s1)" and "load n s1 = (r, s2)"
  shows "(\<exists>j. v = Some j \<and> r = Inr j) \<or> (\<exists>e. r = Inl e \<and> \<not> is_err ErrNotFound e)"
  using save_ok [OF assms(1)] assms(2) load_value load_absent by (cases r) fastforce+

end

section \<open>GuardedEntryStore\<close>

text \<open>\<open>g_delegate = None\<close> is the nil delegate of a store that was never opened.\<close>

record 's guarded =
  g_delegate :: "'s option"
  g_degraded :: "store_error option"

definition NewGuardedEntryStore :: "'s option \<Rightarrow> store_error option \<Rightarrow> 's guarded" where
  "NewGuardedEntryStore delegate initializationErr = \<lparr>g_delegate = delegate, g_degraded = initializationErr\<rparr>"

text \<open>A load answers \<open>Inr None\<close> when it returns nil without filling its target.\<close>

definition guarded_Load ::
  "(string \<Rightarrow> 's \<Rightarrow> (store_error + json) \<times> 's) \<Rightarrow> string \<Rightarrow> 's guarded \<Rightarrow> (store_error + json option) \<times> 's guarded" where
  "guarded_Load load name g =
     (case g_degraded g of Some e \<Rightarrow> (Inl e, g) | None \<Rightarrow>
      case g_delegate g of None \<Rightarrow> (Inr None, g) | Some s \<Rightarrow>
      case load name s of
        (Inl e, s') \<Rightarrow>
          (Inl e, g\<lparr>g_delegate := Some s', g_degraded := (if is_err ErrNotFound e then None else Some e)\<rparr>)
      | (Inr v, s') \<Rightarrow> (Inr (Some v), g\<lparr>g_delegate := Some s'\<rparr>))"

definition guarded_LoadDurable ::
  "(string \<Rightarrow> 's \<Rightarrow> (store_error + json) \<times> 's) \<Rightarrow> string \<Rightarrow> 's guarded \<Rightarrow> (store_error + json option) \<times> 's guarded" where
  "guarded_LoadDurable load name g =
     (case g_delegate g of
        None \<Rightarrow> (case g_degraded g of Some e \<Rightarrow> (Inl e, g) | None \<Rightarrow> (Inr None, g))
      | Some s \<Rightarrow>
          (case load name s of
             (Inl e, s') \<Rightarrow> (Inl e, g\<lparr>g_delegate := Some s'\<rparr>)
           | (Inr v, s') \<Rightarrow> (Inr (Some v), g\<lparr>g_delegate := Some s'\<rparr>)))"

definition guarded_Save ::
  "(string \<Rightarrow> json option \<Rightarrow> 's \<Rightarrow> store_error option \<times> 's) \<Rightarrow> string \<Rightarrow> json option \<Rightarrow> 's guarded \<Rightarrow>
     store_error option \<times> 's guarded" where
  "guarded_Save save name value g =
     (case g_degraded g of Some e \<Rightarrow> (Some e, g) | None \<Rightarrow>
      case g_delegate g of None \<Rightarrow> (None, g) | Some s \<Rightarrow>
      case value of None \<Rightarrow> (Some ErrMarshal, g\<lparr>g_degraded := Some ErrMarshal\<rparr>) | Some payload \<Rightarrow>
      case save name (Some payload) s of
        (Some e, s') \<Rightarrow> (Some e, g\<lparr>g_delegate := Some s', g_degraded := Some e\<rparr>)
      | (None, s') \<Rightarrow> (None, g\<lparr>g_delegate := Some s'\<rparr>))"

definition guarded_durable :: "(string \<Rightarrow> 's \<Rightarrow> json option) \<Rightarrow> string \<Rightarrow> 's guarded \<Rightarrow> json option" where
  "guarded_durable durable name g = (case g_delegate g of Some s \<Rightarrow> durable name s | None \<Rightarrow> None)"

context entry_store
begin

text \<open>
  An errored guarded save is settled by one readback: \<open>LoadDurable\<close> answers the new value exactly when
  the save did commit, although the latch keeps refusing mutations.
\<close>

lemma guarded_readback:
  assumes fail: "guarded_Save save n (Some v) g = (Some e, g1)" and run: "g_degraded g = None" "g_delegate g \<noteq> None"
    and read: "guarded_LoadDurable load n g1 = (Inr (Some w), g2)"
  shows "guarded_durable durable n g1 = Some w \<and> g_degraded g1 = Some e \<and> (w = v \<or> guarded_durable durable n g = Some w)"
proof -
  obtain s where s: "g_delegate g = Some s" using run by blast
  obtain err s1 where sv: "save n (Some v) s = (err, s1)" by (cases "save n (Some v) s")
  with fail run s have err: "err = Some e" and g1: "g1 = g\<lparr>g_delegate := Some s1, g_degraded := Some e\<rparr>"
    by (auto simp: guarded_Save_def split: option.splits)
  from read g1 have "durable n s1 = Some w"
    by (auto simp: guarded_LoadDurable_def split: prod.splits sum.splits dest: load_value)
  with save_fail [OF sv [unfolded err]] g1 s show ?thesis
    by (auto simp: guarded_durable_def)
qed

lemma guarded_latch:
  assumes "g_degraded g = Some e"
  shows "guarded_Save save n v g = (Some e, g)" and "guarded_Load load n g = (Inl e, g)"
  using assms by (simp_all add: guarded_Save_def guarded_Load_def)

end

section \<open>ValidateResourceMaps\<close>

text \<open>The values reflection walks over: what the code tells apart by \<open>reflect.Kind\<close>.\<close>

datatype go_value =
    GInvalid
  | GString string
  | GNil
  | GRef go_value
  | GStruct "(string \<times> go_value) list"
  | GStringMap "(string \<times> go_value) list"
  | GOther

fun deref :: "go_value \<Rightarrow> go_value" where
  "deref (GRef v) = deref v"
| "deref GNil = GInvalid"
| "deref v = v"

definition stringField :: "(string \<times> go_value) list \<Rightarrow> string \<Rightarrow> string option" where
  "stringField flds name =
     (case map_of flds name of Some (GString s) \<Rightarrow> if s = [] then None else Some s | _ \<Rightarrow> None)"

datatype resource_error = NilResource string string | NameMismatch string string string

definition check_resource :: "string \<Rightarrow> string \<times> go_value \<Rightarrow> resource_error option" where
  "check_resource fieldPath kv = (case kv of (key, resource) \<Rightarrow>
     if resource = GNil then Some (NilResource fieldPath key)
     else (case deref resource of
             GStruct flds \<Rightarrow>
               (case stringField flds ''Name'' of
                  Some identity \<Rightarrow>
                    if contains identity ''/'' \<and> identity \<noteq> key
                    then Some (NameMismatch fieldPath key identity) else None
                | None \<Rightarrow> None)
           | _ \<Rightarrow> None))"

fun first_error :: "('a \<Rightarrow> 'e option) \<Rightarrow> 'a list \<Rightarrow> 'e option" where
  "first_error f [] = None"
| "first_error f (x # xs) = (case f x of Some e \<Rightarrow> Some e | None \<Rightarrow> first_error f xs)"

lemma first_error_None [simp]: "first_error f xs = None \<longleftrightarrow> (\<forall>x \<in> set xs. f x = None)"
  by (induction xs) (auto split: option.splits)

definition ValidateResourceMaps :: "go_value \<Rightarrow> resource_error option" where
  "ValidateResourceMaps metadata =
     (case deref metadata of
        GStruct flds \<Rightarrow>
          first_error (\<lambda>(name, field).
            case field of GStringMap m \<Rightarrow> first_error (check_resource name) m | _ \<Rightarrow> None) flds
      | _ \<Rightarrow> None)"

end
