(* ===== verification/State_Store_Properties.thy ===== *)
theory State_Store_Properties
  imports State_Store_Laws Entry_Store
begin

text \<open>
  The properties of package \<open>pkg/state\<close>: \<open>Save\<close> and \<open>Load\<close> provide the entry-store contract, a save is
  atomic and latches its first failure, a healthy disk gives the round trips, and an import is all or
  nothing.
\<close>

section \<open>The store provides the entry-store contract\<close>

lemma mutation_none_is_new:
  assumes "Save name value s = (None, s')"
  shows "\<exists>v doc. value = Some v \<and> doc_on_disk (st_disk s) = Inr doc \<and>
    doc_on_disk (st_disk s') = Inr (doc\<lparr>doc_entries := gm_set name v (doc_entries doc)\<rparr>)"
  using Save_update [OF assms] by simp

lemma durable_set:
  assumes "doc_on_disk (st_disk s) = Inr doc"
    and "doc_on_disk (st_disk s') = Inr (doc\<lparr>doc_entries := gm_set name v (doc_entries doc)\<rparr>)"
  shows "durable_entry n s' = (if n = name then Some v else durable_entry n s)"
  using assms by (simp add: durable_entry_def)

lemma Save_cases:
  assumes "Save name value s = (err, s')"
  obtains (kept) "\<And>n. durable_entry n s' = durable_entry n s" "err \<noteq> None"
    | (stored) v where "value = Some v" "\<And>n. durable_entry n s' = (if n = name then Some v else durable_entry n s)"
  using Save_update [OF assms] durable_set durable_same by metis

interpretation disk_store: entry_store Save Load durable_entry
proof
  fix n v s s'
  assume "Save n v s = (None, s')"
  then show "v = durable_entry n s' \<and> v \<noteq> None" by (cases rule: Save_cases) auto
next
  fix n v s e s'
  assume "Save n v s = (Some e, s')"
  then show "durable_entry n s' = durable_entry n s \<or> v = durable_entry n s' \<and> v \<noteq> None"
  proof (cases rule: Save_cases)
    case (stored j)
    then show ?thesis by simp
  qed simp
next
  fix n v s err s' n'
  assume "Save n v s = (err, s')" and "n' \<noteq> n"
  then show "durable_entry n' s' = durable_entry n' s" by (cases rule: Save_cases) auto
next
  fix n s r s' n'
  assume "Load n s = (r, s')"
  then show "durable_entry n' s' = durable_entry n' s" by (intro durable_same Load_result(1))
qed (auto dest: Load_result(2) [OF _ refl] Load_result(3) [OF _ refl])

section \<open>Sequences of calls\<close>

text \<open>Everything a handle offers that may fail or change the profile; a snapshot's validators come with its import.\<close>

datatype store_call = CallSave string "json option" | CallLoad string | CallDelete string | CallExport | CallAcquire
  | CallImport entry_validators raw_message

definition is_import :: "store_call \<Rightarrow> bool" where
  "is_import c = (case c of CallImport vs input \<Rightarrow> True | _ \<Rightarrow> False)"

fun run_call :: "store_call \<Rightarrow> store \<Rightarrow> store" where
  "run_call (CallSave n v) s = snd (Save n v s)"
| "run_call (CallLoad n) s = snd (Load n s)"
| "run_call (CallDelete n) s = snd (Delete n s)"
| "run_call CallExport s = snd (Export s)"
| "run_call CallAcquire s = snd (acquireOwnership True s)"
| "run_call (CallImport vs input) s = snd (Import vs input s)"

fun run_calls :: "store_call list \<Rightarrow> store \<Rightarrow> store" where
  "run_calls [] s = s"
| "run_calls (c # cs) s = run_calls cs (run_call c s)"

lemma mark_degraded [simp]: "st_degraded s = Some e \<Longrightarrow> markPersistenceDegraded err s = s"
  by (simp add: markPersistenceDegraded_def split: option.splits)

lemma Load_degraded: "st_degraded s = Some e \<Longrightarrow> st_degraded (snd (Load n s)) = Some e"
  by (auto simp: Load_def split: option.splits prod.splits sum.splits)

section \<open>The healthy disk\<close>

definition healthy :: "disk \<Rightarrow> bool" where
  "healthy d \<longleftrightarrow> os_script d = [] \<and> pinned_support d"

lemma os_call_healthy [simp]: "os_script d = [] \<Longrightarrow> os_call w d = (Inr (), d)"
  by (simp add: os_call_def os_as_def os_next_def)

lemma os_as_healthy [simp]: "os_script d = [] \<Longrightarrow> os_as e d = (Inr (), d)"
  by (simp add: os_as_def os_next_def)

lemma io_bind_Inr [simp]: "m d = (Inr a, d') \<Longrightarrow> io_bind m f d = f a d'"
  by (simp add: io_bind_def)

lemma when_io_healthy [simp]: "os_script d = [] \<Longrightarrow> when_io b (os_call w) d = (Inr (), d)"
    "os_script d = [] \<Longrightarrow> when_io b (os_as e) d = (Inr (), d)"
  by (simp_all add: when_io_def io_return_def)

lemma verify_healthy [simp]: "os_script d = [] \<Longrightarrow> verifyPinnedResources p d = (Inr (), d)"
  by (simp add: verifyPinnedResources_def)

lemma unlock_healthy [simp]: "os_script d = [] \<Longrightarrow> unlock_profile p d = (None, d)"
  by (simp add: unlock_profile_def err_of_def)

lemma join_errors_none: "join_errors [None, None, None, None] = None" "join_errors [None, None] = None"
  by simp_all

lemma run_checked_healthy:
  assumes "os_script d = []" and "action p d = (r, d1)" and "os_script d1 = []"
  shows "run_checked (verifyPinnedResources q) (action p) (unlock_profile u) d =
    (case r of Inr _ \<Rightarrow> (r, d1) | Inl e \<Rightarrow> (Inl (ErrJoined [e]), d1))"
  using assms
  by (auto simp: run_checked_def err_of_def join_errors_def List.map_filter_def split: sum.splits)

lemma prepare_healthy:
  assumes "healthy d"
  shows "\<exists>d1. prepareProfileDirectory d = (Inr (), d1) \<and> healthy d1 \<and> profile_dir d1 \<and> profiles_dir d1 \<and>
    state_file d1 = state_file d"
  using assms
  by (cases "tree d")
    (auto simp: prepareProfileDirectory_def healthy_def profiles_dir_def profile_dir_def state_file_def)

lemma open_healthy:
  "healthy d \<Longrightarrow> profile_dir d \<Longrightarrow> profiles_dir d \<Longrightarrow> openPinnedResources b d = (Inr both_pins, d)"
  by (simp add: openPinnedResources_def healthy_def both_pins_def)

lemma refresh_both [simp]: "os_script d = [] \<Longrightarrow> refreshOptionalProfile both_pins d = (Inr both_pins, d)"
  by (simp add: refreshOptionalProfile_def both_pins_def io_return_def)

lemma pinned_healthy:
  assumes "healthy d" and "action True d = (r, d1)" and "healthy d1"
  shows "withPinnedStateLock both_pins ex action d =
    (case r of Inr _ \<Rightarrow> (r, d1) | Inl e \<Rightarrow> (Inl (ErrJoined [e]), d1))"
  using assms run_checked_healthy [of d action True r d1]
  by (auto simp: withPinnedStateLock_def healthy_def both_pins_def [symmetric] split: sum.splits)
    (auto simp: both_pins_def)

lemma read_healthy:
  assumes "os_script d = []" and "doc_on_disk d = Inr doc"
  shows "readLocked True d = (Inr doc, d)"
  using assms
  by (auto simp: readLocked_def doc_on_disk_def file_doc_def split: option.splits raw_message.splits sum.splits if_splits)

lemma write_healthy:
  assumes "healthy d"
  shows "\<exists>d1. writeLocked True doc d = (Inr (), d1) \<and> healthy d1"
  using assms by (simp add: writeLocked_def replace_state_def healthy_def)

lemma update_healthy:
  assumes "healthy d" and "doc_on_disk d = Inr doc"
  shows "\<exists>d1. withMutationLock owned (\<lambda>p. io_bind (readLocked p) (\<lambda>doc. writeLocked p (g doc))) d = (Inr (), d1) \<and>
    healthy d1"
proof -
  let ?a = "\<lambda>p. io_bind (readLocked p) (\<lambda>doc. writeLocked p (g doc))"
  have act: "\<exists>d1. withPinnedStateLock both_pins True ?a d0 = (Inr (), d1) \<and> healthy d1"
    if hd: "healthy d0" and dd: "doc_on_disk d0 = Inr doc" for d0
  proof -
    obtain d1 where w: "writeLocked True (g doc) d0 = (Inr (), d1)" and h: "healthy d1"
      using write_healthy [OF hd] by blast
    have "?a True d0 = (Inr (), d1)" using hd dd w by (simp add: read_healthy healthy_def)
    from pinned_healthy [of d0 ?a "Inr ()" d1 True, OF hd this h] h show ?thesis by simp
  qed
  obtain d1 where p: "prepareProfileDirectory d = (Inr (), d1)" "healthy d1" "profile_dir d1" "profiles_dir d1"
      "state_file d1 = state_file d"
    using prepare_healthy [OF assms(1)] by blast
  then have "doc_on_disk d1 = Inr doc" using assms(2) by (simp add: doc_on_disk_def)
  then obtain d2 where a: "withPinnedStateLock both_pins True ?a d1 = (Inr (), d2)" "healthy d2" using act p(2) by blast
  have l: "prepareLockDirectory d1 = (Inr (), d1)" "openPinnedResources False d1 = (Inr both_pins, d1)"
      "acquireOwnershipLock w d1 = (Inr (), d1)" for w
    using p open_healthy [of d1 False] by (simp_all add: prepareLockDirectory_def healthy_def acquireOwnershipLock_def os_next_def)
  have "os_call ''unlock state profile mutation'' d2 = (Inr (), d2)" using a(2) by (simp add: healthy_def)
  with p l a have "withMutationLock False ?a d = (Inr (), d2)"
    by (simp add: withMutationLock_def err_of_def join_errors_none)
  with a(2) act [OF assms] show ?thesis by (cases owned) (auto simp: withMutationLock_def)
qed

lemma load_healthy:
  assumes "healthy d" and "doc_on_disk d = Inr doc" and "gm_get (doc_entries doc) name = Some v"
    and "profile_dir d" and "profiles_dir d"
  shows "withStateLock owned False (\<lambda>p. io_bind (readLocked p) (\<lambda>doc. case gm_get (doc_entries doc) name of
      None \<Rightarrow> io_fail ErrNotFound | Some payload \<Rightarrow> io_return payload)) d = (Inr v, d)"
    (is "withStateLock owned False ?a d = _")
proof -
  have "?a True d = (Inr v, d)" using assms by (simp add: read_healthy healthy_def io_return_def)
  from pinned_healthy [of d ?a "Inr v" d False, OF assms(1) this assms(1)]
  have "withPinnedStateLock both_pins False ?a d = (Inr v, d)" by simp
  moreover have "prepareLockDirectory d = (Inr (), d)" using assms(1) by (simp add: prepareLockDirectory_def healthy_def)
  ultimately show ?thesis using open_healthy [of d True] assms by (cases owned) (auto simp: withStateLock_def)
qed

lemma written_dirs: "state_file d = Some f \<Longrightarrow> profile_dir d \<and> profiles_dir d"
  by (auto simp: state_file_def profile_dir_def profiles_dir_def split: tree.splits)

section \<open>Import\<close>

text \<open>
  What the operating system answers when the ownership lock of the profile is tried: \<open>OsBusy\<close> when another
  process holds it, nothing when the attempt fails before the lock.
\<close>

definition ownership_answer :: "disk \<Rightarrow> os_result option" where
  "ownership_answer d =
     (case io_bind prepareStateRoot (\<lambda>_. io_bind prepareProfileDirectory (\<lambda>_. io_bind prepareLockDirectory (\<lambda>_.
        openPinnedResources False))) d of
        (Inl e, d') \<Rightarrow> None
      | (Inr p, d') \<Rightarrow> if pinned_support d' then Some (fst (os_next d')) else None)"

lemma io_bind_assoc: "io_bind (io_bind m f) g = io_bind m (\<lambda>x. io_bind (f x) g)"
  by (rule ext) (auto simp: io_bind_def split: prod.splits sum.splits)

lemma acquire_answer:
  assumes "acquireOwnership reg s = (r, s')" and "\<not> st_owned s"
  shows "r = Inr () \<Longrightarrow> ownership_answer (st_disk s) = Some OsOk"
    and "ownership_answer (st_disk s) = Some OsBusy \<Longrightarrow> r = Inl ErrProfileInUse"
proof -
  let ?m = "io_bind prepareStateRoot (\<lambda>_. io_bind prepareProfileDirectory (\<lambda>_. io_bind prepareLockDirectory (\<lambda>_.
     openPinnedResources False)))"
  let ?last = "\<lambda>p d. if \<not> pinned_support d then (Inl ErrSafeOwnershipUnsupported, d)
     else if st_owned s then (Inl ErrProfileInUse, d)
     else io_bind (acquireOwnershipLock ''lock state profile ownership'') (\<lambda>_. verifyPinnedResources p) d"
  have acq: "acquireOwnership reg s = (case io_bind ?m ?last (st_disk s) of
        (Inl e, d) \<Rightarrow> (Inl e, s\<lparr>st_disk := d\<rparr>)
      | (Inr _, d) \<Rightarrow> (Inr (), s\<lparr>st_disk := d, st_owned := reg \<or> st_owned s\<rparr>))"
    by (simp add: acquireOwnership_def io_bind_assoc)
  obtain x d where m: "?m (st_disk s) = (x, d)" by fastforce
  have "(r = Inr () \<longrightarrow> ownership_answer (st_disk s) = Some OsOk) \<and>
    (ownership_answer (st_disk s) = Some OsBusy \<longrightarrow> r = Inl ErrProfileInUse)"
    using assms unfolding acq ownership_answer_def io_bind_def [of ?m] m
    by (cases x; cases "fst (os_next d)")
      (auto simp: io_bind_def acquireOwnershipLock_def split: prod.splits sum.splits if_splits)
  then show "r = Inr () \<Longrightarrow> ownership_answer (st_disk s) = Some OsOk"
    "ownership_answer (st_disk s) = Some OsBusy \<Longrightarrow> r = Inl ErrProfileInUse" by blast+
qed

lemma acquire_quiet:
  assumes "acquireOwnership reg s = (r, s')"
  shows "state_file (st_disk s') = state_file (st_disk s)" and "r = Inr () \<Longrightarrow> \<not> st_owned s"
proof -
  let ?last = "\<lambda>p d. if \<not> pinned_support d then (Inl ErrSafeOwnershipUnsupported, d)
     else if st_owned s then (Inl ErrProfileInUse, d)
     else io_bind (acquireOwnershipLock ''lock state profile ownership'') (\<lambda>_. verifyPinnedResources p) d"
  let ?m = "io_bind prepareStateRoot (\<lambda>_. io_bind prepareProfileDirectory (\<lambda>_. io_bind prepareLockDirectory (\<lambda>_.
     io_bind (openPinnedResources False) ?last)))"
  have core: "io_sat (\<lambda>_. True) (io_bind (acquireOwnershipLock ''lock state profile ownership'')
      (\<lambda>_. verifyPinnedResources p)) quiet" for p
    by (intro quiet_intros)
  have last: "io_sat (\<lambda>_. True) (?last p) quiet" for p
    by (rule io_satI) (auto simp: quiet_def [of _ "Inl _"] dest: io_satD [OF core TrueI] split: if_splits)
  have q: "io_sat (\<lambda>_. True) ?m quiet"
    by (intro bind_quiet_quiet prepareStateRoot_quiet prepareProfileDirectory_quiet prepareLockDirectory_quiet last
        pins_rel_quiet [OF openPinnedResources_rel])
  obtain x d where run: "?m (st_disk s) = (x, d)" by (cases "?m (st_disk s)")
  with assms have "st_disk s' = d" by (auto simp: acquireOwnership_def split: sum.splits)
  with io_satD [OF q TrueI run] show "state_file (st_disk s') = state_file (st_disk s)" by (simp add: quiet_def)
  from run assms show "r = Inr () \<Longrightarrow> \<not> st_owned s"
    by (auto simp: acquireOwnership_def split: sum.splits if_splits elim!: io_bind_cases)
qed

lemma validate_entries_all:
  "validate_entries vs es = None \<longleftrightarrow>
     (\<forall>(n, v) \<in> set es. validateEntryName n = None \<and> (\<forall>ok. gm_get vs n = Some ok \<longrightarrow> ok v))"
proof (induction es)
  case (Cons e es)
  then show ?case by (cases e) (simp split: option.split if_split)
qed simp

lemma check_snapshot_entries:
  assumes "check_snapshot vs input = Inr entries"
  shows "gm_wf entries" and "validate_entries vs entries = None"
  using assms decode_document_wf
  by (auto simp: check_snapshot_def split: raw_message.splits sum.splits if_splits option.splits)

definition imported :: "json gomap \<Rightarrow> document" where
  "imported entries = \<lparr>doc_format = storeFormat, doc_version = Version, doc_entries = entries\<rparr>"

lemma file_doc_imported [simp]:
  "gm_wf entries \<Longrightarrow> file_doc (Some (Raw (encode_document (imported entries)))) = Inr (imported entries)"
  by (simp add: file_doc_def imported_def Version_def int64_range_def)

lemma import_call:
  assumes "withPinnedStateLock p ex (\<lambda>pinned. writeLocked pinned doc) d = (r, d')"
  shows "write_rel doc (state_file d) r (state_file d')"
proof -
  have "widened (write_rel doc) (state_file d) r (state_file d')"
    by (rule io_satD [OF withPinnedStateLock_widened TrueI assms]) (rule action_satI, rule writeLocked_rel)
  then show ?thesis by (auto simp: widened_def write_rel_def)
qed

lemma Import_cases:
  assumes "Import vs input s = (err, s')"
  obtains (refused) "state_file (st_disk s') = state_file (st_disk s)" "err \<noteq> None"
    | (replaced) entries where "check_snapshot vs input = Inr entries" "\<not> st_owned s"
        "ownership_answer (st_disk s) = Some OsOk" "doc_on_disk (st_disk s') = Inr (imported entries)"
proof (cases "check_snapshot vs input")
  case (Inl e)
  with assms show thesis by (intro refused) (auto simp: Import_def)
next
  case (Inr entries)
  obtain a s1 where a: "acquireOwnership False s = (a, s1)" by (cases "acquireOwnership False s")
  show thesis
  proof (cases a)
    case (Inl e)
    with assms Inr a acquire_quiet(1) [OF a] show thesis by (intro refused) (auto simp: Import_def)
  next
    case (Inr u)
    obtain w d1 where w: "withPinnedStateLock both_pins True (\<lambda>pinned. writeLocked pinned (imported entries))
        (st_disk s1) = (w, d1)" by (cases "withPinnedStateLock both_pins True
        (\<lambda>pinned. writeLocked pinned (imported entries)) (st_disk s1)")
    obtain c d2 where c: "os_call ''unlock state profile ownership'' d1 = (c, d2)"
      by (cases "os_call ''unlock state profile ownership'' d1")
    from assms Inr \<open>check_snapshot vs input = Inr entries\<close> a w c
    have s': "st_disk s' = d2" and err: "err = join_errors [err_of w, err_of c]"
      by (auto simp: Import_def imported_def)
    from import_call [OF w] consider "state_file d1 = state_file (st_disk s1)" "w \<noteq> Inr ()"
      | "state_file d1 = Some (Raw (encode_document (imported entries)))" by (auto simp: write_rel_def)
    then show thesis
    proof cases
      case 1
      then show thesis using s' err acquire_quiet(1) [OF a] os_call_res [OF c]
        by (intro refused) (auto simp: err_of_def split: sum.splits)
    next
      case 2
      have "gm_wf entries" by (rule check_snapshot_entries [OF \<open>check_snapshot vs input = Inr entries\<close>])
      with 2 s' os_call_res [OF c] acquire_quiet(2) [OF a] acquire_answer(1) [OF a] Inr show thesis
        by (intro replaced [OF \<open>check_snapshot vs input = Inr entries\<close>]) (auto simp: doc_on_disk_def)
    qed
  qed
qed

section \<open>Export\<close>

lemma export_result:
  assumes "Export s = (Inr snap, s1)"
  shows "\<exists>doc. doc_on_disk (st_disk s) = Inr doc \<and>
    snap = encode_document (doc\<lparr>doc_format := SnapshotFormat, doc_version := Version\<rparr>)"
proof -
  obtain r d where run: "withStateLock (st_owned s) False (\<lambda>p. readLocked p) (st_disk s) = (r, d)"
    by (cases "withStateLock (st_owned s) False (\<lambda>p. readLocked p) (st_disk s)")
  have w: "widened read_rel (state_file (st_disk s)) r (state_file d)"
    by (rule io_satD [OF withStateLock_widened TrueI run]) (rule readLocked_sat)
  from assms run obtain doc where "r = Inr doc" and
      "snap = encode_document (doc\<lparr>doc_format := SnapshotFormat, doc_version := Version\<rparr>)"
    by (auto simp: Export_def os_call_eq split: sum.splits if_splits)
  with w show ?thesis by (auto simp: widened_def read_rel_def doc_on_disk_def)
qed

lemma check_exported:
  assumes "doc_on_disk d = Inr doc" and "validate_entries vs (doc_entries doc) = None"
  shows "check_snapshot vs (Raw (encode_document (doc\<lparr>doc_format := SnapshotFormat, doc_version := Version\<rparr>))) =
    Inr (doc_entries doc)"
  using assms file_doc_shape(3) [of "state_file d" doc]
  by (simp add: check_snapshot_def doc_on_disk_def Version_def int64_range_def)

lemma import_healthy:
  assumes "healthy (st_disk t)" and "\<not> st_owned t" and "check_snapshot vs input = Inr entries"
  shows "fst (Import vs input t) = None"
proof -
  obtain d1 where p: "prepareProfileDirectory (st_disk t) = (Inr (), d1)" "healthy d1" "profile_dir d1" "profiles_dir d1"
    using prepare_healthy [OF assms(1)] by blast
  have "prepareStateRoot (st_disk t) = (Inr (), st_disk t)"
    using assms(1) by (simp add: prepareStateRoot_def healthy_def)
  with p assms(2) open_healthy [OF p(2-4), of False] have a: "acquireOwnership False t = (Inr (), t\<lparr>st_disk := d1\<rparr>)"
    by (auto simp: acquireOwnership_def prepareLockDirectory_def healthy_def acquireOwnershipLock_def os_next_def)
  obtain d2 where w: "writeLocked True (imported entries) d1 = (Inr (), d2)" "healthy d2"
    using write_healthy [OF p(2)] by blast
  have "withPinnedStateLock both_pins True (\<lambda>pinned. writeLocked pinned (imported entries)) d1 = (Inr (), d2)"
    using pinned_healthy [of d1 "\<lambda>pinned. writeLocked pinned (imported entries)" "Inr ()" d2 True, OF p(2) w] by simp
  with a assms(3) w(2) show ?thesis
    by (simp add: Import_def imported_def healthy_def err_of_def join_errors_none)
qed

section \<open>The latch\<close>

lemma acquire_degraded: "st_degraded (snd (acquireOwnership reg s)) = st_degraded s"
  by (auto simp: acquireOwnership_def split: prod.splits sum.splits)

lemma Import_degraded: "st_degraded (snd (Import vs input s)) = st_degraded s"
  using acquire_degraded [of False s] by (auto simp: Import_def split: prod.splits sum.splits)

lemma Export_quiet: "st_degraded (snd (Export s)) = st_degraded s \<and> state_file (st_disk (snd (Export s))) = state_file (st_disk s)"
proof -
  obtain r d where run: "withStateLock (st_owned s) False (\<lambda>p. readLocked p) (st_disk s) = (r, d)"
    by (cases "withStateLock (st_owned s) False (\<lambda>p. readLocked p) (st_disk s)")
  have "widened read_rel (state_file (st_disk s)) r (state_file d)"
    by (rule io_satD [OF withStateLock_widened TrueI run]) (rule readLocked_sat)
  with run show ?thesis by (auto simp: Export_def widened_def read_rel_def quiet_def os_call_eq split: prod.splits sum.splits)
qed

lemma degraded_call:
  assumes "st_degraded s = Some e"
  shows "st_degraded (run_call c s) = Some e" and "\<not> is_import c \<Longrightarrow> state_file (st_disk (run_call c s)) = state_file (st_disk s)"
proof -
  have "st_degraded (run_call c s) = Some e \<and> (\<not> is_import c \<longrightarrow> state_file (st_disk (run_call c s)) = state_file (st_disk s))"
  proof (cases c)
    case (CallLoad n)
    then show ?thesis using assms Load_degraded Load_result(1) [of n s] by (metis prod.collapse run_call.simps(2))
  next
    case CallAcquire
    then show ?thesis using assms acquire_degraded acquire_quiet(1) [OF surjective_pairing] by simp
  qed (use assms Import_degraded Export_quiet in \<open>auto simp: Save_def Delete_def is_import_def split: option.splits\<close>)
  then show "st_degraded (run_call c s) = Some e" "\<not> is_import c \<Longrightarrow> state_file (st_disk (run_call c s)) = state_file (st_disk s)"
    by blast+
qed

lemma degraded_calls:
  assumes "st_degraded s = Some e"
  shows "st_degraded (run_calls cs s) = Some e" and "list_all (Not \<circ> is_import) cs \<Longrightarrow> state_file (st_disk (run_calls cs s)) = state_file (st_disk s)"
  using assms by (induction cs arbitrary: s) (simp_all add: degraded_call)

lemma Save_degrades:
  assumes "Save name (Some v) s = (Some e, s')" and "validateEntryName name = None"
  shows "st_degraded s' = Some e"
  using assms by (auto simp: Save_def markPersistenceDegraded_def err_of_def split: option.splits prod.splits sum.splits)

section \<open>Properties\<close>

text \<open>
  A save replaces the document atomically.  Whatever the operating system does at any of its calls,
  the state file afterwards is the old one and the call reports an error, or it decodes to the old
  document with exactly the entry \<open>name\<close> set to the value; a save that reports no error stored it.
\<close>

theorem Save_atomic:
  assumes "Save name value s = (err, s')"
  shows "(state_file (st_disk s') = state_file (st_disk s) \<and> err \<noteq> None) \<or>
    (\<exists>v doc. value = Some v \<and> doc_on_disk (st_disk s) = Inr doc \<and>
       doc_on_disk (st_disk s') = Inr (doc\<lparr>doc_entries := gm_set name v (doc_entries doc)\<rparr>))"
  using Save_update [OF assms] .

definition fresh_store :: "os_result list \<Rightarrow> store" where
  "fresh_store script = \<lparr>st_disk = \<lparr>tree = NoProfiles, read_only_access = False, read_only_fs = False,
     pinned_support = True, os_script = script\<rparr>, st_owned = False, st_degraded = None\<rparr>"

text \<open>The witness fails the last directory sync of the first save: the entry is stored, the call errs.\<close>

theorem Save_atomic_witness:
  "(let r = Save ''operations'' (Some (JInt 7)) (fresh_store (replicate 31 OsOk @ [OsFail]))
    in (state_file (st_disk (snd r)) = state_file (st_disk (fresh_store (replicate 31 OsOk @ [OsFail]))) \<and> fst r \<noteq> None) \<or>
       (\<exists>v doc. Some (JInt 7) = Some v \<and> doc_on_disk (st_disk (fresh_store (replicate 31 OsOk @ [OsFail]))) = Inr doc \<and>
          doc_on_disk (st_disk (snd r)) = Inr (doc\<lparr>doc_entries := gm_set ''operations'' v (doc_entries doc)\<rparr>)))"
  unfolding Let_def
  by (rule Save_atomic [of "''operations''" "Some (JInt 7)" "fresh_store (replicate 31 OsOk @ [OsFail])"]) simp

text \<open>
  C23: durability failures are sticky.  After a save of a valid entry name and a representable value
  reported an error, every later save and deletion of a valid name through the handle reports that same
  error, whatever saves, loads, deletions, exports, acquisitions and imports come in between, and without
  an import, which does not ask the latch, they leave the state file as it was.
\<close>

theorem failed_Save_is_sticky:
  assumes "Save name (Some v) s = (Some e, s1)" and "validateEntryName name = None"
  shows "\<forall>cs. (\<forall>n w. validateEntryName n = None \<longrightarrow>
      fst (Save n w (run_calls cs s1)) = Some e \<and> fst (Delete n (run_calls cs s1)) = Some e) \<and>
    (list_all (Not \<circ> is_import) cs \<longrightarrow> state_file (st_disk (run_calls cs s1)) = state_file (st_disk s1))"
  using degraded_calls [OF Save_degrades [OF assms]] by (simp add: Save_def Delete_def)

theorem failed_Save_is_sticky_witness:
  "state_file (st_disk (run_calls [CallDelete ''a'', CallExport] (snd (Save ''iam'' (Some JNull) (fresh_store [OsFail]))))) = None \<and>
   fst (Save ''b'' (Some JNull) (run_calls [CallDelete ''a'', CallExport] (snd (Save ''iam'' (Some JNull) (fresh_store [OsFail]))))) =
     Some (ErrOS ''pin state root for profile'')"
proof -
  let ?s = "snd (Save ''iam'' (Some JNull) (fresh_store [OsFail]))"
  have run: "Save ''iam'' (Some JNull) (fresh_store [OsFail]) = (Some (ErrOS ''pin state root for profile''), ?s)"
    by code_simp
  have n: "validateEntryName ''iam'' = None" "validateEntryName ''b'' = None" and none: "state_file (st_disk ?s) = None"
    by code_simp+
  have "list_all (Not \<circ> is_import) [CallDelete ''a'', CallExport]" by (simp add: is_import_def)
  with failed_Save_is_sticky [OF run n(1), rule_format, of "[CallDelete ''a'', CallExport]"] n(2) none show ?thesis by auto
qed

text \<open>
  C24: on a healthy disk whose document is readable, a save of a valid name succeeds, the following load
  answers exactly the saved value, and every other entry keeps what it held.
\<close>

theorem Save_Load_roundtrip:
  assumes "healthy (st_disk s)" and "st_degraded s = None" and "doc_on_disk (st_disk s) = Inr doc"
    and "validateEntryName name = None"
  shows "fst (Save name (Some v) s) = None \<and> fst (Load name (snd (Save name (Some v) s))) = Inr v \<and>
    (\<forall>n. n \<noteq> name \<longrightarrow> durable_entry n (snd (Save name (Some v) s)) = durable_entry n s)"
proof -
  let ?g = "\<lambda>doc. doc\<lparr>doc_entries := gm_set name v (doc_entries doc)\<rparr>"
  obtain d1 where run: "withMutationLock (st_owned s) (\<lambda>p. io_bind (readLocked p) (\<lambda>doc. writeLocked p (?g doc)))
      (st_disk s) = (Inr (), d1)" and h: "healthy d1"
    using update_healthy [OF assms(1,3), of "st_owned s" ?g] by blast
  then have save: "Save name (Some v) s = (None, s\<lparr>st_disk := d1\<rparr>)"
    using assms by (simp add: Save_def err_of_def markPersistenceDegraded_def)
  have stored: "durable_entry n (s\<lparr>st_disk := d1\<rparr>) = (if n = name then Some v else durable_entry n s)" for n
    using save by (cases rule: Save_cases) auto
  from stored [of name] obtain doc' where doc': "doc_on_disk d1 = Inr doc'" "gm_get (doc_entries doc') name = Some v"
    by (cases "doc_on_disk d1") (auto simp: durable_entry_def)
  have "\<exists>f. state_file d1 = Some f"
    using update_call [OF run] by (auto simp: update_rel_def)
  then have "fst (Load name (s\<lparr>st_disk := d1\<rparr>)) = Inr v"
    using assms(4) load_healthy [OF h doc'] written_dirs by (auto simp: Load_def split: sum.splits)
  with save stored show ?thesis by simp
qed

theorem Save_Load_roundtrip_witness:
  "fst (Save ''net/routes'' (Some (JStr ''x'')) (fresh_store [])) = None \<and>
   fst (Load ''net/routes'' (snd (Save ''net/routes'' (Some (JStr ''x'')) (fresh_store [])))) = Inr (JStr ''x'') \<and>
   durable_entry ''iam'' (snd (Save ''net/routes'' (Some (JStr ''x'')) (fresh_store []))) = durable_entry ''iam'' (fresh_store [])"
proof -
  have "healthy (st_disk (fresh_store []))" "st_degraded (fresh_store []) = None"
    "doc_on_disk (st_disk (fresh_store [])) = Inr emptyDocument" "validateEntryName ''net/routes'' = None"
    by code_simp+
  from Save_Load_roundtrip [OF this, of "JStr ''x''"] show ?thesis by simp
qed

text \<open>
  C25: an import is all or nothing and never touches a profile in use.  Either it reports an error and the
  state file is the old one, or the file holds exactly the snapshot's entries, every one of which has a
  valid name and passed its registered validator, this process did not own the profile and the ownership
  lock was granted.  When a process owns the profile, this one or another that makes the lock busy, the
  import of a valid snapshot changes nothing and reports that the profile is in use.
\<close>

theorem Import_all_or_nothing:
  assumes "Import vs input s = (err, s')"
  shows "((state_file (st_disk s') = state_file (st_disk s) \<and> err \<noteq> None) \<or>
     (\<exists>entries. check_snapshot vs input = Inr entries \<and> \<not> st_owned s \<and> ownership_answer (st_disk s) = Some OsOk \<and>
        doc_on_disk (st_disk s') = Inr (imported entries) \<and>
        (\<forall>(n, v) \<in> set entries. validateEntryName n = None \<and> (\<forall>ok. gm_get vs n = Some ok \<longrightarrow> ok v)))) \<and>
    (\<not> st_owned s \<and> ownership_answer (st_disk s) = Some OsBusy \<and> (\<exists>entries. check_snapshot vs input = Inr entries) \<longrightarrow>
       err = Some ErrProfileInUse \<and> state_file (st_disk s') = state_file (st_disk s))"
proof (rule conjI)
  show "(state_file (st_disk s') = state_file (st_disk s) \<and> err \<noteq> None) \<or>
     (\<exists>entries. check_snapshot vs input = Inr entries \<and> \<not> st_owned s \<and> ownership_answer (st_disk s) = Some OsOk \<and>
        doc_on_disk (st_disk s') = Inr (imported entries) \<and>
        (\<forall>(n, v) \<in> set entries. validateEntryName n = None \<and> (\<forall>ok. gm_get vs n = Some ok \<longrightarrow> ok v)))"
    using assms
  proof (cases rule: Import_cases)
    case (replaced entries)
    then show ?thesis using check_snapshot_entries(2) [OF replaced(1)] by (auto simp: validate_entries_all)
  qed simp
  show "\<not> st_owned s \<and> ownership_answer (st_disk s) = Some OsBusy \<and> (\<exists>entries. check_snapshot vs input = Inr entries) \<longrightarrow>
       err = Some ErrProfileInUse \<and> state_file (st_disk s') = state_file (st_disk s)"
  proof
    assume busy: "\<not> st_owned s \<and> ownership_answer (st_disk s) = Some OsBusy \<and> (\<exists>entries. check_snapshot vs input = Inr entries)"
    obtain r s1 where a: "acquireOwnership False s = (r, s1)" by fastforce
    with busy acquire_answer(2) [OF a] have "r = Inl ErrProfileInUse" by blast
    with assms a acquire_quiet(1) [OF a] busy show "err = Some ErrProfileInUse \<and> state_file (st_disk s') = state_file (st_disk s)"
      by (auto simp: Import_def)
  qed
qed

definition sample_snapshot :: raw_message where
  "sample_snapshot = Raw (encode_document \<lparr>doc_format = SnapshotFormat, doc_version = 1,
     doc_entries = [(''operations'', JInt 1), (''iam'', JNull)]\<rparr>)"

text \<open>A free profile is replaced; one whose lock is busy is not.\<close>

theorem Import_all_or_nothing_witness:
  "fst (Import [(''iam'', \<lambda>v. v = JNull)] sample_snapshot (fresh_store [])) = None \<and>
   doc_on_disk (st_disk (snd (Import [(''iam'', \<lambda>v. v = JNull)] sample_snapshot (fresh_store [])))) =
     Inr (imported [(''operations'', JInt 1), (''iam'', JNull)]) \<and>
   fst (Import [(''iam'', \<lambda>v. v = JNull)] sample_snapshot (fresh_store (replicate 17 OsOk @ [OsBusy]))) = Some ErrProfileInUse"
proof -
  let ?vs = "[(''iam'', \<lambda>v. v = JNull)]"
  have none: "fst (Import ?vs sample_snapshot (fresh_store [])) = None" by code_simp
  have entries: "check_snapshot ?vs sample_snapshot = Inr [(''operations'', JInt 1), (''iam'', JNull)]" by code_simp
  have busy: "\<not> st_owned (fresh_store (replicate 17 OsOk @ [OsBusy]))"
    "ownership_answer (st_disk (fresh_store (replicate 17 OsOk @ [OsBusy]))) = Some OsBusy" by code_simp+
  from Import_all_or_nothing [OF surjective_pairing, of ?vs sample_snapshot "fresh_store []"] none entries
    Import_all_or_nothing [OF surjective_pairing, of ?vs sample_snapshot "fresh_store (replicate 17 OsOk @ [OsBusy])"] busy
  show ?thesis by auto
qed

text \<open>
  A snapshot carries every entry.  What any export returns imports without error into any healthy
  profile nobody owns, provided the entries pass the validators registered there, and the importing
  profile then holds exactly the exported entries.
\<close>

theorem Export_Import_roundtrip:
  assumes "Export s = (Inr snap, s1)" and "doc_on_disk (st_disk s) = Inr doc"
    and "validate_entries vs (doc_entries doc) = None" and "healthy (st_disk t)" and "\<not> st_owned t"
  shows "fst (Import vs (Raw snap) t) = None \<and>
    (\<forall>n. durable_entry n (snd (Import vs (Raw snap) t)) = durable_entry n s)"
proof -
  have snap: "check_snapshot vs (Raw snap) = Inr (doc_entries doc)"
    using export_result [OF assms(1)] assms(2,3) check_exported by fastforce
  have ok: "fst (Import vs (Raw snap) t) = None" by (rule import_healthy [OF assms(4,5) snap])
  obtain err t' where run: "Import vs (Raw snap) t = (err, t')" by (cases "Import vs (Raw snap) t")
  from run ok have "err = None" by simp
  with run snap have "doc_on_disk (st_disk t') = Inr (imported (doc_entries doc))"
    by (cases rule: Import_cases) auto
  with run ok assms(2) show ?thesis by (auto simp: durable_entry_def imported_def)
qed

theorem Export_Import_roundtrip_witness:
  "\<exists>snap. fst (Export (snd (Save ''iam'' (Some (JInt 3)) (fresh_store [])))) = Inr snap \<and>
     fst (Import [] (Raw snap) (fresh_store [])) = None \<and>
     durable_entry ''iam'' (snd (Import [] (Raw snap) (fresh_store []))) =
       durable_entry ''iam'' (snd (Save ''iam'' (Some (JInt 3)) (fresh_store [])))"
proof -
  let ?s = "snd (Save ''iam'' (Some (JInt 3)) (fresh_store []))"
  let ?doc = "emptyDocument\<lparr>doc_entries := [(''iam'', JInt 3)]\<rparr>"
  have doc: "doc_on_disk (st_disk ?s) = Inr ?doc" by code_simp
  have "case fst (Export ?s) of Inr _ \<Rightarrow> True | Inl _ \<Rightarrow> False" by code_simp
  then obtain snap s1 where e: "Export ?s = (Inr snap, s1)" by (cases "Export ?s") (auto split: sum.splits)
  have v: "validate_entries [] (doc_entries ?doc) = None" by code_simp
  have h: "healthy (st_disk (fresh_store []))" "\<not> st_owned (fresh_store [])"
    by (simp_all add: fresh_store_def healthy_def)
  from Export_Import_roundtrip [OF e doc v h] e show ?thesis by auto
qed

text \<open>
  After an errored guarded save one durable readback settles what happened: the value it reads is
  the one on the disk, it is the attempted value or the one stored before, and the guard keeps refusing
  mutations with the save's error.
\<close>

theorem guarded_Save_readback:
  assumes "guarded_Save Save n (Some v) g = (Some e, g1)" and "g_degraded g = None" and "g_delegate g \<noteq> None"
    and "guarded_LoadDurable Load n g1 = (Inr (Some w), g2)"
  shows "guarded_durable durable_entry n g1 = Some w \<and> (w = v \<or> guarded_durable durable_entry n g = Some w) \<and>
    (\<forall>m x. guarded_Save Save m x g1 = (Some e, g1))"
  using disk_store.guarded_readback [OF assms] disk_store.guarded_latch(1) [of g1 e] by blast

definition guarded_sample :: "store guarded" where
  "guarded_sample = NewGuardedEntryStore (Some (fresh_store (replicate 33 OsOk @ [OsFail]))) None"

theorem guarded_Save_readback_witness:
  "\<exists>e g1 g2 w. guarded_Save Save ''iam'' (Some (JInt 1)) guarded_sample = (Some e, g1) \<and>
     guarded_LoadDurable Load ''iam'' g1 = (Inr (Some w), g2) \<and>
     guarded_durable durable_entry ''iam'' g1 = Some w \<and>
     (w = JInt 1 \<or> guarded_durable durable_entry ''iam'' guarded_sample = Some w) \<and>
     guarded_Save Save ''b'' None g1 = (Some e, g1)"
proof -
  let ?r = "guarded_Save Save ''iam'' (Some (JInt 1)) guarded_sample"
  have 1: "fst ?r \<noteq> None" by code_simp
  have 2: "fst (guarded_LoadDurable Load ''iam'' (snd ?r)) = Inr (Some (JInt 1))" by code_simp
  have 3: "g_degraded guarded_sample = None" "g_delegate guarded_sample \<noteq> None" by code_simp+
  from 1 obtain e g1 where r: "?r = (Some e, g1)" by (cases ?r) auto
  with 2 obtain g2 where l: "guarded_LoadDurable Load ''iam'' g1 = (Inr (Some (JInt 1)), g2)"
    by (cases "guarded_LoadDurable Load ''iam'' g1") auto
  from guarded_Save_readback [OF r 3 l] r l show ?thesis by blast
qed

end
