(* ===== verification/Operation_Model.thy ===== *)
theory Operation_Model
  imports Json Strconv
begin

text \<open>
  \<open>pkg/orchestrator/operations.go\<close>, the data: the long-running operation, its durable JSON form with
  the strict decoder, the scopes in resource and operation names, and the terminal candidate.  Values
  stand for the code's cloned pointers, so \<open>cloneOperation\<close> is the identity.
\<close>

section \<open>Operations\<close>

record operation =
  o_id :: string
  o_name :: string
  o_kind :: string
  o_type :: string
  o_status :: string
  o_target :: string
  o_progress :: int
  o_done :: bool
  o_insert :: string
  o_start :: string
  o_end :: string
  o_metadata :: json
  o_error :: "(int \<times> string) option"
  o_zone :: string
  o_region :: string
  o_service :: string
  o_project :: string
  o_location :: string
  o_response :: raw_message

definition StatusPending :: string where "StatusPending = ''PENDING''"
definition StatusRunning :: string where "StatusRunning = ''RUNNING''"
definition StatusDone :: string where "StatusDone = ''DONE''"

lemmas status_defs = StatusPending_def StatusRunning_def StatusDone_def

definition zero_operation :: operation where
  "zero_operation = \<lparr>o_id = [], o_name = [], o_kind = [], o_type = [], o_status = [], o_target = [],
     o_progress = 0, o_done = False, o_insert = [], o_start = [], o_end = [], o_metadata = JNull,
     o_error = None, o_zone = [], o_region = [], o_service = [], o_project = [], o_location = [],
     o_response = RawNil\<rparr>"

text \<open>The code asks \<open>Done || Status == StatusDone\<close> wherever it asks for a terminal operation.\<close>

definition terminal :: "operation \<Rightarrow> bool" where
  "terminal op \<longleftrightarrow> o_done op \<or> o_status op = StatusDone"

section \<open>The durable form\<close>

definition operation_fields :: "string list" where
  "operation_fields = [''id'', ''name'', ''kind'', ''operationType'', ''status'', ''targetLink'', ''progress'',
     ''done'', ''insertTime'', ''startTime'', ''endTime'', ''metadata'', ''error'', ''zone'', ''region'',
     ''serviceKind'', ''project'', ''location'', ''response'']"

definition encode_error :: "int \<times> string \<Rightarrow> json" where
  "encode_error e = JObj [(''code'', JInt (fst e)), (''message'', JStr (snd e))]"

definition metadata_member :: "json \<Rightarrow> (string \<times> json) list" where
  "metadata_member v = (if v = JNull then [] else [(''metadata'', v)])"

definition error_member :: "(int \<times> string) option \<Rightarrow> (string \<times> json) list" where
  "error_member e = (case e of None \<Rightarrow> [] | Some e \<Rightarrow> [(''error'', encode_error e)])"

definition response_member :: "raw_message \<Rightarrow> (string \<times> json) list" where
  "response_member r = (case r of Raw v \<Rightarrow> [(''response'', v)] | _ \<Rightarrow> [])"

text \<open>\<open>json.Marshal\<close> fails exactly when the raw response is not one JSON value.\<close>

definition encode_operation :: "operation \<Rightarrow> json option" where
  "encode_operation op =
     (if o_response op = RawBad then None else Some (JObj (
        [(''id'', JStr (o_id op)), (''name'', JStr (o_name op)), (''kind'', JStr (o_kind op)),
         (''operationType'', JStr (o_type op)), (''status'', JStr (o_status op))] @
        omit_str ''targetLink'' (o_target op) @
        [(''progress'', JInt (o_progress op)), (''done'', JBool (o_done op))] @
        omit_str ''insertTime'' (o_insert op) @ omit_str ''startTime'' (o_start op) @
        omit_str ''endTime'' (o_end op) @ metadata_member (o_metadata op) @ error_member (o_error op) @
        omit_str ''zone'' (o_zone op) @ omit_str ''region'' (o_region op) @
        omit_str ''serviceKind'' (o_service op) @ omit_str ''project'' (o_project op) @
        omit_str ''location'' (o_location op) @ response_member (o_response op))))"

definition dec_error_member :: "string \<Rightarrow> json \<Rightarrow> int \<times> string \<Rightarrow> json_error + int \<times> string" where
  "dec_error_member k v e =
     (case match_field [''code'', ''message''] k of
        None \<Rightarrow> Inl (UnknownField k)
      | Some f \<Rightarrow>
          if f = ''code'' then (case dec_int v (fst e) of Inl x \<Rightarrow> Inl x | Inr i \<Rightarrow> Inr (i, snd e))
          else (case dec_string v (snd e) of Inl x \<Rightarrow> Inl x | Inr s \<Rightarrow> Inr (fst e, s)))"

text \<open>A \<open>null\<close> clears the pointer; an object is decoded into the error it points to already.\<close>

definition dec_error :: "json \<Rightarrow> (int \<times> string) option \<Rightarrow> json_error + (int \<times> string) option" where
  "dec_error v cur =
     (case v of
        JNull \<Rightarrow> Inr None
      | JObj kvs \<Rightarrow>
          (case decode_members dec_error_member kvs (case cur of Some e \<Rightarrow> e | None \<Rightarrow> (0, [])) of
             Inl x \<Rightarrow> Inl x | Inr e \<Rightarrow> Inr (Some e))
      | _ \<Rightarrow> Inl (TypeMismatch ''error''))"

definition set_str :: "json \<Rightarrow> string \<Rightarrow> (string \<Rightarrow> operation) \<Rightarrow> json_error + operation" where
  "set_str v cur upd = (case dec_string v cur of Inl e \<Rightarrow> Inl e | Inr s \<Rightarrow> Inr (upd s))"

definition dec_operation_member :: "string \<Rightarrow> json \<Rightarrow> operation \<Rightarrow> json_error + operation" where
  "dec_operation_member k v op =
     (case match_field operation_fields k of
        None \<Rightarrow> Inl (UnknownField k)
      | Some f \<Rightarrow>
          if f = ''id'' then set_str v (o_id op) (\<lambda>s. op\<lparr>o_id := s\<rparr>)
          else if f = ''name'' then set_str v (o_name op) (\<lambda>s. op\<lparr>o_name := s\<rparr>)
          else if f = ''kind'' then set_str v (o_kind op) (\<lambda>s. op\<lparr>o_kind := s\<rparr>)
          else if f = ''operationType'' then set_str v (o_type op) (\<lambda>s. op\<lparr>o_type := s\<rparr>)
          else if f = ''status'' then set_str v (o_status op) (\<lambda>s. op\<lparr>o_status := s\<rparr>)
          else if f = ''targetLink'' then set_str v (o_target op) (\<lambda>s. op\<lparr>o_target := s\<rparr>)
          else if f = ''progress'' then
            (case dec_int v (o_progress op) of Inl e \<Rightarrow> Inl e | Inr i \<Rightarrow> Inr (op\<lparr>o_progress := i\<rparr>))
          else if f = ''done'' then
            (case dec_bool v (o_done op) of Inl e \<Rightarrow> Inl e | Inr b \<Rightarrow> Inr (op\<lparr>o_done := b\<rparr>))
          else if f = ''insertTime'' then set_str v (o_insert op) (\<lambda>s. op\<lparr>o_insert := s\<rparr>)
          else if f = ''startTime'' then set_str v (o_start op) (\<lambda>s. op\<lparr>o_start := s\<rparr>)
          else if f = ''endTime'' then set_str v (o_end op) (\<lambda>s. op\<lparr>o_end := s\<rparr>)
          else if f = ''metadata'' then Inr (op\<lparr>o_metadata := jcanon v\<rparr>)
          else if f = ''error'' then
            (case dec_error v (o_error op) of Inl e \<Rightarrow> Inl e | Inr e \<Rightarrow> Inr (op\<lparr>o_error := e\<rparr>))
          else if f = ''zone'' then set_str v (o_zone op) (\<lambda>s. op\<lparr>o_zone := s\<rparr>)
          else if f = ''region'' then set_str v (o_region op) (\<lambda>s. op\<lparr>o_region := s\<rparr>)
          else if f = ''serviceKind'' then set_str v (o_service op) (\<lambda>s. op\<lparr>o_service := s\<rparr>)
          else if f = ''project'' then set_str v (o_project op) (\<lambda>s. op\<lparr>o_project := s\<rparr>)
          else if f = ''location'' then set_str v (o_location op) (\<lambda>s. op\<lparr>o_location := s\<rparr>)
          else Inr (op\<lparr>o_response := Raw v\<rparr>))"

definition decode_operation :: "json \<Rightarrow> json_error + operation" where
  "decode_operation v =
     (case v of
        JObj kvs \<Rightarrow> decode_members dec_operation_member kvs zero_operation
      | JNull \<Rightarrow> Inr zero_operation
      | _ \<Rightarrow> Inl (TypeMismatch ''operation''))"

text \<open>What the fields of an operation the process holds satisfy: Go's \<open>int\<close> is 64 bits wide, the
  metadata is a decoded value.\<close>

definition error_wf :: "(int \<times> string) option \<Rightarrow> bool" where
  "error_wf err = (case err of None \<Rightarrow> True | Some e \<Rightarrow> int64_range (fst e))"

lemma error_wf_simps [simp]: "error_wf None" "error_wf (Some e) = int64_range (fst e)"
  by (simp_all add: error_wf_def)

definition op_wf :: "operation \<Rightarrow> bool" where
  "op_wf op \<longleftrightarrow> int64_range (o_progress op) \<and> error_wf (o_error op) \<and>
     jcanon (o_metadata op) = o_metadata op"

lemma int64_small [simp]: "int64_range 0" "int64_range 100" "int64_range 13" "int64_range 500"
  by (simp_all add: int64_range_def)

lemma op_wf_zero [simp]: "op_wf zero_operation"
  by (simp add: op_wf_def zero_operation_def)

named_theorems dec_field \<open>how each member of the durable form decodes\<close>

lemmas dec_defs = dec_operation_member_def operation_fields_def set_str_def omit_str_def

lemma dec_always [dec_field]:
  "dec_operation_member ''id'' (JStr s) op = Inr (op\<lparr>o_id := s\<rparr>)"
  "dec_operation_member ''name'' (JStr s) op = Inr (op\<lparr>o_name := s\<rparr>)"
  "dec_operation_member ''kind'' (JStr s) op = Inr (op\<lparr>o_kind := s\<rparr>)"
  "dec_operation_member ''operationType'' (JStr s) op = Inr (op\<lparr>o_type := s\<rparr>)"
  "dec_operation_member ''status'' (JStr s) op = Inr (op\<lparr>o_status := s\<rparr>)"
  "dec_operation_member ''done'' (JBool b) op = Inr (op\<lparr>o_done := b\<rparr>)"
  "int64_range i \<Longrightarrow> dec_operation_member ''progress'' (JInt i) op = Inr (op\<lparr>o_progress := i\<rparr>)"
  by (simp_all add: dec_defs)

lemma dec_omitted [dec_field]:
  "o_target op = [] \<Longrightarrow> decode_members dec_operation_member (omit_str ''targetLink'' s) op = Inr (op\<lparr>o_target := s\<rparr>)"
  "o_insert op = [] \<Longrightarrow> decode_members dec_operation_member (omit_str ''insertTime'' s) op = Inr (op\<lparr>o_insert := s\<rparr>)"
  "o_start op = [] \<Longrightarrow> decode_members dec_operation_member (omit_str ''startTime'' s) op = Inr (op\<lparr>o_start := s\<rparr>)"
  "o_end op = [] \<Longrightarrow> decode_members dec_operation_member (omit_str ''endTime'' s) op = Inr (op\<lparr>o_end := s\<rparr>)"
  "o_zone op = [] \<Longrightarrow> decode_members dec_operation_member (omit_str ''zone'' s) op = Inr (op\<lparr>o_zone := s\<rparr>)"
  "o_region op = [] \<Longrightarrow> decode_members dec_operation_member (omit_str ''region'' s) op = Inr (op\<lparr>o_region := s\<rparr>)"
  "o_service op = [] \<Longrightarrow> decode_members dec_operation_member (omit_str ''serviceKind'' s) op = Inr (op\<lparr>o_service := s\<rparr>)"
  "o_project op = [] \<Longrightarrow> decode_members dec_operation_member (omit_str ''project'' s) op = Inr (op\<lparr>o_project := s\<rparr>)"
  "o_location op = [] \<Longrightarrow> decode_members dec_operation_member (omit_str ''location'' s) op = Inr (op\<lparr>o_location := s\<rparr>)"
  by (simp_all add: dec_defs)

lemma dec_metadata [dec_field]:
  "o_metadata op = JNull \<Longrightarrow> jcanon v = v \<Longrightarrow>
     decode_members dec_operation_member (metadata_member v) op = Inr (op\<lparr>o_metadata := v\<rparr>)"
  by (simp add: dec_defs metadata_member_def)

lemma dec_encode_error [simp]: "int64_range (fst e) \<Longrightarrow> dec_error (encode_error e) None = Inr (Some e)"
  by (cases e) (simp add: dec_error_def encode_error_def dec_error_member_def)

lemma dec_error_field [dec_field]:
  "o_error op = None \<Longrightarrow> error_wf err \<Longrightarrow>
     decode_members dec_operation_member (error_member err) op = Inr (op\<lparr>o_error := err\<rparr>)"
  by (cases err) (simp_all add: dec_defs error_member_def)

lemma dec_response [dec_field]:
  "o_response op = RawNil \<Longrightarrow> r \<noteq> RawBad \<Longrightarrow>
     decode_members dec_operation_member (response_member r) op = Inr (op\<lparr>o_response := r\<rparr>)"
  by (cases r) (simp_all add: dec_defs response_member_def)

lemma decode_encode_operation:
  assumes "op_wf op" and "encode_operation op = Some v"
  shows "decode_operation v = Inr op"
proof -
  from assms(2) have bad: "o_response op \<noteq> RawBad" by (auto simp: encode_operation_def split: if_splits)
  from assms(1) have "int64_range (o_progress op)" "error_wf (o_error op)"
      "jcanon (o_metadata op) = o_metadata op" by (simp_all add: op_wf_def)
  then show ?thesis
    using assms(2) bad
    by (auto simp: encode_operation_def decode_operation_def decode_members_append dec_field zero_operation_def)
qed

lemma dec_error_wf: "dec_error v cur = Inr err \<Longrightarrow> error_wf cur \<Longrightarrow> error_wf err"
proof -
  have member: "dec_error_member k v a = Inr b \<Longrightarrow> int64_range (fst a) \<Longrightarrow> int64_range (fst b)" for k v a b
    by (auto simp: dec_error_member_def dest: dec_int_range split: option.splits if_splits sum.splits)
  have all: "decode_members dec_error_member kvs a = Inr b \<Longrightarrow> int64_range (fst a) \<Longrightarrow> int64_range (fst b)" for kvs a b
    by (rule decode_members_inv [where P = "\<lambda>e. int64_range (fst e)", OF member])
  assume "dec_error v cur = Inr err" and "error_wf cur"
  then show "error_wf err"
    by (fastforce simp: dec_error_def split: json.splits sum.splits option.splits dest: all)
qed

lemma set_str_wf: "set_str v cur upd = Inr op' \<Longrightarrow> (\<And>s. op_wf (upd s)) \<Longrightarrow> op_wf op'"
  by (auto simp: set_str_def split: sum.splits)

lemma dec_operation_member_wf:
  assumes "dec_operation_member k v op = Inr op'" and "op_wf op"
  shows "op_wf op'"
proof -
  obtain f where "match_field operation_fields k = Some f"
    using assms(1) by (auto simp: dec_operation_member_def split: option.splits)
  with assms show ?thesis
    unfolding dec_operation_member_def
    by (auto simp: op_wf_def dest: dec_int_range dec_error_wf intro: set_str_wf [unfolded op_wf_def]
        elim!: set_str_wf [unfolded op_wf_def] split: if_splits sum.splits)
qed

lemma decode_operation_wf: "decode_operation v = Inr op \<Longrightarrow> op_wf op"
  using decode_members_inv [where P = op_wf, OF dec_operation_member_wf] op_wf_zero
  by (auto simp: decode_operation_def split: json.splits)

end
