(* ===== verification/Operation_Scope.thy ===== *)
theory Operation_Scope
  imports Operation_Model
begin

text \<open>
  \<open>pkg/orchestrator/operations.go\<close>, the pure functions: operation names and the scopes they carry, the
  canonical RPC codes, the terminal candidate with its typed response, and the service-specific rendering
  of an operation.
\<close>

section \<open>Names and scopes\<close>

text \<open>What the code draws from the clock and the random source when it needs a new operation.\<close>

record draw =
  draw_now :: string
  draw_unix :: nat
  draw_suffix :: "nat list"
  draw_id :: nat

definition suffix_letters :: string where
  "suffix_letters = ''abcdefghijklmnopqrstuvwxyz0123456789''"

definition randomSuffix :: "nat list \<Rightarrow> string" where
  "randomSuffix rs = map (\<lambda>r. suffix_letters ! (r mod 36)) rs"

definition operationID :: "draw \<Rightarrow> string" where
  "operationID e = ''operation-'' @ dec_nat (draw_unix e) @ ''-'' @ randomSuffix (draw_suffix e)"

definition canonicalOperationName :: "draw \<Rightarrow> string \<Rightarrow> string \<Rightarrow> string" where
  "canonicalOperationName e project location =
     (if project \<noteq> [] \<and> location \<noteq> [] then
        ''projects/'' @ project @ ''/locations/'' @ location @ ''/operations/'' @ operationID e
      else if project \<noteq> [] then ''projects/'' @ project @ ''/operations/'' @ operationID e
      else ''operations/'' @ operationID e)"

text \<open>The text before and after the last slash.\<close>

definition splitOperationName :: "string \<Rightarrow> string \<times> string" where
  "splitOperationName name =
     (if CHR ''/'' \<in> set name
      then (let i = rev (takeWhile (\<lambda>c. c \<noteq> CHR ''/'') (rev name))
            in (take (length name - length i - 1) name, i))
      else ([], name))"

definition scope_step :: "string \<Rightarrow> string \<Rightarrow> string \<times> string \<Rightarrow> string \<times> string" where
  "scope_step part following acc =
     (if part = ''projects'' then (following, snd acc)
      else if part = ''locations'' \<or> part = ''regions'' \<or> part = ''zones'' then (fst acc, following)
      else acc)"

fun parent_scope_loop :: "string list \<Rightarrow> string \<times> string \<Rightarrow> string \<times> string" where
  "parent_scope_loop (part # following # rest) acc = parent_scope_loop (following # rest) (scope_step part following acc)"
| "parent_scope_loop _ acc = acc"

definition resourceParentScope :: "string \<Rightarrow> string \<times> string" where
  "resourceParentScope resource = parent_scope_loop (split (CHR ''/'') (trim_chars resource ''/'')) ([], [])"

definition operationPathScope :: "string \<Rightarrow> string \<times> string \<times> string" where
  "operationPathScope path0 =
     (let path = trim_prefix path0 ''/'' in
      if path = [] \<or> has_suffix path ''/'' then ([], [], [])
      else let parts = split (CHR ''/'') path in
      if [] \<in> set parts then ([], [], [])
      else let parts = (if parts \<noteq> [] \<and> hd parts \<noteq> ''projects'' \<and> hd parts \<noteq> ''locations'' \<and> hd parts \<noteq> ''operations''
                        then tl parts else parts) in
      (case parts of
         [a, p, b, l, c, i] \<Rightarrow>
           if a = ''projects'' \<and> (b = ''locations'' \<or> b = ''regions'' \<or> b = ''zones'') \<and> c = ''operations''
           then (join ''/'' parts, p, l) else ([], [], [])
       | [a, p, c, i] \<Rightarrow>
           if a = ''projects'' \<and> c = ''operations'' then (join ''/'' parts, p, [])
           else if a = ''locations'' \<and> c = ''operations'' then (join ''/'' [c, i], [], p)
           else ([], [], [])
       | [a, i] \<Rightarrow> if a = ''operations'' then (join ''/'' parts, [], []) else ([], [], [])
       | _ \<Rightarrow> ([], [], [])))"

section \<open>Terminal results\<close>

definition interruptedOperationMessage :: string where
  "interruptedOperationMessage = ''operation interrupted by MiniSky restart; side effects were not replayed''"

definition isInterruptedOperation :: "operation \<Rightarrow> bool" where
  "isInterruptedOperation op \<longleftrightarrow>
     (case o_error op of Some (_, message) \<Rightarrow> message = interruptedOperationMessage | None \<Rightarrow> False)"

definition isScopedOperation :: "operation \<Rightarrow> bool" where
  "isScopedOperation op \<longleftrightarrow> contains (o_name op) ''/operations/'' \<and> o_service op \<noteq> []"

definition rpc_table :: "(int \<times> int) list" where
  "rpc_table = [(400, 3), (401, 16), (403, 7), (404, 5), (409, 6), (412, 9), (429, 8), (499, 1), (501, 12),
     (503, 14), (504, 4)]"

definition canonicalRPCCode :: "int \<Rightarrow> int" where
  "canonicalRPCCode code =
     (if 0 \<le> code \<and> code \<le> 16 then code else (case map_of rpc_table code of Some c \<Rightarrow> c | None \<Rightarrow> 13))"

definition operationMetadataType :: "string \<Rightarrow> string" where
  "operationMetadataType serviceKind =
     (case map_of
       [(''accesscontextmanager#operation'', ''type.googleapis.com/google.identity.accesscontextmanager.v1.OperationMetadata''),
        (''alloydb#operation'', ''type.googleapis.com/google.cloud.alloydb.v1.OperationMetadata''),
        (''apigateway#operation'', ''type.googleapis.com/google.cloud.apigateway.v1.OperationMetadata''),
        (''batch#operation'', ''type.googleapis.com/google.cloud.batch.v1.OperationMetadata''),
        (''clouddeploy#operation'', ''type.googleapis.com/google.cloud.deploy.v1.OperationMetadata''),
        (''composer#operation'', ''type.googleapis.com/google.cloud.orchestration.airflow.service.v1.OperationMetadata''),
        (''documentai#operation'', ''type.googleapis.com/google.cloud.documentai.v1.CommonOperationMetadata''),
        (''eventarc#operation'', ''type.googleapis.com/google.cloud.eventarc.v1.OperationMetadata''),
        (''file#operation'', ''type.googleapis.com/google.cloud.common.OperationMetadata''),
        (''filestore#operation'', ''type.googleapis.com/google.cloud.common.OperationMetadata''),
        (''managedkafka#operation'', ''type.googleapis.com/google.cloud.managedkafka.v1.OperationMetadata''),
        (''networksecurity#operation'', ''type.googleapis.com/google.cloud.networksecurity.v1.OperationMetadata''),
        (''servicemesh#operation'', ''type.googleapis.com/google.cloud.servicemesh.v1.OperationMetadata''),
        (''workflows#operation'', ''type.googleapis.com/google.cloud.workflows.v1.OperationMetadata'')] serviceKind of
        Some t \<Rightarrow> t | None \<Rightarrow> [])"

definition emptyType :: string where
  "emptyType = ''type.googleapis.com/google.protobuf.Empty''"

definition response_collections :: "(string \<times> string \<times> string) list" where
  "response_collections =
     [(''accesscontextmanager#operation'', ''/accessPolicies/'', ''type.googleapis.com/google.identity.accesscontextmanager.v1.AccessPolicy''),
      (''accesscontextmanager#operation'', ''/servicePerimeters/'', ''type.googleapis.com/google.identity.accesscontextmanager.v1.ServicePerimeter''),
      (''accesscontextmanager#operation'', ''/accessLevels/'', ''type.googleapis.com/google.identity.accesscontextmanager.v1.AccessLevel''),
      (''apigateway#operation'', ''/gateways/'', ''type.googleapis.com/google.cloud.apigateway.v1.Gateway''),
      (''apigateway#operation'', ''/configs/'', ''type.googleapis.com/google.cloud.apigateway.v1.ApiConfig''),
      (''apigateway#operation'', ''/apis/'', ''type.googleapis.com/google.cloud.apigateway.v1.Api''),
      (''clouddeploy#operation'', ''/deliveryPipelines/'', ''type.googleapis.com/google.cloud.deploy.v1.DeliveryPipeline''),
      (''clouddeploy#operation'', ''/releases/'', ''type.googleapis.com/google.cloud.deploy.v1.Release''),
      (''clouddeploy#operation'', ''/rollouts/'', ''type.googleapis.com/google.cloud.deploy.v1.Rollout''),
      (''workflows#operation'', ''/workflows/'', ''type.googleapis.com/google.cloud.workflows.v1.Workflow''),
      (''eventarc#operation'', ''/triggers/'', ''type.googleapis.com/google.cloud.eventarc.v1.Trigger''),
      (''eventarc#operation'', ''/channels/'', ''type.googleapis.com/google.cloud.eventarc.v1.Channel''),
      (''file#operation'', ''/instances/'', ''type.googleapis.com/google.cloud.filestore.v1.Instance''),
      (''filestore#operation'', ''/instances/'', ''type.googleapis.com/google.cloud.filestore.v1.Instance''),
      (''composer#operation'', ''/environments/'', ''type.googleapis.com/google.cloud.orchestration.airflow.service.v1.Environment''),
      (''alloydb#operation'', ''/instances/'', ''type.googleapis.com/google.cloud.alloydb.v1.Instance''),
      (''alloydb#operation'', ''/clusters/'', ''type.googleapis.com/google.cloud.alloydb.v1.Cluster''),
      (''documentai#operation'', ''/processors/'', ''type.googleapis.com/google.cloud.documentai.v1.Processor''),
      (''managedkafka#operation'', ''/topics/'', ''type.googleapis.com/google.cloud.managedkafka.v1.Topic''),
      (''managedkafka#operation'', ''/clusters/'', ''type.googleapis.com/google.cloud.managedkafka.v1.Cluster''),
      (''networksecurity#operation'', ''/authorizationPolicies/'', ''type.googleapis.com/google.cloud.networksecurity.v1.AuthorizationPolicy''),
      (''networksecurity#operation'', ''/serverTlsPolicies/'', ''type.googleapis.com/google.cloud.networksecurity.v1.ServerTlsPolicy''),
      (''servicemesh#operation'', ''/meshes/'', ''type.googleapis.com/google.cloud.servicemesh.v1.Mesh''),
      (''batch#operation'', ''/jobs/'', ''type.googleapis.com/google.cloud.batch.v1.Job'')]"

definition operationResponseType :: "operation \<Rightarrow> string" where
  "operationResponseType op =
     (if equal_fold (o_type op) ''delete'' then emptyType
      else let target = ''/'' @ trim_chars (o_target op) ''/'' @ ''/'' in
      (case List.find (\<lambda>(kind, segment, typeURL). kind = o_service op \<and> contains target segment) response_collections of
         Some (_, _, typeURL) \<Rightarrow> typeURL | None \<Rightarrow> []))"

text \<open>
  Decoding into \<open>map[string]any\<close> without \<open>UseNumber\<close> makes every number a \<open>float64\<close>: an integer is rounded
  to 53 bits, ties to even.  Other literals are taken to be in the form the encoder writes.
\<close>

fun bit_length :: "nat \<Rightarrow> nat" where
  "bit_length n = (if n = 0 then 0 else Suc (bit_length (n div 2)))"

declare bit_length.simps [simp del]

definition round53 :: "nat \<Rightarrow> nat" where
  "round53 n =
     (let e = bit_length n - 53; unit = 2 ^ e; q = n div unit; r = n mod unit
      in if e = 0 then n
         else (if 2 * r > unit \<or> (2 * r = unit \<and> odd q) then q + 1 else q) * unit)"

fun float_json :: "json \<Rightarrow> json" where
  "float_json (JInt i) = JInt (if i < 0 then - int (round53 (nat (- i))) else int (round53 (nat i)))"
| "float_json (JArr vs) = JArr (map float_json vs)"
| "float_json (JObj kvs) = JObj (map (\<lambda>(k, v). (k, float_json v)) kvs)"
| "float_json v = v"

text \<open>
  The response map: \<open>json.Unmarshal\<close> of \<open>null\<close> makes the map nil, of anything else that is no object
  it fails and leaves the empty map.  \<open>None\<close> is the nil map.
\<close>

definition response_map :: "raw_message \<Rightarrow> json gomap option" where
  "response_map r =
     (case r of
        Raw JNull \<Rightarrow> None
      | Raw (JObj kvs) \<Rightarrow> Some (map_of_members (map (\<lambda>(k, v). (k, jcanon (float_json v))) kvs))
      | _ \<Rightarrow> Some [])"

text \<open>\<open>None\<close> is the panic of the assignment into a nil map.\<close>

definition ensureScopedTerminalResponse :: "operation \<Rightarrow> operation option" where
  "ensureScopedTerminalResponse op =
     (if \<not> isScopedOperation op \<or> o_error op \<noteq> None then Some op
      else let typeURL = operationResponseType op in
      if typeURL = [] then Some op
      else (case response_map (o_response op) of
              None \<Rightarrow> None
            | Some m \<Rightarrow>
                let m1 = gm_set ''@type'' (JStr typeURL) m;
                    m2 = (if typeURL \<noteq> emptyType \<and> o_target op \<noteq> [] \<and> gm_get m1 ''name'' = None
                          then gm_set ''name'' (JStr (o_target op)) m1 else m1)
                in Some (op\<lparr>o_response := Raw (JObj (sort_members m2))\<rparr>)))"

definition terminalOperationCandidate ::
  "string \<Rightarrow> operation \<Rightarrow> raw_message \<Rightarrow> int \<Rightarrow> string \<Rightarrow> operation option" where
  "terminalOperationCandidate now current response code message =
     (let candidate = current\<lparr>o_status := StatusDone, o_done := True, o_progress := 100, o_end := now\<rparr> in
      if code \<noteq> 0 then
        Some (candidate\<lparr>o_error := Some (if isScopedOperation candidate then canonicalRPCCode code else code, message),
                        o_response := RawNil\<rparr>)
      else ensureScopedTerminalResponse (candidate\<lparr>o_error := None, o_response := response\<rparr>))"

definition interruptOperation :: "string \<Rightarrow> operation \<Rightarrow> operation" where
  "interruptOperation now op =
     op\<lparr>o_status := StatusDone, o_done := True, o_progress := 100, o_end := now,
        o_error := Some (if isScopedOperation op then canonicalRPCCode 500 else 500, interruptedOperationMessage)\<rparr>"

text \<open>Equality of two raw results: an unreadable one is an error.\<close>

definition exactJSONEqual :: "raw_message \<Rightarrow> raw_message \<Rightarrow> json_error + bool" where
  "exactJSONEqual left right =
     (case raw_decode left of Inl e \<Rightarrow> Inl e | Inr l \<Rightarrow>
      case raw_decode right of Inl e \<Rightarrow> Inl e | Inr r \<Rightarrow>
      Inr (map_option jcanon l = map_option jcanon r))"

definition terminalResultsEqual :: "operation \<Rightarrow> operation \<Rightarrow> json_error + bool" where
  "terminalResultsEqual left right =
     (if o_error left \<noteq> o_error right then Inr False
      else if o_response left = RawNil \<or> o_response right = RawNil
        then Inr (o_response left = RawNil \<and> o_response right = RawNil)
      else exactJSONEqual (o_response left) (o_response right))"

section \<open>Rendering\<close>

definition ScopedOperationResponse :: "operation \<Rightarrow> json gomap" where
  "ScopedOperationResponse op =
     (let metadata = [(''serviceKind'', JStr (o_service op)), (''project'', JStr (o_project op)),
            (''location'', JStr (o_location op)), (''target'', JStr (o_target op)), (''verb'', JStr (o_type op))];
          typeURL = operationMetadataType (o_service op);
          metadata = (if typeURL \<noteq> [] then gm_set ''@type'' (JStr typeURL) metadata else metadata);
          response = [(''name'', JStr (o_name op)), (''done'', JBool (o_done op)), (''metadata'', JObj metadata)];
          response = (case o_error op of
             Some e \<Rightarrow> if o_done op then gm_set ''error'' (encode_error e) response else response
           | None \<Rightarrow> response)
      in if o_done op \<and> o_error op = None \<and> o_response op \<noteq> RawNil
         then (case o_response op of Raw v \<Rightarrow> gm_set ''response'' (jcanon (float_json v)) response | _ \<Rightarrow> response)
         else response)"

end
