(* ===== verification/Operation_Manager.thy ===== *)
theory Operation_Manager
  imports Operation_Scope Entry_Store
begin

text \<open>
  \<open>pkg/orchestrator/operations.go\<close>, the manager: the registry of operations over any entry store.  Each
  exported method runs under \<open>persistMu\<close> and is one transition; the store is reached only through its two
  calls, passed as a record, so that the laws of the entry-store contract carry the proofs.
\<close>

section \<open>State and errors\<close>

record 's entry_api =
  api_save :: "string \<Rightarrow> json option \<Rightarrow> 's \<Rightarrow> store_error option \<times> 's"
  api_load :: "string \<Rightarrow> 's \<Rightarrow> (store_error + json) \<times> 's"

datatype op_error =
    OpNotFound
  | OpTerminalConflict string
  | OpBarrier string
  | OpScopeRequired
  | OpMarshal
  | OpSaveFailed store_error
  | OpLoadFailed store_error
  | OpDecode json_error
  | OpDecodeEntry string json_error
  | OpNoReadback
  | OpUnreadableResult json_error
  | OpDegraded op_error
  | OpTerminalDegraded op_error "op_error option"
  | OpCompensate op_error op_error "op_error option"
  | OpRollback string op_error "op_error option"
  | OpRemove string op_error "op_error option"
  | OpNonTerminal string
  | OpNormalize json_error
  | OpPanic

record terminal_observer =
  ob_id :: nat
  ob_pending :: "operation option"
  ob_active :: bool
  ob_wakeup :: bool

text \<open>\<open>om_observers\<close> lists the registered observers in \<open>observerOrder\<close>.\<close>

record 's manager =
  om_ops :: "operation gomap"
  om_store :: "'s option"
  om_persistence_error :: "op_error option"
  om_observers :: "terminal_observer list"
  om_next_observer :: nat

definition NewOperationManager :: "'s manager" where
  "NewOperationManager = \<lparr>om_ops = [], om_store = None, om_persistence_error = None, om_observers = [],
     om_next_observer = 0\<rparr>"

definition operationStateEntry :: string where
  "operationStateEntry = ''orchestrator/operations''"

section \<open>Snapshots\<close>

text \<open>\<open>json.Marshal\<close> of the operation map: members sorted by name, one unreadable response fails it all.\<close>

fun encode_entries :: "operation gomap \<Rightarrow> json gomap option" where
  "encode_entries [] = Some []"
| "encode_entries ((n, op) # rest) =
     (case encode_operation op of None \<Rightarrow> None | Some v \<Rightarrow>
      case encode_entries rest of None \<Rightarrow> None | Some kvs \<Rightarrow> Some ((n, v) # kvs))"

definition encode_snapshot :: "operation gomap \<Rightarrow> json option" where
  "encode_snapshot m = map_option JObj (encode_entries (sort_members m))"

fun decode_entries :: "json gomap \<Rightarrow> op_error + operation gomap" where
  "decode_entries [] = Inr []"
| "decode_entries ((n, v) # rest) =
     (case decode_operation v of Inl e \<Rightarrow> Inl (OpDecodeEntry n e) | Inr op \<Rightarrow>
      case decode_entries rest of Inl e \<Rightarrow> Inl e | Inr m \<Rightarrow> Inr ((n, op) # m))"

definition decode_snapshot :: "json \<Rightarrow> op_error + operation gomap" where
  "decode_snapshot v =
     (case v of
        JObj kvs \<Rightarrow> decode_entries (map_of_members kvs)
      | JNull \<Rightarrow> Inr []
      | _ \<Rightarrow> Inl (OpDecode (TypeMismatch ''operations'')))"

definition loadOperationSnapshot :: "'s entry_api \<Rightarrow> 's \<Rightarrow> (op_error + operation gomap) \<times> 's" where
  "loadOperationSnapshot api s =
     (case api_load api operationStateEntry s of
        (Inl e, s') \<Rightarrow> (Inl (OpLoadFailed e), s')
      | (Inr payload, s') \<Rightarrow> (decode_snapshot payload, s'))"

definition persistOperationSnapshotLocked ::
  "'s entry_api \<Rightarrow> operation gomap \<Rightarrow> 's manager \<Rightarrow> op_error option \<times> 's manager" where
  "persistOperationSnapshotLocked api snapshot m =
     (case om_store m of None \<Rightarrow> (None, m) | Some s \<Rightarrow>
      case encode_snapshot snapshot of None \<Rightarrow> (Some OpMarshal, m) | Some payload \<Rightarrow>
      case api_save api operationStateEntry (Some payload) s of (e, s') \<Rightarrow>
      (map_option OpSaveFailed e, m\<lparr>om_store := Some s'\<rparr>))"

definition persistLocked :: "'s entry_api \<Rightarrow> 's manager \<Rightarrow> op_error option \<times> 's manager" where
  "persistLocked api m = persistOperationSnapshotLocked api (om_ops m) m"

text \<open>The readback of the error paths: no store reads back as no operations.\<close>

definition readback :: "'s entry_api \<Rightarrow> 's manager \<Rightarrow> (op_error + operation gomap) \<times> 's manager" where
  "readback api m =
     (case om_store m of None \<Rightarrow> (Inr [], m) | Some s \<Rightarrow>
      case loadOperationSnapshot api s of (r, s') \<Rightarrow> (r, m\<lparr>om_store := Some s'\<rparr>))"

definition recordPersistenceFailure :: "string \<Rightarrow> bool \<Rightarrow> op_error \<Rightarrow> 's manager \<Rightarrow> 's manager" where
  "recordPersistenceFailure name is_terminal err m =
     (let m = m\<lparr>om_persistence_error := Some (OpDegraded err)\<rparr>;
          limitation = ''terminal state persistence failed; after restart this operation may be reported as interrupted''
      in if is_terminal then
           (case gm_get (om_ops m) name of None \<Rightarrow> m | Some op \<Rightarrow>
              m\<lparr>om_ops := gm_set name (op\<lparr>o_error := Some (case o_error op of
                  None \<Rightarrow> (500, limitation) | Some (c, msg) \<Rightarrow> (c, msg @ ''; '' @ limitation))\<rparr>) (om_ops m)\<rparr>)
         else m)"

definition not_found_error :: "op_error \<Rightarrow> bool" where
  "not_found_error e = (case e of OpLoadFailed se \<Rightarrow> is_err ErrNotFound se | _ \<Rightarrow> False)"

section \<open>Restart\<close>

definition NewOperationManagerWithStore ::
  "'s entry_api \<Rightarrow> string \<Rightarrow> 's \<Rightarrow> (op_error + 's manager) \<times> 's" where
  "NewOperationManagerWithStore api now s =
     (case loadOperationSnapshot api s of
        (Inl e, s1) \<Rightarrow>
          (if not_found_error e then Inr (NewOperationManager\<lparr>om_store := Some s1\<rparr>) else Inl e, s1)
      | (Inr loaded, s1) \<Rightarrow>
          (let ops = map (\<lambda>(n, op). (n, if terminal op then op else interruptOperation now op)) loaded;
               m = NewOperationManager\<lparr>om_ops := ops, om_store := Some s1\<rparr>
           in if \<exists>(n, op) \<in> set loaded. \<not> terminal op then
                (case persistLocked api m of
                   (Some e, m') \<Rightarrow> (Inl e, the (om_store m'))
                 | (None, m') \<Rightarrow> (Inr m', the (om_store m')))
              else (Inr m, s1)))"

section \<open>Registration\<close>

definition newOperation :: "draw \<Rightarrow> string \<Rightarrow> string \<Rightarrow> string \<Rightarrow> string \<Rightarrow> string \<Rightarrow> string \<Rightarrow> operation" where
  "newOperation e name kind operationType targetLink zone region =
     zero_operation\<lparr>o_id := dec_nat (draw_id e), o_name := name, o_kind := kind, o_type := operationType,
       o_status := StatusPending, o_target := targetLink, o_insert := draw_now e, o_zone := zone, o_region := region\<rparr>"

definition insertDurable ::
  "'s entry_api \<Rightarrow> operation \<Rightarrow> bool \<Rightarrow> 's manager \<Rightarrow> (op_error + operation) \<times> 's manager" where
  "insertDurable api op rollbackOnFailure m0 =
     (let name = o_name op; m1 = m0\<lparr>om_ops := gm_set name op (om_ops m0)\<rparr> in
      case persistLocked api m1 of
        (None, m2) \<Rightarrow> (Inr op, m2)
      | (Some err, m2) \<Rightarrow>
          if \<not> rollbackOnFailure then (Inr op, recordPersistenceFailure name False err m2)
          else let m3 = m2\<lparr>om_ops := gm_del name (om_ops m2)\<rparr> in
            case persistLocked api m3 of
              (None, m4) \<Rightarrow> (Inl err, recordPersistenceFailure name False err m4)
            | (Some cerr, m4) \<Rightarrow>
                (case readback api m4 of (r0, m5) \<Rightarrow>
                 let r = (case r0 of Inl e \<Rightarrow> if not_found_error e then Inr [] else Inl e | Inr d \<Rightarrow> Inr d) in
                 (case r of
                    Inr durable \<Rightarrow>
                      (let ops = (case gm_get durable name of
                                    Some d \<Rightarrow> gm_set name d (om_ops m5) | None \<Rightarrow> gm_del name (om_ops m5));
                           err' = OpCompensate err cerr None
                       in (Inl err', recordPersistenceFailure name False err' (m5\<lparr>om_ops := ops\<rparr>)))
                  | Inl loadErr \<Rightarrow>
                      (let err' = OpCompensate err cerr (Some loadErr)
                       in (Inl err', recordPersistenceFailure name False err'
                              (m5\<lparr>om_ops := gm_set name op (om_ops m5)\<rparr>))))))"

record operation_scope =
  sc_service :: string
  sc_project :: string
  sc_location :: string
  sc_target :: string

definition RegisterScopedDurable ::
  "'s entry_api \<Rightarrow> draw \<Rightarrow> operation_scope \<Rightarrow> string \<Rightarrow> 's manager \<Rightarrow> (op_error + operation) \<times> 's manager" where
  "RegisterScopedDurable api e scope operationType m =
     (if sc_service scope = [] \<or> sc_target scope = [] then (Inl OpScopeRequired, m)
      else let name = canonicalOperationName e (sc_project scope) (sc_location scope);
               op = newOperation e name (sc_service scope) operationType (sc_target scope) [] (sc_location scope)
           in insertDurable api (op\<lparr>o_service := sc_service scope, o_project := sc_project scope,
                o_location := sc_location scope\<rparr>) True m)"

definition RegisterScopedTargetDurable ::
  "'s entry_api \<Rightarrow> draw \<Rightarrow> string \<Rightarrow> string \<Rightarrow> string \<Rightarrow> 's manager \<Rightarrow> (op_error + operation) \<times> 's manager" where
  "RegisterScopedTargetDurable api e serviceKind operationType target m =
     (case resourceParentScope target of (project, location) \<Rightarrow>
      RegisterScopedDurable api e \<lparr>sc_service = serviceKind, sc_project = project, sc_location = location,
        sc_target = target\<rparr> operationType m)"

definition register ::
  "'s entry_api \<Rightarrow> draw \<Rightarrow> string \<Rightarrow> string \<Rightarrow> string \<Rightarrow> string \<Rightarrow> string \<Rightarrow> bool \<Rightarrow> 's manager \<Rightarrow>
     (op_error + operation) \<times> 's manager" where
  "register api e kind operationType targetLink zone region rollbackOnFailure m =
     (case resourceParentScope targetLink of (project, location) \<Rightarrow>
      insertDurable api ((newOperation e (operationID e) kind operationType targetLink zone region)
        \<lparr>o_service := kind, o_project := project,
         o_location := (if location \<noteq> [] then location else if region \<noteq> [] then region else zone)\<rparr>)
        rollbackOnFailure m)"

section \<open>Polling\<close>

definition Get :: "string \<Rightarrow> 's manager \<Rightarrow> operation option" where
  "Get name m = gm_get (om_ops m) name"

definition GetScoped :: "string \<Rightarrow> operation_scope \<Rightarrow> 's manager \<Rightarrow> op_error + operation" where
  "GetScoped name scope m =
     (case Get name m of
        None \<Rightarrow> Inl OpNotFound
      | Some op \<Rightarrow>
          if sc_service scope \<noteq> [] \<and> o_service op \<noteq> sc_service scope
             \<or> sc_project scope \<noteq> [] \<and> o_project op \<noteq> sc_project scope
             \<or> sc_location scope \<noteq> [] \<and> o_location op \<noteq> sc_location scope
             \<or> sc_target scope \<noteq> [] \<and> o_target op \<noteq> sc_target scope
          then Inl OpNotFound else Inr op)"

definition PollScoped :: "string \<Rightarrow> string \<Rightarrow> 's manager \<Rightarrow> op_error + operation" where
  "PollScoped path serviceKind m =
     (case operationPathScope path of (name, project, location) \<Rightarrow>
      if name = [] then Inl OpNotFound
      else let scope = \<lparr>sc_service = serviceKind, sc_project = project, sc_location = location, sc_target = []\<rparr> in
      (case (case GetScoped name scope m of
               Inr op \<Rightarrow> Inr op
             | Inl _ \<Rightarrow> GetScoped (snd (splitOperationName name)) scope m) of
         Inl e \<Rightarrow> Inl e
       | Inr op \<Rightarrow>
           if o_project op \<noteq> project \<or> o_location op \<noteq> location then Inl OpNotFound
           else Inr (op\<lparr>o_name := name\<rparr>)))"

definition List_ops :: "'s manager \<Rightarrow> operation list" where
  "List_ops m = map snd (om_ops m)"

section \<open>Terminal results\<close>

definition operationsExactlyEqual :: "operation \<Rightarrow> operation \<Rightarrow> op_error + bool" where
  "operationsExactlyEqual left right =
     (case encode_operation left of None \<Rightarrow> Inl OpMarshal | Some l \<Rightarrow>
      case encode_operation right of None \<Rightarrow> Inl OpMarshal | Some r \<Rightarrow> Inr (deep_equal l r))"

text \<open>Whether the candidate is known to be durable, with the save error and the readback error.\<close>

definition persistTerminalCandidateLocked ::
  "'s entry_api \<Rightarrow> string \<Rightarrow> operation \<Rightarrow> operation gomap \<Rightarrow> 's manager \<Rightarrow>
     (bool \<times> op_error option \<times> op_error option) \<times> 's manager" where
  "persistTerminalCandidateLocked api name candidate snapshot m =
     (case persistOperationSnapshotLocked api snapshot m of
        (None, m1) \<Rightarrow> ((True, None, None), m1)
      | (Some saveErr, m1) \<Rightarrow>
          let m2 = recordPersistenceFailure name False saveErr m1 in
          (case om_store m2 of
             None \<Rightarrow> ((False, Some saveErr, Some OpNoReadback), m2)
           | Some s \<Rightarrow>
               (case loadOperationSnapshot api s of (r, s') \<Rightarrow>
                let m3 = m2\<lparr>om_store := Some s'\<rparr> in
                (case r of
                   Inl e \<Rightarrow> ((False, Some saveErr, Some e), m3)
                 | Inr durable \<Rightarrow>
                     (case gm_get durable name of
                        None \<Rightarrow> ((False, Some saveErr, None), m3)
                      | Some d \<Rightarrow>
                          (case operationsExactlyEqual candidate d of
                             Inl e \<Rightarrow> ((False, Some saveErr, Some e), m3)
                           | Inr matches \<Rightarrow> ((matches, Some saveErr, None), m3)))))))"

definition terminalPersistenceError :: "op_error option \<Rightarrow> op_error option \<Rightarrow> op_error option" where
  "terminalPersistenceError saveErr readbackErr =
     (case saveErr of None \<Rightarrow> None | Some e \<Rightarrow> Some (OpTerminalDegraded e readbackErr))"

definition publishTerminalCandidate :: "string \<Rightarrow> operation \<Rightarrow> 's manager \<Rightarrow> 's manager" where
  "publishTerminalCandidate name candidate m = m\<lparr>om_ops := gm_set name candidate (om_ops m)\<rparr>"

definition notify_observer :: "operation \<Rightarrow> terminal_observer \<Rightarrow> terminal_observer" where
  "notify_observer op ob = (if ob_active ob then ob\<lparr>ob_pending := Some op, ob_wakeup := True\<rparr> else ob)"

definition notifyTerminal :: "operation \<Rightarrow> 's manager \<Rightarrow> 's manager" where
  "notifyTerminal op m = m\<lparr>om_observers := map (notify_observer op) (om_observers m)\<rparr>"

datatype barrier_outcome = BarrierOk | BarrierFails string | BarrierPanics string

definition runOperationTerminalBarrier :: "barrier_outcome option \<Rightarrow> op_error option" where
  "runOperationTerminalBarrier barrier =
     (case barrier of
        None \<Rightarrow> None
      | Some BarrierOk \<Rightarrow> None
      | Some (BarrierFails e) \<Rightarrow> Some (OpBarrier e)
      | Some (BarrierPanics e) \<Rightarrow> Some (OpBarrier (''terminal operation barrier panic: '' @ e)))"

text \<open>
  The common part of the two finalizers: a terminal operation that was not interrupted only compares
  results; otherwise the candidate is saved, and published once it is known to be durable.  A panic
  in the candidate leaves the state as it is.
\<close>

definition finish_candidate ::
  "'s entry_api \<Rightarrow> string \<Rightarrow> string \<Rightarrow> operation \<Rightarrow> raw_message \<Rightarrow> int \<Rightarrow> string \<Rightarrow> barrier_outcome option \<Rightarrow>
     's manager \<Rightarrow> op_error option \<times> 's manager" where
  "finish_candidate api now name current response code message barrier m =
     (case terminalOperationCandidate now current response code message of
        None \<Rightarrow> (Some OpPanic, m)
      | Some candidate \<Rightarrow>
          if terminal current \<and> \<not> isInterruptedOperation current then
            (case terminalResultsEqual current candidate of
               Inl e \<Rightarrow> (Some (OpUnreadableResult e), m)
             | Inr matches \<Rightarrow> (if matches then None else Some (OpTerminalConflict name), m))
          else
            (case persistTerminalCandidateLocked api name candidate (gm_set name candidate (om_ops m)) m of
               ((committed, saveErr, readbackErr), m1) \<Rightarrow>
                 if \<not> committed then (terminalPersistenceError saveErr readbackErr, m1)
                 else (runOperationTerminalBarrier barrier,
                       notifyTerminal candidate (publishTerminalCandidate name candidate m1))))"

definition finalizeDurable ::
  "'s entry_api \<Rightarrow> string \<Rightarrow> string \<Rightarrow> raw_message \<Rightarrow> int \<Rightarrow> string \<Rightarrow> 's manager \<Rightarrow> op_error option \<times> 's manager" where
  "finalizeDurable api now name response code message m =
     (case gm_get (om_ops m) name of
        None \<Rightarrow> (None, m)
      | Some current \<Rightarrow> finish_candidate api now name current response code message None m)"

definition FinalizeScopedDurableWithBarrier ::
  "'s entry_api \<Rightarrow> string \<Rightarrow> string \<Rightarrow> raw_message \<Rightarrow> int \<Rightarrow> string \<Rightarrow> barrier_outcome option \<Rightarrow> 's manager \<Rightarrow>
     op_error option \<times> 's manager" where
  "FinalizeScopedDurableWithBarrier api now name response code message barrier m =
     (case gm_get (om_ops m) name of
        None \<Rightarrow> (Some OpNotFound, m)
      | Some current \<Rightarrow>
          if \<not> isScopedOperation current then (Some OpNotFound, m)
          else finish_candidate api now name current response code message barrier m)"

section \<open>Progress, metadata, removal\<close>

definition AdvanceDurable ::
  "'s entry_api \<Rightarrow> string \<Rightarrow> string \<Rightarrow> int \<Rightarrow> string \<Rightarrow> 's manager \<Rightarrow> op_error option \<times> 's manager" where
  "AdvanceDurable api now name progress status m =
     (if status = StatusDone then finalizeDurable api now name RawNil 0 [] m
      else case gm_get (om_ops m) name of
        None \<Rightarrow> (None, m)
      | Some op \<Rightarrow>
          if terminal op then (Some (OpTerminalConflict name), m)
          else let op' = op\<lparr>o_progress := progress, o_status := status,
                   o_start := (if status = StatusRunning \<and> o_start op = [] then now else o_start op)\<rparr> in
            (case persistLocked api (m\<lparr>om_ops := gm_set name op' (om_ops m)\<rparr>) of
               (None, m') \<Rightarrow> (None, m')
             | (Some e, m') \<Rightarrow> (Some e, recordPersistenceFailure name False e m')))"

text \<open>The argument is what \<open>json.Marshal\<close> makes of the metadata, \<open>None\<close> when it fails.\<close>

definition UpdateMetadata ::
  "'s entry_api \<Rightarrow> string \<Rightarrow> json option \<Rightarrow> 's manager \<Rightarrow> op_error option \<times> 's manager" where
  "UpdateMetadata api name metadata m =
     (case metadata of None \<Rightarrow> (Some (OpNormalize MalformedJSON), m) | Some v \<Rightarrow>
      case gm_get (om_ops m) name of
        None \<Rightarrow> (None, m)
      | Some op \<Rightarrow>
          (case persistLocked api (m\<lparr>om_ops := gm_set name (op\<lparr>o_metadata := jcanon v\<rparr>) (om_ops m)\<rparr>) of
             (None, m') \<Rightarrow> (None, m')
           | (Some e, m') \<Rightarrow> (Some e, recordPersistenceFailure [] False e m')))"

definition RollbackScopedRegistration ::
  "'s entry_api \<Rightarrow> string \<Rightarrow> 's manager \<Rightarrow> op_error option \<times> 's manager" where
  "RollbackScopedRegistration api name m =
     (case gm_get (om_ops m) name of
        None \<Rightarrow> (None, m)
      | Some previous \<Rightarrow>
          (case persistLocked api (m\<lparr>om_ops := gm_del name (om_ops m)\<rparr>) of
             (None, m1) \<Rightarrow> (None, m1)
           | (Some e, m1) \<Rightarrow>
               (case readback api m1 of (r, m2) \<Rightarrow>
                let ops = (case r of
                             Inl _ \<Rightarrow> gm_set name previous (om_ops m2)
                           | Inr durable \<Rightarrow>
                               (case gm_get durable name of
                                  Some d \<Rightarrow> gm_set name d (om_ops m2) | None \<Rightarrow> gm_del name (om_ops m2)))
                in (Some (OpRollback name e (case r of Inl l \<Rightarrow> Some l | Inr _ \<Rightarrow> None)),
                    m2\<lparr>om_ops := ops, om_persistence_error := Some (OpDegraded e)\<rparr>))))"

definition RemoveDurable :: "'s entry_api \<Rightarrow> string \<Rightarrow> 's manager \<Rightarrow> op_error option \<times> 's manager" where
  "RemoveDurable api name m =
     (case gm_get (om_ops m) name of
        None \<Rightarrow> (None, m)
      | Some previous \<Rightarrow>
          if \<not> o_done previous then (Some (OpNonTerminal name), m)
          else
          (case persistLocked api (m\<lparr>om_ops := gm_del name (om_ops m)\<rparr>) of
             (None, m1) \<Rightarrow> (None, m1)
           | (Some e, m1) \<Rightarrow>
               (case readback api m1 of
                  (Inr durable, m2) \<Rightarrow>
                    if gm_get durable name = None then (None, m2)
                    else (Some (OpRemove name e None), m2\<lparr>om_ops := gm_set name previous (om_ops m2)\<rparr>)
                | (Inl l, m2) \<Rightarrow>
                    (Some (OpRemove name e (Some l)), m2\<lparr>om_ops := gm_set name previous (om_ops m2)\<rparr>))))"

section \<open>The asynchronous lifecycle\<close>

text \<open>
  \<open>pauses\<close> are what the rest of the program does to the manager during the four pauses, \<open>work\<close> what the
  work function does and returns.  The result tells whether the work ran.
\<close>

datatype work_result = WorkOk | WorkFails int string

definition conflict :: "op_error option \<Rightarrow> bool" where
  "conflict e = (case e of Some (OpTerminalConflict _) \<Rightarrow> True | _ \<Rightarrow> False)"

definition runAsyncWithPauses ::
  "'s entry_api \<Rightarrow> string \<Rightarrow> string \<Rightarrow> ('s manager \<Rightarrow> work_result \<times> 's manager) \<Rightarrow>
     (nat \<Rightarrow> 's manager \<Rightarrow> 's manager) \<Rightarrow> 's manager \<Rightarrow> bool \<times> 's manager" where
  "runAsyncWithPauses api now name work pause m0 =
     (case AdvanceDurable api now name 5 StatusRunning (pause 0 m0) of (e1, m1) \<Rightarrow>
      if conflict e1 then (False, m1) else
      case AdvanceDurable api now name 25 StatusRunning (pause 1 m1) of (e2, m2) \<Rightarrow>
      if conflict e2 then (False, m2) else
      case work (pause 2 m2) of
        (WorkFails code message, m3) \<Rightarrow> (True, snd (finalizeDurable api now name RawNil code message m3))
      | (WorkOk, m3) \<Rightarrow>
          (case AdvanceDurable api now name 85 StatusRunning m3 of (e4, m4) \<Rightarrow>
           if conflict e4 then (True, m4)
           else (True, snd (finalizeDurable api now name RawNil 0 [] (pause 3 m4)))))"

end
