(* ===== verification/Operation_Laws.thy ===== *)
theory Operation_Laws
  imports Operation_Manager
begin

text \<open>
  Lemmas of the operation manager over any entry store: the snapshot codec, what a save does to the
  durable snapshot, and the invariant that every visible terminal result is durable.
\<close>

section \<open>The snapshot codec\<close>

definition ops_wf :: "operation gomap \<Rightarrow> bool" where
  "ops_wf m \<longleftrightarrow> gm_wf m \<and> (\<forall>(n, op) \<in> set m. op_wf op)"

lemma ops_wf_Nil [simp]: "ops_wf []"
  by (simp add: ops_wf_def)

lemma set_gm_set: "set (gm_set k v m) \<subseteq> insert (k, v) (set m)"
  by (induction m) auto

lemma ops_wf_set [simp, intro]: "ops_wf m \<Longrightarrow> op_wf op \<Longrightarrow> ops_wf (gm_set n op m)"
  using set_gm_set [of n op m] by (auto simp: ops_wf_def)

lemma ops_wf_del [simp, intro]: "ops_wf m \<Longrightarrow> ops_wf (gm_del n m)"
  by (auto simp: ops_wf_def AList.delete_eq)

lemma ops_wf_get: "ops_wf m \<Longrightarrow> gm_get m n = Some op \<Longrightarrow> op_wf op"
  by (auto simp: ops_wf_def dest: map_of_SomeD)

lemma encode_entries_keys: "encode_entries kvs = Some js \<Longrightarrow> map fst js = map fst kvs"
  by (induction kvs arbitrary: js rule: encode_entries.induct) (auto split: option.splits)

lemma encode_entries_good: "encode_entries kvs = Some js \<Longrightarrow> (n, op) \<in> set kvs \<Longrightarrow> o_response op \<noteq> RawBad"
  by (induction kvs arbitrary: js rule: encode_entries.induct)
    (auto simp: encode_operation_def split: option.splits if_splits)

lemma decode_encode_entries:
  "encode_entries kvs = Some js \<Longrightarrow> (\<forall>(n, op) \<in> set kvs. op_wf op) \<Longrightarrow> decode_entries js = Inr kvs"
  by (induction kvs arbitrary: js rule: encode_entries.induct)
    (auto simp: decode_encode_operation split: option.splits)

lemma decode_encode_snapshot:
  assumes "encode_snapshot m = Some v" and "ops_wf m"
  shows "decode_snapshot v = Inr (sort_members m)"
proof -
  obtain js where js: "encode_entries (sort_members m) = Some js" "v = JObj js"
    using assms(1) by (auto simp: encode_snapshot_def)
  have "gm_wf js" using assms(2) encode_entries_keys [OF js(1)] sort_members_wf [of m]
    by (simp only: gm_wf_def ops_wf_def)
  with js decode_encode_entries [OF js(1)] assms(2) show ?thesis
    by (simp add: decode_snapshot_def ops_wf_def)
qed

lemma encode_snapshot_good:
  "encode_snapshot m = Some v \<Longrightarrow> gm_get m n = Some op \<Longrightarrow> o_response op \<noteq> RawBad"
  by (auto simp: encode_snapshot_def dest!: map_of_SomeD encode_entries_good)

lemma decode_entries_wf: "decode_entries kvs = Inr m \<Longrightarrow> map fst m = map fst kvs \<and> (\<forall>(n, op) \<in> set m. op_wf op)"
proof (induction kvs arbitrary: m)
  case (Cons kv kvs)
  obtain n v where kv: "kv = (n, v)" by (cases kv)
  from Cons.prems obtain op rest where "decode_operation v = Inr op" "decode_entries kvs = Inr rest" "m = (n, op) # rest"
    by (auto simp: kv split: sum.splits)
  with Cons.IH [of rest] decode_operation_wf [of v op] show ?case by (simp add: kv)
qed simp

lemma decode_snapshot_wf: "decode_snapshot v = Inr m \<Longrightarrow> ops_wf m"
proof -
  assume d: "decode_snapshot v = Inr m"
  show "ops_wf m"
  proof (cases v)
    case (JObj kvs)
    with d have "decode_entries (map_of_members kvs) = Inr m" by (simp add: decode_snapshot_def)
    from decode_entries_wf [OF this] gm_wf_map_of_members [of kvs] show ?thesis
      by (simp add: ops_wf_def gm_wf_def)
  qed (use d in \<open>auto simp: decode_snapshot_def\<close>)
qed

lemma dec_member_not_bad:
  "dec_operation_member k v op = Inr op' \<Longrightarrow> o_response op \<noteq> RawBad \<Longrightarrow> o_response op' \<noteq> RawBad"
  unfolding dec_operation_member_def set_str_def
  by (auto split: option.splits if_splits sum.splits)

lemma decode_operation_not_bad: "decode_operation v = Inr op \<Longrightarrow> o_response op \<noteq> RawBad"
  using decode_members_inv [where P = "\<lambda>op. o_response op \<noteq> RawBad", OF dec_member_not_bad]
  by (auto simp: decode_operation_def zero_operation_def split: json.splits)

lemma decode_entries_not_bad: "decode_entries kvs = Inr m \<Longrightarrow> (n, op) \<in> set m \<Longrightarrow> o_response op \<noteq> RawBad"
proof (induction kvs arbitrary: m)
  case (Cons kv kvs)
  obtain k v where kv: "kv = (k, v)" by (cases kv)
  from Cons.prems obtain op' rest where "decode_operation v = Inr op'" "decode_entries kvs = Inr rest" "m = (k, op') # rest"
    by (auto simp: kv split: sum.splits)
  with Cons.IH [of rest] Cons.prems decode_operation_not_bad [of v op'] show ?case by auto
qed simp

lemma decode_snapshot_not_bad: "decode_snapshot v = Inr m \<Longrightarrow> gm_get m n = Some op \<Longrightarrow> o_response op \<noteq> RawBad"
  by (auto simp: decode_snapshot_def split: json.splits dest!: map_of_SomeD decode_entries_not_bad)

section \<open>Equal durable forms\<close>

definition raw_equal :: "raw_message \<Rightarrow> raw_message \<Rightarrow> bool" where
  "raw_equal a b \<longleftrightarrow> (case (a, b) of (RawNil, RawNil) \<Rightarrow> True | (Raw x, Raw y) \<Rightarrow> deep_equal x y | _ \<Rightarrow> False)"

lemma raw_equal_refl [simp]: "raw_equal a a \<longleftrightarrow> a \<noteq> RawBad"
  by (cases a) (auto simp: raw_equal_def)

lemma fst_optional [simp]:
  "map fst (omit_str k s) = (if s = [] then [] else [k])"
  "map fst (metadata_member v) = (if v = JNull then [] else [''metadata''])"
  "map fst (error_member e) = (if e = None then [] else [''error''])"
  "map fst (response_member r) = (case r of Raw _ \<Rightarrow> [''response''] | _ \<Rightarrow> [])"
  by (auto simp: omit_str_def metadata_member_def error_member_def response_member_def
      split: option.split raw_message.split)

lemma fst_set_optional [simp]:
  "fst ` set (omit_str k s) = (if s = [] then {} else {k})"
  "fst ` set (metadata_member v) = (if v = JNull then {} else {''metadata''})"
  "fst ` set (error_member e) = (if e = None then {} else {''error''})"
  "fst ` set (response_member r) = (case r of Raw _ \<Rightarrow> {''response''} | _ \<Rightarrow> {})"
  by (auto simp: omit_str_def metadata_member_def error_member_def response_member_def
      split: option.split raw_message.split)

lemma get_optional [simp]:
  "gm_get (omit_str k s) x = (if x = k \<and> s \<noteq> [] then Some (JStr s) else None)"
  "gm_get (metadata_member v) x = (if x = ''metadata'' \<and> v \<noteq> JNull then Some v else None)"
  "gm_get (error_member e) x = (if x = ''error'' then map_option encode_error e else None)"
  "gm_get (response_member r) x = (if x = ''response'' then (case r of Raw v \<Rightarrow> Some v | _ \<Rightarrow> None) else None)"
  by (auto simp: omit_str_def metadata_member_def error_member_def response_member_def
      split: option.split raw_message.split)

lemma encode_operation_members:
  assumes "encode_operation op = Some v"
  obtains kvs where "v = JObj kvs" "gm_wf kvs"
    "gm_get kvs ''status'' = Some (JStr (o_status op))" "gm_get kvs ''done'' = Some (JBool (o_done op))"
    "gm_get kvs ''error'' = map_option encode_error (o_error op)"
    "gm_get kvs ''response'' = (case o_response op of Raw v \<Rightarrow> Some v | _ \<Rightarrow> None)"
proof -
  obtain kvs where kvs: "v = JObj kvs" using assms by (auto simp: encode_operation_def split: if_splits)
  have "gm_wf kvs" using assms kvs
    by (auto simp: encode_operation_def gm_wf_def split: if_splits raw_message.splits)
  moreover have "gm_get kvs ''status'' = Some (JStr (o_status op))" "gm_get kvs ''done'' = Some (JBool (o_done op))"
    "gm_get kvs ''error'' = map_option encode_error (o_error op)"
    "gm_get kvs ''response'' = (case o_response op of Raw v \<Rightarrow> Some v | _ \<Rightarrow> None)"
    using assms kvs by (auto simp: encode_operation_def map_add_def split: if_splits option.splits)
  ultimately show thesis using kvs that by blast
qed

lemma deep_equal_members:
  assumes "deep_equal (JObj l) (JObj r)" and "gm_wf l" and "gm_wf r"
  shows "map_option jcanon (gm_get l k) = map_option jcanon (gm_get r k)"
proof -
  have wf: "gm_wf (map (\<lambda>(k, v). (k, jcanon v)) m) = gm_wf m" for m by (rule gm_wf_map)
  have "sort_members (map (\<lambda>(k, v). (k, jcanon v)) l) = sort_members (map (\<lambda>(k, v). (k, jcanon v)) r)"
    using assms by (simp add: deep_equal_def)
  then have "gm_get (map (\<lambda>(k, v). (k, jcanon v)) l) k = gm_get (map (\<lambda>(k, v). (k, jcanon v)) r) k"
    using assms(2,3) gm_get_sort_members wf by metis
  then show ?thesis by (simp add: gm_get_map)
qed

lemma jcanon_error_inj: "jcanon (encode_error a) = jcanon (encode_error b) \<Longrightarrow> a = b"
proof -
  have wf: "gm_wf [(''code'', x), (''message'', y)]" for x y :: json by (simp add: gm_wf_def)
  assume "jcanon (encode_error a) = jcanon (encode_error b)"
  then have "deep_equal (JObj [(''code'', JInt (fst a)), (''message'', JStr (snd a))])
      (JObj [(''code'', JInt (fst b)), (''message'', JStr (snd b))])"
    by (simp add: deep_equal_def encode_error_def)
  from deep_equal_members [OF this wf wf, of "''code''"] deep_equal_members [OF this wf wf, of "''message''"]
  show "a = b" by (simp add: prod_eq_iff)
qed

lemma exactly_equal_results:
  assumes "operationsExactlyEqual a b = Inr True"
  shows "o_status a = o_status b" "o_done a = o_done b" "o_error a = o_error b" "raw_equal (o_response a) (o_response b)"
proof -
  from assms obtain l r where lr: "encode_operation a = Some l" "encode_operation b = Some r" "deep_equal l r"
    by (auto simp: operationsExactlyEqual_def split: option.splits)
  obtain ka where ka: "l = JObj ka" "gm_wf ka"
    "gm_get ka ''status'' = Some (JStr (o_status a))" "gm_get ka ''done'' = Some (JBool (o_done a))"
    "gm_get ka ''error'' = map_option encode_error (o_error a)"
    "gm_get ka ''response'' = (case o_response a of Raw v \<Rightarrow> Some v | _ \<Rightarrow> None)"
    by (rule encode_operation_members [OF lr(1)])
  obtain kb where kb: "r = JObj kb" "gm_wf kb"
    "gm_get kb ''status'' = Some (JStr (o_status b))" "gm_get kb ''done'' = Some (JBool (o_done b))"
    "gm_get kb ''error'' = map_option encode_error (o_error b)"
    "gm_get kb ''response'' = (case o_response b of Raw v \<Rightarrow> Some v | _ \<Rightarrow> None)"
    by (rule encode_operation_members [OF lr(2)])
  have eq: "map_option jcanon (gm_get ka k) = map_option jcanon (gm_get kb k)" for k
    using deep_equal_members [of ka kb] lr(3) ka(1,2) kb(1,2) by blast
  show "o_status a = o_status b" using eq [of "''status''"] ka(3) kb(3) by simp
  show "o_done a = o_done b" using eq [of "''done''"] ka(4) kb(4) by simp
  show "o_error a = o_error b" using eq [of "''error''"] ka(5) kb(5)
    by (cases "o_error a"; cases "o_error b") (auto dest: jcanon_error_inj)
  have "o_response a \<noteq> RawBad" "o_response b \<noteq> RawBad" using lr(1,2) by (auto simp: encode_operation_def split: if_splits)
  then show "raw_equal (o_response a) (o_response b)" using eq [of "''response''"] ka(6) kb(6)
    by (cases "o_response a"; cases "o_response b") (auto simp: raw_equal_def deep_equal_def)
qed

end
