(* ===== verification/Operation_Invariants.thy ===== *)
theory Operation_Invariants
  imports Operation_Laws
begin

text \<open>
  The manager over any store that keeps the entry-store contract: every visible terminal result is
  durable, whatever saves and loads fail, so a restart finds it again.
\<close>

section \<open>Durable snapshots\<close>

definition durable_snapshot :: "(string \<Rightarrow> 's \<Rightarrow> json option) \<Rightarrow> 's \<Rightarrow> operation gomap option" where
  "durable_snapshot dur s =
     (case dur operationStateEntry s of None \<Rightarrow> None | Some v \<Rightarrow>
      case decode_snapshot v of Inr m \<Rightarrow> Some m | Inl _ \<Rightarrow> None)"

definition same_result :: "operation \<Rightarrow> operation \<Rightarrow> bool" where
  "same_result d op \<longleftrightarrow> terminal d \<and>
     (\<not> isInterruptedOperation op \<longrightarrow> o_error d = o_error op \<and> raw_equal (o_response d) (o_response op))"

definition mgr_wf :: "'s manager \<Rightarrow> bool" where
  "mgr_wf m \<longleftrightarrow> ops_wf (om_ops m)"

definition backed :: "(string \<Rightarrow> 's \<Rightarrow> json option) \<Rightarrow> 's \<Rightarrow> string \<Rightarrow> operation \<Rightarrow> bool" where
  "backed dur s n op \<longleftrightarrow> (\<exists>snap d. durable_snapshot dur s = Some snap \<and> gm_get snap n = Some d \<and> same_result d op)"

text \<open>\<open>U\<close> are the names lost track of: those whose removal could neither be saved nor read back.\<close>

definition consistent :: "(string \<Rightarrow> 's \<Rightarrow> json option) \<Rightarrow> string set \<Rightarrow> 's manager \<Rightarrow> bool" where
  "consistent dur U m \<longleftrightarrow> mgr_wf m \<and>
     (\<forall>s n op. om_store m = Some s \<longrightarrow> gm_get (om_ops m) n = Some op \<longrightarrow> terminal op \<longrightarrow> n \<notin> U \<longrightarrow> backed dur s n op)"

lemma consistentI:
  "ops_wf (om_ops m) \<Longrightarrow>
     (\<And>s n op. om_store m = Some s \<Longrightarrow> gm_get (om_ops m) n = Some op \<Longrightarrow> terminal op \<Longrightarrow> n \<notin> U \<Longrightarrow> backed dur s n op) \<Longrightarrow>
     consistent dur U m"
  by (simp add: consistent_def mgr_wf_def)

lemma consistentD:
  "consistent dur U m \<Longrightarrow> n \<notin> U \<Longrightarrow> om_store m = Some s \<Longrightarrow> gm_get (om_ops m) n = Some op \<Longrightarrow> terminal op \<Longrightarrow> backed dur s n op"
  by (simp add: consistent_def)

lemma consistent_mono: "consistent dur U m \<Longrightarrow> U \<subseteq> V \<Longrightarrow> consistent dur V m"
  by (auto simp: consistent_def)

lemma consistent_wf: "consistent dur U m \<Longrightarrow> ops_wf (om_ops m)"
  by (simp add: consistent_def mgr_wf_def)

lemma same_result_refl: "terminal op \<Longrightarrow> o_response op \<noteq> RawBad \<Longrightarrow> same_result op op"
  by (simp add: same_result_def)

lemma same_result_as:
  "same_result d op0 \<Longrightarrow> o_error op = o_error op0 \<Longrightarrow> o_response op = o_response op0 \<Longrightarrow> same_result d op"
  by (simp add: same_result_def isInterruptedOperation_def)

lemma backed_as:
  "backed dur s n op0 \<Longrightarrow> o_error op = o_error op0 \<Longrightarrow> o_response op = o_response op0 \<Longrightarrow> backed dur s n op"
  unfolding backed_def using same_result_as by blast

lemma record_ops [simp]:
  "om_ops (recordPersistenceFailure n False e m) = om_ops m"
  "om_store (recordPersistenceFailure n False e m) = om_store m"
  by (simp_all add: recordPersistenceFailure_def)

lemma consistent_record [simp]: "consistent dur U (recordPersistenceFailure n False e m) = consistent dur U m"
  by (simp add: consistent_def mgr_wf_def)

lemma consistent_error [simp]: "consistent dur U (m\<lparr>om_persistence_error := e\<rparr>) = consistent dur U m"
  by (simp add: consistent_def mgr_wf_def)

lemma notify_ops [simp]:
  "om_ops (notifyTerminal op m) = om_ops m" "om_store (notifyTerminal op m) = om_store m"
  by (simp_all add: notifyTerminal_def)

section \<open>Over the contract\<close>

text \<open>The store of an operation manager: any entry store.\<close>

locale operation_store = entry_store save load durable
  for save :: "string \<Rightarrow> json option \<Rightarrow> 's \<Rightarrow> store_error option \<times> 's"
    and load :: "string \<Rightarrow> 's \<Rightarrow> (store_error + json) \<times> 's"
    and durable :: "string \<Rightarrow> 's \<Rightarrow> json option"
begin

abbreviation api where "api \<equiv> \<lparr>api_save = save, api_load = load\<rparr>"

lemma load_snapshot:
  assumes "loadOperationSnapshot api s = (r, s')"
  shows "durable_snapshot durable s' = durable_snapshot durable s"
    and "r = Inr m \<Longrightarrow> durable_snapshot durable s = Some m \<and> ops_wf m"
    and "r = Inl e \<Longrightarrow> not_found_error e \<Longrightarrow> durable_snapshot durable s = None"
proof -
  obtain x s1 where x: "load operationStateEntry s = (x, s1)" by (cases "load operationStateEntry s")
  with assms have s1: "s1 = s'" by (auto simp: loadOperationSnapshot_def split: sum.splits)
  then show "durable_snapshot durable s' = durable_snapshot durable s"
    using load_same [OF x] by (simp add: durable_snapshot_def)
  show "r = Inr m \<Longrightarrow> durable_snapshot durable s = Some m \<and> ops_wf m"
    using assms x load_value decode_snapshot_wf
    by (auto simp: loadOperationSnapshot_def durable_snapshot_def split: sum.splits)
  show "r = Inl e \<Longrightarrow> not_found_error e \<Longrightarrow> durable_snapshot durable s = None"
  proof -
    assume r: "r = Inl e" and nf: "not_found_error e"
    have dec: "decode_snapshot v = Inl err \<Longrightarrow> \<not> not_found_error err" for v err
    proof -
      have "decode_entries kvs = Inl err \<Longrightarrow> \<not> not_found_error err" for kvs
        by (induction kvs) (auto simp: not_found_error_def split: sum.splits)
      then show "decode_snapshot v = Inl err \<Longrightarrow> \<not> not_found_error err"
        by (auto simp: decode_snapshot_def not_found_error_def split: json.splits)
    qed
    from assms x r nf dec obtain se where "x = Inl se" "is_err ErrNotFound se"
      by (auto simp: loadOperationSnapshot_def not_found_error_def split: sum.splits)
    with x load_absent [of operationStateEntry s se s1] show ?thesis by (simp add: durable_snapshot_def)
  qed
qed

lemma persist_snapshot:
  assumes "persistOperationSnapshotLocked api snap m = (e, m')" and "ops_wf snap"
  shows "om_ops m' = om_ops m" and "om_observers m' = om_observers m"
    and "om_store m = None \<Longrightarrow> om_store m' = None \<and> e = None"
    and "om_store m = Some s \<Longrightarrow> \<exists>s'. om_store m' = Some s' \<and>
      ((e \<noteq> None \<and> durable_snapshot durable s' = durable_snapshot durable s) \<or>
       (durable_snapshot durable s' = Some (sort_members snap) \<and>
        (\<forall>n op. gm_get snap n = Some op \<longrightarrow> o_response op \<noteq> RawBad)))"
proof -
  show "om_ops m' = om_ops m" "om_observers m' = om_observers m" "om_store m = None \<Longrightarrow> om_store m' = None \<and> e = None"
    using assms(1) by (auto simp: persistOperationSnapshotLocked_def split: option.splits prod.splits)
  assume s: "om_store m = Some s"
  show "\<exists>s'. om_store m' = Some s' \<and>
      ((e \<noteq> None \<and> durable_snapshot durable s' = durable_snapshot durable s) \<or>
       (durable_snapshot durable s' = Some (sort_members snap) \<and>
        (\<forall>n op. gm_get snap n = Some op \<longrightarrow> o_response op \<noteq> RawBad)))"
  proof (cases "encode_snapshot snap")
    case None
    with assms(1) s show ?thesis by (auto simp: persistOperationSnapshotLocked_def)
  next
    case (Some v)
    obtain err s1 where sv: "save operationStateEntry (Some v) s = (err, s1)"
      by (cases "save operationStateEntry (Some v) s")
    with assms(1) s Some have m': "om_store m' = Some s1" "e = map_option OpSaveFailed err"
      by (auto simp: persistOperationSnapshotLocked_def)
    from sv show ?thesis
    proof (cases rule: save_cases)
      case (new j)
      then have "durable_snapshot durable s1 = Some (sort_members snap)"
        using decode_encode_snapshot [OF Some assms(2)] by (simp add: durable_snapshot_def)
      with m' encode_snapshot_good [OF Some] show ?thesis by blast
    next
      case (old err')
      with m' show ?thesis by (auto simp: durable_snapshot_def)
    qed
  qed
qed

text \<open>
  A save over a changed registry keeps the invariant as long as every terminal result in it was visible
  before.
\<close>

lemma persist_consistent:
  assumes "consistent durable U m" and "persistLocked api (m\<lparr>om_ops := ops\<rparr>) = (e, m')" and "ops_wf ops"
    and "\<And>n op. gm_get ops n = Some op \<Longrightarrow> terminal op \<Longrightarrow>
      \<exists>op0. gm_get (om_ops m) n = Some op0 \<and> terminal op0 \<and> o_error op = o_error op0 \<and> o_response op = o_response op0"
  shows "consistent durable U m'" and "om_ops m' = ops"
proof -
  have run: "persistOperationSnapshotLocked api ops (m\<lparr>om_ops := ops\<rparr>) = (e, m')"
    using assms(2) by (simp add: persistLocked_def)
  note p = persist_snapshot [OF run assms(3)]
  show ops: "om_ops m' = ops" using p(1) by simp
  show "consistent durable U m'"
  proof (rule consistentI)
    show "ops_wf (om_ops m')" using ops assms(3) by simp
    fix s' n op
    assume s': "om_store m' = Some s'" and op: "gm_get (om_ops m') n = Some op" and t: "terminal op" and u: "n \<notin> U"
    from s' p(3) obtain s where s: "om_store m = Some s" by (cases "om_store m") auto
    with p(4) [of s] s' consider (kept) "durable_snapshot durable s' = durable_snapshot durable s"
      | (new) "durable_snapshot durable s' = Some (sort_members ops)"
              "\<forall>n op. gm_get ops n = Some op \<longrightarrow> o_response op \<noteq> RawBad" by auto
    then show "backed durable s' n op"
    proof cases
      case kept
      from op ops t assms(4) obtain op0 where o: "gm_get (om_ops m) n = Some op0" "terminal op0"
        "o_error op = o_error op0" "o_response op = o_response op0" by blast
      from consistentD [OF assms(1) u s o(1,2)] o kept show ?thesis
        using backed_as by (simp add: backed_def) (metis same_result_as)
    next
      case new
      with op ops t assms(3) show ?thesis by (auto simp: backed_def ops_wf_def intro: same_result_refl)
    qed
  qed
qed

lemma readback_consistent:
  assumes "consistent durable U m" and "readback api m = (r, m')"
  shows "consistent durable U m'" and "om_ops m' = om_ops m"
    and "r = Inr d \<Longrightarrow> ops_wf d"
    and "r = Inr d \<Longrightarrow> om_store m' = Some s' \<Longrightarrow> gm_get d n = Some op \<Longrightarrow> terminal op \<Longrightarrow> backed durable s' n op"
proof -
  have all: "consistent durable U m' \<and> om_ops m' = om_ops m \<and> (\<forall>d. r = Inr d \<longrightarrow> ops_wf d \<and>
    (\<forall>s' n op. om_store m' = Some s' \<longrightarrow> gm_get d n = Some op \<longrightarrow> terminal op \<longrightarrow> backed durable s' n op))"
  proof (cases "om_store m")
    case None
    with assms show ?thesis by (auto simp: readback_def)
  next
    case (Some s)
    obtain x s1 where x: "loadOperationSnapshot api s = (x, s1)" by (cases "loadOperationSnapshot api s")
    with assms(2) Some have m': "m' = m\<lparr>om_store := Some s1\<rparr>" "r = x" by (auto simp: readback_def)
    note l = load_snapshot [OF x]
    have "consistent durable U m'"
      using assms(1) m' Some l(1) by (auto simp: consistent_def mgr_wf_def backed_def)
    moreover have "backed durable s1 n op" if "x = Inr d" "gm_get d n = Some op" "terminal op" for d n op
    proof -
      have "durable_snapshot durable s1 = Some d" using l(1) l(2) [OF that(1)] by simp
      moreover have "o_response op \<noteq> RawBad" using l(2) [OF that(1)] that(2) decode_snapshot_not_bad
        by (auto simp: durable_snapshot_def split: option.splits sum.splits)
      ultimately show ?thesis using that by (auto simp: backed_def intro: same_result_refl)
    qed
    ultimately show ?thesis using m' l(2) by auto
  qed
  show "consistent durable U m'" "om_ops m' = om_ops m" using all by auto
  show "r = Inr d \<Longrightarrow> ops_wf d" using all by blast
  show "r = Inr d \<Longrightarrow> om_store m' = Some s' \<Longrightarrow> gm_get d n = Some op \<Longrightarrow> terminal op \<Longrightarrow> backed durable s' n op"
    using all by blast
qed

end

end
