(* ===== verification/Operation_Steps.thy ===== *)
theory Operation_Steps
  imports Operation_Invariants
begin

text \<open>
  One preservation lemma per operation of the manager, the restart, and sequences of calls: over any
  store that keeps the entry-store contract, every visible terminal result stays durable.
\<close>

lemma consistent_set:
  assumes "consistent dur U m" and "op_wf op"
    and "\<And>s. om_store m = Some s \<Longrightarrow> terminal op \<Longrightarrow> n \<notin> U \<Longrightarrow> backed dur s n op"
  shows "consistent dur U (m\<lparr>om_ops := gm_set n op (om_ops m)\<rparr>)"
  using assms by (auto simp: consistent_def mgr_wf_def split: if_splits)

lemma consistent_del: "consistent dur U m \<Longrightarrow> consistent dur U (m\<lparr>om_ops := gm_del n (om_ops m)\<rparr>)"
  by (auto simp: consistent_def mgr_wf_def)

lemma consistent_publish:
  "consistent dur U m \<Longrightarrow> op_wf op \<Longrightarrow> (\<And>s. om_store m = Some s \<Longrightarrow> backed dur s n op) \<Longrightarrow>
     consistent dur U (notifyTerminal op (publishTerminalCandidate n op m))"
  by (auto simp: publishTerminalCandidate_def notifyTerminal_def consistent_def mgr_wf_def split: if_splits)

lemma not_terminal_pending: "\<not> terminal op \<longleftrightarrow> \<not> o_done op \<and> o_status op \<noteq> StatusDone"
  by (simp add: terminal_def)

lemma candidate_facts:
  assumes "terminalOperationCandidate now cur resp code msg = Some c" and "op_wf cur" and "int64_range code"
  shows "op_wf c" and "terminal c" and "o_done c" and "o_status c = StatusDone" and "o_progress c = 100"
    and "code \<noteq> 0 \<Longrightarrow> o_response c = RawNil" and "code = 0 \<Longrightarrow> o_error c = None"
proof -
  have code: "int64_range (canonicalRPCCode i)" if "int64_range i" for i
    using that by (auto simp: canonicalRPCCode_def rpc_table_def int64_range_def split: if_splits)
  have ens: "op_wf b \<and> terminal b \<and> o_done b = o_done a \<and> o_status b = o_status a \<and> o_progress b = o_progress a \<and> o_error b = o_error a"
    if "ensureScopedTerminalResponse a = Some b" "op_wf a" "terminal a" for a b
    using that
    by (auto simp: ensureScopedTerminalResponse_def Let_def op_wf_def terminal_def split: if_splits option.splits)
  let ?cand = "cur\<lparr>o_status := StatusDone, o_done := True, o_progress := 100, o_end := now\<rparr>"
  have "op_wf c \<and> terminal c \<and> o_done c \<and> o_status c = StatusDone \<and> o_progress c = 100 \<and>
    (code \<noteq> 0 \<longrightarrow> o_response c = RawNil) \<and> (code = 0 \<longrightarrow> o_error c = None)"
  proof (cases "code = 0")
    case True
    with assms(1) have "ensureScopedTerminalResponse (?cand\<lparr>o_error := None, o_response := resp\<rparr>) = Some c"
      by (simp add: terminalOperationCandidate_def Let_def)
    from ens [OF this] assms(2) True show ?thesis by (simp add: op_wf_def terminal_def)
  next
    case False
    with assms(1) have "c = ?cand\<lparr>o_error := Some (if isScopedOperation ?cand then canonicalRPCCode code else code, msg),
        o_response := RawNil\<rparr>"
      by (simp add: terminalOperationCandidate_def Let_def)
    with assms(2,3) False code show ?thesis by (simp add: op_wf_def terminal_def)
  qed
  then show "op_wf c" "terminal c" "o_done c" "o_status c = StatusDone" "o_progress c = 100"
    "code \<noteq> 0 \<Longrightarrow> o_response c = RawNil" "code = 0 \<Longrightarrow> o_error c = None" by auto
qed

text \<open>A removal that could neither save nor read back has lost track of what is durable for its name.\<close>

definition lost :: "op_error option \<Rightarrow> string set" where
  "lost e = (case e of Some (OpRemove n _ (Some _)) \<Rightarrow> {n} | Some (OpRollback n _ (Some _)) \<Rightarrow> {n} | _ \<Rightarrow> {})"

context operation_store
begin

lemma consistent_del_persist:
  assumes "consistent durable U m" and "persistLocked api (m\<lparr>om_ops := gm_del n (om_ops m)\<rparr>) = (e, m')"
  shows "consistent durable U m'" and "om_ops m' = gm_del n (om_ops m)"
proof -
  have wf: "ops_wf (gm_del n (om_ops m))" using consistent_wf [OF assms(1)] by (rule ops_wf_del)
  show "consistent durable U m'"
    by (rule persist_consistent(1) [OF assms wf]) (auto split: if_splits)
  show "om_ops m' = gm_del n (om_ops m)"
    by (rule persist_consistent(2) [OF assms wf]) (auto split: if_splits)
qed

lemma insertDurable_consistent:
  assumes "consistent durable U m" and "insertDurable api op rb m = (r, m')" and "op_wf op" and "\<not> terminal op"
  shows "consistent durable U m'"
proof -
  obtain e1 m2 where p1: "persistLocked api (m\<lparr>om_ops := gm_set (o_name op) op (om_ops m)\<rparr>) = (e1, m2)"
    by (cases "persistLocked api (m\<lparr>om_ops := gm_set (o_name op) op (om_ops m)\<rparr>)")
  have c2: "consistent durable U m2"
    by (rule persist_consistent(1) [OF assms(1) p1]) (use assms consistent_wf in \<open>auto split: if_splits\<close>)
  show ?thesis
  proof (cases "e1 = None \<or> \<not> rb")
    case True
    with assms(2) p1 c2 show ?thesis by (auto simp: insertDurable_def Let_def split: option.splits)
  next
    case False
    then obtain err where e1: "e1 = Some err" and rb by auto
    obtain e2 m4 where p2: "persistLocked api (m2\<lparr>om_ops := gm_del (o_name op) (om_ops m2)\<rparr>) = (e2, m4)"
      by (cases "persistLocked api (m2\<lparr>om_ops := gm_del (o_name op) (om_ops m2)\<rparr>)")
    note c4 = consistent_del_persist [OF c2 p2]
    show ?thesis
    proof (cases e2)
      case None
      with assms(2) p1 p2 e1 \<open>rb\<close> c4 show ?thesis by (auto simp: insertDurable_def)
    next
      case (Some cerr)
      obtain r0 m5 where rd: "readback api m4 = (r0, m5)" by (cases "readback api m4")
      note c5 = readback_consistent [OF c4(1) rd]
      have del: "consistent durable U (m5\<lparr>om_ops := gm_del (o_name op) (om_ops m5)\<rparr>)"
        by (rule consistent_del [OF c5(1)])
      have op_in: "consistent durable U (m5\<lparr>om_ops := gm_set (o_name op) op (om_ops m5)\<rparr>)"
        by (rule consistent_set [OF c5(1)]) (use assms in auto)
      have dur_in: "consistent durable U (m5\<lparr>om_ops := gm_set (o_name op) d (om_ops m5)\<rparr>)"
        if "r0 = Inr snap" "gm_get snap (o_name op) = Some d" for snap d
        by (rule consistent_set [OF c5(1)]) (use that c5(3,4) ops_wf_get in blast)+
      from assms(2) p1 p2 e1 \<open>rb\<close> Some rd show ?thesis
        by (auto simp: insertDurable_def Let_def del op_in dur_in split: sum.splits if_splits option.splits)
    qed
  qed
qed

lemma register_consistent:
  assumes "consistent durable U m" and "register api e k t target z reg rb m = (r, m')"
  shows "consistent durable U m'"
  using assms(2) unfolding register_def
  by (cases "resourceParentScope target")
    (auto elim!: insertDurable_consistent [OF assms(1)]
      simp: newOperation_def op_wf_def zero_operation_def terminal_def status_defs)

lemma RegisterScopedDurable_consistent:
  assumes "consistent durable U m" and "RegisterScopedDurable api e scope t m = (r, m')"
  shows "consistent durable U m'"
  using assms unfolding RegisterScopedDurable_def
  by (auto elim!: insertDurable_consistent [OF assms(1)] split: if_splits
      simp: newOperation_def op_wf_def zero_operation_def terminal_def status_defs Let_def)

lemma persistTerminalCandidate_result:
  assumes "consistent durable U m" and "op_wf c" and "terminal c"
    and free: "\<And>op. gm_get (om_ops m) n = Some op \<Longrightarrow> terminal op \<Longrightarrow> isInterruptedOperation op"
    and run: "persistTerminalCandidateLocked api n c (gm_set n c (om_ops m)) m = ((ok, se, re), m')"
  shows "consistent durable U m'" and "om_ops m' = om_ops m" and "\<not> ok \<Longrightarrow> se \<noteq> None"
    and "ok \<Longrightarrow> om_store m' = Some s' \<Longrightarrow> backed durable s' n c"
proof -
  let ?snap = "gm_set n c (om_ops m)"
  have wf: "ops_wf ?snap" using assms consistent_wf by blast
  obtain e m1 where p: "persistOperationSnapshotLocked api ?snap m = (e, m1)"
    by (cases "persistOperationSnapshotLocked api ?snap m")
  note q = persist_snapshot [OF p wf]
  have bk: "backed durable s1 k op" if "om_store m1 = Some s1" "gm_get (om_ops m1) k = Some op" "terminal op" "k \<notin> U" for s1 k op
  proof -
    from that(1) q(3) obtain s where s: "om_store m = Some s" by (cases "om_store m") auto
    have op: "gm_get (om_ops m) k = Some op" using that(2) q(1) by simp
    from q(4) [OF s] that(1) consider (kept) "durable_snapshot durable s1 = durable_snapshot durable s"
      | (new) "durable_snapshot durable s1 = Some (sort_members ?snap)"
              "\<forall>n op. gm_get ?snap n = Some op \<longrightarrow> o_response op \<noteq> RawBad" by auto
    then show ?thesis
    proof cases
      case kept
      with consistentD [OF assms(1) that(4) s op that(3)] show ?thesis by (simp add: backed_def)
    next
      case new
      have d: "gm_get (sort_members ?snap) k = Some (if k = n then c else op)" using op wf by (simp add: ops_wf_def)
      show ?thesis
      proof (cases "k = n")
        case True
        with free op that(3) have "isInterruptedOperation op" by simp
        with True new d assms(3) show ?thesis by (auto simp: backed_def same_result_def)
      next
        case False
        with new(2) op have "o_response op \<noteq> RawBad" by (metis gm_get_set)
        with new(1) d False that(3) show ?thesis by (auto simp: backed_def intro: same_result_refl)
      qed
    qed
  qed
  have c1: "consistent durable U m1"
    by (rule consistentI) (use q(1) assms(1) consistent_wf bk in auto)
  have saved: "e = None \<Longrightarrow> om_store m1 = Some s1 \<Longrightarrow> backed durable s1 n c" for s1
  proof -
    assume e: "e = None" and s1: "om_store m1 = Some s1"
    from s1 q(3) obtain s where s: "om_store m = Some s" by (cases "om_store m") auto
    from q(4) [OF s] s1 e have new: "durable_snapshot durable s1 = Some (sort_members ?snap)"
      and good: "\<forall>k op. gm_get ?snap k = Some op \<longrightarrow> o_response op \<noteq> RawBad" by auto
    from good have "o_response c \<noteq> RawBad" by (metis gm_get_set)
    with new wf assms(3) show ?thesis by (auto simp: backed_def ops_wf_def intro: same_result_refl)
  qed
  show "consistent durable U m'" "om_ops m' = om_ops m" "\<not> ok \<Longrightarrow> se \<noteq> None"
    "ok \<Longrightarrow> om_store m' = Some s' \<Longrightarrow> backed durable s' n c"
  proof -
    have all: "consistent durable U m' \<and> om_ops m' = om_ops m \<and> (\<not> ok \<longrightarrow> se \<noteq> None) \<and>
      (\<forall>s'. ok \<longrightarrow> om_store m' = Some s' \<longrightarrow> backed durable s' n c)"
    proof (cases e)
      case None
      with run p have "m' = m1" "ok" by (auto simp: persistTerminalCandidateLocked_def)
      with c1 q(1) saved [OF None] show ?thesis by simp
    next
      case (Some saveErr)
      from q(3) Some obtain s where s: "om_store m = Some s" by (cases "om_store m") auto
      from q(4) [OF s] obtain s1 where s1: "om_store m1 = Some s1" by auto
      obtain x s2 where x: "loadOperationSnapshot api s1 = (x, s2)" by (cases "loadOperationSnapshot api s1")
      note l = load_snapshot [OF x]
      let ?m2 = "(recordPersistenceFailure n False saveErr m1)\<lparr>om_store := Some s2\<rparr>"
      have m': "m' = ?m2" and se: "\<not> ok \<longrightarrow> se \<noteq> None" and okd: "ok \<Longrightarrow> \<exists>durable d. x = Inr durable \<and>
          gm_get durable n = Some d \<and> operationsExactlyEqual c d = Inr True"
        using run p Some s1 x
        by (auto simp: persistTerminalCandidateLocked_def Let_def split: sum.splits option.splits)
      have c2: "consistent durable U ?m2"
        using c1 s1 l(1) by (auto simp: consistent_def mgr_wf_def backed_def)
      have ok: "backed durable s2 n c" if "ok"
      proof -
        from okd [OF that] obtain dur d where d: "x = Inr dur" "gm_get dur n = Some d"
          "operationsExactlyEqual c d = Inr True" by blast
        note eq = exactly_equal_results [OF d(3)]
        have "raw_equal (o_response d) (o_response c)"
          using eq(4) by (auto simp: raw_equal_def deep_equal_def split: raw_message.splits)
        then have "same_result d c" using eq assms(3) by (simp add: same_result_def terminal_def)
        with l(1) l(2) [OF d(1)] d(2) show ?thesis by (auto simp: backed_def)
      qed
      from m' c2 se ok q(1) show ?thesis by simp
    qed
    then show "consistent durable U m'" "om_ops m' = om_ops m" "\<not> ok \<Longrightarrow> se \<noteq> None"
      "ok \<Longrightarrow> om_store m' = Some s' \<Longrightarrow> backed durable s' n c" by auto
  qed
qed

text \<open>
  A finalizer publishes only what is durable: the registry is unchanged, or the candidate is visible and
  backed by the store.
\<close>

lemma finish_candidate_result:
  assumes "consistent durable U m" and "gm_get (om_ops m) n = Some cur" and "int64_range code"
    and "finish_candidate api now n cur resp code msg barrier m = (e, m')"
  shows "consistent durable U m'"
    and "om_ops m' = om_ops m \<or> (\<exists>c. terminalOperationCandidate now cur resp code msg = Some c \<and>
      om_ops m' = gm_set n c (om_ops m) \<and> (\<forall>s. om_store m' = Some s \<longrightarrow> backed durable s n c))"
proof -
  have "consistent durable U m' \<and> (om_ops m' = om_ops m \<or> (\<exists>c. terminalOperationCandidate now cur resp code msg = Some c \<and>
      om_ops m' = gm_set n c (om_ops m) \<and> (\<forall>s. om_store m' = Some s \<longrightarrow> backed durable s n c)))"
  proof (cases "terminalOperationCandidate now cur resp code msg")
    case None
    with assms show ?thesis by (auto simp: finish_candidate_def)
  next
    case (Some c)
    have wf: "op_wf cur" using assms(1,2) consistent_wf ops_wf_get by blast
    note cf = candidate_facts [OF Some wf assms(3)]
    show ?thesis
    proof (cases "terminal cur \<and> \<not> isInterruptedOperation cur")
      case True
      with assms Some show ?thesis by (auto simp: finish_candidate_def split: sum.splits)
    next
      case False
      obtain ok se re m1 where run: "persistTerminalCandidateLocked api n c (gm_set n c (om_ops m)) m = ((ok, se, re), m1)"
        by (cases "persistTerminalCandidateLocked api n c (gm_set n c (om_ops m)) m") auto
      have free: "isInterruptedOperation op" if "gm_get (om_ops m) n = Some op" "terminal op" for op
        using that False assms(2) by simp
      note r = persistTerminalCandidate_result [OF assms(1) cf(1,2) free run]
      show ?thesis
      proof (cases ok)
        case True
        with assms(4) Some run False have m': "m' = notifyTerminal c (publishTerminalCandidate n c m1)"
          by (auto simp: finish_candidate_def)
        with True r cf(1) consistent_publish [OF r(1) cf(1)] Some show ?thesis
          by (simp add: publishTerminalCandidate_def)
      next
        case nok: False
        with assms(4) Some run False r show ?thesis by (auto simp: finish_candidate_def)
      qed
    qed
  qed
  then show "consistent durable U m'"
    and "om_ops m' = om_ops m \<or> (\<exists>c. terminalOperationCandidate now cur resp code msg = Some c \<and>
      om_ops m' = gm_set n c (om_ops m) \<and> (\<forall>s. om_store m' = Some s \<longrightarrow> backed durable s n c))" by blast+
qed

lemma finalizeDurable_consistent:
  assumes "consistent durable U m" and "int64_range code" and "finalizeDurable api now n resp code msg m = (e, m')"
  shows "consistent durable U m'"
proof (cases "gm_get (om_ops m) n")
  case None
  with assms show ?thesis by (simp add: finalizeDurable_def)
next
  case (Some cur)
  with assms show ?thesis by (auto simp: finalizeDurable_def dest: finish_candidate_result(1))
qed

lemma FinalizeScoped_consistent:
  assumes "consistent durable U m" and "int64_range code"
    and "FinalizeScopedDurableWithBarrier api now n resp code msg b m = (e, m')"
  shows "consistent durable U m'"
proof (cases "gm_get (om_ops m) n")
  case None
  with assms show ?thesis by (simp add: FinalizeScopedDurableWithBarrier_def)
next
  case (Some cur)
  with assms show ?thesis
    by (auto simp: FinalizeScopedDurableWithBarrier_def split: if_splits dest: finish_candidate_result(1))
qed

lemma AdvanceDurable_consistent:
  assumes "consistent durable U m" and "int64_range progress" and "AdvanceDurable api now n progress status m = (e, m')"
  shows "consistent durable U m'"
proof (cases "status = StatusDone")
  case True
  with assms show ?thesis by (auto simp: AdvanceDurable_def intro: finalizeDurable_consistent [of U m 0])
next
  case False
  show ?thesis
  proof (cases "gm_get (om_ops m) n")
    case None
    with False assms show ?thesis by (simp add: AdvanceDurable_def)
  next
    case (Some op)
    let ?op = "op\<lparr>o_progress := progress, o_status := status,
       o_start := (if status = StatusRunning \<and> o_start op = [] then now else o_start op)\<rparr>"
    show ?thesis
    proof (cases "terminal op")
      case True
      with False Some assms show ?thesis by (simp add: AdvanceDurable_def)
    next
      case nt: False
      obtain e1 m1 where p: "persistLocked api (m\<lparr>om_ops := gm_set n ?op (om_ops m)\<rparr>) = (e1, m1)"
        by (cases "persistLocked api (m\<lparr>om_ops := gm_set n ?op (om_ops m)\<rparr>)")
      have "op_wf op" using assms(1) Some consistent_wf ops_wf_get by blast
      then have wf: "op_wf ?op" using assms(2) by (simp add: op_wf_def)
      have "\<not> terminal ?op" using nt False by (simp add: terminal_def)
      then have "consistent durable U m1"
        by (intro persist_consistent(1) [OF assms(1) p]) (use wf assms(1) consistent_wf in \<open>auto split: if_splits\<close>)
      with assms(3) False Some nt p show ?thesis by (auto simp: AdvanceDurable_def split: option.splits)
    qed
  qed
qed

lemma UpdateMetadata_consistent:
  assumes "consistent durable U m" and "UpdateMetadata api n v m = (e, m')"
  shows "consistent durable U m'"
proof (cases "v = None \<or> gm_get (om_ops m) n = None")
  case True
  with assms show ?thesis by (auto simp: UpdateMetadata_def split: option.splits)
next
  case False
  then obtain j op where jo: "v = Some j" "gm_get (om_ops m) n = Some op" by auto
  let ?op = "op\<lparr>o_metadata := jcanon j\<rparr>"
  obtain e1 m1 where p: "persistLocked api (m\<lparr>om_ops := gm_set n ?op (om_ops m)\<rparr>) = (e1, m1)"
    by (cases "persistLocked api (m\<lparr>om_ops := gm_set n ?op (om_ops m)\<rparr>)")
  have "op_wf op" using assms(1) jo consistent_wf ops_wf_get by blast
  then have wf: "op_wf ?op" by (simp add: op_wf_def)
  then have "consistent durable U m1"
    by (intro persist_consistent(1) [OF assms(1) p])
      (use wf assms(1) jo consistent_wf in \<open>auto simp: terminal_def split: if_splits\<close>)
  with assms(2) jo p show ?thesis by (auto simp: UpdateMetadata_def split: option.splits)
qed

text \<open>
  A removal whose save failed and whose readback failed too restores an operation it cannot know to be
  durable; every other removal keeps the invariant.
\<close>

lemma remove_step:
  assumes "consistent durable U m" and "persistLocked api (m\<lparr>om_ops := gm_del n (om_ops m)\<rparr>) = (Some e, m1)"
    and "readback api m1 = (Inr dur, m2)"
  shows "consistent durable U m2" and "om_ops m2 = gm_del n (om_ops m)"
    and "gm_get dur n = Some d \<Longrightarrow> consistent durable U (m2\<lparr>om_ops := gm_set n d (om_ops m2)\<rparr>)"
    and "gm_get (om_ops m) n = Some prev \<Longrightarrow> gm_get dur n \<noteq> None \<Longrightarrow>
      consistent durable U (m2\<lparr>om_ops := gm_set n prev (om_ops m2)\<rparr>)"
proof -
  note c1 = consistent_del_persist [OF assms(1,2)]
  note c2 = readback_consistent [OF c1(1) assms(3)]
  show "consistent durable U m2" and ops: "om_ops m2 = gm_del n (om_ops m)" using c1 c2 by simp_all
  show "gm_get dur n = Some d \<Longrightarrow> consistent durable U (m2\<lparr>om_ops := gm_set n d (om_ops m2)\<rparr>)"
    by (rule consistent_set [OF c2(1)]) (use c2(3,4) ops_wf_get in blast)+
  show "gm_get (om_ops m) n = Some prev \<Longrightarrow> gm_get dur n \<noteq> None \<Longrightarrow>
      consistent durable U (m2\<lparr>om_ops := gm_set n prev (om_ops m2)\<rparr>)"
  proof (rule consistent_set [OF c2(1)])
    assume prev: "gm_get (om_ops m) n = Some prev" and some: "gm_get dur n \<noteq> None"
    show "op_wf prev" using prev assms(1) consistent_wf ops_wf_get by blast
    fix s2 assume s2: "om_store m2 = Some s2" and t: "terminal prev" and u: "n \<notin> U"
    have run: "persistOperationSnapshotLocked api (gm_del n (om_ops m)) (m\<lparr>om_ops := gm_del n (om_ops m)\<rparr>) = (Some e, m1)"
      using assms(2) by (simp add: persistLocked_def)
    have wf: "ops_wf (gm_del n (om_ops m))" using consistent_wf [OF assms(1)] by (rule ops_wf_del)
    note q = persist_snapshot [OF run wf]
    from q(3) obtain s where s: "om_store m = Some s" by (cases "om_store m") auto
    with q(4) [of s] obtain s1 where s1: "om_store m1 = Some s1" by auto
    obtain x s' where x: "loadOperationSnapshot api s1 = (x, s')" by (cases "loadOperationSnapshot api s1")
    with assms(3) s1 s2 have "x = Inr dur" "s' = s2" by (auto simp: readback_def)
    with load_snapshot [OF x] have dur: "durable_snapshot durable s1 = Some dur"
      "durable_snapshot durable s2 = Some dur" by auto
    from q(4) [of s] s s1 consider (kept) "durable_snapshot durable s1 = durable_snapshot durable s"
      | (new) "durable_snapshot durable s1 = Some (sort_members (gm_del n (om_ops m)))" by auto
    then have "durable_snapshot durable s1 = durable_snapshot durable s"
    proof cases
      case new
      then have "dur = sort_members (gm_del n (om_ops m))" using dur by simp
      moreover have "gm_wf (gm_del n (om_ops m))" using wf by (simp add: ops_wf_def)
      ultimately have "gm_get dur n = None" by simp
      with some show ?thesis by simp
    qed
    with dur consistentD [OF assms(1) u s prev t] show "backed durable s2 n prev" by (simp add: backed_def)
  qed
qed

lemma lost_step:
  assumes "consistent durable U m" and "persistLocked api (m\<lparr>om_ops := gm_del n (om_ops m)\<rparr>) = (Some e, m1)"
    and "readback api m1 = (r, m2)" and "gm_get (om_ops m) n = Some prev"
  shows "consistent durable (insert n U) (m2\<lparr>om_ops := gm_set n prev (om_ops m2)\<rparr>)"
proof -
  note c2 = readback_consistent [OF consistent_del_persist(1) [OF assms(1,2)] assms(3)]
  have "op_wf prev" using assms(1,4) consistent_wf ops_wf_get by blast
  then show ?thesis by (intro consistent_set [OF consistent_mono [OF c2(1)]]) auto
qed

lemma RemoveDurable_consistent:
  assumes "consistent durable U m" and "RemoveDurable api n m = (e, m')"
  shows "consistent durable (lost e \<union> U) m'"
proof (cases "gm_get (om_ops m) n")
  case None
  with assms show ?thesis by (simp add: RemoveDurable_def lost_def)
next
  case (Some prev)
  obtain e1 m1 where p: "persistLocked api (m\<lparr>om_ops := gm_del n (om_ops m)\<rparr>) = (e1, m1)"
    by (cases "persistLocked api (m\<lparr>om_ops := gm_del n (om_ops m)\<rparr>)")
  obtain r m2 where rd: "readback api m1 = (r, m2)" by (cases "readback api m1")
  show ?thesis
  proof (cases "\<not> o_done prev \<or> e1 = None")
    case True
    with assms Some p consistent_del_persist(1) [OF assms(1) p] show ?thesis
      by (auto simp: RemoveDurable_def lost_def split: if_splits option.splits)
  next
    case False
    then obtain err where e1: "e1 = Some err" and dn: "o_done prev" by auto
    show ?thesis
    proof (cases r)
      case (Inl l)
      with assms(2) Some p rd e1 dn lost_step [OF assms(1) p [unfolded e1] rd Some] show ?thesis
        by (auto simp: RemoveDurable_def lost_def)
    next
      case (Inr dur)
      note step = remove_step [OF assms(1) p [unfolded e1] rd [unfolded Inr]]
      from assms(2) Some p rd e1 dn Inr step(1) step(4) [OF Some] show ?thesis
        by (auto simp: RemoveDurable_def lost_def split: if_splits)
    qed
  qed
qed

lemma RollbackScopedRegistration_consistent:
  assumes "consistent durable U m" and "RollbackScopedRegistration api n m = (e, m')"
  shows "consistent durable (lost e \<union> U) m'"
proof (cases "gm_get (om_ops m) n")
  case None
  with assms show ?thesis by (simp add: RollbackScopedRegistration_def lost_def)
next
  case (Some prev)
  obtain e1 m1 where p: "persistLocked api (m\<lparr>om_ops := gm_del n (om_ops m)\<rparr>) = (e1, m1)"
    by (cases "persistLocked api (m\<lparr>om_ops := gm_del n (om_ops m)\<rparr>)")
  obtain r m2 where rd: "readback api m1 = (r, m2)" by (cases "readback api m1")
  show ?thesis
  proof (cases e1)
    case None
    with assms Some p consistent_del_persist(1) [OF assms(1) p] show ?thesis
      by (auto simp: RollbackScopedRegistration_def lost_def)
  next
    case e1: (Some err)
    show ?thesis
    proof (cases r)
      case (Inl l)
      have "consistent durable (insert n U) (m2\<lparr>om_ops := gm_set n prev (om_ops m2), om_persistence_error := x\<rparr>)" for x
        using lost_step [OF assms(1) p [unfolded e1] rd Some] by (simp add: consistent_def mgr_wf_def)
      with assms(2) Some p rd e1 Inl show ?thesis by (auto simp: RollbackScopedRegistration_def Let_def lost_def)
    next
      case (Inr dur)
      note step = remove_step [OF assms(1) p [unfolded e1] rd [unfolded Inr]]
      have del: "consistent durable U (m2\<lparr>om_ops := gm_del n (om_ops m2)\<rparr>)" by (rule consistent_del [OF step(1)])
      let ?ops = "case gm_get dur n of Some d \<Rightarrow> gm_set n d (om_ops m2) | None \<Rightarrow> gm_del n (om_ops m2)"
      have "consistent durable U (m2\<lparr>om_ops := ?ops\<rparr>)"
        using step(3) del by (cases "gm_get dur n") auto
      then have "consistent durable U (m2\<lparr>om_ops := ?ops, om_persistence_error := x\<rparr>)" for x
        by (simp add: consistent_def mgr_wf_def)
      with assms(2) Some p rd e1 Inr show ?thesis
        by (auto simp: RollbackScopedRegistration_def Let_def lost_def)
    qed
  qed
qed

section \<open>Restart\<close>

lemma interrupt_facts [simp]:
  "terminal (interruptOperation now op)" "op_wf op \<Longrightarrow> op_wf (interruptOperation now op)"
  "isInterruptedOperation (interruptOperation now op)"
  by (auto simp: interruptOperation_def terminal_def op_wf_def isInterruptedOperation_def canonicalRPCCode_def
      rpc_table_def int64_range_def)

lemma restart_result:
  assumes "NewOperationManagerWithStore api now s = (Inr m, s')"
  shows "om_store m = Some s'" and "consistent durable U m"
    and "om_ops m = (case durable_snapshot durable s of None \<Rightarrow> []
       | Some snap \<Rightarrow> map (\<lambda>(n, op). (n, if terminal op then op else interruptOperation now op)) snap)"
proof -
  obtain r s1 where l: "loadOperationSnapshot api s = (r, s1)" by (cases "loadOperationSnapshot api s")
  note ld = load_snapshot [OF l]
  have "om_store m = Some s' \<and> consistent durable U m \<and> om_ops m = (case durable_snapshot durable s of None \<Rightarrow> []
       | Some snap \<Rightarrow> map (\<lambda>(n, op). (n, if terminal op then op else interruptOperation now op)) snap)"
  proof (cases r)
    case (Inl e)
    with assms l have "not_found_error e" "m = NewOperationManager\<lparr>om_store := Some s1\<rparr>" "s1 = s'"
      by (auto simp: NewOperationManagerWithStore_def split: if_splits)
    with ld(3) [OF Inl] show ?thesis by (auto simp: NewOperationManager_def consistent_def mgr_wf_def)
  next
    case (Inr loaded)
    note dur = ld(2) [OF Inr]
    define ops where "ops = map (\<lambda>(n, op). (n, if terminal op then op else interruptOperation now op)) loaded"
    let ?m = "NewOperationManager\<lparr>om_ops := ops, om_store := Some s1\<rparr>"
    have wf: "ops_wf ops" using dur unfolding ops_def
      by (auto simp: ops_wf_def intro: interrupt_facts(2))
    have get: "gm_get ops n = map_option (\<lambda>op. if terminal op then op else interruptOperation now op) (gm_get loaded n)" for n
      unfolding ops_def by (rule gm_get_map)
    have snap1: "durable_snapshot durable s1 = Some loaded" using dur ld(1) by simp
    show ?thesis
    proof (cases "\<exists>(n, op) \<in> set loaded. \<not> terminal op")
      case False
      then have same: "ops = loaded" unfolding ops_def by (intro map_idI) auto
      have "consistent durable U ?m"
      proof (rule consistentI)
        fix sx n op
        assume "om_store ?m = Some sx" "gm_get (om_ops ?m) n = Some op" "terminal op"
        moreover have "o_response op \<noteq> RawBad" using dur calculation(2) same decode_snapshot_not_bad
          by (auto simp: durable_snapshot_def split: option.splits sum.splits)
        ultimately show "backed durable sx n op" using snap1 same by (auto simp: backed_def intro: same_result_refl)
      qed (use wf in simp)
      moreover have "m = ?m" "s1 = s'"
        using assms l Inr False by (auto simp: NewOperationManagerWithStore_def ops_def Let_def split: if_splits)
      ultimately show ?thesis using dur by (simp add: ops_def)
    next
      case True
      obtain e m' where p: "persistLocked api ?m = (e, m')" by (cases "persistLocked api ?m")
      with assms l Inr True have m: "e = None" "m = m'" "s' = the (om_store m')"
        by (auto simp: NewOperationManagerWithStore_def ops_def Let_def split: if_splits option.splits)
      have run: "persistOperationSnapshotLocked api ops ?m = (None, m)"
        using p m by (simp add: persistLocked_def)
      note q = persist_snapshot [OF run wf]
      from q(4) [of s1] obtain s2 where s2: "om_store m = Some s2"
        "durable_snapshot durable s2 = Some (sort_members ops)"
        "\<forall>n op. gm_get ops n = Some op \<longrightarrow> o_response op \<noteq> RawBad" by auto
      have "consistent durable U m"
      proof (rule consistentI)
        show "ops_wf (om_ops m)" using q(1) wf by simp
        fix sx n op
        assume "om_store m = Some sx" "gm_get (om_ops m) n = Some op" "terminal op"
        with s2 q(1) wf show "backed durable sx n op"
          by (auto simp: backed_def ops_wf_def intro: same_result_refl)
      qed
      with m s2 q(1) dur show ?thesis by (simp add: ops_def)
    qed
  qed
  then show "om_store m = Some s'" "consistent durable U m"
    "om_ops m = (case durable_snapshot durable s of None \<Rightarrow> []
       | Some snap \<Rightarrow> map (\<lambda>(n, op). (n, if terminal op then op else interruptOperation now op)) snap)" by auto
qed

lemma restart_keeps_result:
  assumes "consistent durable U m" and "n \<notin> U" and "om_store m = Some s" and "gm_get (om_ops m) n = Some op" and "terminal op"
    and "NewOperationManagerWithStore api now s = (Inr m', s')"
  shows "\<exists>op'. gm_get (om_ops m') n = Some op' \<and> same_result op' op"
proof -
  from consistentD [OF assms(1-5)] obtain snap d where d: "durable_snapshot durable s = Some snap"
    "gm_get snap n = Some d" "same_result d op" by (auto simp: backed_def)
  with restart_result(3) [OF assms(6)] have "gm_get (om_ops m') n = Some d"
    by (simp add: gm_get_map same_result_def)
  with d show ?thesis by blast
qed

end

end
