(* ===== verification/Operation_Properties.thy ===== *)
theory Operation_Properties
  imports State_Store_Properties Operation_Steps
begin

text \<open>
  The properties of the operation manager over the document store: reachable managers, restarts,
  terminal results, registration, polling and the asynchronous lifecycle.
\<close>

section \<open>The manager on the document store\<close>

text \<open>The document store is the store of the manager: the lemmas over the contract become facts about it.\<close>

interpretation disk_ops: operation_store Save Load durable_entry
  by (rule operation_store.intro) (rule disk_store.entry_store_axioms)

abbreviation store_api :: "store entry_api" where
  "store_api \<equiv> \<lparr>api_save = Save, api_load = Load\<rparr>"

section \<open>Sequences of calls\<close>

datatype mgr_call =
    CallRegister draw string string string string string bool
  | CallRegisterScoped draw operation_scope string
  | CallAdvance string string int string
  | CallMetadata string "json option"
  | CallFinalize string string raw_message int string
  | CallFinalizeScoped string string raw_message int string "barrier_outcome option"
  | CallRollback string
  | CallRemove string

fun run_mgr :: "'s entry_api \<Rightarrow> mgr_call \<Rightarrow> 's manager \<Rightarrow> op_error option \<times> 's manager" where
  "run_mgr api (CallRegister e k t target z r rb) m =
     (case register api e k t target z r rb m of (Inl x, m') \<Rightarrow> (Some x, m') | (Inr _, m') \<Rightarrow> (None, m'))"
| "run_mgr api (CallRegisterScoped e scope t) m =
     (case RegisterScopedDurable api e scope t m of (Inl x, m') \<Rightarrow> (Some x, m') | (Inr _, m') \<Rightarrow> (None, m'))"
| "run_mgr api (CallAdvance now n progress status) m = AdvanceDurable api now n progress status m"
| "run_mgr api (CallMetadata n v) m = UpdateMetadata api n v m"
| "run_mgr api (CallFinalize now n resp code msg) m = finalizeDurable api now n resp code msg m"
| "run_mgr api (CallFinalizeScoped now n resp code msg b) m = FinalizeScopedDurableWithBarrier api now n resp code msg b m"
| "run_mgr api (CallRollback n) m = RollbackScopedRegistration api n m"
| "run_mgr api (CallRemove n) m = RemoveDurable api n m"

text \<open>The integers of a call are Go \<open>int\<close>s.\<close>

fun valid_call :: "mgr_call \<Rightarrow> bool" where
  "valid_call (CallAdvance now n progress status) = int64_range progress"
| "valid_call (CallFinalize now n resp code msg) = int64_range code"
| "valid_call (CallFinalizeScoped now n resp code msg b) = int64_range code"
| "valid_call _ = True"

text \<open>
  The managers a restart makes and calls change, whatever saves and loads fail, with the names they lost track
  of: those whose removal or rollback could neither be saved nor read back, so that the process cannot know
  whether they are durable.
\<close>

inductive mgr_reachable :: "string set \<Rightarrow> store manager \<Rightarrow> bool" where
  restart: "NewOperationManagerWithStore store_api now s = (Inr m, s') \<Longrightarrow> mgr_reachable {} m"
| call: "mgr_reachable U m \<Longrightarrow> valid_call c \<Longrightarrow> run_mgr store_api c m = (e, m') \<Longrightarrow> mgr_reachable (lost e \<union> U) m'"

lemma run_mgr_consistent:
  assumes "consistent durable_entry U m" and "valid_call c" and "run_mgr store_api c m = (e, m')"
  shows "consistent durable_entry (lost e \<union> U) m'"
proof -
  have all: "consistent durable_entry U m' \<Longrightarrow> ?thesis" by (rule consistent_mono) auto
  show ?thesis
  proof (cases c)
    case (CallRegister dr k t target z r rb)
    with assms have "consistent durable_entry U m'"
      by (cases "register store_api dr k t target z r rb m") (auto split: sum.splits dest: disk_ops.register_consistent)
    then show ?thesis by (rule all)
  next
    case (CallRegisterScoped dr scope t)
    with assms have "consistent durable_entry U m'"
      by (cases "RegisterScopedDurable store_api dr scope t m") (auto split: sum.splits dest: disk_ops.RegisterScopedDurable_consistent)
    then show ?thesis by (rule all)
  next
    case (CallRollback n)
    with assms show ?thesis by (auto intro: disk_ops.RollbackScopedRegistration_consistent)
  next
    case (CallRemove n)
    with assms show ?thesis by (auto intro: disk_ops.RemoveDurable_consistent)
  qed (rule all, use assms in \<open>auto intro: disk_ops.AdvanceDurable_consistent disk_ops.UpdateMetadata_consistent
      disk_ops.finalizeDurable_consistent disk_ops.FinalizeScoped_consistent\<close>)+
qed

lemma mgr_reachable_consistent: "mgr_reachable U m \<Longrightarrow> consistent durable_entry U m"
  by (induction rule: mgr_reachable.induct) (auto dest: disk_ops.restart_result(2) run_mgr_consistent)

definition empty_manager :: "store manager" where
  "empty_manager = NewOperationManager\<lparr>om_store := Some (snd (Load operationStateEntry (fresh_store [])))\<rparr>"

lemma empty_manager_restart:
  "NewOperationManagerWithStore store_api now (fresh_store []) =
     (Inr empty_manager, snd (Load operationStateEntry (fresh_store [])))"
proof -
  obtain r s' where l: "Load operationStateEntry (fresh_store []) = (r, s')"
    by (cases "Load operationStateEntry (fresh_store [])")
  have "case fst (Load operationStateEntry (fresh_store [])) of Inl e \<Rightarrow> is_err ErrNotFound e | Inr _ \<Rightarrow> False" by code_simp
  with l show ?thesis
    by (auto simp: NewOperationManagerWithStore_def loadOperationSnapshot_def empty_manager_def not_found_error_def
        split: sum.splits)
qed

lemma empty_manager_reachable: "mgr_reachable {} empty_manager"
  by (rule mgr_reachable.restart [OF empty_manager_restart [of "''t''"]])

definition sample_draw :: draw where
  "sample_draw = \<lparr>draw_now = ''t0'', draw_unix = 7, draw_suffix = [0, 1, 2], draw_id = 5\<rparr>"

definition sample_scope :: operation_scope where
  "sample_scope = \<lparr>sc_service = ''batch#operation'', sc_project = ''p'', sc_location = ''l'',
     sc_target = ''projects/p/locations/l/jobs/j''\<rparr>"

definition sample_name :: string where
  "sample_name = ''projects/p/locations/l/operations/operation-7-abc''"

definition one_operation :: "store manager" where
  "one_operation = snd (run_mgr store_api (CallRegisterScoped sample_draw sample_scope ''create'') empty_manager)"

definition one_done :: "store manager" where
  "one_done = snd (run_mgr store_api (CallFinalizeScoped ''t1'' sample_name RawNil 404 ''gone'' None) one_operation)"

lemma one_operation_reachable: "mgr_reachable {} one_operation"
proof -
  have "lost (fst (run_mgr store_api (CallRegisterScoped sample_draw sample_scope ''create'') empty_manager)) = {}" by code_simp
  with mgr_reachable.call [OF empty_manager_reachable _ surjective_pairing, of "CallRegisterScoped sample_draw sample_scope ''create''"]
  show ?thesis by (simp add: one_operation_def)
qed

lemma one_done_reachable: "mgr_reachable {} one_done"
proof -
  have "lost (fst (run_mgr store_api (CallFinalizeScoped ''t1'' sample_name RawNil 404 ''gone'' None) one_operation)) = {}" by code_simp
  with mgr_reachable.call [OF one_operation_reachable _ surjective_pairing, of "CallFinalizeScoped ''t1'' sample_name RawNil 404 ''gone'' None"]
  show ?thesis by (simp add: one_done_def int64_range_def)
qed

section \<open>Properties\<close>

text \<open>
  C1: terminal results survive a crash.  In every manager calls can reach, whatever saves and loads failed on
  the way, a restart from its store finds every visible terminal operation again as a terminal one, with
  the same error and an equal response.  Two cases are left out: an operation that an earlier restart marked
  as interrupted is found terminal, but its result may be the authoritative one that replaced the mark; and
  nothing is claimed for a name whose own removal or rollback could neither be saved nor read back.
\<close>

theorem terminal_results_survive_restart:
  assumes "mgr_reachable U m" and "n \<notin> U" and "om_store m = Some s" and "gm_get (om_ops m) n = Some op" and "terminal op"
    and "NewOperationManagerWithStore store_api now s = (Inr m', s')"
  shows "\<exists>op'. gm_get (om_ops m') n = Some op' \<and> terminal op' \<and>
    (isInterruptedOperation op \<or> o_error op' = o_error op \<and> raw_equal (o_response op') (o_response op))"
  using disk_ops.restart_keeps_result [OF mgr_reachable_consistent [OF assms(1)] assms(2-6)]
  by (auto simp: same_result_def)

theorem terminal_results_survive_restart_witness:
  "\<exists>m' op'. fst (NewOperationManagerWithStore store_api ''t2'' (the (om_store one_done))) = Inr m' \<and>
     gm_get (om_ops m') sample_name = Some op' \<and> terminal op' \<and> o_error op' = Some (5, ''gone'')"
proof -
  let ?r = "NewOperationManagerWithStore store_api ''t2'' (the (om_store one_done))"
  let ?op = "the (gm_get (om_ops one_done) sample_name)"
  have "let m = one_done; op = the (gm_get (om_ops m) sample_name) in om_store m \<noteq> None \<and> gm_get (om_ops m) sample_name \<noteq> None \<and>
      terminal op \<and> \<not> isInterruptedOperation op \<and> o_error op = Some (5, ''gone'')" by code_simp
  then have st: "om_store one_done \<noteq> None" and op: "gm_get (om_ops one_done) sample_name \<noteq> None" "terminal ?op" "\<not> isInterruptedOperation ?op"
    "o_error ?op = Some (5, ''gone'')" unfolding Let_def by blast+
  have "case fst ?r of Inr _ \<Rightarrow> True | Inl _ \<Rightarrow> False" by code_simp
  then obtain m' s' where r: "?r = (Inr m', s')" by (cases ?r) (auto split: sum.splits)
  from st obtain s where s: "om_store one_done = Some s" by blast
  from op(1) have g: "gm_get (om_ops one_done) sample_name = Some ?op" by auto
  from terminal_results_survive_restart [OF one_done_reachable _ s g op(2)] r s op(3,4) show ?thesis by fastforce
qed

text \<open>
  C16: a restart replays nothing.  The restarted manager knows exactly the operations of the durable
  snapshot; every one of them is terminal: the ones that were, unchanged, the others as interrupted.
\<close>

theorem restart_interrupts_unfinished:
  assumes "NewOperationManagerWithStore store_api now s = (Inr m, s')"
  shows "om_ops m = (case durable_snapshot durable_entry s of None \<Rightarrow> []
      | Some snap \<Rightarrow> map (\<lambda>(n, op). (n, if terminal op then op else interruptOperation now op)) snap) \<and>
    list_all terminal (List_ops m)"
  using disk_ops.restart_result(3) [OF assms]
  by (auto simp: List_ops_def list_all_iff split: option.splits)

theorem restart_interrupts_unfinished_witness:
  "\<exists>m. fst (NewOperationManagerWithStore store_api ''t2'' (the (om_store one_operation))) = Inr m \<and>
     map fst (om_ops m) = [sample_name] \<and> list_all terminal (List_ops m)"
proof -
  let ?r = "NewOperationManagerWithStore store_api ''t2'' (the (om_store one_operation))"
  have "case fst ?r of Inr m \<Rightarrow> map fst (om_ops m) = [sample_name] | Inl _ \<Rightarrow> False" by code_simp
  then obtain m s' where r: "?r = (Inr m, s')" and n: "map fst (om_ops m) = [sample_name]"
    by (cases ?r) (auto split: sum.splits)
  from restart_interrupts_unfinished [OF r] r n show ?thesis by auto
qed

text \<open>
  C2: persist before publish.  A scoped finalizer leaves the registry as it was, or makes exactly its
  terminal candidate visible under the name, and then the store already holds that result durably.
\<close>

theorem finalize_publishes_only_durable:
  assumes "mgr_reachable U m" and "int64_range code"
    and "FinalizeScopedDurableWithBarrier store_api now n resp code msg barrier m = (e, m')"
  shows "om_ops m' = om_ops m \<or>
    (\<exists>cur c. gm_get (om_ops m) n = Some cur \<and> terminalOperationCandidate now cur resp code msg = Some c \<and>
       om_ops m' = gm_set n c (om_ops m) \<and> o_done c \<and> (\<forall>s. om_store m' = Some s \<longrightarrow> backed durable_entry s n c))"
proof (cases "gm_get (om_ops m) n")
  case None
  with assms(3) show ?thesis by (simp add: FinalizeScopedDurableWithBarrier_def)
next
  case (Some cur)
  note c = mgr_reachable_consistent [OF assms(1)]
  have wf: "op_wf cur" using Some c consistent_wf ops_wf_get by blast
  show ?thesis
  proof (cases "isScopedOperation cur")
    case True
    with assms(3) Some have "finish_candidate store_api now n cur resp code msg barrier m = (e, m')"
      by (simp add: FinalizeScopedDurableWithBarrier_def)
    from disk_ops.finish_candidate_result(2) [OF c Some assms(2) this] Some show ?thesis
      using candidate_facts(3) [OF _ wf assms(2)] by auto
  next
    case False
    with assms(3) Some show ?thesis by (simp add: FinalizeScopedDurableWithBarrier_def)
  qed
qed

text \<open>The witness lets the final directory sync of the save fail: the readback confirms the candidate.\<close>

theorem finalize_publishes_only_durable_witness:
  "\<exists>c. gm_get (om_ops one_done) sample_name = Some c \<and> o_done c \<and>
     backed durable_entry (the (om_store one_done)) sample_name c"
proof -
  let ?run = "FinalizeScopedDurableWithBarrier store_api ''t1'' sample_name RawNil 404 ''gone'' None one_operation"
  have d: "one_done = snd ?run" by (simp add: one_done_def)
  have code: "int64_range 404" by (simp add: int64_range_def)
  have st: "om_store one_done \<noteq> None" by code_simp
  have "map_option o_done (gm_get (om_ops one_operation) sample_name) = Some False"
    "map_option o_done (gm_get (om_ops one_done) sample_name) = Some True" by code_simp+
  then have ne: "om_ops one_done \<noteq> om_ops one_operation" by auto
  obtain e m' where run: "?run = (e, m')" by (cases ?run)
  then have m': "m' = one_done" by (simp add: d)
  from finalize_publishes_only_durable [OF one_operation_reachable code run] ne
  obtain c where "om_ops one_done = gm_set sample_name c (om_ops one_operation)" "o_done c"
    "\<forall>s. om_store one_done = Some s \<longrightarrow> backed durable_entry s sample_name c" unfolding m' by auto
  with st show ?thesis by auto
qed

end
