(* ===== verification/Operation_Lifecycle.thy ===== *)
theory Operation_Lifecycle
  imports Operation_Properties
begin

text \<open>
  Properties of single operations of the manager: stability and idempotence of terminal results,
  registration with rollback, scoped polling, and the asynchronous lifecycle.
\<close>

section \<open>What the calls do to the registry\<close>

lemma persist_ops [simp]: "persistOperationSnapshotLocked api snap m = (e, m') \<Longrightarrow> om_ops m' = om_ops m"
  by (auto simp: persistOperationSnapshotLocked_def split: option.splits prod.splits)

lemma persistLocked_ops [simp]: "persistLocked api m = (e, m') \<Longrightarrow> om_ops m' = om_ops m"
  by (simp add: persistLocked_def)

lemma readback_ops [simp]: "readback api m = (r, m') \<Longrightarrow> om_ops m' = om_ops m"
  by (auto simp: readback_def split: option.splits prod.splits)

lemma candidate_persist_ops:
  "persistTerminalCandidateLocked api n c snap m = (r, m') \<Longrightarrow> om_ops m' = om_ops m"
  by (auto simp: persistTerminalCandidateLocked_def Let_def
      split: prod.splits option.splits sum.splits dest!: persist_ops)

lemma finish_ops:
  assumes "finish_candidate api now n cur resp code msg b m = (e, m')"
  shows "k \<noteq> n \<Longrightarrow> gm_get (om_ops m') k = gm_get (om_ops m) k"
    and "terminal cur \<Longrightarrow> \<not> isInterruptedOperation cur \<Longrightarrow> m' = m"
  using assms
  by (auto simp: finish_candidate_def publishTerminalCandidate_def
      split: option.splits if_splits sum.splits prod.splits dest!: candidate_persist_ops)

lemma insert_ops:
  assumes "insertDurable api op rb m = (r, m')" and "k \<noteq> o_name op"
  shows "gm_get (om_ops m') k = gm_get (om_ops m) k"
  using assms
  by (auto simp: insertDurable_def Let_def split: prod.splits option.splits if_splits sum.splits
      dest!: persistLocked_ops readback_ops)

section \<open>Stability\<close>

definition call_replaces :: "mgr_call \<Rightarrow> string \<Rightarrow> bool" where
  "call_replaces c n =
     (case c of
        CallRegister e _ _ _ _ _ _ \<Rightarrow> n = operationID e
      | CallRegisterScoped e scope _ \<Rightarrow> n = canonicalOperationName e (sc_project scope) (sc_location scope)
      | CallRollback k \<Rightarrow> n = k
      | CallRemove k \<Rightarrow> n = k
      | _ \<Rightarrow> False)"

definition keeps_result :: "string \<Rightarrow> operation \<Rightarrow> 's manager \<Rightarrow> bool" where
  "keeps_result n op m \<longleftrightarrow> (\<exists>op'. gm_get (om_ops m) n = Some op' \<and> terminal op' \<and>
     o_error op' = o_error op \<and> o_response op' = o_response op)"

lemma keeps_same: "gm_get (om_ops m) n = Some op \<Longrightarrow> terminal op \<Longrightarrow> keeps_result n op m"
  by (simp add: keeps_result_def)

lemma remove_ops:
  "RemoveDurable api k m = (e, m') \<Longrightarrow> n \<noteq> k \<Longrightarrow> gm_get (om_ops m') n = gm_get (om_ops m) n"
  "RollbackScopedRegistration api k m = (e, m') \<Longrightarrow> n \<noteq> k \<Longrightarrow> gm_get (om_ops m') n = gm_get (om_ops m) n"
  by (auto simp: RemoveDurable_def RollbackScopedRegistration_def Let_def
      split: prod.splits option.splits if_splits sum.splits dest!: persistLocked_ops readback_ops)

lemma finalize_keeps:
  assumes "gm_get (om_ops m) n = Some op" and "terminal op" and "\<not> isInterruptedOperation op"
  shows "finalizeDurable api now k resp code msg m = (e, m') \<Longrightarrow> gm_get (om_ops m') n = Some op"
    and "FinalizeScopedDurableWithBarrier api now k resp code msg b m = (e, m') \<Longrightarrow> gm_get (om_ops m') n = Some op"
proof -
  have fin: "gm_get (om_ops m') n = Some op"
    if "finish_candidate api now k cur resp code msg b m = (e, m')" "gm_get (om_ops m) k = Some cur" for b cur
    using finish_ops [OF that(1)] that(2) assms by (cases "n = k") auto
  show "finalizeDurable api now k resp code msg m = (e, m') \<Longrightarrow> gm_get (om_ops m') n = Some op"
    using assms(1) by (auto simp: finalizeDurable_def split: option.splits dest: fin)
  show "FinalizeScopedDurableWithBarrier api now k resp code msg b m = (e, m') \<Longrightarrow> gm_get (om_ops m') n = Some op"
    using assms(1) by (auto simp: FinalizeScopedDurableWithBarrier_def split: option.splits if_splits dest: fin)
qed

lemma advance_keeps:
  assumes "gm_get (om_ops m) n = Some op" and "terminal op" and "\<not> isInterruptedOperation op"
    and "AdvanceDurable api now k p st m = (e, m')"
  shows "gm_get (om_ops m') n = Some op"
proof (cases "st = StatusDone")
  case True
  with assms(4) finalize_keeps(1) [OF assms(1-3)] show ?thesis by (auto simp: AdvanceDurable_def)
next
  case False
  with assms show ?thesis
    by (cases "n = k")
      (auto simp: AdvanceDurable_def split: option.splits if_splits prod.splits dest!: persistLocked_ops)
qed

lemma metadata_keeps:
  assumes "gm_get (om_ops m) n = Some op" and "terminal op" and "UpdateMetadata api k v m = (e, m')"
  shows "keeps_result n op m'"
proof (cases "n = k")
  case True
  with assms show ?thesis
    by (auto simp: UpdateMetadata_def keeps_result_def terminal_def
        split: option.splits prod.splits dest!: persistLocked_ops)
next
  case False
  with assms have "gm_get (om_ops m') n = Some op"
    by (auto simp: UpdateMetadata_def split: option.splits prod.splits dest!: persistLocked_ops)
  with assms show ?thesis by (simp add: keeps_same)
qed

lemma register_keeps:
  assumes "register api e k t target z r rb m = (x, m')" and "n \<noteq> operationID e"
  shows "gm_get (om_ops m') n = gm_get (om_ops m) n"
proof -
  obtain p l where pl: "resourceParentScope target = (p, l)" by (cases "resourceParentScope target")
  let ?op = "(newOperation e (operationID e) k t target z r)\<lparr>o_service := k, o_project := p,
     o_location := (if l \<noteq> [] then l else if r \<noteq> [] then r else z)\<rparr>"
  have "insertDurable api ?op rb m = (x, m')" using assms(1) pl by (simp add: register_def)
  from insert_ops [OF this, of n] assms(2) show ?thesis by (simp add: newOperation_def)
qed

lemma register_scoped_keeps:
  assumes "RegisterScopedDurable api e scope t m = (x, m')"
    and "n \<noteq> canonicalOperationName e (sc_project scope) (sc_location scope)"
  shows "gm_get (om_ops m') n = gm_get (om_ops m) n"
proof (cases "sc_service scope = [] \<or> sc_target scope = []")
  case True
  with assms show ?thesis by (auto simp: RegisterScopedDurable_def)
next
  case False
  let ?op = "(newOperation e (canonicalOperationName e (sc_project scope) (sc_location scope)) (sc_service scope) t
     (sc_target scope) [] (sc_location scope))\<lparr>o_service := sc_service scope, o_project := sc_project scope,
       o_location := sc_location scope\<rparr>"
  have "insertDurable api ?op True m = (x, m')" using assms(1) False by (simp add: RegisterScopedDurable_def Let_def)
  from insert_ops [OF this, of n] assms(2) show ?thesis by (simp add: newOperation_def)
qed

text \<open>A finalizer of an interrupted operation publishes a terminal candidate or leaves the registry.\<close>

definition call_finalizes :: "mgr_call \<Rightarrow> string \<Rightarrow> bool" where
  "call_finalizes c n =
     (case c of
        CallAdvance _ k _ status \<Rightarrow> n = k \<and> status = StatusDone
      | CallFinalize _ k _ _ _ \<Rightarrow> n = k
      | CallFinalizeScoped _ k _ _ _ _ \<Rightarrow> n = k
      | _ \<Rightarrow> False)"

lemma candidate_terminal: "terminalOperationCandidate now cur resp code msg = Some c \<Longrightarrow> terminal c"
  by (auto simp: terminalOperationCandidate_def ensureScopedTerminalResponse_def Let_def terminal_def split: if_splits option.splits)

definition stays_terminal :: "string \<Rightarrow> 's manager \<Rightarrow> bool" where
  "stays_terminal n m \<longleftrightarrow> (\<exists>op. gm_get (om_ops m) n = Some op \<and> terminal op)"

lemma stays_terminalI: "gm_get (om_ops m) n = Some op \<Longrightarrow> terminal op \<Longrightarrow> stays_terminal n m"
  by (auto simp: stays_terminal_def)

lemma finish_stays_terminal:
  assumes "finish_candidate api now k cur resp code msg b m = (e, m')" and "stays_terminal n m"
  shows "stays_terminal n m'"
proof -
  have "om_ops m' = om_ops m \<or> (\<exists>c. terminal c \<and> om_ops m' = gm_set k c (om_ops m))"
    using assms(1) by (auto simp: finish_candidate_def publishTerminalCandidate_def
      split: option.splits if_splits sum.splits prod.splits dest!: candidate_persist_ops intro: candidate_terminal)
  with assms(2) show ?thesis by (auto simp: stays_terminal_def)
qed

lemma finalizers_stay_terminal:
  assumes "stays_terminal n m"
  shows "finalizeDurable api now k resp code msg m = (e, m') \<Longrightarrow> stays_terminal n m'"
    and "FinalizeScopedDurableWithBarrier api now k resp code msg b m = (e, m') \<Longrightarrow> stays_terminal n m'"
    and "AdvanceDurable api now k p StatusDone m = (e, m') \<Longrightarrow> stays_terminal n m'"
  using assms finish_stays_terminal [OF _ assms]
  by (auto simp: finalizeDurable_def FinalizeScopedDurableWithBarrier_def AdvanceDurable_def split: option.splits if_splits)

lemma other_call_keeps:
  assumes "gm_get (om_ops m) n = Some op" and "terminal op" and "run_mgr api c m = (e, m')" and "\<not> call_replaces c n"
    and "\<not> call_finalizes c n"
  shows "keeps_result n op m'"
proof -
  have fin: "gm_get (om_ops m') n = Some op" if "finish_candidate api now k cur resp code msg b m = (e, m')" "n \<noteq> k" for now k cur resp code msg b
    using finish_ops(1) [OF that] assms(1) by simp
  show ?thesis
  proof (cases c)
    case (CallRegister dr k t target z r rb)
    with assms show ?thesis
      by (auto simp: call_replaces_def keeps_result_def split: prod.splits sum.splits dest: register_keeps)
  next
    case (CallRegisterScoped dr scope t)
    with assms show ?thesis
      by (auto simp: call_replaces_def keeps_result_def split: prod.splits sum.splits dest: register_scoped_keeps)
  next
    case (CallAdvance now k p st)
    with assms have "gm_get (om_ops m') n = Some op"
      by (cases "n = k") (auto simp: call_finalizes_def AdvanceDurable_def finalizeDurable_def
          split: option.splits if_splits prod.splits dest!: persistLocked_ops intro: fin)
    with assms(2) show ?thesis by (simp add: keeps_same)
  next
    case (CallMetadata k v)
    with assms metadata_keeps [OF assms(1,2)] show ?thesis by simp
  next
    case (CallFinalize now k resp code msg)
    with assms have "gm_get (om_ops m') n = Some op"
      by (auto simp: call_finalizes_def finalizeDurable_def split: option.splits intro: fin)
    with assms(2) show ?thesis by (simp add: keeps_same)
  next
    case (CallFinalizeScoped now k resp code msg b)
    with assms have "gm_get (om_ops m') n = Some op"
      by (auto simp: call_finalizes_def FinalizeScopedDurableWithBarrier_def split: option.splits if_splits intro: fin)
    with assms(2) show ?thesis by (simp add: keeps_same)
  qed (use assms in \<open>auto simp: call_replaces_def keeps_result_def dest: remove_ops\<close>)
qed

text \<open>
  C17: a terminal operation stays terminal, and its result is final.  No call makes a terminal operation
  non-terminal or changes its error or response, unless the call removes or rolls back that very name or
  registers a new operation that draws it; except that a result a restart put in as a mark of interruption
  may be replaced, by a finalizer of that name, with the authoritative one.
\<close>

theorem terminal_result_stable:
  assumes "gm_get (om_ops m) n = Some op" and "terminal op" and "run_mgr api c m = (e, m')" and "\<not> call_replaces c n"
  shows "\<exists>op'. gm_get (om_ops m') n = Some op' \<and> terminal op' \<and>
    (o_error op' = o_error op \<and> o_response op' = o_response op \<or> isInterruptedOperation op \<and> call_finalizes c n)"
proof (cases "call_finalizes c n")
  case False
  from other_call_keeps [OF assms False] show ?thesis by (auto simp: keeps_result_def)
next
  case True
  have st: "stays_terminal n m" by (rule stays_terminalI [OF assms(1,2)])
  show ?thesis
  proof (cases "isInterruptedOperation op")
    case i: True
    have "stays_terminal n m'"
      using True assms(3) finalizers_stay_terminal [OF st] by (cases c) (auto simp: call_finalizes_def)
    with True i show ?thesis by (auto simp: stays_terminal_def)
  next
    case False
    have "gm_get (om_ops m') n = Some op"
      using True assms(3) finalize_keeps [OF assms(1,2) False] advance_keeps [OF assms(1,2) False]
      by (cases c) (auto simp: call_finalizes_def)
    with assms(2) show ?thesis by blast
  qed
qed

theorem terminal_result_stable_witness:
  "\<exists>op'. gm_get (om_ops (snd (run_mgr store_api (CallFinalize ''t9'' sample_name RawNil 0 '''') one_done))) sample_name = Some op' \<and>
     terminal op' \<and> o_error op' = Some (5, ''gone'')"
proof -
  let ?op = "the (gm_get (om_ops one_done) sample_name)"
  have op: "gm_get (om_ops one_done) sample_name \<noteq> None" "terminal ?op" "\<not> isInterruptedOperation ?op"
    "o_error ?op = Some (5, ''gone'')" by code_simp+
  from op(1) have g: "gm_get (om_ops one_done) sample_name = Some ?op" by auto
  have c: "\<not> call_replaces (CallFinalize ''t9'' sample_name RawNil 0 '''') sample_name"
    by (simp add: call_replaces_def)
  from terminal_result_stable [OF g op(2) surjective_pairing c, of store_api] op(3,4) show ?thesis by auto
qed

section \<open>Retries\<close>

definition same_identity :: "operation \<Rightarrow> operation \<Rightarrow> bool" where
  "same_identity a b \<longleftrightarrow> o_name a = o_name b \<and> o_service a = o_service b \<and> o_type a = o_type b \<and> o_target a = o_target b"

lemma same_identity_refl [simp]: "same_identity a a"
  by (simp add: same_identity_def)

lemma same_identity_scope:
  "same_identity a b \<Longrightarrow> isScopedOperation a = isScopedOperation b \<and> operationResponseType a = operationResponseType b"
  by (simp add: same_identity_def isScopedOperation_def operationResponseType_def)

lemma ensure_again:
  assumes "ensureScopedTerminalResponse a = Some b" and "same_identity a' a"
    and "o_error a' = o_error a" and "o_response a' = o_response a"
  shows "\<exists>b'. ensureScopedTerminalResponse a' = Some b' \<and> o_error b' = o_error b \<and> o_response b' = o_response b"
proof (cases "\<not> isScopedOperation a \<or> o_error a \<noteq> None \<or> operationResponseType a = []")
  case True
  with assms same_identity_scope [OF assms(2)] show ?thesis by (auto simp: ensureScopedTerminalResponse_def Let_def)
next
  case False
  then obtain m where m: "response_map (o_response a) = Some m"
    using assms(1) by (auto simp: ensureScopedTerminalResponse_def Let_def split: option.splits)
  define m1 where "m1 = gm_set ''@type'' (JStr (operationResponseType a)) m"
  define R where "R = Raw (JObj (sort_members
     (if operationResponseType a \<noteq> emptyType \<and> o_target a \<noteq> [] \<and> gm_get m1 ''name'' = None
      then gm_set ''name'' (JStr (o_target a)) m1 else m1)))"
  have eq: "ensureScopedTerminalResponse x = Some (x\<lparr>o_response := R\<rparr>)"
    if "same_identity x a" "o_error x = o_error a" "o_response x = o_response a" for x
  proof -
    have "o_target x = o_target a" using that(1) by (simp add: same_identity_def)
    with that m False same_identity_scope [OF that(1)] show ?thesis
      by (simp add: ensureScopedTerminalResponse_def Let_def R_def m1_def)
  qed
  from eq [of a] eq [OF assms(2-4)] assms(1,3) show ?thesis by auto
qed

lemma ensure_identity: "ensureScopedTerminalResponse a = Some b \<Longrightarrow> same_identity b a \<and> o_error b = o_error a \<and> terminal b = terminal a"
  by (auto simp: ensureScopedTerminalResponse_def Let_def same_identity_def terminal_def split: if_splits option.splits)

lemma candidate_identity:
  assumes "terminalOperationCandidate now cur resp code msg = Some c"
  shows "same_identity c cur" and "terminal c"
    and "o_error c = None \<and> code = 0 \<or> (\<exists>k. o_error c = Some (k, msg))"
  using assms
  by (auto simp: terminalOperationCandidate_def Let_def same_identity_def terminal_def
      split: if_splits dest!: ensure_identity)

lemma candidate_again:
  assumes "terminalOperationCandidate now cur resp code msg = Some c" and "same_identity cur' cur"
  shows "\<exists>c'. terminalOperationCandidate now' cur' resp code msg = Some c' \<and> o_error c' = o_error c \<and> o_response c' = o_response c"
proof (cases "code = 0")
  case True
  let ?a = "\<lambda>t x. x\<lparr>o_status := StatusDone, o_done := True, o_progress := 100, o_end := t, o_error := None, o_response := resp\<rparr>"
  have "ensureScopedTerminalResponse (?a now cur) = Some c"
    using assms(1) True by (simp add: terminalOperationCandidate_def Let_def)
  moreover have "same_identity (?a now' cur') (?a now cur)" using assms(2) by (simp add: same_identity_def)
  ultimately show ?thesis using ensure_again [of "?a now cur" c "?a now' cur'"] True
    by (simp add: terminalOperationCandidate_def Let_def)
next
  case False
  with assms show ?thesis
    by (auto simp: terminalOperationCandidate_def Let_def same_identity_def isScopedOperation_def)
qed

lemma ensure_response_good:
  "ensureScopedTerminalResponse a = Some b \<Longrightarrow> o_response a \<noteq> RawBad \<Longrightarrow> o_response b \<noteq> RawBad"
  by (auto simp: ensureScopedTerminalResponse_def Let_def split: if_splits option.splits)

lemma candidate_response_good:
  "terminalOperationCandidate now cur resp code msg = Some c \<Longrightarrow> resp \<noteq> RawBad \<Longrightarrow> o_response c \<noteq> RawBad"
  by (auto simp: terminalOperationCandidate_def Let_def split: if_splits dest: ensure_response_good)

lemma results_equal_self:
  "o_error a = o_error b \<Longrightarrow> o_response a = o_response b \<Longrightarrow> o_response a \<noteq> RawBad \<Longrightarrow> terminalResultsEqual a b = Inr True"
  by (cases "o_response b") (auto simp: terminalResultsEqual_def exactJSONEqual_def raw_decode_def)

lemma results_equal_trans:
  "terminalResultsEqual a b = Inr True \<Longrightarrow> o_error b = o_error c \<Longrightarrow> o_response b = o_response c \<Longrightarrow>
     terminalResultsEqual a c = Inr True"
  by (auto simp: terminalResultsEqual_def split: if_splits)

text \<open>
  Finalizing is idempotent.  After a finalizer succeeded, the same finalizer succeeds again at any
  later time and changes nothing: no save, no notification.
\<close>

theorem finalize_retry_is_noop:
  assumes "finalizeDurable api now n resp code msg m = (None, m')" and "resp \<noteq> RawBad"
    and "msg \<noteq> interruptedOperationMessage"
  shows "finalizeDurable api now' n resp code msg m' = (None, m')"
proof (cases "gm_get (om_ops m) n")
  case None
  with assms(1) show ?thesis by (auto simp: finalizeDurable_def)
next
  case (Some cur)
  with assms(1) have run: "finish_candidate api now n cur resp code msg None m = (None, m')"
    by (simp add: finalizeDurable_def)
  then obtain c where c: "terminalOperationCandidate now cur resp code msg = Some c"
    by (auto simp: finish_candidate_def split: option.splits)
  have fresh: "\<not> isInterruptedOperation c"
    using candidate_identity(3) [OF c] assms(3) by (auto simp: isInterruptedOperation_def)
  have t: "terminal c" by (rule candidate_identity(2) [OF c])
  show ?thesis
  proof (cases "terminal cur \<and> \<not> isInterruptedOperation cur")
    case True
    with run c have m': "m' = m" and eq: "terminalResultsEqual cur c = Inr True"
      by (auto simp: finish_candidate_def split: sum.splits if_splits)
    obtain c' where c': "terminalOperationCandidate now' cur resp code msg = Some c'"
      "o_error c' = o_error c" "o_response c' = o_response c"
      using candidate_again [OF c same_identity_refl] by blast
    have "terminalResultsEqual cur c' = Inr True"
      using results_equal_trans [OF eq, of c'] c'(2,3) by simp
    with m' c' Some True show ?thesis by (simp add: finalizeDurable_def finish_candidate_def)
  next
    case False
    obtain ok se re m1 where p: "persistTerminalCandidateLocked api n c (gm_set n c (om_ops m)) m = ((ok, se, re), m1)"
      by (cases "persistTerminalCandidateLocked api n c (gm_set n c (om_ops m)) m") auto
    have "ok \<or> se \<noteq> None" using p
      by (auto simp: persistTerminalCandidateLocked_def Let_def split: prod.splits option.splits sum.splits)
    with run c p False have "m' = notifyTerminal c (publishTerminalCandidate n c m1)"
      by (auto simp: finish_candidate_def terminalPersistenceError_def split: if_splits option.splits)
    then have get: "gm_get (om_ops m') n = Some c" by (simp add: publishTerminalCandidate_def)
    from candidate_again [OF c candidate_identity(1) [OF c], of now'] obtain c' where c': "terminalOperationCandidate now' c resp code msg = Some c'"
      "o_error c' = o_error c" "o_response c' = o_response c" by blast
    have "terminalResultsEqual c c' = Inr True"
      using c' candidate_response_good [OF c assms(2)] by (intro results_equal_self) auto
    with get c' fresh t show ?thesis by (simp add: finalizeDurable_def finish_candidate_def)
  qed
qed

theorem finalize_retry_is_noop_witness:
  "finalizeDurable store_api ''t3'' sample_name (Raw (JObj [])) 0 ''''
     (snd (finalizeDurable store_api ''t1'' sample_name (Raw (JObj [])) 0 '''' one_operation)) =
   (None, snd (finalizeDurable store_api ''t1'' sample_name (Raw (JObj [])) 0 '''' one_operation))"
proof (rule finalize_retry_is_noop [of store_api "''t1''"])
  have "fst (finalizeDurable store_api ''t1'' sample_name (Raw (JObj [])) 0 '''' one_operation) = None" by code_simp
  then show "finalizeDurable store_api ''t1'' sample_name (Raw (JObj [])) 0 '''' one_operation =
      (None, snd (finalizeDurable store_api ''t1'' sample_name (Raw (JObj [])) 0 '''' one_operation))"
    by (metis surjective_pairing)
qed (simp_all add: interruptedOperationMessage_def)

end
