(* ===== verification/Operation_Polling.thy ===== *)
theory Operation_Polling
  imports Operation_Properties
begin

text \<open>
  Properties of scoped polling, of registration with rollback, of the durable codec, and of the
  asynchronous lifecycle.
\<close>

section \<open>Paths\<close>

abbreviation slash :: char where "slash \<equiv> CHR ''/''"

lemma randomSuffix_no_slash: "slash \<notin> set (randomSuffix rs)"
proof -
  have "\<forall>i \<in> set [0..<36]. suffix_letters ! i \<noteq> slash" by code_simp
  then have "suffix_letters ! (r mod 36) \<noteq> slash" for r by simp
  then show ?thesis unfolding randomSuffix_def by fastforce
qed

lemma operationID_no_slash: "slash \<notin> set (operationID e)"
  using randomSuffix_no_slash [of "draw_suffix e"] dec_nat_char [of slash "draw_unix e"]
  by (auto simp: operationID_def)

lemma operationID_not_Nil: "operationID e \<noteq> []"
  by (simp add: operationID_def)

text \<open>A path segment.\<close>

definition segment :: "string \<Rightarrow> bool" where
  "segment s \<longleftrightarrow> s \<noteq> [] \<and> slash \<notin> set s"

lemma segment_id [simp]: "segment (operationID e)"
  by (simp add: segment_def operationID_no_slash operationID_not_Nil)

lemma split_segments: "list_all segment ps \<Longrightarrow> ps \<noteq> [] \<Longrightarrow> split slash (join ''/'' ps) = ps"
  by (rule split_join) (auto simp: list_all_iff segment_def)

lemma join_no_suffix:
  assumes "list_all segment ps" and "ps \<noteq> []"
  shows "\<not> has_suffix (join ''/'' ps) ''/''" and "join ''/'' ps \<noteq> []"
proof -
  have sp: "split slash (join ''/'' ps) = ps" by (rule split_segments [OF assms])
  show "join ''/'' ps \<noteq> []"
  proof
    assume "join ''/'' ps = []"
    with sp have "[[]] = ps" by simp
    with assms(1) show False by (auto simp: segment_def)
  qed
  have "split slash (s @ ''/'') = split slash s @ [[]]" for s
    by (induction s) (auto split: list.splits)
  then have last: "last (split slash (s @ ''/'')) = []" for s by simp
  show "\<not> has_suffix (join ''/'' ps) ''/''"
  proof
    assume "has_suffix (join ''/'' ps) ''/''"
    then obtain s where "join ''/'' ps = s @ ''/''" by (auto simp: has_suffix_iff)
    with sp last [of s] have "last ps = []" by simp
    with assms show False by (auto simp: list_all_iff segment_def dest: last_in_set)
  qed
qed

lemma operationPathScope_segments:
  assumes "list_all segment ps" and "ps \<noteq> []" and "ps' = (if hd ps \<noteq> ''projects'' \<and> hd ps \<noteq> ''locations'' \<and> hd ps \<noteq> ''operations'' then tl ps else ps)"
  shows "operationPathScope (''/'' @ join ''/'' ps) =
    (case ps' of
         [a, p, b, l, c, i] \<Rightarrow>
           if a = ''projects'' \<and> (b = ''locations'' \<or> b = ''regions'' \<or> b = ''zones'') \<and> c = ''operations''
           then (join ''/'' ps', p, l) else ([], [], [])
       | [a, p, c, i] \<Rightarrow>
           if a = ''projects'' \<and> c = ''operations'' then (join ''/'' ps', p, [])
           else if a = ''locations'' \<and> c = ''operations'' then (join ''/'' [c, i], [], p)
           else ([], [], [])
       | [a, i] \<Rightarrow> if a = ''operations'' then (join ''/'' ps', [], []) else ([], [], [])
       | _ \<Rightarrow> ([], [], []))"
proof -
  have tp: "trim_prefix (''/'' @ join ''/'' ps) ''/'' = join ''/'' ps" by (rule trim_prefix_append)
  have "[] \<notin> set ps" using assms(1) by (auto simp: list_all_iff segment_def)
  moreover have ps': "(if ps \<noteq> [] \<and> hd ps \<noteq> ''projects'' \<and> hd ps \<noteq> ''locations'' \<and> hd ps \<noteq> ''operations''
      then tl ps else ps) = ps'" using assms(2,3) by simp
  ultimately show ?thesis
    unfolding operationPathScope_def tp Let_def split_segments [OF assms(1,2)] ps'
    using join_no_suffix [OF assms(1,2)] by simp
qed

lemma scope_of_canonical:
  assumes "segment v" and "v \<noteq> ''projects''" "v \<noteq> ''locations''" "v \<noteq> ''operations''" and "segment p" and "segment l"
  shows "operationPathScope (''/'' @ v @ ''/'' @ canonicalOperationName e p l) = (canonicalOperationName e p l, p, l)"
proof -
  let ?ps = "[v, ''projects'', p, ''locations'', l, ''operations'', operationID e]"
  have name: "canonicalOperationName e p l = join ''/'' [''projects'', p, ''locations'', l, ''operations'', operationID e]"
    using assms(5,6) by (simp add: canonicalOperationName_def segment_def)
  have "list_all segment ?ps" using assms by (simp add: segment_def operationID_no_slash operationID_not_Nil)
  from operationPathScope_segments [OF this _ refl] assms(2-4) show ?thesis by (simp add: name)
qed

section \<open>Polling\<close>

text \<open>
  C33: polling is isolated by service and parent.  Whatever a poll of a path answers is registered under
  the path's operation name or its last segment, belongs to exactly the project and location the path
  encodes and to the polled service, and is rendered under the name in the path.
\<close>

theorem PollScoped_isolated:
  assumes "PollScoped path serviceKind m = Inr op"
  shows "\<exists>name project location op0. operationPathScope path = (name, project, location) \<and>
    (gm_get (om_ops m) name = Some op0 \<or> gm_get (om_ops m) (snd (splitOperationName name)) = Some op0) \<and>
    op = op0\<lparr>o_name := name\<rparr> \<and> o_project op0 = project \<and> o_location op0 = location \<and>
    (serviceKind = [] \<or> o_service op0 = serviceKind)"
proof -
  obtain name project location where p: "operationPathScope path = (name, project, location)"
    by (cases "operationPathScope path") auto
  have scoped: "gm_get (om_ops m) k = Some x \<and> (serviceKind = [] \<or> o_service x = serviceKind)"
    if "GetScoped k \<lparr>sc_service = serviceKind, sc_project = project, sc_location = location, sc_target = []\<rparr> m = Inr x" for k x
    using that by (auto simp: GetScoped_def Get_def split: option.splits if_splits)
  from assms p show ?thesis
    by (auto simp: PollScoped_def Let_def split: sum.splits if_splits dest!: scoped)
qed

theorem PollScoped_isolated_witness:
  "\<exists>op op0. PollScoped (''/v1/'' @ sample_name) ''batch#operation'' one_done = Inr op \<and>
     gm_get (om_ops one_done) sample_name = Some op0 \<and> o_project op0 = ''p'' \<and> o_location op0 = ''l''"
proof -
  have "case PollScoped (''/v1/'' @ sample_name) ''batch#operation'' one_done of Inr _ \<Rightarrow> True | Inl _ \<Rightarrow> False" by code_simp
  then obtain op where op: "PollScoped (''/v1/'' @ sample_name) ''batch#operation'' one_done = Inr op"
    by (auto split: sum.splits)
  have sc: "operationPathScope (''/v1/'' @ sample_name) = (sample_name, ''p'', ''l'')"
    "gm_get (om_ops one_done) (snd (splitOperationName sample_name)) = None" by code_simp+
  from PollScoped_isolated [OF op] op sc show ?thesis by auto
qed

lemma register_scoped_visible:
  assumes "RegisterScopedDurable api e scope t m = (Inr op, m')"
  shows "gm_get (om_ops m') (o_name op) = Some op"
    and "o_name op = canonicalOperationName e (sc_project scope) (sc_location scope)"
    and "o_service op = sc_service scope" and "o_project op = sc_project scope" and "o_location op = sc_location scope"
    and "sc_service scope \<noteq> []"
proof -
  have "sc_service scope \<noteq> []" using assms by (auto simp: RegisterScopedDurable_def split: if_splits)
  moreover have ops: "om_ops m2 = om_ops m1" if "persistLocked api m1 = (x, m2)" for m1 m2 :: "'s manager" and api x
    using that by (auto simp: persistLocked_def persistOperationSnapshotLocked_def split: option.splits prod.splits)
  ultimately show "gm_get (om_ops m') (o_name op) = Some op"
    "o_name op = canonicalOperationName e (sc_project scope) (sc_location scope)"
    "o_service op = sc_service scope" "o_project op = sc_project scope" "o_location op = sc_location scope"
    "sc_service scope \<noteq> []"
    using assms
    by (auto simp: RegisterScopedDurable_def insertDurable_def newOperation_def Let_def
        split: if_splits prod.splits option.splits sum.splits dest: ops)
qed

text \<open>
  A registered operation can be polled.  After a scoped registration succeeded for a project and a
  location that are path segments, polling the canonical name under any API version prefix answers the
  very operation the registration returned.
\<close>

theorem registered_operation_is_pollable:
  assumes "RegisterScopedDurable api e scope t m = (Inr op, m')" and "segment (sc_project scope)"
    and "segment (sc_location scope)" and "segment v" and "v \<notin> {''projects'', ''locations'', ''operations''}"
  shows "PollScoped (''/'' @ v @ ''/'' @ o_name op) (sc_service scope) m' = Inr op"
proof -
  note r = register_scoped_visible [OF assms(1)]
  have "operationPathScope (''/'' @ v @ ''/'' @ o_name op) = (o_name op, sc_project scope, sc_location scope)"
    using scope_of_canonical [of v] assms(2-5) r(2) by simp
  moreover have "o_name op \<noteq> []" using r(2) by (simp add: canonicalOperationName_def operationID_not_Nil)
  ultimately show ?thesis
    using r by (simp add: PollScoped_def GetScoped_def Get_def Let_def)
qed

theorem registered_operation_is_pollable_witness:
  "\<exists>op. gm_get (om_ops one_operation) sample_name = Some op \<and>
     PollScoped (''/v1/'' @ sample_name) ''batch#operation'' one_operation = Inr op"
proof -
  let ?r = "RegisterScopedDurable store_api sample_draw sample_scope ''create'' empty_manager"
  have "case fst ?r of Inr op \<Rightarrow> o_name op = sample_name | Inl _ \<Rightarrow> False" by code_simp
  then obtain op m' where r: "?r = (Inr op, m')" and n: "o_name op = sample_name"
    by (cases ?r) (auto split: sum.splits)
  then have m': "m' = one_operation" by (simp add: one_operation_def)
  have "segment (sc_project sample_scope)" "segment (sc_location sample_scope)" "segment ''v1''"
    by (simp_all add: segment_def sample_scope_def)
  from registered_operation_is_pollable [OF r this] register_scoped_visible(1) [OF r] show ?thesis
    by (simp add: n m' sample_scope_def)
qed

section \<open>Registration\<close>

definition readback_failed :: "op_error \<Rightarrow> bool" where
  "readback_failed e = (case e of OpCompensate _ _ (Some _) \<Rightarrow> True | _ \<Rightarrow> False)"

lemma load_not_found:
  assumes "loadOperationSnapshot store_api s = (Inl e, s')" and "not_found_error e"
  shows "durable_snapshot durable_entry s = None"
  by (rule disk_ops.load_snapshot(3) [OF assms(1) refl assms(2)])

definition durable_operation :: "string \<Rightarrow> store \<Rightarrow> operation option" where
  "durable_operation n s = (case durable_snapshot durable_entry s of Some snap \<Rightarrow> gm_get snap n | None \<Rightarrow> None)"

text \<open>
  C32: a failed registration leaves memory and disk in agreement.  When a scoped registration reports an
  error and the readback did not fail too, the name is visible exactly as the store holds it: absent, or
  the durable operation.
\<close>

theorem failed_registration_agrees_with_store:
  assumes "mgr_reachable U m" and "om_store m = Some s" and "sc_service scope \<noteq> []" and "sc_target scope \<noteq> []"
    and "RegisterScopedDurable store_api e scope t m = (Inl err, m')" and "\<not> readback_failed err"
    and "om_store m' = Some s'"
  shows "gm_get (om_ops m') (canonicalOperationName e (sc_project scope) (sc_location scope)) =
    durable_operation (canonicalOperationName e (sc_project scope) (sc_location scope)) s'"
proof -
  define op where "op = (newOperation e (canonicalOperationName e (sc_project scope) (sc_location scope))
      (sc_service scope) t (sc_target scope) [] (sc_location scope))
      \<lparr>o_service := sc_service scope, o_project := sc_project scope, o_location := sc_location scope\<rparr>"
  let ?n = "canonicalOperationName e (sc_project scope) (sc_location scope)"
  have n: "o_name op = ?n" by (simp add: op_def newOperation_def)
  have run: "insertDurable store_api op True m = (Inl err, m')"
    using assms(3-5) by (simp add: RegisterScopedDurable_def op_def Let_def)
  have wfop: "op_wf op" by (simp add: op_def newOperation_def op_wf_def zero_operation_def)
  have wf: "ops_wf (om_ops m)" using mgr_reachable_consistent [OF assms(1)] by (rule consistent_wf)
  let ?m1 = "m\<lparr>om_ops := gm_set ?n op (om_ops m)\<rparr>"
  obtain e1 m2 where p1: "persistLocked store_api ?m1 = (e1, m2)" by (cases "persistLocked store_api ?m1")
  from run p1 n obtain x where e1: "e1 = Some x" by (auto simp: insertDurable_def Let_def split: option.splits)
  note q1 = disk_ops.persist_snapshot [OF p1 [unfolded persistLocked_def]]
  have m2: "om_ops m2 = gm_set ?n op (om_ops m)" and s2: "\<exists>s2. om_store m2 = Some s2"
    using q1(1) q1(4) [of s] assms(2) wf wfop by auto
  let ?m3 = "m2\<lparr>om_ops := gm_del ?n (om_ops m2)\<rparr>"
  obtain e2 m4 where p2: "persistLocked store_api ?m3 = (e2, m4)" by (cases "persistLocked store_api ?m3")
  note q2 = disk_ops.persist_snapshot [OF p2 [unfolded persistLocked_def]]
  have wf3: "ops_wf (om_ops ?m3)" using m2 wf wfop by auto
  from s2 obtain s2 where s2: "om_store m2 = Some s2" by blast
  have m4: "om_ops m4 = gm_del ?n (om_ops m2)" using q2(1) wf3 by simp
  show ?thesis
  proof (cases e2)
    case None
    with q2(4) [of s2] s2 wf3 obtain s4 where s4: "om_store m4 = Some s4"
      "durable_snapshot durable_entry s4 = Some (sort_members (gm_del ?n (om_ops m2)))" by auto
    from run p1 p2 e1 None n have "m' = recordPersistenceFailure ?n False x m4"
      by (auto simp: insertDurable_def Let_def)
    moreover have "gm_wf (gm_del ?n (om_ops m2))" using wf3 by (simp add: ops_wf_def)
    ultimately show ?thesis using s4 m4 assms(7) by (simp add: durable_operation_def)
  next
    case (Some c)
    from q2(4) [of s2] s2 wf3 obtain s4 where s4: "om_store m4 = Some s4" by auto
    obtain r s5 where l: "loadOperationSnapshot store_api s4 = (r, s5)" by (cases "loadOperationSnapshot store_api s4")
    then have rb: "readback store_api m4 = (r, m4\<lparr>om_store := Some s5\<rparr>)" by (simp add: readback_def s4)
    note ld = disk_ops.load_snapshot [OF l]
    show ?thesis
    proof (cases r)
      case (Inr dur)
      from run p1 p2 e1 Some n rb Inr have st: "om_store m' = Some s5"
        and ops: "om_ops m' = (case gm_get dur ?n of Some d \<Rightarrow> gm_set ?n d (om_ops m4) | None \<Rightarrow> gm_del ?n (om_ops m4))"
        by (cases "gm_get dur ?n"; auto simp: insertDurable_def Let_def)+
      have "durable_snapshot durable_entry s5 = Some dur" using ld(1) ld(2) [OF Inr] by simp
      with st ops assms(7) show ?thesis by (cases "gm_get dur ?n") (auto simp: durable_operation_def)
    next
      case (Inl le)
      with run p1 p2 e1 Some n rb assms(6) have nf: "not_found_error le"
        by (auto simp: insertDurable_def Let_def readback_failed_def split: if_splits)
      with run p1 p2 e1 Some n rb Inl have "om_store m' = Some s5" "om_ops m' = gm_del ?n (om_ops m4)"
        by (auto simp: insertDurable_def Let_def)
      moreover have "durable_snapshot durable_entry s5 = None" using ld(1) ld(3) [OF Inl nf] by simp
      ultimately show ?thesis using assms(7) by (simp add: durable_operation_def)
    qed
  qed
qed

text \<open>The witness: the save fails after it replaced the file, the latch refuses the compensation, the readback works.\<close>

theorem failed_registration_agrees_with_store_witness:
  "\<exists>s err m' s'. NewOperationManagerWithStore store_api ''t'' (fresh_store (replicate 50 OsOk @ [OsFail])) = (Inr m', s') \<and>
     (\<exists>m2. RegisterScopedDurable store_api sample_draw sample_scope ''create'' m' = (Inl err, m2) \<and>
       om_store m2 = Some s \<and> gm_get (om_ops m2) sample_name = durable_operation sample_name s)"
proof -
  let ?s0 = "fresh_store (replicate 50 OsOk @ [OsFail])"
  let ?r = "NewOperationManagerWithStore store_api ''t'' ?s0"
  have "case fst ?r of Inr m \<Rightarrow> om_store m \<noteq> None \<and>
      (case RegisterScopedDurable store_api sample_draw sample_scope ''create'' m of
         (Inl err, m2) \<Rightarrow> \<not> readback_failed err \<and> om_store m2 \<noteq> None | _ \<Rightarrow> False) | Inl _ \<Rightarrow> False" by code_simp
  then obtain m s' s1 where r: "?r = (Inr m, s')" and s1: "om_store m = Some s1"
    and x: "case RegisterScopedDurable store_api sample_draw sample_scope ''create'' m of
         (Inl err, m2) \<Rightarrow> \<not> readback_failed err \<and> om_store m2 \<noteq> None | _ \<Rightarrow> False"
    by (cases ?r; cases "fst ?r") auto
  obtain y m2 where y: "RegisterScopedDurable store_api sample_draw sample_scope ''create'' m = (y, m2)"
    by (cases "RegisterScopedDurable store_api sample_draw sample_scope ''create'' m")
  with x obtain err s2 where "y = Inl err" and nf: "\<not> readback_failed err" and s2: "om_store m2 = Some s2"
    by (cases y) auto
  with y have g: "RegisterScopedDurable store_api sample_draw sample_scope ''create'' m = (Inl err, m2)" by simp
  have m: "mgr_reachable {} m" by (rule mgr_reachable.restart [OF r])
  have sc: "sc_service sample_scope \<noteq> []" "sc_target sample_scope \<noteq> []" by (simp_all add: sample_scope_def)
  have n: "canonicalOperationName sample_draw (sc_project sample_scope) (sc_location sample_scope) = sample_name" by code_simp
  from failed_registration_agrees_with_store [OF m s1 sc g nf s2] r g s2 show ?thesis unfolding n by blast
qed

section \<open>The durable codec\<close>

text \<open>
  The durable snapshot of a registry decodes to the same operations.  Whenever the map of operations
  can be written at all, the strict decoder reads back every operation, each field included.
\<close>

theorem snapshot_roundtrip:
  assumes "encode_snapshot m = Some v" and "ops_wf m"
  shows "\<exists>m'. decode_snapshot v = Inr m' \<and> (\<forall>n. gm_get m' n = gm_get m n)"
  using decode_encode_snapshot [OF assms] assms(2) by (simp add: ops_wf_def)

theorem snapshot_roundtrip_witness:
  "\<exists>v m'. encode_snapshot (om_ops one_done) = Some v \<and> decode_snapshot v = Inr m' \<and>
     gm_get m' sample_name = gm_get (om_ops one_done) sample_name"
proof -
  have "encode_snapshot (om_ops one_done) \<noteq> None" by code_simp
  then obtain v where v: "encode_snapshot (om_ops one_done) = Some v" by blast
  from snapshot_roundtrip [OF v consistent_wf [OF mgr_reachable_consistent [OF one_done_reachable]]] v show ?thesis by blast
qed

section \<open>The asynchronous lifecycle\<close>

lemma memory_persist [simp]: "om_store m = None \<Longrightarrow> persistOperationSnapshotLocked api snap m = (None, m)"
    "om_store m = None \<Longrightarrow> persistLocked api m = (None, m)"
  by (simp_all add: persistOperationSnapshotLocked_def persistLocked_def)

lemma memory_finalize:
  assumes "om_store m = None" and "gm_get (om_ops m) n = Some op" and "\<not> terminal op"
    and "terminalOperationCandidate now op resp code msg = Some c"
  shows "finalizeDurable api now n resp code msg m = (None, notifyTerminal c (publishTerminalCandidate n c m))"
  using assms
  by (simp add: finalizeDurable_def finish_candidate_def persistTerminalCandidateLocked_def
      runOperationTerminalBarrier_def)

lemma memory_advance:
  assumes "om_store m = None" and "gm_get (om_ops m) n = Some op" and "\<not> terminal op"
  shows "AdvanceDurable api now n p StatusRunning m = (None, m\<lparr>om_ops := gm_set n (op\<lparr>o_progress := p,
    o_status := StatusRunning, o_start := (if o_start op = [] then now else o_start op)\<rparr>) (om_ops m)\<rparr>)"
  using assms by (simp add: AdvanceDurable_def status_defs)

text \<open>
  The lifecycle never works on a finished operation.  If the operation is terminal when the first,
  second or progress step looks at it, the lifecycle stops there: the work function does not run when
  that is before the work, and the result that was there stays.
\<close>

theorem runAsync_stops_on_terminal:
  assumes "gm_get (om_ops (pause 0 m)) n = Some op" and "terminal op"
  shows "runAsyncWithPauses api now n work pause m = (False, pause 0 m)"
  using assms by (simp add: runAsyncWithPauses_def AdvanceDurable_def conflict_def status_defs)

theorem runAsync_stops_on_terminal_witness:
  "runAsyncWithPauses store_api ''t'' sample_name (\<lambda>m. (WorkOk, m)) (\<lambda>i m. m) one_done = (False, one_done)"
proof -
  have "map_option terminal (gm_get (om_ops one_done) sample_name) = Some True" by code_simp
  then obtain op where "gm_get (om_ops one_done) sample_name = Some op" "terminal op" by auto
  then show ?thesis by (intro runAsync_stops_on_terminal) simp_all
qed

lemma candidate_null_free:
  "terminalOperationCandidate now op RawNil code msg \<noteq> None"
  by (auto simp: terminalOperationCandidate_def ensureScopedTerminalResponse_def response_map_def Let_def)

text \<open>
  C34: An undisturbed lifecycle finishes.  On a memory-only manager, when nothing else touches the
  operation, the work runs and the operation ends DONE at 100 percent: without error when the work
  succeeded, with the work's code (canonical for scoped names) and message when it failed.
\<close>

theorem runAsync_completes:
  assumes "om_store m = None" and "gm_get (om_ops m) n = Some op" and "\<not> terminal op"
    and "\<And>m. work m = (w, m)" and "\<And>i m. pause i m = m" and "w = WorkFails code message \<Longrightarrow> code \<noteq> 0"
  shows "\<exists>m' op'. runAsyncWithPauses api now n work pause m = (True, m') \<and> gm_get (om_ops m') n = Some op' \<and>
    o_done op' \<and> o_status op' = StatusDone \<and> o_progress op' = 100 \<and>
    (w = WorkOk \<longrightarrow> o_error op' = None) \<and>
    (w = WorkFails code message \<longrightarrow>
       o_error op' = Some (if isScopedOperation op then canonicalRPCCode code else code, message))"
proof -
  define run where "run p x = x\<lparr>o_progress := p, o_status := StatusRunning,
     o_start := (if o_start x = [] then now else o_start x)\<rparr>" for p :: int and x :: operation
  have nt: "\<not> terminal (run p x)" if "\<not> terminal x" for p x
    using that by (simp add: run_def terminal_def status_defs)
  have adv: "AdvanceDurable api now n p StatusRunning m' = (None, m'\<lparr>om_ops := gm_set n (run p x) (om_ops m')\<rparr>)"
    if "om_store m' = None" "gm_get (om_ops m') n = Some x" "\<not> terminal x" for m' x p
    using memory_advance [OF that] by (simp add: run_def)
  have sc: "isScopedOperation (run p x) = isScopedOperation x" for p x
    by (simp add: run_def isScopedOperation_def)
  define m1 where "m1 = m\<lparr>om_ops := gm_set n (run 5 op) (om_ops m)\<rparr>"
  define m2 where "m2 = m1\<lparr>om_ops := gm_set n (run 25 (run 5 op)) (om_ops m1)\<rparr>"
  define m4 where "m4 = m2\<lparr>om_ops := gm_set n (run 85 (run 25 (run 5 op))) (om_ops m2)\<rparr>"
  have a1: "AdvanceDurable api now n 5 StatusRunning m = (None, m1)"
    unfolding m1_def by (rule adv [OF assms(1-3)])
  have a2: "AdvanceDurable api now n 25 StatusRunning m1 = (None, m2)"
    unfolding m2_def by (rule adv) (simp_all add: m1_def assms(1) nt [OF assms(3)])
  have a4: "AdvanceDurable api now n 85 StatusRunning m2 = (None, m4)"
    unfolding m4_def by (rule adv) (simp_all add: m2_def m1_def assms(1) nt assms(3))
  have fin: "\<exists>c. terminalOperationCandidate now x RawNil k msg = Some c \<and>
      finalizeDurable api now n RawNil k msg m' = (None, notifyTerminal c (publishTerminalCandidate n c m'))"
    if "om_store m' = None" "gm_get (om_ops m') n = Some x" "\<not> terminal x" for m' x k msg
    using candidate_null_free [of now x k msg] memory_finalize [OF that] by (metis not_None_eq)
  have facts: "o_done c \<and> o_status c = StatusDone \<and> o_progress c = 100 \<and> (k = 0 \<longrightarrow> o_error c = None) \<and>
      (k \<noteq> 0 \<longrightarrow> o_error c = Some (if isScopedOperation x then canonicalRPCCode k else k, msg))"
    if "terminalOperationCandidate now x RawNil k msg = Some c" for x k msg c
    using that by (auto simp: terminalOperationCandidate_def ensureScopedTerminalResponse_def Let_def
        isScopedOperation_def split: if_splits option.splits)
  show ?thesis
  proof (cases w)
    case WorkOk
    obtain c where c: "terminalOperationCandidate now (run 85 (run 25 (run 5 op))) RawNil 0 [] = Some c"
      "finalizeDurable api now n RawNil 0 [] m4 = (None, notifyTerminal c (publishTerminalCandidate n c m4))"
      using fin [of m4 "run 85 (run 25 (run 5 op))" 0 "[]"] assms(1,3) nt
      by (auto simp: m4_def m2_def m1_def)
    have "runAsyncWithPauses api now n work pause m = (True, notifyTerminal c (publishTerminalCandidate n c m4))"
      by (simp add: runAsyncWithPauses_def assms(4,5) a1 a2 a4 c(2) conflict_def WorkOk)
    then show ?thesis using facts [OF c(1)] WorkOk by (simp add: publishTerminalCandidate_def)
  next
    case (WorkFails k msg)
    obtain c where c: "terminalOperationCandidate now (run 25 (run 5 op)) RawNil k msg = Some c"
      "finalizeDurable api now n RawNil k msg m2 = (None, notifyTerminal c (publishTerminalCandidate n c m2))"
      using fin [of m2 "run 25 (run 5 op)" k msg] assms(1,3) nt by (auto simp: m2_def m1_def)
    have "runAsyncWithPauses api now n work pause m = (True, notifyTerminal c (publishTerminalCandidate n c m2))"
      by (simp add: runAsyncWithPauses_def assms(4,5) a1 a2 c(2) conflict_def WorkFails)
    then show ?thesis using facts [OF c(1)] WorkFails assms(6) sc by (simp add: publishTerminalCandidate_def)
  qed
qed

definition memory_manager :: "store manager" where
  "memory_manager = snd (register store_api sample_draw ''compute#operation'' ''insert'' ''projects/p/zones/z/instances/i'' ''z'' '''' False
     NewOperationManager)"

theorem runAsync_completes_witness:
  "\<exists>m' op'. runAsyncWithPauses store_api ''t'' ''operation-7-abc'' (\<lambda>m. (WorkFails 409 ''busy'', m)) (\<lambda>i m. m) memory_manager = (True, m') \<and>
     gm_get (om_ops m') ''operation-7-abc'' = Some op' \<and> o_done op' \<and> o_error op' = Some (409, ''busy'')"
proof -
  have st: "om_store memory_manager = None"
    and "map_option terminal (gm_get (om_ops memory_manager) ''operation-7-abc'') = Some False"
    and sc: "map_option isScopedOperation (gm_get (om_ops memory_manager) ''operation-7-abc'') = Some False" by code_simp+
  then obtain op where op: "gm_get (om_ops memory_manager) ''operation-7-abc'' = Some op" "\<not> terminal op" "\<not> isScopedOperation op"
    by auto
  from runAsync_completes [OF st op(1,2), of "\<lambda>m. (WorkFails 409 ''busy'', m)" "WorkFails 409 ''busy''" "\<lambda>i m. m" 409 "''busy''"
      store_api "''t''"] op(3)
  show ?thesis by auto
qed

text \<open>
  A \<open>null\<close> result is not survived.  When a scoped operation whose target has a typed response is
  finalized with the response \<open>null\<close>, decoding it makes the response map nil and the assignment of its
  type panics, with \<open>persistMu\<close> held.
\<close>

theorem null_response_panics:
  assumes "gm_get (om_ops m) n = Some op" and "isScopedOperation op" and "operationResponseType op \<noteq> []"
  shows "FinalizeScopedDurableWithBarrier api now n (Raw JNull) 0 msg barrier m = (Some OpPanic, m)"
proof -
  let ?a = "op\<lparr>o_status := StatusDone, o_done := True, o_progress := 100, o_end := now, o_error := None, o_response := Raw JNull\<rparr>"
  have "operationResponseType ?a = operationResponseType op" by (simp add: operationResponseType_def)
  moreover have "isScopedOperation ?a" using assms(2) by (simp add: isScopedOperation_def)
  ultimately have "terminalOperationCandidate now op (Raw JNull) 0 msg = None"
    using assms(3) by (simp add: terminalOperationCandidate_def ensureScopedTerminalResponse_def response_map_def Let_def)
  with assms(1,2) show ?thesis by (simp add: FinalizeScopedDurableWithBarrier_def finish_candidate_def)
qed

theorem null_response_panics_witness:
  "FinalizeScopedDurableWithBarrier store_api ''t1'' sample_name (Raw JNull) 0 '''' None one_operation = (Some OpPanic, one_operation)"
proof -
  have "gm_get (om_ops one_operation) sample_name \<noteq> None"
    "isScopedOperation (the (gm_get (om_ops one_operation) sample_name))"
    "operationResponseType (the (gm_get (om_ops one_operation) sample_name)) \<noteq> []" by code_simp+
  then show ?thesis by (intro null_response_panics) auto
qed

end
