(* ===== verification/Operation_Observer.thy ===== *)
theory Operation_Observer
  imports Operation_Manager
begin

text \<open>
  \<open>pkg/orchestrator/operations.go\<close>, terminal observers: one observer with its worker goroutine as a step
  relation.  \<open>observerMu\<close> makes each critical section one step; between them the notifiers, the
  unsubscriber and the worker interleave freely.  \<open>wakeup\<close> is the channel of capacity one.
\<close>

section \<open>The step relation\<close>

datatype worker =
    Waiting
  | Woken
  | Calling "operation option"
  | Stopped

record observer_state =
  os_pending :: "operation option"
  os_active :: bool
  os_wakeup :: bool
  os_worker :: worker
  os_delivered :: "operation option list"
  os_latest :: "operation option"

text \<open>\<open>ObserveTerminal\<close> registers the observer and starts its worker.  \<open>os_latest\<close> and \<open>os_delivered\<close> are
  ghosts: the latest notification and the arguments of the callback so far.\<close>

definition ObserveTerminal :: observer_state where
  "ObserveTerminal = \<lparr>os_pending = None, os_active = True, os_wakeup = False, os_worker = Waiting,
     os_delivered = [], os_latest = None\<rparr>"

definition observer_notify :: "operation \<Rightarrow> observer_state \<Rightarrow> observer_state" where
  "observer_notify op s =
     (if os_active s then s\<lparr>os_pending := Some op, os_wakeup := True, os_latest := Some op\<rparr> else s)"

definition observer_unsubscribe :: "observer_state \<Rightarrow> observer_state" where
  "observer_unsubscribe s = s\<lparr>os_active := False, os_pending := None\<rparr>"

text \<open>The unsubscriber's wakeup follows its critical section.\<close>

definition observer_poke :: "observer_state \<Rightarrow> observer_state" where
  "observer_poke s = s\<lparr>os_wakeup := True\<rparr>"

definition worker_locked :: "observer_state \<Rightarrow> observer_state" where
  "worker_locked s =
     (if \<not> os_active s then s\<lparr>os_pending := None, os_worker := Stopped\<rparr>
      else s\<lparr>os_pending := None, os_worker := Calling (os_pending s)\<rparr>)"

inductive observer_step :: "observer_state \<Rightarrow> observer_state \<Rightarrow> bool" where
  notify: "observer_step s (observer_notify op s)"
| unsubscribe: "observer_step s (observer_unsubscribe s)"
| poke: "\<not> os_active s \<Longrightarrow> observer_step s (observer_poke s)"
| receive: "os_worker s = Waiting \<Longrightarrow> os_wakeup s \<Longrightarrow>
    observer_step s (s\<lparr>os_wakeup := False, os_worker := Woken\<rparr>)"
| lock: "os_worker s = Woken \<Longrightarrow> observer_step s (worker_locked s)"
| deliver: "os_worker s = Calling op \<Longrightarrow>
    observer_step s (s\<lparr>os_worker := Waiting, os_delivered := os_delivered s @ [op]\<rparr>)"

inductive_cases observer_stepE: "observer_step s s'"

inductive observer_reachable :: "observer_state \<Rightarrow> bool" where
  start: "observer_reachable ObserveTerminal"
| step: "observer_reachable s \<Longrightarrow> observer_step s s' \<Longrightarrow> observer_reachable s'"

lemmas observer_defs = ObserveTerminal_def observer_notify_def observer_unsubscribe_def observer_poke_def worker_locked_def

section \<open>Invariants\<close>

text \<open>The last callback argument that was an operation.\<close>

definition last_delivered :: "operation option list \<Rightarrow> operation option" where
  "last_delivered ds = (let xs = filter (\<lambda>d. d \<noteq> None) ds in if xs = [] then None else last xs)"

lemma last_delivered_snoc [simp]:
  "last_delivered (ds @ [None]) = last_delivered ds"
  "last_delivered (ds @ [Some op]) = Some op"
  by (simp_all add: last_delivered_def Let_def)

text \<open>
  No wakeup is lost: while the observer is active a pending operation has a wakeup on the way, and the
  latest notification is pending, in the worker's hands, or the last one delivered.
\<close>

definition observer_inv :: "observer_state \<Rightarrow> bool" where
  "observer_inv s \<longleftrightarrow> (os_active s \<longrightarrow>
     os_worker s \<noteq> Stopped \<and>
     (os_pending s \<noteq> None \<longrightarrow> os_wakeup s \<or> os_worker s = Woken) \<and>
     (os_pending s \<noteq> None \<longrightarrow> os_pending s = os_latest s) \<and>
     (os_pending s = None \<longrightarrow>
        (case os_worker s of Calling (Some op) \<Rightarrow> os_latest s = Some op
         | _ \<Rightarrow> last_delivered (os_delivered s) = os_latest s)))"

lemma observer_inv_step: "observer_inv s \<Longrightarrow> observer_step s s' \<Longrightarrow> observer_inv s'"
  by (erule observer_stepE)
    (auto simp: observer_inv_def observer_defs split: worker.splits option.splits if_splits)

lemma observer_reachable_inv: "observer_reachable s \<Longrightarrow> observer_inv s"
proof (induction rule: observer_reachable.induct)
  case start
  then show ?case by (simp add: observer_inv_def ObserveTerminal_def last_delivered_def)
qed (rule observer_inv_step)

text \<open>After an unsubscription at most the callback already taken is still delivered.\<close>

definition in_flight :: "observer_state \<Rightarrow> operation option list" where
  "in_flight s = (case os_worker s of Calling op \<Rightarrow> [op] | _ \<Rightarrow> [])"

inductive observer_steps :: "observer_state \<Rightarrow> observer_state \<Rightarrow> bool" where
  refl: "observer_steps s s"
| step: "observer_steps s s' \<Longrightarrow> observer_step s' s'' \<Longrightarrow> observer_steps s s''"

lemma inactive_step:
  "observer_step s s' \<Longrightarrow> \<not> os_active s \<Longrightarrow>
     \<not> os_active s' \<and> prefix (os_delivered s) (os_delivered s') \<and>
     os_delivered s' @ in_flight s' = os_delivered s @ in_flight s"
  by (erule observer_stepE) (auto simp: observer_defs in_flight_def)

lemma inactive_steps:
  "observer_steps s s' \<Longrightarrow> \<not> os_active s \<Longrightarrow>
     \<not> os_active s' \<and> prefix (os_delivered s) (os_delivered s') \<and>
     os_delivered s' @ in_flight s' = os_delivered s @ in_flight s"
  by (induction rule: observer_steps.induct) (auto dest!: inactive_step intro: prefix_order.trans)

lemma reachable_steps: "observer_steps s s' \<Longrightarrow> observer_reachable s \<Longrightarrow> observer_reachable s'"
  by (induction rule: observer_steps.induct) (auto intro: observer_reachable.step)

section \<open>Properties\<close>

text \<open>
  C35: No terminal notification is lost.  In every reachable state of an active observer that came to
  rest - its worker waits and no wakeup is on the way - the last operation handed to the callback is the
  latest one notified.
\<close>

theorem observer_delivers_latest:
  assumes "observer_reachable s" and "os_active s" and "os_worker s = Waiting" and "\<not> os_wakeup s"
  shows "last_delivered (os_delivered s) = os_latest s"
  using observer_reachable_inv [OF assms(1)] assms(2-4) by (auto simp: observer_inv_def)

definition op_a :: operation where "op_a = zero_operation\<lparr>o_name := ''a''\<rparr>"
definition op_b :: operation where "op_b = zero_operation\<lparr>o_name := ''b''\<rparr>"

definition rested :: observer_state where
  "rested = \<lparr>os_pending = None, os_active = True, os_wakeup = False, os_worker = Waiting,
     os_delivered = [Some op_a], os_latest = Some op_a\<rparr>"

lemma rested_reachable: "observer_reachable rested"
proof -
  let ?s1 = "observer_notify op_a ObserveTerminal"
  let ?s2 = "?s1\<lparr>os_wakeup := False, os_worker := Woken\<rparr>"
  let ?s3 = "worker_locked ?s2"
  let ?s4 = "?s3\<lparr>os_worker := Waiting, os_delivered := os_delivered ?s3 @ [Some op_a]\<rparr>"
  have "observer_reachable ?s1" by (rule observer_reachable.step [OF observer_reachable.start observer_step.notify])
  then have "observer_reachable ?s2"
    by (rule observer_reachable.step [OF _ observer_step.receive]) (simp_all add: observer_defs)
  then have "observer_reachable ?s3"
    by (rule observer_reachable.step [OF _ observer_step.lock]) simp
  then have "observer_reachable ?s4"
    by (rule observer_reachable.step [OF _ observer_step.deliver]) (simp add: observer_defs)
  moreover have "?s4 = rested" by (simp add: observer_defs rested_def)
  ultimately show ?thesis by simp
qed

theorem observer_delivers_latest_witness: "last_delivered (os_delivered rested) = os_latest rested"
  by (rule observer_delivers_latest [OF rested_reachable]) (simp_all add: rested_def)

text \<open>
  An unsubscribed observer is left alone.  After the critical section of \<open>Unsubscribe\<close> no step
  sequence delivers anything but the one operation the worker had already taken, and nothing twice.
\<close>

theorem unsubscribe_stops_delivery:
  assumes "observer_steps (observer_unsubscribe s) s'"
  shows "os_delivered s' = os_delivered s \<or> os_delivered s' = os_delivered s @ in_flight s"
  using inactive_steps [OF assms]
  by (auto simp: observer_unsubscribe_def in_flight_def prefix_def split: worker.splits)

theorem unsubscribe_stops_delivery_witness:
  "os_delivered (observer_notify op_b (observer_unsubscribe rested)) = [Some op_a]"
proof -
  have "observer_steps (observer_unsubscribe rested) (observer_notify op_b (observer_unsubscribe rested))"
    by (rule observer_steps.step [OF observer_steps.refl observer_step.notify])
  from unsubscribe_stops_delivery [OF this] show ?thesis by (simp add: rested_def in_flight_def)
qed

text \<open>
  The worker can call its callback with a nil operation.  A notification that arrives after the
  worker received the wakeup and before it takes the lock refills the channel; the worker takes both
  operations with its first lock, and the second wakeup delivers nothing.
\<close>

theorem nil_delivery_reachable:
  "\<exists>s. observer_reachable s \<and> os_active s \<and> os_delivered s = [Some op_b, None]"
proof -
  let ?s1 = "observer_notify op_a ObserveTerminal"
  let ?s2 = "?s1\<lparr>os_wakeup := False, os_worker := Woken\<rparr>"
  let ?s3 = "observer_notify op_b ?s2"
  let ?s4 = "worker_locked ?s3"
  let ?s5 = "?s4\<lparr>os_worker := Waiting, os_delivered := os_delivered ?s4 @ [Some op_b]\<rparr>"
  let ?s6 = "?s5\<lparr>os_wakeup := False, os_worker := Woken\<rparr>"
  let ?s7 = "worker_locked ?s6"
  let ?s8 = "?s7\<lparr>os_worker := Waiting, os_delivered := os_delivered ?s7 @ [None]\<rparr>"
  have "observer_reachable ?s1" by (rule observer_reachable.step [OF observer_reachable.start observer_step.notify])
  then have "observer_reachable ?s2"
    by (rule observer_reachable.step [OF _ observer_step.receive]) (simp_all add: observer_defs)
  then have "observer_reachable ?s3" by (rule observer_reachable.step [OF _ observer_step.notify])
  then have "observer_reachable ?s4" by (rule observer_reachable.step [OF _ observer_step.lock]) (simp add: observer_defs)
  then have "observer_reachable ?s5"
    by (rule observer_reachable.step [OF _ observer_step.deliver]) (simp add: observer_defs)
  then have "observer_reachable ?s6"
    by (rule observer_reachable.step [OF _ observer_step.receive]) (simp_all add: observer_defs)
  then have "observer_reachable ?s7" by (rule observer_reachable.step [OF _ observer_step.lock]) simp
  then have "observer_reachable ?s8"
    by (rule observer_reachable.step [OF _ observer_step.deliver]) (simp add: observer_defs)
  moreover have "os_active ?s8" "os_delivered ?s8 = [Some op_b, None]" by (simp_all add: observer_defs)
  ultimately show ?thesis by blast
qed

end
