(* ===== verification/Observability.thy ===== *)
theory Observability
  imports Strconv
begin

text \<open>
  \<open>pkg/observability/observability.go\<close>: the labels of requests (services, routes, methods), the bounded
  request log, and the metric registries with their bounded number of series.
\<close>

section \<open>The request log\<close>

record request_record =
  rr_request_id :: string
  rr_trace_id :: string
  rr_method :: string
  rr_route :: string
  rr_service :: string
  rr_project :: string
  rr_status :: int
  rr_replay :: "string option"

record record_query =
  q_service :: string
  q_method :: string
  q_status :: int
  q_trace_id :: string
  q_project :: string

record record_store =
  rs_capacity :: nat
  rs_records :: "request_record list"

definition NewStore :: "int \<Rightarrow> record_store" where
  "NewStore capacity = \<lparr>rs_capacity = nat (if capacity \<le> 0 then 1000 else capacity), rs_records = []\<rparr>"

text \<open>At capacity the oldest record is shifted out.\<close>

definition store_Add :: "request_record \<Rightarrow> record_store \<Rightarrow> record_store" where
  "store_Add r s =
     (if length (rs_records s) = rs_capacity s then s\<lparr>rs_records := tl (rs_records s) @ [r]\<rparr>
      else s\<lparr>rs_records := rs_records s @ [r]\<rparr>)"

definition query_matches :: "record_query \<Rightarrow> request_record \<Rightarrow> bool" where
  "query_matches q r \<longleftrightarrow>
     \<not> (q_project q \<noteq> [] \<and> rr_project r \<noteq> q_project q) \<and>
     \<not> (q_service q \<noteq> [] \<and> rr_service r \<noteq> q_service q) \<and>
     \<not> (q_method q \<noteq> [] \<and> rr_method r \<noteq> q_method q) \<and>
     \<not> (q_status q \<noteq> 0 \<and> rr_status r \<noteq> q_status q) \<and>
     \<not> (q_trace_id q \<noteq> [] \<and> rr_trace_id r \<noteq> q_trace_id q)"

definition store_Query :: "record_query \<Rightarrow> record_store \<Rightarrow> request_record list" where
  "store_Query q s = map (\<lambda>r. r\<lparr>rr_replay := None\<rparr>) (filter (query_matches q) (rev (rs_records s)))"

definition store_find :: "string \<Rightarrow> string \<Rightarrow> record_store \<Rightarrow> request_record option" where
  "store_find project requestID s =
     List.find (\<lambda>r. rr_project r = project \<and> rr_request_id r = requestID) (rev (rs_records s))"

section \<open>Services\<close>

text \<open>\<open>net.SplitHostPort\<close> on a host without brackets: exactly one colon.  A bracketed host and its port.\<close>

definition split_host_port :: "string \<Rightarrow> (string \<times> string) option" where
  "split_host_port s =
     (case s of
        [] \<Rightarrow> None
      | c # t \<Rightarrow>
          if c = CHR ''['' then
            (case cut (CHR '']'') t of
               (host, rest, found) \<Rightarrow>
                 if \<not> found then None
                 else (case rest of [] \<Rightarrow> None | d # port \<Rightarrow>
                   if d \<noteq> CHR '':'' then None
                   else if CHR '':'' \<in> set port \<or> CHR ''['' \<in> set host \<or> CHR ''['' \<in> set port \<or> CHR '']'' \<in> set port
                   then None else Some (host, port)))
          else if count_char (CHR '':'') s \<noteq> 1 then None
          else (case cut (CHR '':'') s of (host, port, _) \<Rightarrow>
            if CHR ''['' \<in> set s \<or> CHR '']'' \<in> set s then None else Some (host, port)))"

text \<open>
  \<open>net.ParseIP\<close> on a text without colon: four decimal fields up to 255 without leading zeros.  With a
  colon the callers reject the text whatever it parses to.
\<close>

definition ipv4_field :: "string \<Rightarrow> bool" where
  "ipv4_field f \<longleftrightarrow> f \<noteq> [] \<and> length f \<le> 3 \<and> list_all is_digit f \<and> (length f > 1 \<longrightarrow> hd f \<noteq> CHR ''0'') \<and> parse_digits f \<le> 255"

definition parse_ipv4 :: "string \<Rightarrow> bool" where
  "parse_ipv4 s \<longleftrightarrow> (let fs = split (CHR ''.'') s in length fs = 4 \<and> list_all ipv4_field fs)"

definition host_char :: "char \<Rightarrow> bool" where
  "host_char c \<longleftrightarrow> c = CHR ''.'' \<or> c = CHR ''-'' \<or> is_lower c \<or> is_digit c"

definition unresolved :: string where "unresolved = ''unresolved''"

definition normalizeService :: "string \<Rightarrow> string" where
  "normalizeService service =
     (let host = trim_space (to_lower service);
          host = (case split_host_port host of Some (h, _) \<Rightarrow> h | None \<Rightarrow> host);
          host = trim_chars host ''[] .''
      in if host = [] \<or> host = ''localhost'' \<or> parse_ipv4 host then unresolved
         else if length host > 253 then unresolved
         else if list_all host_char host then host else unresolved)"

section \<open>Routes\<close>

definition resourceCollections :: "string list" where
  "resourceCollections =
     [''projects'', ''locations'', ''zones'', ''regions'', ''instances'', ''buckets'', ''topics'', ''subscriptions'',
      ''functions'', ''services'', ''jobs'', ''queues'', ''tasks'', ''datasets'', ''tables'', ''secrets'', ''versions'',
      ''clusters'', ''networks'', ''subnetworks'', ''operations'', ''keyRings'', ''cryptoKeys'', ''repositories'',
      ''packages'', ''builds'']"

definition staticRouteSegments :: "string list" where
  "staticRouteSegments =
     [''storage'', ''upload'', ''bigquery'', ''compute'', ''dns'', ''b'', ''o'', ''global'', ''internal'', ''models'',
      ''entries'', ''serviceAccounts'', ''managedZones'', ''healthChecks'', ''urlMaps'', ''targetHttpProxies'',
      ''forwardingRules'', ''backendServices'']"

definition knownAPIVersions :: "string list" where
  "knownAPIVersions = [''v1'', ''v2'', ''v3'', ''v4'', ''v1alpha1'', ''v1beta1'', ''v1p1beta1'', ''v2beta1'']"

definition routeActions :: "string list" where
  "routeActions = [''publish'', ''run'', ''cancel'', ''getIamPolicy'', ''setIamPolicy'', ''testIamPermissions'']"

definition isKnownRouteAction :: "string \<Rightarrow> bool" where
  "isKnownRouteAction action \<longleftrightarrow> action \<in> set routeActions"

definition isAPIVersion :: "string \<Rightarrow> bool" where
  "isAPIVersion value \<longleftrightarrow> length value \<ge> 2 \<and> hd value = CHR ''v'' \<and> list_all is_digit (tl value)"

definition normalizeActionSegment :: "string \<Rightarrow> string" where
  "normalizeActionSegment segment =
     (case cut (CHR '':'') segment of (_, action, found) \<Rightarrow>
      if found \<and> isKnownRouteAction action then ''{id}:'' @ action else ''{id}'')"

definition with_action :: "string \<Rightarrow> string \<Rightarrow> bool \<Rightarrow> string" where
  "with_action base action hasAction = (if hasAction \<and> isKnownRouteAction action then base @ '':'' @ action else base)"

text \<open>One segment, after the normalized segment before it (\<open>None\<close> for the first).\<close>

definition normalize_segment :: "string option \<Rightarrow> string \<Rightarrow> string" where
  "normalize_segment previous segment =
     (case previous of
        Some p \<Rightarrow> if trim_suffix p '':'' \<in> set resourceCollections then normalizeActionSegment segment
                  else (case cut (CHR '':'') segment of (base, action, hasAction) \<Rightarrow>
                    if base \<in> set knownAPIVersions then with_action base action hasAction
                    else if isAPIVersion base then with_action ''{version}'' action hasAction
                    else if base \<in> set resourceCollections then with_action base action hasAction
                    else if base \<in> set staticRouteSegments then with_action base action hasAction
                    else if segment \<noteq> [] then ''{id}'' else segment)
      | None \<Rightarrow> (case cut (CHR '':'') segment of (base, action, hasAction) \<Rightarrow>
                    if base \<in> set knownAPIVersions then with_action base action hasAction
                    else if isAPIVersion base then with_action ''{version}'' action hasAction
                    else if base \<in> set resourceCollections then with_action base action hasAction
                    else if base \<in> set staticRouteSegments then with_action base action hasAction
                    else if segment \<noteq> [] then ''{id}'' else segment))"

fun normalize_segments :: "string option \<Rightarrow> string list \<Rightarrow> string list" where
  "normalize_segments previous [] = []"
| "normalize_segments previous (s # ss) =
     (let n = normalize_segment previous s in n # normalize_segments (Some n) ss)"

definition NormalizeRoute :: "string \<Rightarrow> string" where
  "NormalizeRoute path0 =
     (let path = trim_space path0 in
      if path = [] then ''/''
      else let parts = split (CHR ''/'') (trim_chars path ''/'');
               parts = (if length parts \<ge> 2 \<and> hd parts = ''_minisky'' then drop 2 parts else parts) in
      if parts = [] then ''/''
      else let route = ''/'' @ join ''/'' (normalize_segments None parts) in
      if length route > 256 then ''/{unmatched}'' else route)"

section \<open>Metrics\<close>

definition normalizeMethod :: "string \<Rightarrow> string" where
  "normalizeMethod m =
     (if m \<in> {''GET'', ''POST'', ''PUT'', ''PATCH'', ''DELETE'', ''HEAD'', ''OPTIONS''} then m else ''OTHER'')"

definition normalizeResourceKind :: "string \<Rightarrow> string" where
  "normalizeResourceKind kind0 =
     (let kind = to_lower (trim_space kind0) in
      if kind = [] \<or> length kind > 64 then ''unknown''
      else if list_all (\<lambda>c. c = CHR ''_'' \<or> is_lower c \<or> is_digit c) kind then kind else ''unknown'')"

text \<open>Series are keyed by tuples of labels; a value is the count and the sum of latencies.\<close>

type_synonym metric_key = "string \<times> string \<times> string \<times> string"

record metrics =
  m_values :: "(metric_key \<times> (nat \<times> int)) list"
  m_quota :: "((string \<times> string \<times> string) \<times> nat) list"
  m_resources :: "((string \<times> string) \<times> nat) list"
  m_known :: "string list"

definition maxMetricSeries :: nat where "maxMetricSeries = 256"

definition addKnownServices :: "string list \<Rightarrow> string list" where
  "addKnownServices services = filter (\<lambda>s. s \<noteq> unresolved) (map normalizeService services)"

definition NewMetrics :: "string list \<Rightarrow> metrics" where
  "NewMetrics knownServices =
     \<lparr>m_values = [], m_quota = [], m_resources = [], m_known = addKnownServices knownServices @ addKnownServices [''minisky.local'']\<rparr>"

definition metrics_service :: "metrics \<Rightarrow> string \<Rightarrow> string" where
  "metrics_service m service = (let s = normalizeService service in if s \<in> set (m_known m) then s else ''other'')"

text \<open>The key a new series gets: its own, or the overflow key when the registry is full.\<close>

definition bounded_key :: "'k \<Rightarrow> ('k \<times> 'v) list \<Rightarrow> 'k \<Rightarrow> 'k" where
  "bounded_key overflow m key =
     (if map_of m key = None \<and> length m \<ge> maxMetricSeries - 1 then overflow else key)"

definition statusClass :: "int \<Rightarrow> string" where
  "statusClass status = itoa (if status < 0 then - ((- status) div 100) else status div 100) @ ''xx''"

definition Observe :: "string \<Rightarrow> string \<Rightarrow> string \<Rightarrow> int \<Rightarrow> int \<Rightarrow> metrics \<Rightarrow> metrics" where
  "Observe service route method status latency m =
     (let key = bounded_key (''other'', ''OTHER'', ''/{unmatched}'', ''other'') (m_values m)
            (metrics_service m service, normalizeMethod method, NormalizeRoute route, statusClass status);
          v = (case map_of (m_values m) key of Some v \<Rightarrow> v | None \<Rightarrow> (0, 0))
      in m\<lparr>m_values := AList.update key (fst v + 1, snd v + latency) (m_values m)\<rparr>)"

definition ObserveQuotaRejection :: "string \<Rightarrow> string \<Rightarrow> string \<Rightarrow> metrics \<Rightarrow> metrics" where
  "ObserveQuotaRejection service route scope0 m =
     (let scope = (if scope0 \<in> {''route'', ''service'', ''project'', ''default''} then scope0 else ''unknown'');
          key = bounded_key (''other'', ''/{unmatched}'', ''unknown'') (m_quota m)
            (metrics_service m service, NormalizeRoute route, scope);
          v = (case map_of (m_quota m) key of Some v \<Rightarrow> v | None \<Rightarrow> 0)
      in m\<lparr>m_quota := AList.update key (v + 1) (m_quota m)\<rparr>)"

text \<open>A counter is named by an index; \<open>None\<close> is the nil counter.\<close>

definition RegisterResourceCounter :: "string \<Rightarrow> string \<Rightarrow> nat option \<Rightarrow> metrics \<Rightarrow> metrics" where
  "RegisterResourceCounter service resourceKind counter m =
     (case counter of None \<Rightarrow> m | Some c \<Rightarrow>
      let key = bounded_key (''other'', ''unknown'') (m_resources m)
            (metrics_service m service, normalizeResourceKind resourceKind)
      in m\<lparr>m_resources := AList.update key c (m_resources m)\<rparr>)"

definition id_char :: "char \<Rightarrow> bool" where
  "id_char c \<longleftrightarrow> is_lower c \<or> is_upper c \<or> is_digit c \<or> c = CHR ''-'' \<or> c = CHR ''_'' \<or> c = CHR ''.''"

text \<open>On ASCII values.\<close>

definition sanitizeRequestID :: "string \<Rightarrow> string" where
  "sanitizeRequestID value = (if value = [] \<or> length value > 64 \<or> \<not> list_all id_char value then [] else value)"

section \<open>Lemmas\<close>

text \<open>The finite alphabet of normalized segments.\<close>

definition route_bases :: "string list" where
  "route_bases = ''{id}'' # ''{version}'' # knownAPIVersions @ resourceCollections @ staticRouteSegments"

definition known_segment :: "string \<Rightarrow> bool" where
  "known_segment s \<longleftrightarrow> s = [] \<or> s \<in> set route_bases \<or> (\<exists>b \<in> set route_bases. \<exists>a \<in> set routeActions. s = b @ '':'' @ a)"

lemma known_with_action: "b \<in> set route_bases \<Longrightarrow> known_segment (with_action b a h)"
  by (auto simp: with_action_def known_segment_def isKnownRouteAction_def)

lemma known_action_segment: "known_segment (normalizeActionSegment s)"
proof -
  have id: "''{id}'' \<in> set route_bases" by (simp add: route_bases_def)
  obtain b a f where c: "cut (CHR '':'') s = (b, a, f)" by (cases "cut (CHR '':'') s") auto
  have "normalizeActionSegment s = with_action ''{id}'' a f"
    by (simp add: normalizeActionSegment_def with_action_def c)
  with known_with_action [OF id] show ?thesis by simp
qed

lemma known_normalize_segment: "known_segment (normalize_segment p s)"
proof -
  have bases: "set knownAPIVersions \<subseteq> set route_bases" "set resourceCollections \<subseteq> set route_bases"
    "set staticRouteSegments \<subseteq> set route_bases" "''{version}'' \<in> set route_bases" "''{id}'' \<in> set route_bases"
    by (auto simp: route_bases_def)
  have "known_segment ''{id}''" "known_segment []" using bases(5) by (auto simp: known_segment_def)
  then show ?thesis
    using bases unfolding normalize_segment_def
    by (auto intro!: known_with_action known_action_segment split: option.split prod.split)
qed

lemma known_normalize_segments: "list_all known_segment (normalize_segments p ss)"
  by (induction ss arbitrary: p) (simp_all add: Let_def known_normalize_segment)

lemma length_update: "length (AList.update k v m) = (if map_of m k = None then Suc (length m) else length m)"
  by (induction m) auto

lemma bounded_update:
  assumes "length m \<le> maxMetricSeries" and "map_of m overflow = None \<longrightarrow> length m \<le> maxMetricSeries - 1"
  shows "length (AList.update (bounded_key overflow m key) v m) \<le> maxMetricSeries \<and>
    (map_of (AList.update (bounded_key overflow m key) v m) overflow = None \<longrightarrow>
       length (AList.update (bounded_key overflow m key) v m) \<le> maxMetricSeries - 1)"
  using assms by (auto simp: bounded_key_def length_update update_conv maxMetricSeries_def)

definition metrics_bounded :: "metrics \<Rightarrow> bool" where
  "metrics_bounded m \<longleftrightarrow>
     length (m_values m) \<le> maxMetricSeries \<and>
     (map_of (m_values m) (''other'', ''OTHER'', ''/{unmatched}'', ''other'') = None \<longrightarrow> length (m_values m) \<le> maxMetricSeries - 1) \<and>
     length (m_quota m) \<le> maxMetricSeries \<and>
     (map_of (m_quota m) (''other'', ''/{unmatched}'', ''unknown'') = None \<longrightarrow> length (m_quota m) \<le> maxMetricSeries - 1) \<and>
     length (m_resources m) \<le> maxMetricSeries \<and>
     (map_of (m_resources m) (''other'', ''unknown'') = None \<longrightarrow> length (m_resources m) \<le> maxMetricSeries - 1)"

datatype metric_call =
    MObserve string string string int int
  | MQuota string string string
  | MResource string string "nat option"

fun run_metric :: "metric_call \<Rightarrow> metrics \<Rightarrow> metrics" where
  "run_metric (MObserve s r me st l) m = Observe s r me st l m"
| "run_metric (MQuota s r sc) m = ObserveQuotaRejection s r sc m"
| "run_metric (MResource s k c) m = RegisterResourceCounter s k c m"

lemma run_metric_bounded:
  assumes "metrics_bounded m"
  shows "metrics_bounded (run_metric c m)"
proof (cases c)
  case (MObserve s r me st l)
  with assms bounded_update [of "m_values m"] show ?thesis
    by (simp add: metrics_bounded_def Observe_def Let_def)
next
  case (MQuota s r sc)
  with assms bounded_update [of "m_quota m"] show ?thesis
    by (simp add: metrics_bounded_def ObserveQuotaRejection_def Let_def)
next
  case (MResource s k cc)
  with assms bounded_update [of "m_resources m"] show ?thesis
    by (cases cc) (simp_all add: metrics_bounded_def RegisterResourceCounter_def Let_def)
qed

lemma run_metrics_bounded: "metrics_bounded m \<Longrightarrow> metrics_bounded (fold run_metric cs m)"
  by (induction cs arbitrary: m) (simp_all add: run_metric_bounded)

lemma NewMetrics_bounded: "metrics_bounded (NewMetrics known)"
  by (simp add: metrics_bounded_def NewMetrics_def maxMetricSeries_def)

definition run_adds :: "request_record list \<Rightarrow> record_store \<Rightarrow> record_store" where
  "run_adds rs s = fold store_Add rs s"

definition last_n :: "nat \<Rightarrow> 'a list \<Rightarrow> 'a list" where
  "last_n n xs = drop (length xs - n) xs"

lemma last_n_snoc:
  assumes "0 < n"
  shows "last_n n (xs @ [x]) = (if length (last_n n xs) = n then tl (last_n n xs) @ [x] else last_n n xs @ [x])"
proof (cases "n \<le> length xs")
  case True
  then have "last_n n (xs @ [x]) = drop (Suc (length xs - n)) xs @ [x]"
    using assms by (simp add: last_n_def Suc_diff_le)
  moreover have "length (last_n n xs) = n" using True by (simp add: last_n_def)
  ultimately show ?thesis by (simp add: last_n_def drop_Suc tl_drop)
next
  case False
  then show ?thesis by (simp add: last_n_def)
qed

lemma run_adds_last:
  assumes "0 < rs_capacity s" and "rs_records s = []"
  shows "rs_records (run_adds rs s) = last_n (rs_capacity s) rs \<and> rs_capacity (run_adds rs s) = rs_capacity s"
proof (induction rs rule: rev_induct)
  case Nil
  then show ?case using assms by (simp add: run_adds_def last_n_def)
next
  case (snoc r rs)
  then show ?case using last_n_snoc [OF assms(1), of rs r]
    by (simp add: run_adds_def store_Add_def)
qed

section \<open>Properties\<close>

text \<open>
  Labels never carry raw identifiers.  Every segment of a normalized route is one of a fixed finite
  set - a placeholder, an API version, a known collection or static segment, with at most a known action -
  and the route is at most 256 characters long.
\<close>

theorem NormalizeRoute_bounded:
  "length (NormalizeRoute p) \<le> 256 \<and>
   (NormalizeRoute p = ''/'' \<or> NormalizeRoute p = ''/{unmatched}'' \<or>
    (\<exists>segs. NormalizeRoute p = ''/'' @ join ''/'' segs \<and> list_all known_segment segs))"
  unfolding NormalizeRoute_def Let_def using known_normalize_segments by auto

text \<open>
  C40: The number of metric series is bounded.  Whatever sequence of observations, quota rejections and
  counter registrations the gateway records, with any labels, no registry holds more than 256 series.
\<close>

theorem metric_series_bounded:
  "length (m_values (fold run_metric cs (NewMetrics known))) \<le> 256 \<and>
   length (m_quota (fold run_metric cs (NewMetrics known))) \<le> 256 \<and>
   length (m_resources (fold run_metric cs (NewMetrics known))) \<le> 256"
  using run_metrics_bounded [OF NewMetrics_bounded, of cs known]
  by (simp add: metrics_bounded_def maxMetricSeries_def)

text \<open>
  The request log is the latest requests.  After any sequence of additions a query answers exactly
  the matching records among the last \<open>capacity\<close> ones, newest first and without their replay payloads.
\<close>

theorem store_holds_latest:
  "store_Query q (run_adds rs (NewStore n)) =
     map (\<lambda>r. r\<lparr>rr_replay := None\<rparr>)
       (filter (query_matches q) (rev (last_n (nat (if n \<le> 0 then 1000 else n)) rs)))"
  using run_adds_last [of "NewStore n" rs] by (simp add: store_Query_def NewStore_def split: if_splits)

text \<open>
  Normalization of routes is not idempotent, although the gateway normalizes its labels and the
  metrics normalize them again: the placeholder of an unlisted API version becomes an identifier.
\<close>

theorem NormalizeRoute_twice_differs:
  "NormalizeRoute ''/v7/projects/p1'' = ''/{version}/projects/{id}'' \<and>
   NormalizeRoute (NormalizeRoute ''/v7/projects/p1'') = ''/{id}/projects/{id}''"
  by code_simp

end
