(* ===== verification/Quota.thy ===== *)
theory Quota
  imports Observability Json
begin

text \<open>
  \<open>pkg/router/quota.go\<close>: the fixed-window quota limiter with its four scopes, and its JSON
  configuration.  Times and durations are integers of nanoseconds; the clock is an argument.
\<close>

section \<open>Configuration\<close>

record quota_rule =
  q_limit :: int
  q_window :: int

record quota_config =
  qc_default :: "quota_rule option"
  qc_services :: "quota_rule gomap"
  qc_projects :: "quota_rule gomap"
  qc_routes :: "quota_rule gomap"

datatype quota_error =
    QuotaDecode json_error
  | BadWindow string string
  | BadLimit string string
  | WindowRange string string
  | EmptySelector string

definition Millisecond :: int where "Millisecond = 1000000"
definition Hour :: int where "Hour = 3600 * 1000 * 1000000"

definition validateQuotaRule :: "string \<Rightarrow> string \<Rightarrow> quota_rule \<Rightarrow> quota_error option" where
  "validateQuotaRule scope selector rule =
     (if q_limit rule \<le> 0 then Some (BadLimit scope selector)
      else if q_window rule < Millisecond \<or> q_window rule > 24 * Hour then Some (WindowRange scope selector)
      else None)"

record quota_limiter =
  ql_config :: quota_config
  ql_buckets :: "(int \<times> int) gomap"

fun validate_rules :: "string \<Rightarrow> quota_rule gomap \<Rightarrow> quota_error option" where
  "validate_rules scope [] = None"
| "validate_rules scope ((selector, rule) # rest) =
     (if trim_space selector = [] then Some (EmptySelector scope)
      else case validateQuotaRule scope selector rule of Some e \<Rightarrow> Some e | None \<Rightarrow> validate_rules scope rest)"

definition NewQuotaLimiter :: "quota_config \<Rightarrow> quota_error + quota_limiter" where
  "NewQuotaLimiter config =
     (case (case qc_default config of None \<Rightarrow> None | Some r \<Rightarrow> validateQuotaRule ''default'' [] r) of
        Some e \<Rightarrow> Inl e
      | None \<Rightarrow>
          (case validate_rules ''service'' (qc_services config) of Some e \<Rightarrow> Inl e | None \<Rightarrow>
           (case validate_rules ''project'' (qc_projects config) of Some e \<Rightarrow> Inl e | None \<Rightarrow>
           (case validate_rules ''route'' (qc_routes config) of Some e \<Rightarrow> Inl e | None \<Rightarrow>
           Inr \<lparr>ql_config = config, ql_buckets = []\<rparr>))))"

section \<open>Admission\<close>

definition normalizeDomain :: "string \<Rightarrow> string" where
  "normalizeDomain domain =
     (let host = trim_space domain;
          host = (case split_host_port host of Some (h, _) \<Rightarrow> h | None \<Rightarrow> host)
      in to_lower (trim_chars (trim_space host) ''[] .''))"

datatype quota_decision = Allowed | Denied string int

text \<open>The rules a request matches, in the order they are checked.\<close>

fun matched_rule :: "string \<Rightarrow> string \<Rightarrow> quota_rule option \<Rightarrow> (string \<times> string \<times> quota_rule) list" where
  "matched_rule scope selector None = []"
| "matched_rule scope selector (Some rule) = [(scope, selector, rule)]"

definition matched_rules :: "quota_config \<Rightarrow> string \<Rightarrow> string \<Rightarrow> string \<Rightarrow> (string \<times> string \<times> quota_rule) list" where
  "matched_rules c service route project =
     (let s = normalizeDomain service; r = NormalizeRoute route; sr = s @ '' '' @ r in
      (if gm_get (qc_routes c) sr \<noteq> None then matched_rule ''route'' sr (gm_get (qc_routes c) sr)
       else matched_rule ''route'' r (gm_get (qc_routes c) r)) @
      matched_rule ''service'' s (gm_get (qc_services c) s) @
      matched_rule ''project'' project (if project \<noteq> [] then gm_get (qc_projects c) project else None) @
      matched_rule ''default'' ''all'' (qc_default c))"

definition bucket_key :: "string \<Rightarrow> string \<Rightarrow> string" where
  "bucket_key scope selector = scope @ '':'' @ selector"

definition live_bucket :: "int \<Rightarrow> quota_rule \<Rightarrow> (int \<times> int) option \<Rightarrow> int \<times> int" where
  "live_bucket now rule b =
     (case b of None \<Rightarrow> (0, now + q_window rule)
      | Some (cnt, reset) \<Rightarrow> if now < reset then (cnt, reset) else (0, now + q_window rule))"

fun check_buckets ::
  "int \<Rightarrow> (int \<times> int) gomap \<Rightarrow> (string \<times> string \<times> quota_rule) list \<Rightarrow> quota_decision + (string \<times> int \<times> int) list" where
  "check_buckets now buckets [] = Inr []"
| "check_buckets now buckets ((scope, selector, rule) # ms) =
     (case live_bucket now rule (gm_get buckets (bucket_key scope selector)) of (cnt, reset) \<Rightarrow>
      if cnt \<ge> q_limit rule then Inl (Denied scope (reset - now))
      else (case check_buckets now buckets ms of
              Inl d \<Rightarrow> Inl d
            | Inr bs \<Rightarrow> Inr ((bucket_key scope selector, cnt, reset) # bs)))"

definition Allow :: "int \<Rightarrow> string \<Rightarrow> string \<Rightarrow> string \<Rightarrow> quota_limiter \<Rightarrow> quota_decision \<times> quota_limiter" where
  "Allow now service route project q =
     (let ms = matched_rules (ql_config q) service route project in
      if ms = [] then (Allowed, q)
      else (case check_buckets now (ql_buckets q) ms of
        Inl d \<Rightarrow> (d, q)
      | Inr bs \<Rightarrow>
          (Allowed, q\<lparr>ql_buckets := foldl (\<lambda>m (k, cnt, reset). gm_set k (cnt + 1, reset) m) (ql_buckets q) bs\<rparr>)))"

text \<open>A nil limiter admits everything.\<close>

definition Allow_opt ::
  "int \<Rightarrow> string \<Rightarrow> string \<Rightarrow> string \<Rightarrow> quota_limiter option \<Rightarrow> quota_decision \<times> quota_limiter option" where
  "Allow_opt now service route project q =
     (case q of None \<Rightarrow> (Allowed, None)
      | Some l \<Rightarrow> (case Allow now service route project l of (d, l') \<Rightarrow> (d, Some l')))"

definition quotaRetryAfterSeconds :: "int \<Rightarrow> int" where
  "quotaRetryAfterSeconds duration = (if duration \<le> 0 then 1 else max 1 ((duration + 999999999) div 1000000000))"

section \<open>The JSON configuration\<close>

text \<open>
  \<open>time.ParseDuration\<close>: a sign and a sequence of decimals with units; fractions are exact.
\<close>

definition duration_units :: "(string \<times> int) list" where
  "duration_units = [(''ns'', 1), (''us'', 1000), (''ms'', 1000000), (''s'', 1000000000),
     (''m'', 60 * 1000000000), (''h'', 3600 * 1000000000)]"

text \<open>The next piece: digits, fraction digits, unit, and the rest.\<close>

definition duration_piece :: "string \<Rightarrow> string \<times> string \<times> string \<times> string" where
  "duration_piece s =
     (let whole = takeWhile is_digit s; s1 = dropWhile is_digit s;
          dot = (s1 \<noteq> [] \<and> hd s1 = CHR ''.'');
          frac = (if dot then takeWhile is_digit (tl s1) else []);
          s3 = (if dot then dropWhile is_digit (tl s1) else s1)
      in (whole, frac, takeWhile (\<lambda>c. c \<noteq> CHR ''.'' \<and> \<not> is_digit c) s3,
          dropWhile (\<lambda>c. c \<noteq> CHR ''.'' \<and> \<not> is_digit c) s3))"

lemma dropWhile_length: "length (dropWhile P xs) \<le> length xs"
  by (induction xs) auto

lemma takeWhile_shrinks: "takeWhile P xs \<noteq> [] \<Longrightarrow> length (dropWhile P xs) < length xs"
  by (cases xs) (auto simp: dropWhile_length le_imp_less_Suc split: if_splits)

lemma duration_piece_shrinks:
  assumes "duration_piece s = (whole, frac, unit, rest)" and "unit \<noteq> []"
  shows "length rest < length s"
proof -
  let ?s1 = "dropWhile is_digit s"
  let ?s3 = "if ?s1 \<noteq> [] \<and> hd ?s1 = CHR ''.'' then dropWhile is_digit (tl ?s1) else ?s1"
  have "length ?s1 \<le> length s" by (rule dropWhile_length)
  moreover have "length (dropWhile is_digit (tl ?s1)) \<le> length ?s1"
    using dropWhile_length [of is_digit "tl ?s1"] by simp
  ultimately have "length ?s3 \<le> length s" by auto
  moreover have "length rest < length ?s3"
    using assms takeWhile_shrinks [of _ ?s3] by (auto simp only: duration_piece_def Let_def prod.inject)
  ultimately show ?thesis by simp
qed

function duration_loop :: "int \<Rightarrow> string \<Rightarrow> int option" where
  "duration_loop d s =
     (if s = [] then Some d
      else case duration_piece s of (whole, frac, unit, rest) \<Rightarrow>
        if whole = [] \<and> frac = [] \<or> unit = [] then None
        else (case map_of duration_units unit of
                None \<Rightarrow> None
              | Some u \<Rightarrow>
                  (if d + int (parse_digits whole) * u + int (parse_digits frac) * u div 10 ^ length frac > 2 ^ 63
                   then None
                   else duration_loop (d + int (parse_digits whole) * u + int (parse_digits frac) * u div 10 ^ length frac) rest)))"
  by pat_completeness auto

termination duration_loop
  by (relation "measure (\<lambda>(d, s). length s)") (auto dest: duration_piece_shrinks [OF sym])

definition ParseDuration :: "string \<Rightarrow> int option" where
  "ParseDuration s0 =
     (let neg = (s0 \<noteq> [] \<and> hd s0 = CHR ''-'');
          s = (if s0 \<noteq> [] \<and> (hd s0 = CHR ''-'' \<or> hd s0 = CHR ''+'') then tl s0 else s0)
      in if s = ''0'' then Some 0
         else if s = [] then None
         else (case duration_loop 0 s of
                 None \<Rightarrow> None
               | Some d \<Rightarrow> if neg then Some (- d) else if d > 2 ^ 63 - 1 then None else Some d))"

definition dec_rule_member :: "string \<Rightarrow> json \<Rightarrow> int \<times> string \<Rightarrow> json_error + int \<times> string" where
  "dec_rule_member k v r =
     (case match_field [''limit'', ''window''] k of
        None \<Rightarrow> Inl (UnknownField k)
      | Some f \<Rightarrow>
          if f = ''limit'' then (case dec_int v (fst r) of Inl e \<Rightarrow> Inl e | Inr i \<Rightarrow> Inr (i, snd r))
          else (case dec_string v (snd r) of Inl e \<Rightarrow> Inl e | Inr s \<Rightarrow> Inr (fst r, s)))"

definition dec_rule :: "json \<Rightarrow> int \<times> string \<Rightarrow> json_error + int \<times> string" where
  "dec_rule v cur =
     (case v of JNull \<Rightarrow> Inr cur | JObj kvs \<Rightarrow> decode_members dec_rule_member kvs cur
      | _ \<Rightarrow> Inl (TypeMismatch ''rule''))"

definition dec_rules :: "json \<Rightarrow> (int \<times> string) gomap \<Rightarrow> json_error + (int \<times> string) gomap" where
  "dec_rules v cur =
     (case v of
        JNull \<Rightarrow> Inr []
      | JObj kvs \<Rightarrow> decode_members (\<lambda>k v m. case dec_rule v (0, []) of Inl e \<Rightarrow> Inl e | Inr r \<Rightarrow> Inr (gm_set k r m)) kvs cur
      | _ \<Rightarrow> Inl (TypeMismatch ''rules''))"

record quota_wire =
  qw_default :: "(int \<times> string) option"
  qw_services :: "(int \<times> string) gomap"
  qw_projects :: "(int \<times> string) gomap"
  qw_routes :: "(int \<times> string) gomap"

definition dec_wire_member :: "string \<Rightarrow> json \<Rightarrow> quota_wire \<Rightarrow> json_error + quota_wire" where
  "dec_wire_member k v w =
     (case match_field [''default'', ''services'', ''projects'', ''routes''] k of
        None \<Rightarrow> Inl (UnknownField k)
      | Some f \<Rightarrow>
          if f = ''default'' then
            (if v = JNull then Inr (w\<lparr>qw_default := None\<rparr>)
             else case dec_rule v (case qw_default w of Some r \<Rightarrow> r | None \<Rightarrow> (0, [])) of
                    Inl e \<Rightarrow> Inl e | Inr r \<Rightarrow> Inr (w\<lparr>qw_default := Some r\<rparr>))
          else if f = ''services'' then
            (case dec_rules v (qw_services w) of Inl e \<Rightarrow> Inl e | Inr m \<Rightarrow> Inr (w\<lparr>qw_services := m\<rparr>))
          else if f = ''projects'' then
            (case dec_rules v (qw_projects w) of Inl e \<Rightarrow> Inl e | Inr m \<Rightarrow> Inr (w\<lparr>qw_projects := m\<rparr>))
          else (case dec_rules v (qw_routes w) of Inl e \<Rightarrow> Inl e | Inr m \<Rightarrow> Inr (w\<lparr>qw_routes := m\<rparr>)))"

definition parseQuotaRule :: "string \<Rightarrow> string \<Rightarrow> int \<times> string \<Rightarrow> quota_error + quota_rule" where
  "parseQuotaRule scope selector r =
     (case ParseDuration (snd r) of
        None \<Rightarrow> Inl (BadWindow scope selector)
      | Some w \<Rightarrow> let rule = \<lparr>q_limit = fst r, q_window = w\<rparr> in
          (case validateQuotaRule scope selector rule of Some e \<Rightarrow> Inl e | None \<Rightarrow> Inr rule))"

fun parseQuotaRules :: "string \<Rightarrow> (int \<times> string) gomap \<Rightarrow> quota_error + quota_rule gomap" where
  "parseQuotaRules scope [] = Inr []"
| "parseQuotaRules scope ((selector, v) # rest) =
     (case parseQuotaRule scope selector v of Inl e \<Rightarrow> Inl e | Inr r \<Rightarrow>
      (case parseQuotaRules scope rest of Inl e \<Rightarrow> Inl e | Inr m \<Rightarrow> Inr ((selector, r) # m)))"

text \<open>Blank text is no limiter; a text that is not one JSON value is an error.\<close>

definition ParseQuotaConfigJSON :: "raw_message \<Rightarrow> quota_error + quota_limiter option" where
  "ParseQuotaConfigJSON payload =
     (case payload of
        RawNil \<Rightarrow> Inr None
      | RawBad \<Rightarrow> Inl (QuotaDecode MalformedJSON)
      | Raw v \<Rightarrow>
          (let zero = \<lparr>qw_default = None, qw_services = [], qw_projects = [], qw_routes = []\<rparr> in
           case (case v of JObj kvs \<Rightarrow> decode_members dec_wire_member kvs zero
                 | JNull \<Rightarrow> Inr zero | _ \<Rightarrow> Inl (TypeMismatch ''quota'')) of
             Inl e \<Rightarrow> Inl (QuotaDecode e)
           | Inr w \<Rightarrow>
               (case (case qw_default w of None \<Rightarrow> Inr None
                      | Some r \<Rightarrow> (case parseQuotaRule ''default'' [] r of Inl e \<Rightarrow> Inl e | Inr r \<Rightarrow> Inr (Some r))) of
                  Inl e \<Rightarrow> Inl e
                | Inr d \<Rightarrow>
                    (case parseQuotaRules ''service'' (qw_services w) of Inl e \<Rightarrow> Inl e | Inr ss \<Rightarrow>
                     (case parseQuotaRules ''project'' (qw_projects w) of Inl e \<Rightarrow> Inl e | Inr ps \<Rightarrow>
                     (case parseQuotaRules ''route'' (qw_routes w) of Inl e \<Rightarrow> Inl e | Inr rs \<Rightarrow>
                     (case NewQuotaLimiter \<lparr>qc_default = d, qc_services = ss, qc_projects = ps, qc_routes = rs\<rparr> of
                       Inl e \<Rightarrow> Inl e | Inr q \<Rightarrow> Inr (Some q))))))))"

section \<open>Lemmas\<close>

lemma matched_rule_scope [simp]: "m \<in> set (matched_rule a x r) \<longleftrightarrow> r = Some (snd (snd m)) \<and> fst m = a \<and> fst (snd m) = x"
  by (cases m; cases r) auto

lemma matched_rule_fst: "map fst (matched_rule a x r) = (if r = None then [] else [a])"
  by (cases r) auto

lemma matched_scopes: "distinct (map fst (matched_rules c s r p))"
  by (auto simp: matched_rules_def Let_def matched_rule_fst split: if_splits)

lemma matched_scope_names:
  "m \<in> set (matched_rules c s r p) \<Longrightarrow> fst m \<in> {''route'', ''service'', ''project'', ''default''}"
  by (auto simp: matched_rules_def Let_def split: if_splits)

lemma bucket_key_inj:
  "a \<in> {''route'', ''service'', ''project'', ''default''} \<Longrightarrow> b \<in> {''route'', ''service'', ''project'', ''default''} \<Longrightarrow>
     bucket_key a x = bucket_key b y \<longleftrightarrow> a = b \<and> x = y"
  by (auto simp: bucket_key_def)

definition denies :: "int \<Rightarrow> (int \<times> int) gomap \<Rightarrow> quota_decision \<Rightarrow> string \<times> string \<times> quota_rule \<Rightarrow> bool" where
  "denies now buckets d m =
     (case m of (scope, selector, rule) \<Rightarrow>
      case live_bucket now rule (gm_get buckets (bucket_key scope selector)) of (cnt, reset) \<Rightarrow>
      d = Denied scope (reset - now) \<and> q_limit rule \<le> cnt)"

lemma check_buckets_deny: "check_buckets now buckets ms = Inl d \<Longrightarrow> \<exists>m \<in> set ms. denies now buckets d m"
proof (induction ms)
  case (Cons m ms)
  obtain a x r where m: "m = (a, x, r)" by (cases m) auto
  obtain c t where b: "live_bucket now r (gm_get buckets (bucket_key a x)) = (c, t)" by fastforce
  show ?case
  proof (cases "q_limit r \<le> c")
    case True
    with Cons.prems m b have "denies now buckets d m" by (simp add: denies_def)
    then show ?thesis by simp
  next
    case False
    with Cons.prems m b have "check_buckets now buckets ms = Inl d" by (simp split: sum.splits)
    then show ?thesis using Cons.IH by simp
  qed
qed simp

lemma check_buckets_allow:
  assumes "check_buckets now buckets ms = Inr bs"
  shows "bs = map (\<lambda>(scope, selector, rule). (bucket_key scope selector,
      live_bucket now rule (gm_get buckets (bucket_key scope selector)))) ms"
    and "(scope, selector, rule) \<in> set ms \<Longrightarrow>
      fst (live_bucket now rule (gm_get buckets (bucket_key scope selector))) < q_limit rule"
proof -
  have "bs = map (\<lambda>(scope, selector, rule). (bucket_key scope selector,
      live_bucket now rule (gm_get buckets (bucket_key scope selector)))) ms \<and>
    (\<forall>(scope, selector, rule) \<in> set ms.
      fst (live_bucket now rule (gm_get buckets (bucket_key scope selector))) < q_limit rule)"
    using assms
    by (induction ms arbitrary: bs) (auto split: prod.splits if_splits sum.splits)
  then show "bs = map (\<lambda>(scope, selector, rule). (bucket_key scope selector,
      live_bucket now rule (gm_get buckets (bucket_key scope selector)))) ms"
    and "(scope, selector, rule) \<in> set ms \<Longrightarrow>
      fst (live_bucket now rule (gm_get buckets (bucket_key scope selector))) < q_limit rule" by auto
qed

lemma foldl_buckets_get:
  "distinct (map fst bs) \<Longrightarrow>
     gm_get (foldl (\<lambda>m (k, cnt, reset). gm_set k (cnt + 1, reset) m) m bs) k =
       (case map_of bs k of Some (c, r) \<Rightarrow> Some (c + 1, r) | None \<Rightarrow> gm_get m k)"
proof (induction bs arbitrary: m)
  case (Cons b bs)
  obtain k' c r where b: "b = (k', c, r)" by (cases b) auto
  with Cons show ?case by (auto simp: map_of_eq_None_iff [symmetric] split: option.splits)
qed simp

lemma distinct_keys:
  assumes "distinct (map fst ms)" and "\<And>m. m \<in> set ms \<Longrightarrow> fst m \<in> {''route'', ''service'', ''project'', ''default''}"
  shows "distinct (map fst (map (\<lambda>(scope, selector, rule). (bucket_key scope selector, f scope selector rule)) ms))"
  using assms
proof (induction ms)
  case (Cons m ms)
  obtain a x r where m: "m = (a, x, r)" by (cases m) auto
  let ?k = "\<lambda>(scope, selector, rule). bucket_key scope selector"
  have fs: "map fst (map (\<lambda>(scope, selector, rule). (bucket_key scope selector, f scope selector rule)) ms) = map ?k ms"
    by auto
  have "bucket_key a x \<notin> ?k ` set ms"
  proof
    assume "bucket_key a x \<in> ?k ` set ms"
    then obtain b y s where s: "(b, y, s) \<in> set ms" "bucket_key a x = bucket_key b y" by auto
    then have "a = b" using bucket_key_inj Cons.prems(2) [of m] Cons.prems(2) [of "(b, y, s)"] m by simp
    with s(1) Cons.prems(1) m show False by force
  qed
  moreover have "distinct (map ?k ms)" using Cons.IH Cons.prems unfolding fs by simp
  ultimately show ?case using m by (simp add: fs [simplified] comp_def case_prod_unfold)
qed simp

lemma check_buckets_denied: "check_buckets now buckets ms = Inl d \<Longrightarrow> d \<noteq> Allowed"
  by (auto simp: denies_def split: prod.splits dest!: check_buckets_deny)

lemma Allow_unchanged:
  "Allow now s r p q = (d, q') \<Longrightarrow> \<not> (d = Allowed \<and> matched_rules (ql_config q) s r p \<noteq> []) \<Longrightarrow> q' = q"
  by (auto simp: Allow_def Let_def split: sum.splits if_splits)

lemma Allow_admitted:
  assumes "Allow now s r p q = (Allowed, q')" and "matched_rules (ql_config q) s r p \<noteq> []"
  obtains bs where "check_buckets now (ql_buckets q) (matched_rules (ql_config q) s r p) = Inr bs"
    and "q' = q\<lparr>ql_buckets := foldl (\<lambda>m (k, cnt, reset). gm_set k (cnt + 1, reset) m) (ql_buckets q) bs\<rparr>"
  using assms by (auto simp: Allow_def Let_def split: sum.splits dest: check_buckets_denied)

lemma Allow_get:
  assumes "Allow now s r p q = (Allowed, q')" and "(scope, selector, rule) \<in> set (matched_rules (ql_config q) s r p)"
  shows "gm_get (ql_buckets q') (bucket_key scope selector) =
      (case live_bucket now rule (gm_get (ql_buckets q) (bucket_key scope selector)) of (c, t) \<Rightarrow> Some (c + 1, t))"
    and "fst (live_bucket now rule (gm_get (ql_buckets q) (bucket_key scope selector))) < q_limit rule"
proof -
  let ?ms = "matched_rules (ql_config q) s r p"
  let ?bs = "map (\<lambda>(scope, selector, rule). (bucket_key scope selector,
      live_bucket now rule (gm_get (ql_buckets q) (bucket_key scope selector)))) ?ms"
  from assms(2) have "?ms \<noteq> []" by auto
  with assms(1) obtain bs where bs: "check_buckets now (ql_buckets q) ?ms = Inr bs"
    and q': "q' = q\<lparr>ql_buckets := foldl (\<lambda>m (k, cnt, reset). gm_set k (cnt + 1, reset) m) (ql_buckets q) bs\<rparr>"
    by (rule Allow_admitted)
  note a = check_buckets_allow [OF bs]
  show "fst (live_bucket now rule (gm_get (ql_buckets q) (bucket_key scope selector))) < q_limit rule"
    by (rule a(2) [OF assms(2)])
  have d: "distinct (map fst ?bs)" using distinct_keys [OF matched_scopes matched_scope_names] .
  have "(bucket_key scope selector, live_bucket now rule (gm_get (ql_buckets q) (bucket_key scope selector))) \<in> set ?bs"
    using assms(2) by force
  with d have "map_of ?bs (bucket_key scope selector) =
      Some (live_bucket now rule (gm_get (ql_buckets q) (bucket_key scope selector)))" by (rule map_of_is_SomeI)
  with d a(1) q' show "gm_get (ql_buckets q') (bucket_key scope selector) =
      (case live_bucket now rule (gm_get (ql_buckets q) (bucket_key scope selector)) of (c, t) \<Rightarrow> Some (c + 1, t))"
    by (simp add: foldl_buckets_get split: prod.splits)
qed

section \<open>Runs\<close>

text \<open>The selector's rule in the configuration.\<close>

definition rule_for :: "quota_config \<Rightarrow> string \<Rightarrow> string \<Rightarrow> quota_rule option" where
  "rule_for c scope selector =
     (if scope = ''route'' then gm_get (qc_routes c) selector
      else if scope = ''service'' then gm_get (qc_services c) selector
      else if scope = ''project'' then gm_get (qc_projects c) selector
      else qc_default c)"

lemma matched_rule_for: "(scope, selector, rule) \<in> set (matched_rules c s r p) \<Longrightarrow> rule_for c scope selector = Some rule"
  by (auto simp: matched_rules_def rule_for_def Let_def split: if_splits)

type_synonym quota_request = "int \<times> string \<times> string \<times> string"

text \<open>Whether a request falls under a selector.\<close>

definition request_matches :: "quota_config \<Rightarrow> string \<Rightarrow> string \<Rightarrow> quota_request \<Rightarrow> bool" where
  "request_matches c scope selector q =
     (case q of (_, s, r, p) \<Rightarrow> (scope, selector) \<in> set (map (\<lambda>(a, x, _). (a, x)) (matched_rules c s r p)))"

text \<open>A sequence of requests; the number of them admitted under one selector.\<close>

fun quota_run :: "string \<Rightarrow> string \<Rightarrow> quota_request list \<Rightarrow> quota_limiter \<Rightarrow> nat \<times> quota_limiter" where
  "quota_run scope selector [] q = (0, q)"
| "quota_run scope selector ((now, s, r, p) # rest) q =
     (case Allow now s r p q of (d, q1) \<Rightarrow>
      case quota_run scope selector rest q1 of (n, q2) \<Rightarrow>
        (n + (if d = Allowed \<and> request_matches (ql_config q) scope selector (now, s, r, p) then 1 else 0), q2))"

lemma Allow_denied:
  assumes "Allow now s r p q = (Denied scope retry, q')"
  shows "q' = q \<and> (\<exists>m \<in> set (matched_rules (ql_config q) s r p). denies now (ql_buckets q) (Denied scope retry) m)"
  using assms by (auto simp: Allow_def Let_def dest!: check_buckets_deny split: sum.splits if_splits)

lemma Allow_config: "Allow now s r p q = (d, q') \<Longrightarrow> ql_config q' = ql_config q"
  by (auto simp: Allow_def Let_def split: sum.splits if_splits)

lemma check_buckets_outcome:
  "(\<exists>bs. check_buckets now buckets ms = Inr bs) \<longleftrightarrow>
     (\<forall>m \<in> set ms. \<not> (\<exists>d. denies now buckets d m))"
proof (induction ms)
  case (Cons m ms)
  obtain a x r where m: "m = (a, x, r)" by (cases m) auto
  obtain c t where b: "live_bucket now r (gm_get buckets (bucket_key a x)) = (c, t)" by fastforce
  from m b have d: "(\<exists>d. denies now buckets d m) \<longleftrightarrow> q_limit r \<le> c" by (simp add: denies_def)
  show ?case using Cons.IH m b d by (auto split: sum.splits)
qed simp

lemma Allow_other:
  assumes "Allow now s r p q = (d, q')" and "scope \<in> {''route'', ''service'', ''project'', ''default''}"
    and "d = Allowed \<longrightarrow> \<not> request_matches (ql_config q) scope selector (now, s, r, p)"
  shows "gm_get (ql_buckets q') (bucket_key scope selector) = gm_get (ql_buckets q) (bucket_key scope selector)"
proof (cases "d = Allowed \<and> matched_rules (ql_config q) s r p \<noteq> []")
  case False
  then show ?thesis using Allow_unchanged [OF assms(1)] by simp
next
  case True
  let ?ms = "matched_rules (ql_config q) s r p"
  from True assms(1) have "Allow now s r p q = (Allowed, q')" "?ms \<noteq> []" by simp_all
  then obtain bs where bs: "check_buckets now (ql_buckets q) ?ms = Inr bs"
    and q': "q' = q\<lparr>ql_buckets := foldl (\<lambda>m (k, cnt, reset). gm_set k (cnt + 1, reset) m) (ql_buckets q) bs\<rparr>"
    by (rule Allow_admitted)
  note bs' = check_buckets_allow(1) [OF bs]
  have d: "distinct (map fst bs)" unfolding bs' by (rule distinct_keys [OF matched_scopes matched_scope_names])
  have "bucket_key scope selector \<notin> fst ` set bs"
  proof
    assume "bucket_key scope selector \<in> fst ` set bs"
    then obtain a x rl where "(a, x, rl) \<in> set ?ms" "bucket_key scope selector = bucket_key a x"
      unfolding bs' by force
    with assms(2,3) True matched_scope_names [of "(a, x, rl)"] bucket_key_inj [of scope a selector x] show False
      by (force simp: request_matches_def)
  qed
  then have "map_of bs (bucket_key scope selector) = None" by (simp add: map_of_eq_None_iff)
  with d q' show ?thesis by (simp add: foldl_buckets_get)
qed

lemma Allow_matching:
  assumes "Allow now s r p q = (Allowed, q')" and "request_matches (ql_config q) scope selector (now, s, r, p)"
    and "rule_for (ql_config q) scope selector = Some rule"
  shows "gm_get (ql_buckets q') (bucket_key scope selector) =
      (case live_bucket now rule (gm_get (ql_buckets q) (bucket_key scope selector)) of (c, t) \<Rightarrow> Some (c + 1, t))
    \<and> fst (live_bucket now rule (gm_get (ql_buckets q) (bucket_key scope selector))) < q_limit rule"
proof -
  from assms(2) obtain rule' where m: "(scope, selector, rule') \<in> set (matched_rules (ql_config q) s r p)"
    by (auto simp: request_matches_def)
  with assms(3) have "rule' = rule" using matched_rule_for by fastforce
  with Allow_get [OF assms(1) m] show ?thesis by simp
qed

section \<open>Invariants\<close>

definition valid_quota_rule :: "quota_rule \<Rightarrow> bool" where
  "valid_quota_rule r \<longleftrightarrow> 0 < q_limit r \<and> Millisecond \<le> q_window r \<and> q_window r \<le> 24 * Hour"

definition valid_quota_config :: "quota_config \<Rightarrow> bool" where
  "valid_quota_config c \<longleftrightarrow> (\<forall>r. qc_default c = Some r \<longrightarrow> valid_quota_rule r)
     \<and> (\<forall>(x, r) \<in> set (qc_services c @ qc_projects c @ qc_routes c). trim_space x \<noteq> [] \<and> valid_quota_rule r)"

definition quota_scopes :: "string set" where "quota_scopes = {''route'', ''service'', ''project'', ''default''}"

text \<open>Every rule is valid, and no bucket counts past its limit.\<close>

definition quota_inv :: "quota_limiter \<Rightarrow> bool" where
  "quota_inv q \<longleftrightarrow> valid_quota_config (ql_config q) \<and>
     (\<forall>a \<in> quota_scopes. \<forall>x r c t. rule_for (ql_config q) a x = Some r \<longrightarrow>
        gm_get (ql_buckets q) (bucket_key a x) = Some (c, t) \<longrightarrow> 0 < c \<and> c \<le> q_limit r)"

lemma validateQuotaRule_None: "validateQuotaRule a x r = None \<longleftrightarrow> valid_quota_rule r"
  by (auto simp: validateQuotaRule_def valid_quota_rule_def)

lemma validate_rules_None:
  "validate_rules a m = None \<longleftrightarrow> (\<forall>(x, r) \<in> set m. trim_space x \<noteq> [] \<and> valid_quota_rule r)"
  by (induction m) (auto simp: validateQuotaRule_None split: option.splits,
    (metis validateQuotaRule_None option.distinct(1))+)

lemma NewQuotaLimiter_valid:
  "NewQuotaLimiter c = Inr q \<longleftrightarrow> valid_quota_config c \<and> q = \<lparr>ql_config = c, ql_buckets = []\<rparr>"
proof -
  have "NewQuotaLimiter c = Inr q \<longleftrightarrow>
      ((case qc_default c of None \<Rightarrow> None | Some r \<Rightarrow> validateQuotaRule ''default'' [] r) = None \<and>
       validate_rules ''service'' (qc_services c) = None \<and> validate_rules ''project'' (qc_projects c) = None \<and>
       validate_rules ''route'' (qc_routes c) = None) \<and> q = \<lparr>ql_config = c, ql_buckets = []\<rparr>"
    unfolding NewQuotaLimiter_def by (auto split: option.splits)
  also have "\<dots> \<longleftrightarrow> valid_quota_config c \<and> q = \<lparr>ql_config = c, ql_buckets = []\<rparr>"
    by (auto simp: validate_rules_None validateQuotaRule_None valid_quota_config_def split: option.splits)
  finally show ?thesis .
qed

lemma rule_for_valid: "valid_quota_config c \<Longrightarrow> rule_for c a x = Some r \<Longrightarrow> valid_quota_rule r"
  by (auto simp: valid_quota_config_def rule_for_def dest!: map_of_SomeD split: if_splits)

lemma live_bucket_bounds:
  "valid_quota_rule r \<Longrightarrow> (\<And>c t. b = Some (c, t) \<Longrightarrow> 0 < c \<and> c \<le> q_limit r) \<Longrightarrow> live_bucket now r b = (c, t)
     \<Longrightarrow> 0 \<le> c \<and> c \<le> q_limit r \<and> now < t"
  by (auto simp: live_bucket_def valid_quota_rule_def Millisecond_def less_imp_le split: option.splits prod.splits if_splits)

lemma quota_inv_new: "NewQuotaLimiter c = Inr q \<Longrightarrow> quota_inv q"
  by (simp add: NewQuotaLimiter_valid quota_inv_def)

lemma quota_inv_Allow:
  assumes "quota_inv q" and "Allow now s r p q = (d, q')"
  shows "quota_inv q'"
proof -
  have cfg: "ql_config q' = ql_config q" using Allow_config [OF assms(2)] .
  have "0 < c \<and> c \<le> q_limit rl"
    if a: "a \<in> quota_scopes" "rule_for (ql_config q) a x = Some rl" "gm_get (ql_buckets q') (bucket_key a x) = Some (c, t)"
    for a x rl c t
  proof (cases "d = Allowed \<and> request_matches (ql_config q) a x (now, s, r, p)")
    case False
    with assms(2) a(1) have "gm_get (ql_buckets q') (bucket_key a x) = gm_get (ql_buckets q) (bucket_key a x)"
      by (intro Allow_other) (auto simp: quota_scopes_def)
    with assms(1) a show ?thesis by (auto simp: quota_inv_def)
  next
    case True
    obtain c0 t0 where b: "live_bucket now rl (gm_get (ql_buckets q) (bucket_key a x)) = (c0, t0)" by fastforce
    from assms(1) a(1,2) have "valid_quota_rule rl"
      "\<And>c t. gm_get (ql_buckets q) (bucket_key a x) = Some (c, t) \<Longrightarrow> 0 < c \<and> c \<le> q_limit rl"
      by (auto simp: quota_inv_def intro: rule_for_valid)
    with b have "0 \<le> c0" using live_bucket_bounds by blast
    moreover have "Some (c, t) = Some (c0 + 1, t0) \<and> c0 < q_limit rl"
      using Allow_matching [of now s r p q q' a x rl] assms(2) True a b by simp
    ultimately show ?thesis by simp
  qed
  with assms(1) cfg show ?thesis by (simp add: quota_inv_def)
qed

lemma quota_inv_run:
  "quota_run a x qs q = (n, q') \<Longrightarrow> quota_inv q \<Longrightarrow> quota_inv q' \<and> ql_config q' = ql_config q"
proof (induction qs arbitrary: q n q')
  case (Cons req qs)
  obtain now s r p where req: "req = (now, s, r, p)" by (cases req) auto
  obtain d q1 where d: "Allow now s r p q = (d, q1)" by fastforce
  obtain m q2 where m: "quota_run a x qs q1 = (m, q2)" by fastforce
  with Cons.prems(1) req d have "q' = q2" by simp
  moreover have "quota_inv q2 \<and> ql_config q2 = ql_config q1" using Cons.IH [OF m] quota_inv_Allow [OF Cons.prems(2) d] .
  ultimately show ?case using Allow_config [OF d] by simp
qed simp

lemma quota_run_counts:
  assumes "quota_run a x qs q = (n, q')" and "a \<in> quota_scopes" and "rule_for (ql_config q) a x = Some rl"
    and "gm_get (ql_buckets q) (bucket_key a x) = Some (c, t)" and "\<forall>(now, _) \<in> set qs. now < t"
  shows "gm_get (ql_buckets q') (bucket_key a x) = Some (c + int n, t)"
  using assms
proof (induction qs arbitrary: q n c)
  case (Cons req qs)
  obtain now s r p where req: "req = (now, s, r, p)" by (cases req) auto
  obtain d q1 where d: "Allow now s r p q = (d, q1)" by fastforce
  obtain m where m: "quota_run a x qs q1 = (m, q')"
    using Cons.prems(1) req d by (auto split: prod.splits)
  let ?hit = "d = Allowed \<and> request_matches (ql_config q) a x (now, s, r, p)"
  have n: "n = m + (if ?hit then 1 else 0)" using Cons.prems(1) req d m by auto
  have cfg: "rule_for (ql_config q1) a x = Some rl" using Allow_config [OF d] Cons.prems(3) by simp
  have lt: "now < t" using Cons.prems(5) req by simp
  have step: "gm_get (ql_buckets q1) (bucket_key a x) = Some (c + (if ?hit then 1 else 0), t)"
  proof (cases ?hit)
    case True
    with Allow_matching [of now s r p q q1 a x rl] d Cons.prems(3,4) lt show ?thesis by (simp add: live_bucket_def)
  next
    case False
    with Allow_other [OF d, of a x] Cons.prems(2,4) show ?thesis by (auto simp: quota_scopes_def)
  qed
  have "gm_get (ql_buckets q') (bucket_key a x) = Some (c + (if ?hit then 1 else 0) + int m, t)"
    by (rule Cons.IH [OF m Cons.prems(2) cfg step]) (use Cons.prems(5) in simp)
  with n show ?case by (simp split: if_splits)
qed simp

section \<open>Properties\<close>

lemma denies_live:
  assumes "quota_inv q" and "m \<in> set (matched_rules (ql_config q) s r p)"
    and "denies now (ql_buckets q) (Denied a retry) m"
  shows "0 < retry \<and> (\<exists>x rl t. (a, x, rl) \<in> set (matched_rules (ql_config q) s r p) \<and>
    gm_get (ql_buckets q) (bucket_key a x) = Some (q_limit rl, t) \<and> retry = t - now)"
proof -
  obtain x rl where m: "m = (a, x, rl)" using assms(3) by (cases m) (auto simp: denies_def split: prod.splits)
  obtain c t where b: "live_bucket now rl (gm_get (ql_buckets q) (bucket_key a x)) = (c, t)" by fastforce
  from assms(3) m b have d: "retry = t - now" "q_limit rl \<le> c" by (simp_all add: denies_def)
  have rf: "rule_for (ql_config q) a x = Some rl" using assms(2) m matched_rule_for by blast
  have a: "a \<in> quota_scopes" using matched_scope_names [OF assms(2)] m by (simp add: quota_scopes_def)
  have v: "valid_quota_rule rl" using assms(1) rf rule_for_valid by (auto simp: quota_inv_def)
  have bs: "0 < c' \<and> c' \<le> q_limit rl" if "gm_get (ql_buckets q) (bucket_key a x) = Some (c', t')" for c' t'
    using assms(1) rf a that by (auto simp: quota_inv_def)
  have "c \<le> q_limit rl \<and> now < t" using live_bucket_bounds [of rl _ now c t, OF v] bs b by blast
  moreover from this d v b have "gm_get (ql_buckets q) (bucket_key a x) = Some (c, t)"
    by (auto simp: live_bucket_def valid_quota_rule_def split: option.splits prod.splits if_splits)
  ultimately show ?thesis using d m assms(2) by auto
qed

lemma denies_iff:
  "(\<exists>d. denies now buckets d m) \<longleftrightarrow>
     q_limit (snd (snd m)) \<le> fst (live_bucket now (snd (snd m)) (gm_get buckets (bucket_key (fst m) (fst (snd m)))))"
  by (simp add: denies_def case_prod_unfold)

lemma Allow_admits_iff:
  "fst (Allow now s r p q) = Allowed \<longleftrightarrow>
     (\<exists>bs. check_buckets now (ql_buckets q) (matched_rules (ql_config q) s r p) = Inr bs)"
proof (cases "check_buckets now (ql_buckets q) (matched_rules (ql_config q) s r p)")
  case (Inl d)
  have "Allow now s r p q = (d, q)"
    by (cases "matched_rules (ql_config q) s r p = []") (use Inl in \<open>simp_all add: Allow_def\<close>)
  with Inl check_buckets_denied [OF Inl] show ?thesis by simp
qed (simp add: Allow_def Let_def)

text \<open>
  C22: A request is admitted exactly when every quota it matches has room in its current window; a
  refused request changes no counter, names a scope whose bucket is full, and its retry delay is
  the positive time until that bucket is reset.
\<close>
theorem Allow_decision:
  assumes "quota_inv q" and "Allow now s r p q = (d, q')"
  shows "(d = Allowed) = (\<forall>(a, x, rl) \<in> set (matched_rules (ql_config q) s r p).
      fst (live_bucket now rl (gm_get (ql_buckets q) (bucket_key a x))) < q_limit rl) \<and>
    (\<forall>a retry. d = Denied a retry \<longrightarrow>
      q' = q \<and> 0 < retry \<and> (\<exists>x rl t. (a, x, rl) \<in> set (matched_rules (ql_config q) s r p) \<and>
      gm_get (ql_buckets q) (bucket_key a x) = Some (q_limit rl, t) \<and> retry = t - now))"
proof -
  have "(d = Allowed) = (\<forall>(a, x, rl) \<in> set (matched_rules (ql_config q) s r p).
      fst (live_bucket now rl (gm_get (ql_buckets q) (bucket_key a x))) < q_limit rl)"
    using Allow_admits_iff [of now s r p q] assms(2)
    unfolding check_buckets_outcome by (simp add: denies_iff case_prod_unfold not_le)
  moreover have "q' = q \<and> 0 < retry \<and> (\<exists>x rl t. (a, x, rl) \<in> set (matched_rules (ql_config q) s r p) \<and>
      gm_get (ql_buckets q) (bucket_key a x) = Some (q_limit rl, t) \<and> retry = t - now)" if "d = Denied a retry" for a retry
    using Allow_denied [of now s r p q a retry q'] assms(2) that denies_live [OF assms(1)] by blast
  ultimately show ?thesis by blast
qed

definition example_config :: quota_config where
  "example_config = \<lparr>qc_default = Some \<lparr>q_limit = 2, q_window = 1000000000\<rparr>,
     qc_services = [(''storage.googleapis.com'', \<lparr>q_limit = 1, q_window = 60000000000\<rparr>)], qc_projects = [], qc_routes = []\<rparr>"

definition example_limiter :: quota_limiter where
  "example_limiter = \<lparr>ql_config = example_config, ql_buckets =
     [(''service:storage.googleapis.com'', (1, 60000000000)), (''default:all'', (1, 1000000000))]\<rparr>"

lemma example_new: "NewQuotaLimiter example_config = Inr \<lparr>ql_config = example_config, ql_buckets = []\<rparr>"
  by code_simp

lemma example_run:
  "quota_run ''default'' ''all'' [(0, ''Storage.googleapis.com:443'', ''/'', [])] \<lparr>ql_config = example_config, ql_buckets = []\<rparr>
     = (1, example_limiter)"
  by code_simp

lemma example_inv: "quota_inv example_limiter"
  using quota_inv_run [OF example_run quota_inv_new [OF example_new]] by simp

lemma example_denied:
  "Allow 5000000000 ''storage.googleapis.com'' ''/b'' [] example_limiter = (Denied ''service'' 55000000000, example_limiter)"
  by code_simp

theorem Allow_decision_witness:
  "Allow 5000000000 ''storage.googleapis.com'' ''/b'' [] example_limiter = (Denied ''service'' 55000000000, example_limiter)
   \<and> (0::int) < 55000000000"
  using Allow_decision [OF example_inv example_denied] example_denied by simp

text \<open>
  C21: Within one window no selector admits more requests than its limit.  For any history of a
  limiter since its construction, the count of a bucket plus the requests admitted under its
  selector before the bucket's reset time, whatever else is admitted or refused in between, never
  passes the limit of the selector's rule.
\<close>
theorem quota_window_limit:
  assumes "NewQuotaLimiter c = Inr q0" and "quota_run b y before q0 = (k, q)"
    and "a \<in> quota_scopes" and "rule_for c a x = Some rl"
    and "gm_get (ql_buckets q) (bucket_key a x) = Some (cnt, t)"
    and "\<forall>(now, _) \<in> set after. now < t" and "quota_run a x after q = (n, q')"
  shows "cnt + int n \<le> q_limit rl"
proof -
  have q: "quota_inv q" "ql_config q = c"
    using quota_inv_run [OF assms(2) quota_inv_new [OF assms(1)]] assms(1) by (auto simp: NewQuotaLimiter_valid)
  have "gm_get (ql_buckets q') (bucket_key a x) = Some (cnt + int n, t)"
    by (rule quota_run_counts [OF assms(7,3) _ assms(5,6)]) (simp add: q assms(4))
  moreover have "quota_inv q' \<and> ql_config q' = c" using quota_inv_run [OF assms(7) q(1)] q(2) by simp
  ultimately show ?thesis using assms(3,4) by (auto simp: quota_inv_def)
qed

theorem quota_window_limit_witness:
  "gm_get (ql_buckets example_limiter) (bucket_key ''default'' ''all'') = Some (1, 1000000000)
   \<and> fst (quota_run ''default'' ''all'' [(5, ''pubsub'', ''/'', []), (6, ''pubsub'', ''/'', [])] example_limiter) = 1
   \<and> 1 + int 1 \<le> (2::int)"
proof -
  have g: "gm_get (ql_buckets example_limiter) (bucket_key ''default'' ''all'') = Some (1, 1000000000)" by code_simp
  have rule: "rule_for example_config ''default'' ''all'' = Some \<lparr>q_limit = 2, q_window = 1000000000\<rparr>" by code_simp
  have n: "fst (quota_run ''default'' ''all'' [(5, ''pubsub'', ''/'', []), (6, ''pubsub'', ''/'', [])] example_limiter) = 1"
    by code_simp
  then obtain q' where run:
    "quota_run ''default'' ''all'' [(5, ''pubsub'', ''/'', []), (6, ''pubsub'', ''/'', [])] example_limiter = (1, q')"
    by (metis prod.collapse)
  show ?thesis using quota_window_limit [OF example_new example_run _ rule g _ run] g n by (simp add: quota_scopes_def)
qed

end
