(* ===== verification/Pagination.thy ===== *)
theory Pagination
  imports Json
begin

text \<open>
  \<open>pkg/pagination/pagination.go\<close>: pages of a keyed collection and the opaque tokens that continue
  them.  \<open>int\<close> is 64 bits wide: the end of a page wraps around.  A token is kept as what
  \<open>decode\<close> finds in its text: nothing, a payload, or text that is not one.  SHA-256 is an argument,
  the digest of the marshalled list of strings.
  \<open>sort.Slice\<close> is not stable; the order of items with equal keys is one of the possible ones.
\<close>

section \<open>Tokens and pages\<close>

record scope =
  sc_service :: string
  sc_parent :: string
  sc_filter :: string
  sc_order_by :: string

record token_payload =
  tp_version :: int
  tp_scope :: string
  tp_generation :: string
  tp_after :: string

datatype page_token = NoToken | Token token_payload | BadToken

datatype page_error = InvalidToken | PagePanics

definition wrap64 :: "int \<Rightarrow> int" where
  "wrap64 n = (n + 2 ^ 63) mod 2 ^ 64 - 2 ^ 63"

text \<open>\<open>sort.SearchStrings\<close> on sorted keys: the first index whose key is not below the target.\<close>

fun search_strings :: "string list \<Rightarrow> string \<Rightarrow> nat" where
  "search_strings [] x = 0"
| "search_strings (k # ks) x = (if k < x then Suc (search_strings ks x) else 0)"

definition scope_parts :: "scope \<Rightarrow> string list" where
  "scope_parts s = [sc_service s, sc_parent s, sc_filter s, sc_order_by s]"

text \<open>Where a page starts; \<open>None\<close> for a token that is malformed, stale or of another query.\<close>

definition page_start :: "(string list \<Rightarrow> string) \<Rightarrow> scope \<Rightarrow> string list \<Rightarrow> page_token \<Rightarrow> nat option" where
  "page_start digest s keys t =
     (case t of
        NoToken \<Rightarrow> Some 0
      | BadToken \<Rightarrow> None
      | Token p \<Rightarrow>
          (if tp_version p \<noteq> 1 \<or> tp_scope p \<noteq> digest (scope_parts s) \<or> tp_generation p \<noteq> digest keys then None
           else let index = search_strings keys (tp_after p) in
             if index \<ge> length keys \<or> keys ! index \<noteq> tp_after p then None else Some (index + 1)))"

text \<open>\<open>make([]T, end-start)\<close> panics on a negative length.\<close>

definition Page ::
  "(string list \<Rightarrow> string) \<Rightarrow> 'a list \<Rightarrow> int \<Rightarrow> page_token \<Rightarrow> scope \<Rightarrow> ('a \<Rightarrow> string) \<Rightarrow> page_error + ('a list \<times> page_token)" where
  "Page digest items pageSize t s key =
     (let sorted = sort_key key items; keys = map key sorted in
      case page_start digest s keys t of
        None \<Rightarrow> Inl InvalidToken
      | Some start \<Rightarrow>
          (let psize = (if pageSize \<le> 0 then 100 else pageSize);
               stop = wrap64 (int start + psize);
               stop = (if stop > int (length sorted) then int (length sorted) else stop)
           in if stop < int start then Inl PagePanics
              else let page = take (nat stop - start) (drop start sorted) in
                if stop = int (length sorted) then Inr (page, NoToken)
                else Inr (page, Token \<lparr>tp_version = 1, tp_scope = digest (scope_parts s),
                       tp_generation = digest keys, tp_after = keys ! (nat stop - 1)\<rparr>)))"

text \<open>A client that follows the tokens, for at most a number of requests; \<open>None\<close> when a page fails or they run out.\<close>

fun walk_pages ::
  "nat \<Rightarrow> (string list \<Rightarrow> string) \<Rightarrow> 'a list \<Rightarrow> int \<Rightarrow> page_token \<Rightarrow> scope \<Rightarrow> ('a \<Rightarrow> string) \<Rightarrow> 'a list list option" where
  "walk_pages 0 digest items psize t s key = None"
| "walk_pages (Suc n) digest items psize t s key =
     (case Page digest items psize t s key of
        Inl e \<Rightarrow> None
      | Inr (page, next) \<Rightarrow>
          (if next = NoToken then Some [page]
           else map_option ((#) page) (walk_pages n digest items psize next s key)))"

section \<open>Lemmas\<close>

lemma wrap64_small: "0 \<le> n \<Longrightarrow> n < 2 ^ 63 \<Longrightarrow> wrap64 n = n"
  by (simp add: wrap64_def)

lemma search_strings_nth:
  "sorted_wrt (<) ks \<Longrightarrow> i < length ks \<Longrightarrow> search_strings ks (ks ! i) = i"
proof (induction ks arbitrary: i)
  case (Cons k ks)
  show ?case
  proof (cases i)
    case (Suc j)
    with Cons.prems have "k < ks ! j" by simp
    with Suc Cons show ?thesis by simp
  qed simp
qed simp

lemma sorted_keys_strict:
  "distinct (map key items) \<Longrightarrow> sorted_wrt (<) (map key (sort_key key items))"
proof -
  assume "distinct (map key items)"
  then have "distinct (map key (sort_key key items))"
    by (metis distinct_map distinct_sort set_sort)
  then show ?thesis by (simp only: strict_sorted_iff sorted_sort_key simp_thms)
qed

lemma Page_small:
  assumes "page_start digest s (map key (sort_key key items)) t = Some start" and "start \<le> length items"
    and "1 \<le> psize" and "int (length items) + psize < 2 ^ 63"
  shows "Page digest items psize t s key =
    (let stop = min (start + nat psize) (length items);
         page = take (stop - start) (drop start (sort_key key items))
     in Inr (page, if stop = length items then NoToken
       else Token \<lparr>tp_version = 1, tp_scope = digest (scope_parts s),
            tp_generation = digest (map key (sort_key key items)),
            tp_after = map key (sort_key key items) ! (stop - 1)\<rparr>))"
proof -
  have w: "wrap64 (int start + psize) = int start + psize" using assms by (intro wrap64_small) auto
  show ?thesis
  proof (cases "int start + psize > int (length items)")
    case True
    then have "min (start + nat psize) (length items) = length items" using assms(3) by linarith
    with True assms w show ?thesis by (simp add: Page_def Let_def)
  next
    case False
    then have m: "min (start + nat psize) (length items) = start + nat psize" using assms(3) by linarith
    moreover have "nat (int start + psize) = start + nat psize" using assms(3) by linarith
    moreover have "int start + psize = int (length items) \<longleftrightarrow> start + nat psize = length items" using assms(3) by linarith
    ultimately show ?thesis using False assms w by (simp add: Page_def Let_def)
  qed
qed

lemma Page_invalid:
  "page_start digest s (map key (sort_key key items)) t = None \<Longrightarrow> Page digest items psize t s key = Inl InvalidToken"
  by (simp add: Page_def Let_def)

lemma page_start_token:
  assumes "sorted_wrt (<) keys" and "0 < stop" and "stop < length keys"
  shows "page_start digest s keys (Token \<lparr>tp_version = 1, tp_scope = digest (scope_parts s),
    tp_generation = digest keys, tp_after = keys ! (stop - 1)\<rparr>) = Some stop"
proof -
  have "search_strings keys (keys ! (stop - 1)) = stop - 1"
    using assms by (intro search_strings_nth) auto
  with assms show ?thesis by (simp add: page_start_def Let_def)
qed

lemma walk_from:
  assumes "distinct (map key items)" and "1 \<le> psize" and "int (length items) + psize < 2 ^ 63"
    and "page_start digest s (map key (sort_key key items)) t = Some start" and "start \<le> length items"
    and "length items - start < n"
  shows "\<exists>pages. walk_pages n digest items psize t s key = Some pages \<and> concat pages = drop start (sort_key key items)
    \<and> list_all (\<lambda>p. int (length p) \<le> psize) pages"
  using assms(4-6)
proof (induction n arbitrary: t start)
  case (Suc n)
  let ?s = "sort_key key items" and ?stop = "min (start + nat psize) (length items)"
  let ?page = "take (?stop - start) (drop start ?s)"
  note page = Page_small [OF Suc.prems(1,2) assms(2,3)]
  have len: "int (length ?page) \<le> psize" using assms(2) by auto
  show ?case
  proof (cases "?stop = length items")
    case True
    then have "?page = drop start ?s" using Suc.prems(2) by simp
    with True len show ?thesis by (simp add: page Let_def)
  next
    case False
    let ?t = "Token \<lparr>tp_version = 1, tp_scope = digest (scope_parts s), tp_generation = digest (map key ?s),
            tp_after = map key ?s ! (?stop - 1)\<rparr>"
    from False have stop: "?stop = start + nat psize" "?stop < length items" by auto
    have pos: "0 < ?stop" using stop assms(2) by linarith
    have start: "page_start digest s (map key ?s) ?t = Some ?stop"
      using page_start_token [OF sorted_keys_strict [OF assms(1)] pos] stop(2) by simp
    have "length items - ?stop < n" using Suc.prems(3) stop assms(2) by linarith
    with start obtain pages where w: "walk_pages n digest items psize ?t s key = Some pages"
      "concat pages = drop ?stop ?s" "list_all (\<lambda>p. int (length p) \<le> psize) pages"
      using Suc.IH [OF start min.cobounded2] by blast
    have "?page @ drop ?stop ?s = drop start ?s"
      using stop(1) by (metis append_take_drop_id diff_add_inverse drop_drop add.commute)
    with w False len show ?thesis by (simp add: page Let_def)
  qed
qed simp

section \<open>Properties\<close>

text \<open>
  C31: Following the tokens from the first page, when the items have pairwise different keys and stay as they
  are, ends after at most one request per item and one more, no page is larger than requested, and the
  pages together are the whole collection, every item once and in key order.
\<close>
theorem walk_pages_complete:
  assumes "distinct (map key items)" and "1 \<le> psize" and "int (length items) + psize < 2 ^ 63"
  shows "\<exists>pages. walk_pages (Suc (length items)) digest items psize NoToken s key = Some pages \<and>
    concat pages = sort_key key items \<and> list_all (\<lambda>p. int (length p) \<le> psize) pages"
  using walk_from [OF assms, of digest s NoToken 0 "Suc (length items)"] by (simp add: page_start_def)

theorem walk_pages_complete_witness:
  "\<exists>pages. walk_pages 4 concat [''b'', ''c'', ''a''] 2 NoToken \<lparr>sc_service = ''dlp'', sc_parent = ''p'', sc_filter = [], sc_order_by = []\<rparr> id
     = Some pages \<and> concat pages = [''a'', ''b'', ''c'']"
proof -
  have sorted: "sort_key id [''b'', ''c'', ''a''] = [''a'', ''b'', ''c'']" by code_simp
  have len: "Suc (length [''b'', ''c'', ''a'']) = 4" by simp
  have "\<exists>pages. walk_pages (Suc (length [''b'', ''c'', ''a''])) concat [''b'', ''c'', ''a''] 2 NoToken
      \<lparr>sc_service = ''dlp'', sc_parent = ''p'', sc_filter = [], sc_order_by = []\<rparr> id = Some pages \<and>
    concat pages = sort_key id [''b'', ''c'', ''a''] \<and> list_all (\<lambda>p. int (length p) \<le> 2) pages"
    by (rule walk_pages_complete) simp_all
  then show ?thesis unfolding sorted len by blast
qed

text \<open>
  A token is only good for the query and the collection that produced it.  Whatever page a token
  came from, if it continues a listing then the digests of that listing's query and of its keys are
  those of the listing that issued it.
\<close>
theorem token_is_bound:
  assumes "Page digest items psize t s key = Inr (page, Token p)"
    and "Page digest items' psize' (Token p) s' key' = r" and "r \<noteq> Inl InvalidToken"
  shows "digest (scope_parts s') = digest (scope_parts s) \<and>
    digest (map key' (sort_key key' items')) = digest (map key (sort_key key items))"
proof -
  from assms(1) have "tp_scope p = digest (scope_parts s)" "tp_generation p = digest (map key (sort_key key items))"
    by (auto simp: Page_def Let_def split: option.splits if_splits)
  moreover have "page_start digest s' (map key' (sort_key key' items')) (Token p) \<noteq> None"
    using assms(2,3) Page_invalid [of digest s' key' items' "Token p" psize'] by blast
  ultimately show ?thesis by (auto simp: page_start_def Let_def split: if_splits)
qed

theorem token_is_bound_witness:
  "Page concat [''b'', ''a''] 1 NoToken \<lparr>sc_service = ''dlp'', sc_parent = ''p'', sc_filter = [], sc_order_by = []\<rparr> id =
     Inr ([''a''], Token \<lparr>tp_version = 1, tp_scope = ''dlpp'', tp_generation = ''ab'', tp_after = ''a''\<rparr>)
   \<and> concat (map id (sort_key id [''b'', ''a''])) = ''ab''"
proof -
  let ?s = "\<lparr>sc_service = ''dlp'', sc_parent = ''p'', sc_filter = [], sc_order_by = []\<rparr>"
  let ?p = "\<lparr>tp_version = 1, tp_scope = ''dlpp'', tp_generation = ''ab'', tp_after = ''a''\<rparr>"
  have first: "Page concat [''b'', ''a''] 1 NoToken ?s id = Inr ([''a''], Token ?p)" by code_simp
  have second: "Page concat [''b'', ''a''] 1 (Token ?p) ?s id = Inr ([''b''], NoToken)" by code_simp
  have "concat (map id (sort_key id [''b'', ''a''])) = ''ab''" by code_simp
  moreover have "concat (map id (sort_key id [''b'', ''a''])) = concat (map id (sort_key id [''b'', ''a'']))"
    using token_is_bound [OF first second] by blast
  ultimately show ?thesis using first by blast
qed

text \<open>
  With equal keys the tokens do not make progress.  A collection with one key three times, read
  in pages of one, answers the same page and the same token for ever.
\<close>
theorem equal_keys_never_end:
  "walk_pages n digest [(''k'', ''x''), (''k'', ''y''), (''k'', ''z'')] 1 NoToken s fst = None"
proof -
  let ?items = "[(''k'', ''x''), (''k'', ''y''), (''k'', ''z'')]"
  let ?t = "Token \<lparr>tp_version = 1, tp_scope = digest (scope_parts s), tp_generation = digest [''k'', ''k'', ''k''], tp_after = ''k''\<rparr>"
  have sorted: "sort_key fst ?items = ?items" by simp
  have "Page digest ?items 1 ?t s fst = Inr ([(''k'', ''y'')], ?t)"
    by (simp add: Page_def sorted page_start_def Let_def wrap64_def del: sort_key_simps)
  then have loop: "walk_pages n digest ?items 1 ?t s fst = None" for n by (induction n) simp_all
  have "Page digest ?items 1 NoToken s fst = Inr ([(''k'', ''x'')], ?t)"
    by (simp add: Page_def sorted page_start_def Let_def wrap64_def del: sort_key_simps)
  with loop show ?thesis by (cases n) simp_all
qed

end
