(* ===== verification/Http.thy ===== *)
theory Http
  imports Json Strconv
begin

text \<open>
  What the shims share at their HTTP boundary: a request as a handler reads it, the clock, and the
  RFC 3339 texts \<open>time.Time\<close> is decoded from.  A body is the first JSON value a \<open>json.Decoder\<close> finds
  in it; a body above its size limit is one the decoder cannot read.
\<close>

record http_request =
  rq_method :: string
  rq_path :: string
  rq_header :: "string gomap"
  rq_query :: "string gomap"
  rq_body :: raw_message

text \<open>\<open>Header.Get\<close> (keys in canonical form) and \<open>Values.Get\<close>: the empty string when absent.\<close>

definition header :: "http_request \<Rightarrow> string \<Rightarrow> string" where
  "header r k = (case gm_get (rq_header r) k of Some v \<Rightarrow> v | None \<Rightarrow> [])"

definition query :: "http_request \<Rightarrow> string \<Rightarrow> string" where
  "query r k = (case gm_get (rq_query r) k of Some v \<Rightarrow> v | None \<Rightarrow> [])"

text \<open>One reading of the clock: the nanoseconds since the epoch and the RFC 3339 text of the time.\<close>

record clock =
  ck_nanos :: nat
  ck_text :: string

text \<open>The verb \<open>%x\<close> of a natural number.\<close>

definition hex_char :: "nat \<Rightarrow> char" where
  "hex_char d = (if d < 10 then digit_char d else char_of (87 + d))"

fun hex_nat :: "nat \<Rightarrow> string" where
  "hex_nat n = (if n < 16 then [hex_char n] else hex_nat (n div 16) @ [hex_char (n mod 16)])"

declare hex_nat.simps [simp del]

section \<open>Times\<close>

definition digits_at :: "string \<Rightarrow> nat \<Rightarrow> nat \<Rightarrow> bool" where
  "digits_at s i n \<longleftrightarrow> i + n \<le> length s \<and> list_all is_digit (take n (drop i s))"

definition num_at :: "string \<Rightarrow> nat \<Rightarrow> nat \<Rightarrow> nat" where
  "num_at s i n = parse_digits (take n (drop i s))"

definition days_in :: "nat \<Rightarrow> nat \<Rightarrow> nat" where
  "days_in month year =
     (if month = 2 then (if year mod 4 = 0 \<and> (year mod 100 \<noteq> 0 \<or> year mod 400 = 0) then 29 else 28)
      else if month \<in> {4, 6, 9, 11} then 30 else 31)"

definition zone_ok :: "string \<Rightarrow> bool" where
  "zone_ok z \<longleftrightarrow> z = ''Z'' \<or>
     length z = 6 \<and> z ! 0 \<in> {CHR ''+'', CHR ''-''} \<and> digits_at z 1 2 \<and> z ! 3 = CHR '':'' \<and> digits_at z 4 2 \<and>
     num_at z 1 2 \<le> 23 \<and> num_at z 4 2 \<le> 59"

definition after_fraction :: "string \<Rightarrow> string" where
  "after_fraction s = (if length s \<ge> 2 \<and> s ! 0 = CHR ''.'' \<and> is_digit (s ! 1) then dropWhile is_digit (tl s) else s)"

definition rfc3339 :: "string \<Rightarrow> bool" where
  "rfc3339 s \<longleftrightarrow>
     length s \<ge> 20 \<and> digits_at s 0 4 \<and> s ! 4 = CHR ''-'' \<and> digits_at s 5 2 \<and> s ! 7 = CHR ''-'' \<and> digits_at s 8 2 \<and>
     s ! 10 = CHR ''T'' \<and> digits_at s 11 2 \<and> s ! 13 = CHR '':'' \<and> digits_at s 14 2 \<and> s ! 16 = CHR '':'' \<and> digits_at s 17 2 \<and>
     1 \<le> num_at s 5 2 \<and> num_at s 5 2 \<le> 12 \<and> 1 \<le> num_at s 8 2 \<and> num_at s 8 2 \<le> days_in (num_at s 5 2) (num_at s 0 4) \<and>
     num_at s 11 2 \<le> 23 \<and> num_at s 14 2 \<le> 59 \<and> num_at s 17 2 \<le> 59 \<and> zone_ok (after_fraction (drop 19 s))"

text \<open>The text of Go's zero time.\<close>

definition zero_time :: string where "zero_time = ''0001-01-01T00:00:00Z''"

lemma rfc3339_zero [simp]: "rfc3339 zero_time"
  by code_simp

definition dec_time :: "json \<Rightarrow> string \<Rightarrow> json_error + string" where
  "dec_time v cur =
     (case v of JNull \<Rightarrow> Inr cur | JStr s \<Rightarrow> (if rfc3339 s then Inr s else Inl (TypeMismatch ''time''))
      | _ \<Rightarrow> Inl (TypeMismatch ''time''))"

lemma dec_time_simps [simp]: "rfc3339 s \<Longrightarrow> dec_time (JStr s) cur = Inr s" "dec_time JNull cur = Inr cur"
  by (simp_all add: dec_time_def)

text \<open>Seconds and fraction of the instant a time text names; \<open>civil_days\<close> counts days from 0000-03-01.\<close>

definition civil_days :: "int \<Rightarrow> int \<Rightarrow> int \<Rightarrow> int" where
  "civil_days y m d =
     (let y' = (if m \<le> 2 then y - 1 else y); m' = (m + 9) mod 12
      in 365 * y' + y' div 4 - y' div 100 + y' div 400 + (153 * m' + 2) div 5 + d - 1)"

definition fraction_nanos :: "string \<Rightarrow> int" where
  "fraction_nanos s =
     (if length s \<ge> 2 \<and> s ! 0 = CHR ''.'' \<and> is_digit (s ! 1)
      then int (parse_digits (take 9 (takeWhile is_digit (tl s) @ ''000000000''))) else 0)"

definition zone_offset :: "string \<Rightarrow> int" where
  "zone_offset z =
     (if z = ''Z'' then 0
      else (if z ! 0 = CHR ''-'' then - 1 else 1) * (int (num_at z 1 2) * 3600 + int (num_at z 4 2) * 60))"

definition instant :: "string \<Rightarrow> int option" where
  "instant s =
     (if rfc3339 s then
        Some (((civil_days (int (num_at s 0 4)) (int (num_at s 5 2)) (int (num_at s 8 2)) * 24 + int (num_at s 11 2)) * 3600 +
               int (num_at s 14 2) * 60 + int (num_at s 17 2) - zone_offset (after_fraction (drop 19 s))) * 1000000000 +
              fraction_nanos (drop 19 s))
      else None)"

section \<open>Maps of pointers\<close>

text \<open>
  A Go map of pointers decoded from JSON may hold nil entries: the values are options.  Indexing
  answers nil for an absent key too.
\<close>

definition ptr_get :: "'v option gomap \<Rightarrow> string \<Rightarrow> 'v option" where
  "ptr_get m k = (case gm_get m k of Some (Some v) \<Rightarrow> Some v | _ \<Rightarrow> None)"

definition no_nil :: "'v option gomap \<Rightarrow> bool" where
  "no_nil m \<longleftrightarrow> list_all (\<lambda>(k, v). v \<noteq> None) m"

text \<open>Decoding an object into such a map: a fresh value per member, \<open>null\<close> is the nil pointer.\<close>

definition dec_ptr_map ::
    "(json \<Rightarrow> json_error + 'v) \<Rightarrow> json \<Rightarrow> 'v option gomap option \<Rightarrow> json_error + 'v option gomap option" where
  "dec_ptr_map f v cur =
     (case v of
        JNull \<Rightarrow> Inr None
      | JObj kvs \<Rightarrow> map_sum id Some (decode_members
          (\<lambda>k v m. if v = JNull then Inr (gm_set k None m) else map_sum id (\<lambda>x. gm_set k (Some x) m) (f v))
          kvs (case cur of Some m \<Rightarrow> m | None \<Rightarrow> []))
      | _ \<Rightarrow> Inl (TypeMismatch ''map''))"

definition enc_ptr_map :: "('v \<Rightarrow> json) \<Rightarrow> 'v option gomap \<Rightarrow> json" where
  "enc_ptr_map f m = JObj (map (\<lambda>(k, v). (k, case v of Some x \<Rightarrow> f x | None \<Rightarrow> JNull)) (sort_members m))"

definition map_ptrs :: "('v \<Rightarrow> 'w) \<Rightarrow> 'v option gomap \<Rightarrow> 'w option gomap" where
  "map_ptrs g m = map (\<lambda>(k, v). (k, map_option g v)) m"

lemma dec_enc_members:
  assumes "\<And>k x. (k, Some x) \<in> set m \<Longrightarrow> f (e x) = Inr (g x) \<and> e x \<noteq> JNull" and "distinct (map fst a @ map fst m)"
  shows "decode_members (\<lambda>k v m. if v = JNull then Inr (gm_set k None m) else map_sum id (\<lambda>x. gm_set k (Some x) m) (f v))
      (map (\<lambda>(k, v). (k, case v of Some x \<Rightarrow> e x | None \<Rightarrow> JNull)) m) a = Inr (a @ map_ptrs g m)"
  using assms
proof (induction m arbitrary: a)
  case (Cons kv m)
  obtain k v where kv: "kv = (k, v)" by (cases kv)
  have new: "gm_set k x a = a @ [(k, x)]" for x using Cons.prems(2) kv by (intro update_new) auto
  have "f (e x) = Inr (g x) \<and> e x \<noteq> JNull" if "v = Some x" for x using Cons.prems(1) [of k x] kv that by simp
  with Cons.IH [of "a @ [(k, map_option g v)]"] Cons.prems new kv show ?case
    by (cases v) (auto simp: map_ptrs_def)
qed (simp add: map_ptrs_def)

lemma dec_enc_ptr_map:
  assumes "gm_wf m" and "\<And>k x. (k, Some x) \<in> set m \<Longrightarrow> f (e x) = Inr (g x) \<and> e x \<noteq> JNull"
  shows "dec_ptr_map f (enc_ptr_map e m) None = Inr (Some (map_ptrs g (sort_members m)))"
proof -
  have "distinct (map fst [] @ map fst (sort_members m))" using assms(1) sort_members_wf [of m] by (simp add: gm_wf_def)
  with dec_enc_members [of "sort_members m" f e g "[]"] assms(2) show ?thesis
    by (simp add: dec_ptr_map_def enc_ptr_map_def)
qed

lemma map_ptrs_simps [simp]:
  "gm_get (map_ptrs g m) k = map_option (map_option g) (gm_get m k)" and map_ptrs_wf [simp]: "gm_wf (map_ptrs g m) = gm_wf m"
  by (simp_all add: map_ptrs_def)

lemma map_ptrs_no_nil [simp]: "no_nil (map_ptrs g m) = no_nil m"
  by (simp add: map_ptrs_def no_nil_def list_all_iff case_prod_unfold)

lemma ptr_get_map_ptrs [simp]: "ptr_get (map_ptrs g m) k = map_option g (ptr_get m k)"
  by (simp add: ptr_get_def split: option.split)

lemma ptr_get_simps [simp]:
  "ptr_get (gm_set k v m) k' = (if k' = k then v else ptr_get m k')"
  "ptr_get (gm_del k m) k' = (if k' = k then None else ptr_get m k')"
  "ptr_get [] k = None"
  by (auto simp: ptr_get_def split: option.split)

lemma ptr_get_sort [simp]: "gm_wf m \<Longrightarrow> ptr_get (sort_members m) k = ptr_get m k"
  by (simp add: ptr_get_def)

lemma ptr_get_mem: "ptr_get m k = Some v \<Longrightarrow> (k, Some v) \<in> set m"
  by (auto simp: ptr_get_def dest: map_of_SomeD split: option.splits)

lemma no_nil_sort [simp]: "no_nil (sort_members m) = no_nil m"
  by (simp add: no_nil_def list_all_iff)

lemma no_nil_set: "no_nil m \<Longrightarrow> v \<noteq> None \<Longrightarrow> no_nil (gm_set k v m)"
  by (induction m) (auto simp: no_nil_def)

lemma no_nil_del: "no_nil m \<Longrightarrow> no_nil (gm_del k m)"
  by (auto simp: no_nil_def list_all_iff AList.delete_eq)

lemma no_nil_Nil [simp]: "no_nil []"
  by (simp add: no_nil_def)

end
