(* ===== verification/Resource_Manager.thy ===== *)
theory Resource_Manager
  imports Http Entry_Store
begin

text \<open>
  \<open>pkg/shims/resourcemanager/api.go\<close>: projects, folders and organizations, their durable metadata and the
  walk up the hierarchy that policy inheritance uses.  A handler runs as one step; the store is any entry
  store, given by its \<open>save\<close> and \<open>load\<close>.  A time is the RFC 3339 text it is written as.
\<close>

section \<open>Resources\<close>

record project =
  p_name :: string
  p_parent :: string
  p_id :: string
  p_state :: string
  p_display :: string
  p_create :: string
  p_delete :: string
  p_etag :: string
  p_seeded :: bool

record organization =
  g_name :: string
  g_display :: string

record folder =
  f_name :: string
  f_parent :: string
  f_display :: string

record 's rm_api =
  rm_store :: "'s option"
  rm_projects :: "project option gomap"
  rm_orgs :: "organization option gomap"
  rm_folders :: "folder option gomap"

definition rmEntry :: string where "rmEntry = ''resourcemanager/metadata''"
definition defaultProjectID :: string where "defaultProjectID = ''local-dev-project''"
definition defaultOrgName :: string where "defaultOrgName = ''organizations/100000000000''"

text \<open>The pattern \<open>^[a-z][a-z0-9-]{4,28}[a-z0-9]$\<close>.\<close>

definition id_char :: "char \<Rightarrow> bool" where
  "id_char c \<longleftrightarrow> is_lower c \<or> is_digit c \<or> c = CHR ''-''"

definition projectIDPattern :: "string \<Rightarrow> bool" where
  "projectIDPattern s \<longleftrightarrow> 6 \<le> length s \<and> length s \<le> 30 \<and> is_lower (hd s) \<and> list_all id_char s \<and>
     (is_lower (last s) \<or> is_digit (last s))"

section \<open>The JSON forms\<close>

definition zero_project :: project where
  "zero_project = \<lparr>p_name = [], p_parent = [], p_id = [], p_state = [], p_display = [], p_create = zero_time,
     p_delete = zero_time, p_etag = [], p_seeded = False\<rparr>"

definition enc_project :: "project \<Rightarrow> json" where
  "enc_project p = JObj ([(''name'', JStr (p_name p))] @ omit_str ''parent'' (p_parent p) @
     [(''projectId'', JStr (p_id p)), (''state'', JStr (p_state p))] @ omit_str ''displayName'' (p_display p) @
     [(''createTime'', JStr (p_create p)), (''deleteTime'', JStr (p_delete p)), (''etag'', JStr (p_etag p))])"

definition project_fields :: "string list" where
  "project_fields = [''name'', ''parent'', ''projectId'', ''state'', ''displayName'', ''createTime'', ''deleteTime'', ''etag'']"

definition set_text :: "(string \<Rightarrow> 'a) \<Rightarrow> json_error + string \<Rightarrow> json_error + 'a" where
  "set_text f r = (case r of Inl e \<Rightarrow> Inl e | Inr s \<Rightarrow> Inr (f s))"

text \<open>With \<open>DisallowUnknownFields\<close> a member that matches no field is an error, else it is skipped.\<close>

definition dec_project_member :: "bool \<Rightarrow> string \<Rightarrow> json \<Rightarrow> project \<Rightarrow> json_error + project" where
  "dec_project_member strict k v p =
     (case match_field project_fields k of
        None \<Rightarrow> (if strict then Inl (UnknownField k) else Inr p)
      | Some f \<Rightarrow>
          if f = ''name'' then set_text (\<lambda>s. p\<lparr>p_name := s\<rparr>) (dec_string v (p_name p))
          else if f = ''parent'' then set_text (\<lambda>s. p\<lparr>p_parent := s\<rparr>) (dec_string v (p_parent p))
          else if f = ''projectId'' then set_text (\<lambda>s. p\<lparr>p_id := s\<rparr>) (dec_string v (p_id p))
          else if f = ''state'' then set_text (\<lambda>s. p\<lparr>p_state := s\<rparr>) (dec_string v (p_state p))
          else if f = ''displayName'' then set_text (\<lambda>s. p\<lparr>p_display := s\<rparr>) (dec_string v (p_display p))
          else if f = ''createTime'' then set_text (\<lambda>s. p\<lparr>p_create := s\<rparr>) (dec_time v (p_create p))
          else if f = ''deleteTime'' then set_text (\<lambda>s. p\<lparr>p_delete := s\<rparr>) (dec_time v (p_delete p))
          else set_text (\<lambda>s. p\<lparr>p_etag := s\<rparr>) (dec_string v (p_etag p)))"

definition dec_struct :: "(string \<Rightarrow> json \<Rightarrow> 'a \<Rightarrow> json_error + 'a) \<Rightarrow> 'a \<Rightarrow> json \<Rightarrow> json_error + 'a" where
  "dec_struct f zero v =
     (case v of JNull \<Rightarrow> Inr zero | JObj kvs \<Rightarrow> decode_members f kvs zero | _ \<Rightarrow> Inl (TypeMismatch ''struct''))"

definition dec_project :: "bool \<Rightarrow> json \<Rightarrow> json_error + project" where
  "dec_project strict = dec_struct (dec_project_member strict) zero_project"

definition enc_organization :: "organization \<Rightarrow> json" where
  "enc_organization g = JObj ((''name'', JStr (g_name g)) # omit_str ''displayName'' (g_display g))"

definition dec_organization_member :: "string \<Rightarrow> json \<Rightarrow> organization \<Rightarrow> json_error + organization" where
  "dec_organization_member k v g =
     (case match_field [''name'', ''displayName''] k of
        None \<Rightarrow> Inr g
      | Some f \<Rightarrow>
          if f = ''name'' then set_text (\<lambda>s. g\<lparr>g_name := s\<rparr>) (dec_string v (g_name g))
          else set_text (\<lambda>s. g\<lparr>g_display := s\<rparr>) (dec_string v (g_display g)))"

definition dec_organization :: "json \<Rightarrow> json_error + organization" where
  "dec_organization = dec_struct dec_organization_member \<lparr>g_name = [], g_display = []\<rparr>"

definition enc_folder :: "folder \<Rightarrow> json" where
  "enc_folder f = JObj ([(''name'', JStr (f_name f)), (''parent'', JStr (f_parent f))] @ omit_str ''displayName'' (f_display f))"

definition dec_folder_member :: "bool \<Rightarrow> string \<Rightarrow> json \<Rightarrow> folder \<Rightarrow> json_error + folder" where
  "dec_folder_member strict k v d =
     (case match_field [''name'', ''parent'', ''displayName''] k of
        None \<Rightarrow> (if strict then Inl (UnknownField k) else Inr d)
      | Some f \<Rightarrow>
          if f = ''name'' then set_text (\<lambda>s. d\<lparr>f_name := s\<rparr>) (dec_string v (f_name d))
          else if f = ''parent'' then set_text (\<lambda>s. d\<lparr>f_parent := s\<rparr>) (dec_string v (f_parent d))
          else set_text (\<lambda>s. d\<lparr>f_display := s\<rparr>) (dec_string v (f_display d)))"

definition dec_folder :: "bool \<Rightarrow> json \<Rightarrow> json_error + folder" where
  "dec_folder strict = dec_struct (dec_folder_member strict) \<lparr>f_name = [], f_parent = [], f_display = []\<rparr>"

text \<open>The durable metadata; a nil map is \<open>None\<close>, and an empty map of omitted members is not written.\<close>

record rm_metadata =
  md_projects :: "project option gomap option"
  md_orgs :: "organization option gomap option"
  md_folders :: "folder option gomap option"

definition enc_metadata :: "'s rm_api \<Rightarrow> json" where
  "enc_metadata api = JObj ([(''projects'', enc_ptr_map enc_project (rm_projects api))] @
     (if rm_orgs api = [] then [] else [(''organizations'', enc_ptr_map enc_organization (rm_orgs api))]) @
     (if rm_folders api = [] then [] else [(''folders'', enc_ptr_map enc_folder (rm_folders api))]))"

definition dec_metadata_member :: "string \<Rightarrow> json \<Rightarrow> rm_metadata \<Rightarrow> json_error + rm_metadata" where
  "dec_metadata_member k v m =
     (case match_field [''projects'', ''organizations'', ''folders''] k of
        None \<Rightarrow> Inr m
      | Some f \<Rightarrow>
          if f = ''projects'' then map_sum id (\<lambda>x. m\<lparr>md_projects := x\<rparr>) (dec_ptr_map (dec_project False) v (md_projects m))
          else if f = ''organizations'' then map_sum id (\<lambda>x. m\<lparr>md_orgs := x\<rparr>) (dec_ptr_map dec_organization v (md_orgs m))
          else map_sum id (\<lambda>x. m\<lparr>md_folders := x\<rparr>) (dec_ptr_map (dec_folder False) v (md_folders m)))"

definition dec_metadata :: "json \<Rightarrow> json_error + rm_metadata" where
  "dec_metadata = dec_struct dec_metadata_member \<lparr>md_projects = None, md_orgs = None, md_folders = None\<rparr>"

section \<open>Persistence and construction\<close>

text \<open>
  \<open>cloneOrganizations\<close> and \<open>cloneFolders\<close> dereference their entries: a nil one panics.  Without a store
  nothing is written.
\<close>

datatype rm_persist = Persisted | PersistFailed | PersistPanics

definition rm_persist ::
    "(string \<Rightarrow> json option \<Rightarrow> 's \<Rightarrow> store_error option \<times> 's) \<Rightarrow> 's rm_api \<Rightarrow> rm_persist \<times> 's rm_api" where
  "rm_persist save api =
     (case rm_store api of None \<Rightarrow> (Persisted, api) | Some s \<Rightarrow>
      if \<not> no_nil (rm_orgs api) \<or> \<not> no_nil (rm_folders api) then (PersistPanics, api)
      else (case save rmEntry (Some (enc_metadata api)) s of
              (None, s') \<Rightarrow> (Persisted, api\<lparr>rm_store := Some s'\<rparr>)
            | (Some e, s') \<Rightarrow> (PersistFailed, api\<lparr>rm_store := Some s'\<rparr>)))"

definition default_project :: "clock \<Rightarrow> project" where
  "default_project now = \<lparr>p_name = ''projects/'' @ defaultProjectID, p_parent = [], p_id = defaultProjectID,
     p_state = ''ACTIVE'', p_display = ''MiniSky local development'', p_create = ck_text now, p_delete = zero_time,
     p_etag = hex_nat (ck_nanos now), p_seeded = True\<rparr>"

definition default_organization :: organization where
  "default_organization = \<lparr>g_name = defaultOrgName, g_display = ''MiniSky local organization''\<rparr>"

text \<open>What \<open>Load\<close> leaves in the metadata: a decoding error is an error of the load.\<close>

definition load_metadata ::
    "(string \<Rightarrow> 's \<Rightarrow> (store_error + json) \<times> 's) \<Rightarrow> 's \<Rightarrow> (unit + rm_metadata option) \<times> 's" where
  "load_metadata load s =
     (case load rmEntry s of
        (Inl e, s') \<Rightarrow> (if is_err ErrNotFound e then Inr None else Inl (), s')
      | (Inr j, s') \<Rightarrow> ((case dec_metadata j of Inl e \<Rightarrow> Inl () | Inr m \<Rightarrow> Inr (Some m)), s'))"

definition or_empty :: "'v gomap option \<Rightarrow> 'v gomap" where
  "or_empty m = (case m of Some x \<Rightarrow> x | None \<Rightarrow> [])"

definition seed_default ::
    "(string \<Rightarrow> json option \<Rightarrow> 's \<Rightarrow> store_error option \<times> 's) \<Rightarrow> clock \<Rightarrow> 's rm_api \<Rightarrow> rm_persist \<times> 's rm_api" where
  "seed_default save now api =
     (if gm_get (rm_projects api) defaultProjectID = None
      then rm_persist save (api\<lparr>rm_projects := gm_set defaultProjectID (Some (default_project now)) (rm_projects api)\<rparr>)
      else (Persisted, api))"

definition seed_organization ::
    "(string \<Rightarrow> json option \<Rightarrow> 's \<Rightarrow> store_error option \<times> 's) \<Rightarrow> 's rm_api \<Rightarrow> rm_persist \<times> 's rm_api" where
  "seed_organization save api =
     (if gm_get (rm_orgs api) defaultOrgName = None
      then rm_persist save (api\<lparr>rm_orgs := gm_set defaultOrgName (Some default_organization) (rm_orgs api)\<rparr>)
      else (Persisted, api))"

text \<open>\<open>None\<close> is a construction that fails (or panics); the store keeps what it wrote.\<close>

definition NewResourceManager ::
    "(string \<Rightarrow> json option \<Rightarrow> 's \<Rightarrow> store_error option \<times> 's) \<Rightarrow> (string \<Rightarrow> 's \<Rightarrow> (store_error + json) \<times> 's) \<Rightarrow>
      clock \<Rightarrow> 's option \<Rightarrow> 's rm_api option" where
  "NewResourceManager save load now store =
     (case (case store of
              None \<Rightarrow> Some \<lparr>rm_store = None, rm_projects = [], rm_orgs = [], rm_folders = []\<rparr>
            | Some s \<Rightarrow>
                (case load_metadata load s of
                   (Inl _, s') \<Rightarrow> None
                 | (Inr None, s') \<Rightarrow> Some \<lparr>rm_store = Some s', rm_projects = [], rm_orgs = [], rm_folders = []\<rparr>
                 | (Inr (Some m), s') \<Rightarrow> Some \<lparr>rm_store = Some s', rm_projects = or_empty (md_projects m),
                       rm_orgs = or_empty (md_orgs m), rm_folders = or_empty (md_folders m)\<rparr>)) of
        None \<Rightarrow> None
      | Some api \<Rightarrow>
          (case seed_default save now api of
             (Persisted, api1) \<Rightarrow>
               (case seed_organization save api1 of (Persisted, api2) \<Rightarrow> Some api2 | _ \<Rightarrow> None)
           | _ \<Rightarrow> None))"

section \<open>The hierarchy\<close>

definition parentExists :: "'s rm_api \<Rightarrow> string \<Rightarrow> bool" where
  "parentExists api parent \<longleftrightarrow>
     parent = [] \<or>
     (if has_prefix parent ''organizations/'' then ptr_get (rm_orgs api) parent \<noteq> None
      else has_prefix parent ''folders/'' \<and> ptr_get (rm_folders api) parent \<noteq> None)"

definition parent_of :: "'s rm_api \<Rightarrow> string \<Rightarrow> string" where
  "parent_of api current =
     (if has_prefix current ''projects/'' then
        (case ptr_get (rm_projects api) (trim_prefix current ''projects/'') of Some p \<Rightarrow> p_parent p | None \<Rightarrow> [])
      else if has_prefix current ''folders/'' then
        (case ptr_get (rm_folders api) current of Some f \<Rightarrow> f_parent f | None \<Rightarrow> [])
      else [])"

text \<open>The parents that occur at all bound the walk.\<close>

definition all_parents :: "'s rm_api \<Rightarrow> string set" where
  "all_parents api = p_parent ` {p. \<exists>k. (k, Some p) \<in> set (rm_projects api)} \<union> f_parent ` {f. \<exists>k. (k, Some f) \<in> set (rm_folders api)}"

lemma finite_ptr_values: "finite {p. \<exists>k. (k, Some p) \<in> set m}"
proof -
  have "{p. \<exists>k. (k, Some p) \<in> set m} \<subseteq> (\<lambda>(k, v). the v) ` set m" by force
  then show ?thesis by (rule finite_subset) simp
qed

lemma finite_all_parents: "finite (all_parents api)"
  by (simp add: all_parents_def finite_ptr_values)

lemma parent_of_mem: "parent_of api c \<noteq> [] \<Longrightarrow> parent_of api c \<in> all_parents api"
  unfolding parent_of_def all_parents_def by (auto split: if_splits option.splits dest!: ptr_get_mem)

function ancestors_loop :: "'s rm_api \<Rightarrow> string list \<Rightarrow> string list \<Rightarrow> string \<Rightarrow> string list" where
  "ancestors_loop api seen result current =
     (if parent_of api current = [] then result
      else if parent_of api current \<in> set seen then result
      else ancestors_loop api (parent_of api current # seen) (result @ [parent_of api current]) (parent_of api current))"
  by pat_completeness auto

termination ancestors_loop
proof (relation "measure (\<lambda>(api, seen, result, current). card (all_parents api - set seen))")
  fix api :: "'s rm_api" and seen result :: "string list" and current
  assume "parent_of api current \<noteq> []" and "parent_of api current \<notin> set seen"
  then have "all_parents api - set (parent_of api current # seen) \<subset> all_parents api - set seen"
    using parent_of_mem by auto
  then show "((api, parent_of api current # seen, result @ [parent_of api current], parent_of api current), api, seen, result, current)
      \<in> measure (\<lambda>(api, seen, result, current). card (all_parents api - set seen))"
    by (simp add: psubset_card_mono finite_all_parents)
qed simp

declare ancestors_loop.simps [simp del]

definition Ancestors :: "'s rm_api \<Rightarrow> string \<Rightarrow> string list" where
  "Ancestors api resource = (let r = trim_prefix resource ''/v1/'' in ancestors_loop api [r] [r] r)"

definition Exists :: "'s rm_api \<Rightarrow> string \<Rightarrow> bool" where
  "Exists api projectID = (case ptr_get (rm_projects api) projectID of Some p \<Rightarrow> p_state p = ''ACTIVE'' | None \<Rightarrow> False)"

text \<open>\<open>None\<close> is the panic on a nil entry.\<close>

definition ProjectIDs :: "'s rm_api \<Rightarrow> string list option" where
  "ProjectIDs api =
     (if no_nil (rm_projects api)
      then Some (sort (map fst (filter (\<lambda>(k, v). case v of Some p \<Rightarrow> p_state p = ''ACTIVE'' | None \<Rightarrow> False) (rm_projects api))))
      else None)"

section \<open>Handlers\<close>

datatype rm_body =
    RmNone
  | RmError string
  | RmProject project
  | RmProjects "project list"
  | RmFolder folder
  | RmOrganization organization
  | RmDone string rm_body

datatype rm_response = RmPanic | RmResponse int rm_body

definition rm_error :: "int \<Rightarrow> string \<Rightarrow> rm_response" where
  "rm_error code status = RmResponse code (RmError status)"

definition doneOperation :: "string \<Rightarrow> rm_body \<Rightarrow> rm_response" where
  "doneOperation name response = RmResponse 200 (RmDone (''operations/'' @ name) response)"

text \<open>An organization keeps its place in memory also when its persistence fails.\<close>

definition PutOrganization ::
    "(string \<Rightarrow> json option \<Rightarrow> 's \<Rightarrow> store_error option \<times> 's) \<Rightarrow> organization \<Rightarrow> 's rm_api \<Rightarrow> rm_persist option \<times> 's rm_api" where
  "PutOrganization save org api =
     (if \<not> has_prefix (g_name org) ''organizations/'' \<or> trim_prefix (g_name org) ''organizations/'' = [] then (None, api)
      else (case rm_persist save (api\<lparr>rm_orgs := gm_set (g_name org) (Some org) (rm_orgs api)\<rparr>) of (o', api') \<Rightarrow> (Some o', api')))"

definition PutFolder ::
    "(string \<Rightarrow> json option \<Rightarrow> 's \<Rightarrow> store_error option \<times> 's) \<Rightarrow> folder \<Rightarrow> 's rm_api \<Rightarrow> rm_persist option \<times> 's rm_api" where
  "PutFolder save f api =
     (if \<not> has_prefix (f_name f) ''folders/'' \<or> \<not> parentExists api (f_parent f) then (None, api)
      else (case rm_persist save (api\<lparr>rm_folders := gm_set (f_name f) (Some f) (rm_folders api)\<rparr>) of (o', api') \<Rightarrow> (Some o', api')))"

text \<open>Decoding a request body into a struct: an empty body is an error.\<close>

definition dec_body :: "(json \<Rightarrow> json_error + 'a) \<Rightarrow> http_request \<Rightarrow> 'a option" where
  "dec_body f r = (case rq_body r of Raw v \<Rightarrow> (case f v of Inr x \<Rightarrow> Some x | Inl e \<Rightarrow> None) | _ \<Rightarrow> None)"

definition createFolder ::
    "(string \<Rightarrow> json option \<Rightarrow> 's \<Rightarrow> store_error option \<times> 's) \<Rightarrow> clock \<Rightarrow> http_request \<Rightarrow> 's rm_api \<Rightarrow> rm_response \<times> 's rm_api" where
  "createFolder save now r api =
     (case dec_body (dec_folder True) r of
        None \<Rightarrow> (rm_error 400 ''INVALID_ARGUMENT'', api)
      | Some input \<Rightarrow>
          if f_parent input = [] then (rm_error 400 ''INVALID_ARGUMENT'', api)
          else let f = (if f_name input = [] then input\<lparr>f_name := ''folders/'' @ dec_nat (ck_nanos now)\<rparr> else input) in
            (case PutFolder save f api of
               (Some Persisted, api') \<Rightarrow>
                 (doneOperation (''create-'' @ trim_prefix (f_name f) ''folders/'') (RmFolder f), api')
             | (Some PersistPanics, api') \<Rightarrow> (RmPanic, api')
             | (_, api') \<Rightarrow> (rm_error 400 ''FAILED_PRECONDITION'', api')))"

definition getFolder :: "string \<Rightarrow> 's rm_api \<Rightarrow> rm_response" where
  "getFolder i api =
     (case ptr_get (rm_folders api) (''folders/'' @ i) of None \<Rightarrow> rm_error 404 ''NOT_FOUND'' | Some f \<Rightarrow> RmResponse 200 (RmFolder f))"

definition getOrganization :: "string \<Rightarrow> 's rm_api \<Rightarrow> rm_response" where
  "getOrganization i api =
     (case ptr_get (rm_orgs api) (''organizations/'' @ i) of None \<Rightarrow> rm_error 404 ''NOT_FOUND''
      | Some g \<Rightarrow> RmResponse 200 (RmOrganization g))"

definition new_project :: "clock \<Rightarrow> project \<Rightarrow> project" where
  "new_project now input = \<lparr>p_name = ''projects/'' @ p_id input, p_parent = p_parent input, p_id = p_id input,
     p_state = ''ACTIVE'', p_display = p_display input, p_create = ck_text now, p_delete = zero_time,
     p_etag = hex_nat (ck_nanos now), p_seeded = False\<rparr>"

text \<open>A create that cannot be persisted takes the project out of memory again.\<close>

definition commitProject ::
    "(string \<Rightarrow> json option \<Rightarrow> 's \<Rightarrow> store_error option \<times> 's) \<Rightarrow> project \<Rightarrow> 's rm_api \<Rightarrow> rm_response \<times> 's rm_api" where
  "commitProject save project api =
     (case rm_persist save (api\<lparr>rm_projects := gm_set (p_id project) (Some project) (rm_projects api)\<rparr>) of
        (Persisted, api') \<Rightarrow> (doneOperation (''create-'' @ p_id project) (RmProject project), api')
      | (PersistFailed, api') \<Rightarrow>
          (rm_error 500 ''INTERNAL'', api'\<lparr>rm_projects := gm_del (p_id project) (rm_projects api')\<rparr>)
      | (PersistPanics, api') \<Rightarrow> (RmPanic, api'))"

definition createProject ::
    "(string \<Rightarrow> json option \<Rightarrow> 's \<Rightarrow> store_error option \<times> 's) \<Rightarrow> clock \<Rightarrow> http_request \<Rightarrow> 's rm_api \<Rightarrow> rm_response \<times> 's rm_api" where
  "createProject save now r api =
     (case dec_body (dec_project True) r of
        None \<Rightarrow> (rm_error 400 ''INVALID_ARGUMENT'', api)
      | Some input \<Rightarrow>
          if \<not> projectIDPattern (p_id input) then (rm_error 400 ''INVALID_ARGUMENT'', api)
          else if p_parent input \<noteq> [] \<and> \<not> parentExists api (p_parent input) then (rm_error 400 ''FAILED_PRECONDITION'', api)
          else if gm_get (rm_projects api) (p_id input) \<noteq> None then (rm_error 409 ''ALREADY_EXISTS'', api)
          else commitProject save (new_project now input) api)"

definition getProject :: "string \<Rightarrow> 's rm_api \<Rightarrow> rm_response" where
  "getProject i api =
     (case ptr_get (rm_projects api) i of None \<Rightarrow> rm_error 404 ''NOT_FOUND'' | Some p \<Rightarrow> RmResponse 200 (RmProject p))"

definition listProjects :: "http_request \<Rightarrow> 's rm_api \<Rightarrow> rm_response" where
  "listProjects r api =
     (let parent = query r ''parent'' in
      if \<not> no_nil (rm_projects api) then RmPanic
      else RmResponse 200 (RmProjects (sort_key p_id
             (filter (\<lambda>p. parent = [] \<or> p_parent p = parent) (map (\<lambda>(k, v). the v) (rm_projects api))))))"

text \<open>A delete that cannot be persisted puts the project back.\<close>

definition removeProject ::
    "(string \<Rightarrow> json option \<Rightarrow> 's \<Rightarrow> store_error option \<times> 's) \<Rightarrow> clock \<Rightarrow> string \<Rightarrow> project \<Rightarrow> 's rm_api \<Rightarrow> rm_response \<times> 's rm_api" where
  "removeProject save now i project api =
     (case rm_persist save (api\<lparr>rm_projects := gm_del i (rm_projects api)\<rparr>) of
        (Persisted, api') \<Rightarrow>
          (doneOperation (''delete-'' @ i)
             (RmProject (project\<lparr>p_state := ''DELETE_REQUESTED'', p_delete := ck_text now\<rparr>)), api')
      | (PersistFailed, api') \<Rightarrow>
          (rm_error 500 ''INTERNAL'', api'\<lparr>rm_projects := gm_set i (Some project) (rm_projects api')\<rparr>)
      | (PersistPanics, api') \<Rightarrow> (RmPanic, api'))"

definition deleteProject ::
    "(string \<Rightarrow> json option \<Rightarrow> 's \<Rightarrow> store_error option \<times> 's) \<Rightarrow> clock \<Rightarrow> string \<Rightarrow> 's rm_api \<Rightarrow> rm_response \<times> 's rm_api" where
  "deleteProject save now i api =
     (if i = defaultProjectID then (rm_error 400 ''FAILED_PRECONDITION'', api)
      else (case ptr_get (rm_projects api) i of
        None \<Rightarrow> (rm_error 404 ''NOT_FOUND'', api)
      | Some project \<Rightarrow> removeProject save now i project api))"

definition rm_serve ::
    "(string \<Rightarrow> json option \<Rightarrow> 's \<Rightarrow> store_error option \<times> 's) \<Rightarrow> clock \<Rightarrow> http_request \<Rightarrow> 's rm_api \<Rightarrow> rm_response \<times> 's rm_api" where
  "rm_serve save now r api =
     (let path = trim_suffix (rq_path r) ''/''; method = rq_method r in
      if path = ''/v3/projects'' then
        (if method = ''POST'' then createProject save now r api
         else if method = ''GET'' then (listProjects r api, api)
         else (RmResponse 405 RmNone, api))
      else if has_prefix path ''/v3/projects/'' then
        (let i = trim_prefix path ''/v3/projects/'' in
         if method = ''GET'' then (getProject i api, api)
         else if method = ''DELETE'' then deleteProject save now i api
         else (RmResponse 405 RmNone, api))
      else if path = ''/v3/folders'' \<and> method = ''POST'' then createFolder save now r api
      else if has_prefix path ''/v3/folders/'' \<and> method = ''GET'' then (getFolder (trim_prefix path ''/v3/folders/'') api, api)
      else if has_prefix path ''/v3/organizations/'' \<and> method = ''GET'' then
        (getOrganization (trim_prefix path ''/v3/organizations/'') api, api)
      else (rm_error 404 ''NOT_FOUND'', api))"

end
