(* ===== verification/Iam_Base64.thy ===== *)
theory Iam_Base64
  imports Prelude "HOL-Library.Word"
begin

text \<open>
  The base64 encoder of \<open>pkg/shims/iam/api.go\<close>, written out there on bytes, and its inverse.
\<close>

unbundle bit_operations_syntax

section \<open>The encoder\<close>

definition b64_chars :: string where
  "b64_chars = ''ABCDEFGHIJKLMNOPQRSTUVWXYZabcdefghijklmnopqrstuvwxyz0123456789+/''"

definition byte_of :: "char \<Rightarrow> 8 word" where "byte_of c = word_of_nat (of_char c)"

definition b64_group :: "8 word \<Rightarrow> 8 word \<Rightarrow> 8 word \<Rightarrow> string" where
  "b64_group b0 b1 b2 =
     [b64_chars ! unat (drop_bit 2 b0 AND 0x3F),
      b64_chars ! unat (push_bit 4 (b0 AND 0x3) OR (drop_bit 4 b1 AND 0xF)),
      b64_chars ! unat (push_bit 2 (b1 AND 0xF) OR (drop_bit 6 b2 AND 0x3)),
      b64_chars ! unat (b2 AND 0x3F)]"

fun b64_loop :: "string \<Rightarrow> string" where
  "b64_loop [] = []"
| "b64_loop [c0] = b64_group (byte_of c0) 0 0"
| "b64_loop [c0, c1] = b64_group (byte_of c0) (byte_of c1) 0"
| "b64_loop (c0 # c1 # c2 # s) = b64_group (byte_of c0) (byte_of c1) (byte_of c2) @ b64_loop s"

definition b64Encode :: "string \<Rightarrow> string" where
  "b64Encode s =
     (let out = b64_loop s; n = length out in
      if length s mod 3 = 1 then out[n - 2 := CHR ''='', n - 1 := CHR ''='']
      else if length s mod 3 = 2 then out[n - 1 := CHR ''='']
      else out)"

section \<open>A decoder\<close>

text \<open>Standard base64 with padding, on groups of four characters.\<close>

definition b64_value :: "char \<Rightarrow> nat" where
  "b64_value c = length (takeWhile (\<lambda>d. d \<noteq> c) b64_chars)"

fun b64_decode :: "string \<Rightarrow> string" where
  "b64_decode (a # b # c # d # s) =
     (let x = char_of (b64_value a * 4 + b64_value b div 16);
          y = char_of (b64_value b mod 16 * 16 + b64_value c div 4);
          z = char_of (b64_value c mod 4 * 64 + b64_value d)
      in if c = CHR ''='' then [x] else if d = CHR ''='' then [x, y] else x # y # z # b64_decode s)"
| "b64_decode s = []"

section \<open>Bit lemmas\<close>

lemma and_masks: "(x::nat) AND 63 = x mod 64" "x AND 15 = x mod 16" "x AND 3 = x mod 4"
  using take_bit_eq_mask [of 6 x] take_bit_eq_mask [of 4 x] take_bit_eq_mask [of 2 x]
  by (simp_all add: take_bit_eq_mod mask_eq_exp_minus_1)

lemma or16: "x < 4 \<Longrightarrow> y < 16 \<Longrightarrow> (x * 16) OR y = x * 16 + (y::nat)"
proof -
  have "\<forall>x\<in>set [0..<4]. \<forall>y\<in>set [0..<16]. (x * 16) OR y = x * 16 + (y::nat)" by code_simp
  then show "x < 4 \<Longrightarrow> y < 16 \<Longrightarrow> (x * 16) OR y = x * 16 + (y::nat)" by auto
qed

lemma or4: "x < 16 \<Longrightarrow> y < 4 \<Longrightarrow> (x * 4) OR y = x * 4 + (y::nat)"
proof -
  have "\<forall>x\<in>set [0..<16]. \<forall>y\<in>set [0..<4]. (x * 4) OR y = x * 4 + (y::nat)" by code_simp
  then show "x < 16 \<Longrightarrow> y < 4 \<Longrightarrow> (x * 4) OR y = x * 4 + (y::nat)" by auto
qed

lemma byte_less: "unat (b :: 8 word) < 256" using unsigned_less [of b] by simp

lemma unat_drop8: "unat (drop_bit n (b :: 8 word)) = unat b div 2 ^ n"
  unfolding unsigned_drop_bit_eq using byte_less [of b] by (simp add: drop_bit_eq_div take_bit_eq_mod)

lemma unat_push8: "unat (push_bit n (b :: 8 word)) = (unat b * 2 ^ n) mod 256"
  unfolding unsigned_push_bit_eq by (simp add: push_bit_eq_mult take_bit_eq_mod)

lemma word_masks: "unat (63 :: 8 word) = 63" "unat (15 :: 8 word) = 15" "unat (3 :: 8 word) = 3" by simp_all

lemma sextet0: "unat ((drop_bit 2 b0 :: 8 word) AND 0x3F) = unat b0 div 4"
  unfolding unsigned_and_eq unat_drop8 word_masks and_masks using byte_less [of b0] by simp

lemma sextet1: "unat (push_bit 4 ((b0 :: 8 word) AND 3) OR (drop_bit 4 b1 AND 0xF)) = unat b0 mod 4 * 16 + unat b1 div 16"
proof -
  have a: "unat b0 mod 4 < 4" "unat b1 div 16 < 16" using byte_less [of b1] by simp_all
  then have "unat b0 mod 4 * 16 < 256" by simp
  with a or16 [OF a] show ?thesis unfolding unsigned_or_eq unat_push8 unat_drop8 unsigned_and_eq word_masks and_masks by simp
qed

lemma sextet2: "unat (push_bit 2 ((b1 :: 8 word) AND 0xF) OR (drop_bit 6 b2 AND 3)) = unat b1 mod 16 * 4 + unat b2 div 64"
proof -
  have a: "unat b1 mod 16 < 16" "unat b2 div 64 < 4" using byte_less [of b2] by simp_all
  then have "unat b1 mod 16 * 4 < 256" by simp
  with a or4 [OF a] show ?thesis unfolding unsigned_or_eq unat_push8 unat_drop8 unsigned_and_eq word_masks and_masks by simp
qed

lemma sextet3: "unat ((b2 :: 8 word) AND 0x3F) = unat b2 mod 64"
  unfolding unsigned_and_eq word_masks and_masks ..

section \<open>Round trip\<close>

lemma b64_value_char: "n < 64 \<Longrightarrow> b64_value (b64_chars ! n) = n \<and> b64_chars ! n \<noteq> CHR ''=''"
proof -
  have "\<forall>n \<in> set [0..<64]. b64_value (b64_chars ! n) = n \<and> b64_chars ! n \<noteq> CHR ''=''" by code_simp
  then show "n < 64 \<Longrightarrow> b64_value (b64_chars ! n) = n \<and> b64_chars ! n \<noteq> CHR ''=''" by auto
qed

lemma unat_byte_of: "unat (byte_of c) = of_char c"
  by (simp add: byte_of_def unsigned_of_nat take_bit_eq_mod)

lemma byte_of_char [simp]: "char_of (unat (byte_of c)) = c"
  by (simp add: unat_byte_of)

lemma sextet_values:
  "b64_value (b64_chars ! unat (drop_bit 2 b0 AND (0x3F :: 8 word))) = unat b0 div 4"
  "b64_value (b64_chars ! unat (push_bit 4 ((b0 :: 8 word) AND 3) OR (drop_bit 4 b1 AND 0xF))) = unat b0 mod 4 * 16 + unat b1 div 16"
  "b64_value (b64_chars ! unat (push_bit 2 ((b1 :: 8 word) AND 0xF) OR (drop_bit 6 b2 AND 3))) = unat b1 mod 16 * 4 + unat b2 div 64"
  "b64_value (b64_chars ! unat ((b2 :: 8 word) AND 0x3F)) = unat b2 mod 64"
  "b64_chars ! unat (push_bit 2 ((b1 :: 8 word) AND 0xF) OR (drop_bit 6 b2 AND 3)) \<noteq> CHR ''=''"
  "b64_chars ! unat ((b2 :: 8 word) AND 0x3F) \<noteq> CHR ''=''"
proof -
  have "unat b0 div 4 < 64" "unat b1 div 16 < 16" "unat b2 div 64 < 4" using byte_less [of b0] byte_less [of b1] byte_less [of b2] by simp_all
  then have "unat b0 div 4 < 64" "unat b0 mod 4 * 16 + unat b1 div 16 < 64" "unat b1 mod 16 * 4 + unat b2 div 64 < 64" "unat b2 mod 64 < 64"
    using mod_less_divisor [of 4 "unat b0"] mod_less_divisor [of 16 "unat b1"] by linarith+
  note v = this [THEN b64_value_char]
  show "b64_value (b64_chars ! unat (drop_bit 2 b0 AND (0x3F :: 8 word))) = unat b0 div 4"
    "b64_value (b64_chars ! unat (push_bit 4 ((b0 :: 8 word) AND 3) OR (drop_bit 4 b1 AND 0xF))) = unat b0 mod 4 * 16 + unat b1 div 16"
    "b64_value (b64_chars ! unat (push_bit 2 ((b1 :: 8 word) AND 0xF) OR (drop_bit 6 b2 AND 3))) = unat b1 mod 16 * 4 + unat b2 div 64"
    "b64_value (b64_chars ! unat ((b2 :: 8 word) AND 0x3F)) = unat b2 mod 64"
    "b64_chars ! unat (push_bit 2 ((b1 :: 8 word) AND 0xF) OR (drop_bit 6 b2 AND 3)) \<noteq> CHR ''=''"
    "b64_chars ! unat ((b2 :: 8 word) AND 0x3F) \<noteq> CHR ''=''"
    unfolding sextet0 sextet1 sextet2 using v sextet3 [of b2] by simp_all
qed

lemma byte_sums:
  fixes a b c :: nat
  assumes "a < 256" and "b < 256" and "c < 256"
  shows "a div 4 * 4 + (a mod 4 * 16 + b div 16) div 16 = a"
    "(a mod 4 * 16 + b div 16) mod 16 * 16 + (b mod 16 * 4 + c div 64) div 4 = b"
    "(b mod 16 * 4 + c div 64) mod 4 * 64 + c mod 64 = c"
proof -
  have d: "b div 16 < 16" "c div 64 < 4" using assms by simp_all
  then have "(a mod 4 * 16 + b div 16) div 16 = a mod 4" "(a mod 4 * 16 + b div 16) mod 16 = b div 16"
    "(b mod 16 * 4 + c div 64) div 4 = b mod 16" "(b mod 16 * 4 + c div 64) mod 4 = c div 64" by simp_all
  then show "a div 4 * 4 + (a mod 4 * 16 + b div 16) div 16 = a"
    "(a mod 4 * 16 + b div 16) mod 16 * 16 + (b mod 16 * 4 + c div 64) div 4 = b"
    "(b mod 16 * 4 + c div 64) mod 4 * 64 + c mod 64 = c" by simp_all
qed

lemmas group_sums = byte_sums [OF byte_less byte_less byte_less]

lemma drop2_mod: "unat (drop_bit 2 (b0 :: 8 word)) mod 64 = unat b0 div 4"
  unfolding unat_drop8 using byte_less [of b0] by simp

lemmas decode_values = sextet_values drop2_mod group_sums

lemma decode_three:
  assumes "c \<noteq> CHR ''=''" and "d \<noteq> CHR ''=''"
  shows "b64_decode ([a, b, c, d] @ s) = char_of (b64_value a * 4 + b64_value b div 16) #
    char_of (b64_value b mod 16 * 16 + b64_value c div 4) # char_of (b64_value c mod 4 * 64 + b64_value d) # b64_decode s"
  using assms by simp

lemma decode_group:
  "b64_decode (b64_group b0 b1 b2 @ s) = char_of (unat b0) # char_of (unat b1) # char_of (unat b2) # b64_decode s"
  unfolding b64_group_def by (subst decode_three) (simp_all only: decode_values not_False_eq_True)

lemma decode_group2:
  "b64_decode ((b64_group b0 b1 0)[3 := CHR ''='']) = [char_of (unat b0), char_of (unat b1)]"
proof -
  have "unat (0 :: 8 word) div 64 = 0" by simp
  then have "(unat b1 mod 16 * 4) div 4 = (unat b1 mod 16 * 4 + unat (0 :: 8 word) div 64) div 4" by simp
  moreover have "(b64_group b0 b1 0)[3 := CHR ''=''] = [b64_chars ! unat (drop_bit 2 b0 AND 0x3F),
      b64_chars ! unat (push_bit 4 (b0 AND 0x3) OR (drop_bit 4 b1 AND 0xF)),
      b64_chars ! unat (push_bit 2 (b1 AND 0xF) OR (drop_bit 6 0 AND 0x3)), CHR ''='']"
    unfolding b64_group_def by (simp only: list_update.simps numeral_3_eq_3 nat.case)
  ultimately show ?thesis
    by (simp only: b64_decode.simps Let_def decode_values if_False if_True simp_thms)
qed

lemma decode_group1:
  "b64_decode ((b64_group b0 0 0)[2 := CHR ''='', 3 := CHR ''='']) = [char_of (unat b0)]"
proof -
  have "(b64_group b0 0 0)[2 := CHR ''='', 3 := CHR ''=''] = [b64_chars ! unat (drop_bit 2 b0 AND 0x3F),
      b64_chars ! unat (push_bit 4 (b0 AND 0x3) OR (drop_bit 4 0 AND 0xF)), CHR ''='', CHR ''='']"
    unfolding b64_group_def by (simp only: list_update.simps numeral_3_eq_3 numeral_2_eq_2 nat.case)
  then show ?thesis
    by (simp only: b64_decode.simps Let_def decode_values if_False if_True simp_thms)
qed

lemma length_b64_loop: "length (b64_loop s) = 4 * ((length s + 2) div 3)"
proof (induction s rule: b64_loop.induct)
  case (4 c0 c1 c2 s)
  have "(length (c0 # c1 # c2 # s) + 2) div 3 = Suc ((length s + 2) div 3)" by simp
  with 4 show ?case by (simp add: b64_group_def)
qed (simp_all add: b64_group_def)

lemma b64Encode_group: "b64Encode (c0 # c1 # c2 # s) = b64_group (byte_of c0) (byte_of c1) (byte_of c2) @ b64Encode s"
proof -
  let ?g = "b64_group (byte_of c0) (byte_of c1) (byte_of c2)"
  have m: "length (c0 # c1 # c2 # s) mod 3 = length s mod 3" by simp
  have g: "length ?g = 4" by (simp add: b64_group_def)
  have "length (b64_loop s) \<ge> 4" if "length s mod 3 \<noteq> 0"
  proof -
    from that have "(length s + 2) div 3 \<ge> 1" by presburger
    then show ?thesis by (simp add: length_b64_loop)
  qed
  with m g show ?thesis by (auto simp: b64Encode_def Let_def list_update_append)
qed

lemma decode_encode: "b64_decode (b64Encode s) = s"
proof (induction s rule: b64_loop.induct)
  case (2 c0)
  then show ?case using decode_group1 [of "byte_of c0"] by (simp add: b64Encode_def Let_def b64_group_def)
next
  case (3 c0 c1)
  then show ?case using decode_group2 [of "byte_of c0" "byte_of c1"] by (simp add: b64Encode_def Let_def b64_group_def)
next
  case (4 c0 c1 c2 s)
  then show ?case by (simp add: b64Encode_group decode_group)
qed (simp add: b64Encode_def)

lemma length_b64Encode: "length (b64Encode s) = 4 * ((length s + 2) div 3)"
  by (simp add: b64Encode_def Let_def length_b64_loop)

text \<open>
  The base64 encoder written out in the source loses nothing: a standard decoder gives the text
  back, and the encoding has four characters for every three bytes begun.
\<close>
theorem b64Encode_roundtrip: "b64_decode (b64Encode s) = s \<and> length (b64Encode s) = 4 * ((length s + 2) div 3)"
  by (simp add: decode_encode length_b64Encode)

end
