(* ===== verification/Iam_Model.thy ===== *)
theory Iam_Model
  imports Resource_Manager Iam_Base64
begin

text \<open>
  \<open>pkg/shims/iam/api.go\<close>, the data: service accounts, their keys, policies and the role table, the
  validators of persisted metadata, and the base64 encoder written out in the source.  The workload
  identity maps of \<open>wif.go\<close> are carried as the JSON they are stored as.
\<close>

section \<open>Resources\<close>

record service_account =
  sa_name :: string
  sa_project :: string
  sa_unique :: string
  sa_email :: string
  sa_display :: string
  sa_description :: string
  sa_disabled :: bool
  sa_etag :: string
  sa_oauth :: string

record sa_key =
  k_name :: string
  k_type :: string
  k_origin :: string
  k_algorithm :: string
  k_private_type :: string
  k_private_data :: string
  k_after :: string
  k_before :: string
  k_disabled :: bool

record binding =
  b_role :: string
  b_members :: "string list"

record iam_policy =
  pol_version :: int
  pol_etag :: string
  pol_bindings :: "binding list"

section \<open>Validators\<close>

definition letter_or_digit :: "char \<Rightarrow> bool" where
  "letter_or_digit c \<longleftrightarrow> is_lower c \<or> is_digit c"

definition id_chars :: "char \<Rightarrow> bool" where
  "id_chars c \<longleftrightarrow> is_lower c \<or> is_digit c \<or> c = CHR ''-''"

definition validServiceAccountID :: "string \<Rightarrow> bool" where
  "validServiceAccountID s \<longleftrightarrow> 6 \<le> length s \<and> length s \<le> 30 \<and> list_all id_chars s \<and> is_lower (hd s) \<and> letter_or_digit (last s)"

text \<open>\<open>strconv.ParseUint(value, 10, 64)\<close> on a text without a leading zero.\<close>

definition validPositiveDecimal :: "string \<Rightarrow> bool" where
  "validPositiveDecimal s \<longleftrightarrow> s \<noteq> [] \<and> hd s \<noteq> CHR ''0'' \<and> list_all is_digit s \<and> parse_digits s < 2 ^ 64"

definition validProjectID :: "string \<Rightarrow> bool" where
  "validProjectID s \<longleftrightarrow> validPositiveDecimal s \<or>
     6 \<le> length s \<and> length s \<le> 30 \<and> list_all id_chars s \<and> is_lower (hd s) \<and> letter_or_digit (last s)"

definition account_suffix :: string where "account_suffix = ''.iam.gserviceaccount.com''"

definition bad_email_chars :: string where
  "bad_email_chars = ''/'' @ [CHR 0x5C] @ ''%: '' @ [CHR 0x09, CHR 0x0D, CHR 0x0A]"

definition ParseCanonicalServiceAccountEmail :: "string \<Rightarrow> (string \<times> string) option" where
  "ParseCanonicalServiceAccountEmail email =
     (if count_char (CHR ''@'') email \<noteq> 1 \<or> contains_any email bad_email_chars then None
      else (case cut (CHR ''@'') email of (accountID, domain, _) \<Rightarrow>
        let projectID = trim_suffix domain account_suffix in
        if projectID = domain \<or> \<not> validServiceAccountID accountID \<or> \<not> validProjectID projectID then None
        else Some (accountID, projectID)))"

datatype account_fault = NilEntry | BadEmail | WrongProject | WrongKey | WrongName | BadUniqueID | DuplicateUniqueID

definition account_name :: "string \<Rightarrow> string \<Rightarrow> string" where
  "account_name project email = ''projects/'' @ project @ ''/serviceAccounts/'' @ email"

definition account_key :: "string \<Rightarrow> string \<Rightarrow> string" where
  "account_key project email = project @ '':'' @ email"

definition validateServiceAccountEntry :: "string \<Rightarrow> service_account option \<Rightarrow> account_fault option" where
  "validateServiceAccountEntry key account =
     (case account of
        None \<Rightarrow> Some NilEntry
      | Some a \<Rightarrow>
          (case ParseCanonicalServiceAccountEmail (sa_email a) of
             None \<Rightarrow> Some BadEmail
           | Some (accountID, projectID) \<Rightarrow>
               if sa_project a \<noteq> projectID then Some WrongProject
               else if key \<noteq> account_key projectID (sa_email a) then Some WrongKey
               else if sa_name a \<noteq> account_name projectID (sa_email a) then Some WrongName
               else if accountID = [] \<or> \<not> validPositiveDecimal (sa_unique a) then Some BadUniqueID
               else None))"

fun validate_accounts :: "string list \<Rightarrow> service_account option gomap \<Rightarrow> account_fault option" where
  "validate_accounts seen [] = None"
| "validate_accounts seen ((key, account) # rest) =
     (case validateServiceAccountEntry key account of
        Some e \<Rightarrow> Some e
      | None \<Rightarrow> (case account of None \<Rightarrow> Some NilEntry
          | Some a \<Rightarrow> if sa_unique a \<in> set seen then Some DuplicateUniqueID
                      else validate_accounts (sa_unique a # seen) rest))"

definition validateIAMMetadata :: "service_account option gomap \<Rightarrow> account_fault option" where
  "validateIAMMetadata accounts = validate_accounts [] accounts"

section \<open>Roles\<close>

definition rolePermissions :: "(string \<times> string list) list" where
  "rolePermissions = [
     (''roles/minisky.viewer'', [''minisky.dashboard.view'', ''bigquery.datasets.get'', ''bigquery.datasets.list'',
        ''compute.instances.get'', ''compute.instances.list'', ''pubsub.subscriptions.get'', ''pubsub.subscriptions.list'',
        ''pubsub.topics.get'', ''pubsub.topics.list'', ''storage.objects.get'', ''storage.objects.list'']),
     (''roles/minisky.editor'', [''minisky.dashboard.view'', ''minisky.dashboard.manage'', ''bigquery.datasets.get'',
        ''bigquery.datasets.list'', ''bigquery.datasets.update'', ''compute.instances.get'', ''compute.instances.list'',
        ''compute.instances.create'', ''compute.instances.start'', ''compute.instances.stop'', ''pubsub.subscriptions.get'',
        ''pubsub.subscriptions.list'', ''pubsub.subscriptions.create'', ''pubsub.topics.get'', ''pubsub.topics.list'',
        ''pubsub.topics.create'', ''pubsub.topics.publish'', ''storage.objects.get'', ''storage.objects.list'',
        ''storage.objects.create'', ''storage.objects.update'']),
     (''roles/minisky.admin'', [''minisky.dashboard.view'', ''minisky.dashboard.manage'', ''minisky.dashboard.terminal'',
        ''resourcemanager.projects.create'', ''iam.serviceAccounts.create'', ''iam.serviceAccounts.delete'',
        ''iam.serviceAccountKeys.create'', ''iam.serviceAccountKeys.delete'', ''iam.serviceAccountKeys.disable'',
        ''iam.serviceAccounts.setIamPolicy'', ''bigquery.datasets.get'', ''bigquery.datasets.list'',
        ''bigquery.datasets.update'', ''compute.disks.create'', ''compute.disks.delete'', ''compute.disks.get'',
        ''compute.instances.create'', ''compute.instances.delete'', ''compute.instances.get'', ''compute.instances.list'',
        ''compute.instances.start'', ''compute.instances.stop'', ''pubsub.subscriptions.consume'',
        ''pubsub.subscriptions.create'', ''pubsub.subscriptions.delete'', ''pubsub.subscriptions.get'',
        ''pubsub.subscriptions.list'', ''pubsub.topics.create'', ''pubsub.topics.delete'', ''pubsub.topics.get'',
        ''pubsub.topics.list'', ''pubsub.topics.publish'', ''storage.buckets.create'', ''storage.buckets.delete'',
        ''storage.buckets.get'', ''storage.buckets.list'', ''storage.buckets.update'', ''storage.objects.create'',
        ''storage.objects.delete'', ''storage.objects.get'', ''storage.objects.list'', ''storage.objects.update'']),
     (''roles/iam.serviceAccountTokenCreator'', [''iam.serviceAccounts.getAccessToken'']),
     (''roles/iam.serviceAccountViewer'', [''iam.serviceAccounts.get'']),
     (''roles/iam.workloadIdentityUser'', [''iam.serviceAccounts.getAccessToken'']),
     (''roles/storage.admin'', [''storage.buckets.create'', ''storage.buckets.delete'', ''storage.buckets.get'',
        ''storage.buckets.list'', ''storage.buckets.update'', ''storage.objects.create'', ''storage.objects.delete'',
        ''storage.objects.get'', ''storage.objects.list'', ''storage.objects.update'']),
     (''roles/storage.objectAdmin'', [''storage.objects.create'', ''storage.objects.delete'', ''storage.objects.get'',
        ''storage.objects.list'', ''storage.objects.update'']),
     (''roles/storage.objectViewer'', [''storage.objects.get'', ''storage.objects.list'']),
     (''roles/compute.admin'', [''compute.disks.create'', ''compute.disks.delete'', ''compute.disks.get'',
        ''compute.instances.create'', ''compute.instances.delete'', ''compute.instances.get'', ''compute.instances.list'',
        ''compute.instances.start'', ''compute.instances.stop'']),
     (''roles/compute.viewer'', [''compute.disks.get'', ''compute.disks.list'', ''compute.instances.get'', ''compute.instances.list'']),
     (''roles/pubsub.admin'', [''pubsub.subscriptions.consume'', ''pubsub.subscriptions.create'', ''pubsub.subscriptions.delete'',
        ''pubsub.subscriptions.get'', ''pubsub.subscriptions.list'', ''pubsub.topics.create'', ''pubsub.topics.delete'',
        ''pubsub.topics.get'', ''pubsub.topics.list'', ''pubsub.topics.publish'', ''pubsub.topics.attachSubscription'']),
     (''roles/pubsub.viewer'', [''pubsub.subscriptions.get'', ''pubsub.subscriptions.list'', ''pubsub.topics.get'', ''pubsub.topics.list'']),
     (''roles/spanner.admin'', [''spanner.backups.list'']),
     (''roles/spanner.viewer'', [''spanner.backups.list''])]"

definition role_permissions :: "string \<Rightarrow> string list" where
  "role_permissions role = (case map_of rolePermissions role of Some ps \<Rightarrow> ps | None \<Rightarrow> [])"

text \<open>A role \<open>permission:x\<close> grants \<open>x\<close> itself.\<close>

definition binding_permissions :: "binding \<Rightarrow> string list" where
  "binding_permissions b =
     (case cut_prefix (b_role b) ''permission:'' of
        Some p \<Rightarrow> if p \<noteq> [] then [p] else role_permissions (b_role b)
      | None \<Rightarrow> role_permissions (b_role b))"

definition permissionsForPrincipal :: "iam_policy option \<Rightarrow> string \<Rightarrow> string list" where
  "permissionsForPrincipal policy who =
     (case policy of None \<Rightarrow> []
      | Some p \<Rightarrow> concat (map binding_permissions (filter (\<lambda>b. who \<in> set (b_members b)) (pol_bindings p))))"

section \<open>Paths\<close>

text \<open>The segment after the first occurrence of a keyword that has one, cut at a colon.\<close>

fun segment_after :: "string \<Rightarrow> string list \<Rightarrow> string" where
  "segment_after k (p # q # ps) = (if p = k then fst (cut (CHR '':'') q) else segment_after k (q # ps))"
| "segment_after k _ = []"

definition extractSegmentAfter :: "string \<Rightarrow> string \<Rightarrow> string" where
  "extractSegmentAfter path keyword = segment_after keyword (split (CHR ''/'') path)"

definition serviceAccountPolicyAlias :: "string \<Rightarrow> string" where
  "serviceAccountPolicyAlias resource =
     (if \<not> has_prefix resource ''projects/-/serviceAccounts/'' then []
      else let email = trim_prefix resource ''projects/-/serviceAccounts/'' in
        if email = [] \<or> contains email ''/'' then []
        else (case cut (CHR ''@'') email of (_, domain, ok) \<Rightarrow>
          if \<not> ok then []
          else let project = trim_suffix domain account_suffix in
            if project = domain \<or> project = [] then [] else account_name project email))"

section \<open>The JSON forms\<close>

definition enc_account :: "service_account \<Rightarrow> json" where
  "enc_account a = JObj ([(''name'', JStr (sa_name a)), (''projectId'', JStr (sa_project a)), (''uniqueId'', JStr (sa_unique a)),
     (''email'', JStr (sa_email a))] @ omit_str ''displayName'' (sa_display a) @ omit_str ''description'' (sa_description a) @
     [(''disabled'', JBool (sa_disabled a)), (''etag'', JStr (sa_etag a)), (''oauth2ClientId'', JStr (sa_oauth a))])"

definition zero_account :: service_account where
  "zero_account = \<lparr>sa_name = [], sa_project = [], sa_unique = [], sa_email = [], sa_display = [], sa_description = [],
     sa_disabled = False, sa_etag = [], sa_oauth = []\<rparr>"

definition account_fields :: "string list" where
  "account_fields = [''name'', ''projectId'', ''uniqueId'', ''email'', ''displayName'', ''description'', ''disabled'', ''etag'',
     ''oauth2ClientId'']"

text \<open>Fields of a struct decoded strictly (the validator of an imported entry) or not (a loaded entry).\<close>

definition dec_account_member :: "bool \<Rightarrow> string \<Rightarrow> json \<Rightarrow> service_account \<Rightarrow> json_error + service_account" where
  "dec_account_member strict k v a =
     (case match_field account_fields k of
        None \<Rightarrow> (if strict then Inl (UnknownField k) else Inr a)
      | Some f \<Rightarrow>
          if f = ''name'' then set_text (\<lambda>s. a\<lparr>sa_name := s\<rparr>) (dec_string v (sa_name a))
          else if f = ''projectId'' then set_text (\<lambda>s. a\<lparr>sa_project := s\<rparr>) (dec_string v (sa_project a))
          else if f = ''uniqueId'' then set_text (\<lambda>s. a\<lparr>sa_unique := s\<rparr>) (dec_string v (sa_unique a))
          else if f = ''email'' then set_text (\<lambda>s. a\<lparr>sa_email := s\<rparr>) (dec_string v (sa_email a))
          else if f = ''displayName'' then set_text (\<lambda>s. a\<lparr>sa_display := s\<rparr>) (dec_string v (sa_display a))
          else if f = ''description'' then set_text (\<lambda>s. a\<lparr>sa_description := s\<rparr>) (dec_string v (sa_description a))
          else if f = ''disabled'' then map_sum id (\<lambda>b. a\<lparr>sa_disabled := b\<rparr>) (dec_bool v (sa_disabled a))
          else if f = ''etag'' then set_text (\<lambda>s. a\<lparr>sa_etag := s\<rparr>) (dec_string v (sa_etag a))
          else set_text (\<lambda>s. a\<lparr>sa_oauth := s\<rparr>) (dec_string v (sa_oauth a)))"

definition dec_account :: "bool \<Rightarrow> json \<Rightarrow> json_error + service_account" where
  "dec_account strict = dec_struct (dec_account_member strict) zero_account"

definition enc_key :: "sa_key \<Rightarrow> json" where
  "enc_key k = JObj ([(''name'', JStr (k_name k)), (''keyType'', JStr (k_type k)), (''keyOrigin'', JStr (k_origin k)),
     (''keyAlgorithm'', JStr (k_algorithm k)), (''privateKeyType'', JStr (k_private_type k)),
     (''privateKeyData'', JStr (k_private_data k)), (''validAfterTime'', JStr (k_after k)),
     (''validBeforeTime'', JStr (k_before k))] @ (if k_disabled k then [(''disabled'', JBool True)] else []))"

definition zero_key :: sa_key where
  "zero_key = \<lparr>k_name = [], k_type = [], k_origin = [], k_algorithm = [], k_private_type = [], k_private_data = [],
     k_after = [], k_before = [], k_disabled = False\<rparr>"

definition key_fields :: "string list" where
  "key_fields = [''name'', ''keyType'', ''keyOrigin'', ''keyAlgorithm'', ''privateKeyType'', ''privateKeyData'',
     ''validAfterTime'', ''validBeforeTime'', ''disabled'']"

definition dec_key_member :: "bool \<Rightarrow> string \<Rightarrow> json \<Rightarrow> sa_key \<Rightarrow> json_error + sa_key" where
  "dec_key_member strict m v k =
     (case match_field key_fields m of
        None \<Rightarrow> (if strict then Inl (UnknownField m) else Inr k)
      | Some f \<Rightarrow>
          if f = ''name'' then set_text (\<lambda>s. k\<lparr>k_name := s\<rparr>) (dec_string v (k_name k))
          else if f = ''keyType'' then set_text (\<lambda>s. k\<lparr>k_type := s\<rparr>) (dec_string v (k_type k))
          else if f = ''keyOrigin'' then set_text (\<lambda>s. k\<lparr>k_origin := s\<rparr>) (dec_string v (k_origin k))
          else if f = ''keyAlgorithm'' then set_text (\<lambda>s. k\<lparr>k_algorithm := s\<rparr>) (dec_string v (k_algorithm k))
          else if f = ''privateKeyType'' then set_text (\<lambda>s. k\<lparr>k_private_type := s\<rparr>) (dec_string v (k_private_type k))
          else if f = ''privateKeyData'' then set_text (\<lambda>s. k\<lparr>k_private_data := s\<rparr>) (dec_string v (k_private_data k))
          else if f = ''validAfterTime'' then set_text (\<lambda>s. k\<lparr>k_after := s\<rparr>) (dec_string v (k_after k))
          else if f = ''validBeforeTime'' then set_text (\<lambda>s. k\<lparr>k_before := s\<rparr>) (dec_string v (k_before k))
          else map_sum id (\<lambda>b. k\<lparr>k_disabled := b\<rparr>) (dec_bool v (k_disabled k)))"

definition dec_key :: "bool \<Rightarrow> json \<Rightarrow> json_error + sa_key" where
  "dec_key strict = dec_struct (dec_key_member strict) zero_key"

text \<open>A slice: \<open>null\<close> is the nil slice, elements are decoded into fresh values.\<close>

fun dec_elements :: "(json \<Rightarrow> json_error + 'a) \<Rightarrow> json list \<Rightarrow> json_error + 'a list" where
  "dec_elements f [] = Inr []"
| "dec_elements f (v # vs) =
     (case f v of Inl e \<Rightarrow> Inl e | Inr x \<Rightarrow> map_sum id ((#) x) (dec_elements f vs))"

definition dec_slice :: "(json \<Rightarrow> json_error + 'a) \<Rightarrow> json \<Rightarrow> json_error + 'a list" where
  "dec_slice f v = (case v of JNull \<Rightarrow> Inr [] | JArr vs \<Rightarrow> dec_elements f vs | _ \<Rightarrow> Inl (TypeMismatch ''slice''))"

definition dec_pointer :: "(json \<Rightarrow> json_error + 'a) \<Rightarrow> json \<Rightarrow> json_error + 'a option" where
  "dec_pointer f v = (if v = JNull then Inr None else map_sum id Some (f v))"

definition enc_pointer :: "('a \<Rightarrow> json) \<Rightarrow> 'a option \<Rightarrow> json" where
  "enc_pointer f x = (case x of None \<Rightarrow> JNull | Some y \<Rightarrow> f y)"

text \<open>\<open>clonePolicy\<close> makes an empty member list nil, which is written as \<open>null\<close>.\<close>

definition enc_binding :: "binding \<Rightarrow> json" where
  "enc_binding b = JObj [(''role'', JStr (b_role b)), (''members'', if b_members b = [] then JNull else JArr (map JStr (b_members b)))]"

definition dec_binding_member :: "bool \<Rightarrow> string \<Rightarrow> json \<Rightarrow> binding \<Rightarrow> json_error + binding" where
  "dec_binding_member strict k v b =
     (case match_field [''role'', ''members''] k of
        None \<Rightarrow> (if strict then Inl (UnknownField k) else Inr b)
      | Some f \<Rightarrow>
          if f = ''role'' then set_text (\<lambda>s. b\<lparr>b_role := s\<rparr>) (dec_string v (b_role b))
          else map_sum id (\<lambda>m. b\<lparr>b_members := m\<rparr>) (dec_slice (\<lambda>v. dec_string v []) v))"

definition dec_binding :: "bool \<Rightarrow> json \<Rightarrow> json_error + binding" where
  "dec_binding strict = dec_struct (dec_binding_member strict) \<lparr>b_role = [], b_members = []\<rparr>"

definition enc_policy :: "iam_policy \<Rightarrow> json" where
  "enc_policy p = JObj [(''version'', JInt (pol_version p)), (''etag'', JStr (pol_etag p)),
     (''bindings'', JArr (map enc_binding (pol_bindings p)))]"

definition zero_policy :: iam_policy where
  "zero_policy = \<lparr>pol_version = 0, pol_etag = [], pol_bindings = []\<rparr>"

definition dec_policy_member :: "bool \<Rightarrow> string \<Rightarrow> json \<Rightarrow> iam_policy \<Rightarrow> json_error + iam_policy" where
  "dec_policy_member strict k v p =
     (case match_field [''version'', ''etag'', ''bindings''] k of
        None \<Rightarrow> (if strict then Inl (UnknownField k) else Inr p)
      | Some f \<Rightarrow>
          if f = ''version'' then map_sum id (\<lambda>i. p\<lparr>pol_version := i\<rparr>) (dec_int v (pol_version p))
          else if f = ''etag'' then set_text (\<lambda>s. p\<lparr>pol_etag := s\<rparr>) (dec_string v (pol_etag p))
          else map_sum id (\<lambda>bs. p\<lparr>pol_bindings := bs\<rparr>) (dec_slice (dec_binding strict) v))"

definition dec_policy :: "bool \<Rightarrow> iam_policy \<Rightarrow> json \<Rightarrow> json_error + iam_policy" where
  "dec_policy strict cur = dec_struct (dec_policy_member strict) cur"

text \<open>Decoding an object into a map of values, each member into a fresh one.\<close>

definition dec_value_map :: "(json \<Rightarrow> json_error + 'v) \<Rightarrow> json \<Rightarrow> 'v gomap option \<Rightarrow> json_error + 'v gomap option" where
  "dec_value_map f v cur =
     (case v of
        JNull \<Rightarrow> Inr None
      | JObj kvs \<Rightarrow> map_sum id Some (decode_members (\<lambda>k v m. map_sum id (\<lambda>x. gm_set k x m) (f v)) kvs
          (case cur of Some m \<Rightarrow> m | None \<Rightarrow> []))
      | _ \<Rightarrow> Inl (TypeMismatch ''map''))"

definition enc_value_map :: "('v \<Rightarrow> json) \<Rightarrow> 'v gomap \<Rightarrow> json" where
  "enc_value_map f m = JObj (map (\<lambda>(k, v). (k, f v)) (sort_members m))"

record iam_metadata =
  imd_accounts :: "service_account option gomap option"
  imd_keys :: "sa_key option list gomap option"
  imd_policies :: "iam_policy option gomap option"
  imd_wif :: "(string \<times> json) list"

definition metadata_fields :: "string list" where
  "metadata_fields = [''serviceAccounts'', ''keys'', ''policies'', ''workloadIdentityPools'', ''workloadIdentityProviders'']"

definition dec_metadata_field :: "bool \<Rightarrow> string \<Rightarrow> json \<Rightarrow> iam_metadata \<Rightarrow> json_error + iam_metadata" where
  "dec_metadata_field strict k v m =
     (case match_field metadata_fields k of
        None \<Rightarrow> (if strict then Inl (UnknownField k) else Inr m)
      | Some f \<Rightarrow>
          if f = ''serviceAccounts'' then
            map_sum id (\<lambda>x. m\<lparr>imd_accounts := x\<rparr>) (dec_value_map (dec_pointer (dec_account strict)) v (imd_accounts m))
          else if f = ''keys'' then
            map_sum id (\<lambda>x. m\<lparr>imd_keys := x\<rparr>) (dec_value_map (dec_slice (dec_pointer (dec_key strict))) v (imd_keys m))
          else if f = ''policies'' then
            map_sum id (\<lambda>x. m\<lparr>imd_policies := x\<rparr>) (dec_value_map (dec_pointer (dec_policy strict zero_policy)) v (imd_policies m))
          else Inr (m\<lparr>imd_wif := gm_set f v (imd_wif m)\<rparr>))"

definition dec_iam_metadata :: "bool \<Rightarrow> json \<Rightarrow> json_error + iam_metadata" where
  "dec_iam_metadata strict = dec_struct (dec_metadata_field strict)
     \<lparr>imd_accounts = None, imd_keys = None, imd_policies = None, imd_wif = []\<rparr>"

text \<open>The entry validator of imports: strict decoding of exactly one value, then the account checks.\<close>

definition validateIAMStateEntry :: "raw_message \<Rightarrow> bool" where
  "validateIAMStateEntry payload =
     (case payload of
        Raw v \<Rightarrow> (case dec_iam_metadata True v of
                    Inl e \<Rightarrow> False
                  | Inr m \<Rightarrow> validateIAMMetadata (or_empty (imd_accounts m)) = None)
      | _ \<Rightarrow> False)"

end
