(* ===== verification/Iam_Laws.thy ===== *)
theory Iam_Laws
  imports Iam State_Store_Properties
begin

text \<open>
  The IAM shim over any entry store: its metadata decode to what was saved, every handler keeps the state
  well formed, and what the store holds always passes the validator of the next start.
\<close>

section \<open>The durable form\<close>

lemma dec_enc_account: "dec_account b (enc_account a) = Inr a" "enc_account a \<noteq> JNull"
  by (cases a) (simp_all add: dec_account_def enc_account_def dec_struct_def omit_str_def dec_account_member_def
      account_fields_def zero_account_def set_text_def)

lemma dec_enc_key: "dec_key b (enc_key k) = Inr k" "enc_key k \<noteq> JNull"
  by (cases k) (simp_all add: dec_key_def enc_key_def dec_struct_def dec_key_member_def key_fields_def zero_key_def set_text_def)

lemma dec_elements_map: "(\<And>x. x \<in> set xs \<Longrightarrow> f (e x) = Inr x) \<Longrightarrow> dec_elements f (map e xs) = Inr xs"
  by (induction xs) auto

lemma dec_enc_binding: "dec_binding s (enc_binding b) = Inr b"
  using dec_elements_map [of "b_members b" "\<lambda>v. dec_string v []" JStr]
  by (cases b) (simp add: dec_binding_def enc_binding_def dec_struct_def dec_binding_member_def set_text_def dec_slice_def)

lemma dec_enc_policy: "int64_range (pol_version p) \<Longrightarrow> dec_policy s zero_policy (enc_policy p) = Inr p" "enc_policy p \<noteq> JNull"
  using dec_elements_map [of "pol_bindings p" "dec_binding s" enc_binding] dec_enc_binding
  by (cases p; simp add: dec_policy_def enc_policy_def dec_struct_def dec_policy_member_def zero_policy_def set_text_def dec_slice_def)+

lemma dec_enc_pointer: "f (e x) = Inr x \<Longrightarrow> e x \<noteq> JNull \<Longrightarrow> dec_pointer f (enc_pointer e (Some x)) = Inr (Some x)"
  by (simp add: dec_pointer_def enc_pointer_def)

lemma dec_enc_values:
  assumes "\<And>k x. (k, x) \<in> set m \<Longrightarrow> f (e x) = Inr (g x)" and "distinct (map fst a @ map fst m)"
  shows "decode_members (\<lambda>k v m. map_sum id (\<lambda>x. gm_set k x m) (f v)) (map (\<lambda>(k, v). (k, e v)) m) a =
    Inr (a @ map (\<lambda>(k, v). (k, g v)) m)"
  using assms
proof (induction m arbitrary: a)
  case (Cons kv m)
  obtain k v where kv: "kv = (k, v)" by (cases kv)
  have new: "gm_set k x a = a @ [(k, x)]" for x using Cons.prems(2) kv by (intro update_new) auto
  have "f (e v) = Inr (g v)" using Cons.prems(1) [of k v] kv by simp
  with Cons.IH [of "a @ [(k, g v)]"] Cons.prems new kv show ?case by auto
qed simp

lemma dec_enc_value_map:
  assumes "gm_wf m" and "\<And>k x. (k, x) \<in> set m \<Longrightarrow> f (e x) = Inr (g x)"
  shows "dec_value_map f (enc_value_map e m) None = Inr (Some (map (\<lambda>(k, v). (k, g v)) (sort_members m)))"
proof -
  have "distinct (map fst [] @ map fst (sort_members m))" using assms(1) sort_members_wf [of m] by (simp add: gm_wf_def)
  with dec_enc_values [of "sort_members m" f e g "[]"] assms(2) show ?thesis
    by (simp add: dec_value_map_def enc_value_map_def)
qed

section \<open>Well-formed states\<close>

definition account_ok :: "string \<Rightarrow> service_account \<Rightarrow> bool" where
  "account_ok k a \<longleftrightarrow> validateServiceAccountEntry k (Some a) = None"

text \<open>
  Unique identifiers are readings of the clock in nanoseconds, which nothing makes different: two accounts
  may share one.
\<close>

definition shared_number :: "service_account gomap \<Rightarrow> bool" where
  "shared_number m \<longleftrightarrow> (\<exists>k l a b. gm_get m k = Some a \<and> gm_get m l = Some b \<and> k \<noteq> l \<and> sa_unique a = sa_unique b)"

definition wif_fields :: "string set" where "wif_fields = {''workloadIdentityPools'', ''workloadIdentityProviders''}"

text \<open>A mutation of the workload identity maps keeps to their two fields.\<close>

definition wif_mutation :: "((string \<times> json) list \<Rightarrow> nat + (string \<times> json) list) \<Rightarrow> bool" where
  "wif_mutation mutate \<longleftrightarrow> (\<forall>w w'. gm_wf w \<longrightarrow> fst ` set w \<subseteq> wif_fields \<longrightarrow> mutate w = Inr w' \<longrightarrow> gm_wf w' \<and> fst ` set w' \<subseteq> wif_fields)"

lemma wif_mutationD:
  "wif_mutation mutate \<Longrightarrow> gm_wf w \<Longrightarrow> fst ` set w \<subseteq> wif_fields \<Longrightarrow> mutate w = Inr w' \<Longrightarrow> gm_wf w' \<and> fst ` set w' \<subseteq> wif_fields"
  unfolding wif_mutation_def by (elim allE [of _ w] allE [of _ w'] impE) simp_all

definition im_wf :: "'s iam_api \<Rightarrow> bool" where
  "im_wf api \<longleftrightarrow> gm_wf (im_accounts api) \<and> gm_wf (im_keys api) \<and> gm_wf (im_policies api) \<and>
     (\<forall>k a. gm_get (im_accounts api) k = Some a \<longrightarrow> account_ok k a) \<and>
     (\<forall>k ks. gm_get (im_keys api) k = Some ks \<longrightarrow> None \<notin> set ks) \<and>
     (\<forall>k p. gm_get (im_policies api) k = Some (Some p) \<longrightarrow> int64_range (pol_version p)) \<and>
     gm_wf (im_wif api) \<and> fst ` set (im_wif api) \<subseteq> wif_fields"

text \<open>The validator accepts accounts that are each valid and have pairwise different unique identifiers.\<close>

lemma validate_accounts_None:
  "validate_accounts seen (map (\<lambda>(k, a). (k, Some a)) m) = None \<longleftrightarrow>
     (\<forall>(k, a) \<in> set m. validateServiceAccountEntry k (Some a) = None) \<and> distinct (map (sa_unique \<circ> snd) m) \<and>
     set (map (sa_unique \<circ> snd) m) \<inter> set seen = {}"
proof (induction m arbitrary: seen)
  case (Cons ka m)
  obtain k a where ka: "ka = (k, a)" by (cases ka)
  show ?case
  proof (cases "validateServiceAccountEntry k (Some a)")
    case None
    show ?thesis using None Cons.IH [of "sa_unique a # seen"] ka by (auto simp: image_iff)
  qed (simp add: ka)
qed simp

lemma im_wf_validates:
  assumes "im_wf api"
  shows "validateIAMMetadata (map (\<lambda>(k, a). (k, Some a)) (sort_members (im_accounts api))) = None \<longleftrightarrow> \<not> shared_number (im_accounts api)"
proof -
  let ?m = "sort_members (im_accounts api)"
  have wf: "gm_wf (im_accounts api)" "gm_wf ?m" using assms by (simp_all add: im_wf_def)
  have get: "(k, a) \<in> set ?m \<longleftrightarrow> gm_get (im_accounts api) k = Some a" for k a
    using gm_get_mem [OF wf(1), of k a] by simp
  have "inj_on (sa_unique \<circ> snd) (set ?m) \<longleftrightarrow>
      (\<forall>k l a b. gm_get (im_accounts api) k = Some a \<longrightarrow> gm_get (im_accounts api) l = Some b \<longrightarrow> sa_unique a = sa_unique b \<longrightarrow> k = l \<and> a = b)"
    unfolding inj_on_def Ball_def split_paired_All get by (simp only: o_apply snd_conv prod.inject) blast
  moreover have "(\<forall>k l a b. gm_get (im_accounts api) k = Some a \<longrightarrow> gm_get (im_accounts api) l = Some b \<longrightarrow>
      sa_unique a = sa_unique b \<longrightarrow> k = l \<and> a = b) \<longleftrightarrow> \<not> shared_number (im_accounts api)"
    unfolding shared_number_def by (metis option.inject)
  moreover have "distinct ?m" using wf(2) by (simp add: gm_wf_def distinct_map)
  ultimately have "distinct (map (sa_unique \<circ> snd) ?m) \<longleftrightarrow> \<not> shared_number (im_accounts api)" by (simp only: distinct_map simp_thms)
  moreover have "\<forall>(k, a) \<in> set ?m. validateServiceAccountEntry k (Some a) = None"
    using assms get by (auto simp: im_wf_def account_ok_def)
  ultimately show ?thesis by (simp add: validateIAMMetadata_def validate_accounts_None)
qed

lemma decode_wif:
  assumes "gm_wf w" and "fst ` set w \<subseteq> wif_fields" and "distinct (map fst (imd_wif m) @ map fst w)"
  shows "decode_members (dec_metadata_field s) w m = Inr (m\<lparr>imd_wif := imd_wif m @ w\<rparr>)"
  using assms
proof (induction w arbitrary: m)
  case (Cons kv w)
  obtain k v where kv: "kv = (k, v)" by (cases kv)
  with Cons.prems(2) have "k \<in> wif_fields" by auto
  then have step: "dec_metadata_field s k v m = Inr (m\<lparr>imd_wif := gm_set k v (imd_wif m)\<rparr>)"
    by (auto simp: wif_fields_def dec_metadata_field_def metadata_fields_def)
  have "gm_set k v (imd_wif m) = imd_wif m @ [(k, v)]" using Cons.prems(3) kv by (intro update_new) auto
  with Cons step kv show ?case by (simp add: gm_wf_def)
qed simp

lemma dec_enc_iam_metadata:
  assumes "im_wf api"
  shows "dec_iam_metadata False (enc_iam_metadata api) = Inr
    \<lparr>imd_accounts = Some (map (\<lambda>(k, a). (k, Some a)) (sort_members (im_accounts api))),
     imd_keys = Some (sort_members (im_keys api)), imd_policies = Some (sort_members (im_policies api)), imd_wif = im_wif api\<rparr>"
proof -
  have id: "map (\<lambda>(k, v). (k, v)) m = m" for m :: "'b gomap" by (induction m) auto
  have a: "dec_value_map (dec_pointer (dec_account False)) (enc_value_map enc_account (im_accounts api)) None =
      Inr (Some (map (\<lambda>(k, a). (k, Some a)) (sort_members (im_accounts api))))"
    using assms by (intro dec_enc_value_map) (auto simp: im_wf_def dec_pointer_def dec_enc_account)
  have "dec_slice (dec_pointer (dec_key False)) (JArr (map (enc_pointer enc_key) ks)) = Inr ks"
    if "(k, ks) \<in> set (im_keys api)" for k ks
    unfolding dec_slice_def json.case
  proof (rule dec_elements_map)
    fix x assume x: "x \<in> set ks"
    have "None \<notin> set ks" using that assms by (auto simp: im_wf_def gm_get_mem)
    with x have "x \<noteq> None" by metis
    then obtain y where "x = Some y" by blast
    then show "dec_pointer (dec_key False) (enc_pointer enc_key x) = Inr x" by (simp add: dec_enc_pointer dec_enc_key)
  qed
  then have k: "dec_value_map (dec_slice (dec_pointer (dec_key False))) (enc_value_map (\<lambda>ks. JArr (map (enc_pointer enc_key) ks)) (im_keys api)) None =
      Inr (Some (map (\<lambda>(k, v). (k, v)) (sort_members (im_keys api))))"
    using assms by (intro dec_enc_value_map) (auto simp: im_wf_def)
  have "dec_pointer (dec_policy False zero_policy) (enc_pointer enc_policy x) = Inr x" if "(k, x) \<in> set (im_policies api)" for k x
    using that assms by (cases x) (auto simp: im_wf_def gm_get_mem dec_pointer_def enc_pointer_def dec_enc_policy)
  then have p: "dec_value_map (dec_pointer (dec_policy False zero_policy)) (enc_value_map (enc_pointer enc_policy) (im_policies api)) None =
      Inr (Some (map (\<lambda>(k, v). (k, v)) (sort_members (im_policies api))))"
    using assms by (intro dec_enc_value_map) (auto simp: im_wf_def)
  have w: "decode_members (dec_metadata_field False) (im_wif api) m = Inr (m\<lparr>imd_wif := im_wif api\<rparr>)" if "imd_wif m = []" for m
    using assms that decode_wif [of "im_wif api" m False] by (simp add: im_wf_def gm_wf_def)
  show ?thesis
    by (simp add: dec_iam_metadata_def enc_iam_metadata_def dec_struct_def dec_metadata_field_def metadata_fields_def
        w a k [unfolded id] p [unfolded id])
qed

end
