(* ===== verification/Iam_Properties.thy ===== *)
theory Iam_Properties
  imports Iam_Laws
begin

text \<open>
  The IAM shim over an entry store: what every handler keeps, what a restart finds, and who a token is
  refused to.
\<close>

section \<open>Handlers keep the state well formed\<close>

definition same_iam :: "'s iam_api \<Rightarrow> 't iam_api \<Rightarrow> bool" where
  "same_iam a b \<longleftrightarrow> im_accounts a = im_accounts b \<and> im_keys a = im_keys b \<and> im_policies a = im_policies b \<and> im_wif a = im_wif b"

lemma same_iam_refl [simp]: "same_iam a a"
  by (simp add: same_iam_def)

lemma im_wf_same: "same_iam a b \<Longrightarrow> im_wf a = im_wf b"
  by (simp add: same_iam_def im_wf_def)

lemma enc_iam_same: "same_iam a b \<Longrightarrow> enc_iam_metadata a = enc_iam_metadata b"
  by (simp add: same_iam_def enc_iam_metadata_def)

lemma im_wf_account_ok: "im_wf api \<Longrightarrow> gm_get (im_accounts api) k = Some a \<Longrightarrow> account_ok k a"
  by (simp add: im_wf_def)

lemma im_persist_same: "im_persist save api = (o', api') \<Longrightarrow> same_iam api' api"
  by (auto simp: im_persist_def same_iam_def split: option.splits if_splits prod.splits)

lemma im_persist_panics: "im_persist save api = (o', api') \<Longrightarrow> im_wf api \<Longrightarrow> o' \<noteq> PersistPanics"
  by (auto simp: im_persist_def im_wf_def list_ex_iff gm_get_mem split: option.splits if_splits prod.splits)

lemma valid_dec_nat: "0 < n \<Longrightarrow> n < 2 ^ 64 \<Longrightarrow> validPositiveDecimal (dec_nat n)"
  by (simp add: validPositiveDecimal_def dec_nat_digits dec_nat_lead)

lemma ParseCanonical_not_empty: "ParseCanonicalServiceAccountEmail email = Some (a, project) \<Longrightarrow> a \<noteq> []"
  by (auto simp: ParseCanonicalServiceAccountEmail_def validServiceAccountID_def Let_def split: if_splits prod.splits)

lemma new_account_ok:
  assumes "map_option snd (ParseCanonicalServiceAccountEmail (account_email (ca_id b) project)) = Some project"
    and "0 < ck_nanos now" and "ck_nanos now < 2 ^ 64"
  shows "account_ok (account_key project (sa_email (new_account now project b))) (new_account now project b)"
proof -
  obtain a where a: "ParseCanonicalServiceAccountEmail (account_email (ca_id b) project) = Some (a, project)"
    using assms(1) by auto
  then have "a \<noteq> []" by (rule ParseCanonical_not_empty)
  with a valid_dec_nat [OF assms(2,3)] show ?thesis
    by (auto simp: account_ok_def validateServiceAccountEntry_def new_account_def Let_def uniqueNumericID_def)
qed

lemma im_wf_account:
  "im_wf api \<Longrightarrow> account_ok k a \<Longrightarrow> im_wf (api\<lparr>im_accounts := gm_set k a (im_accounts api)\<rparr>)"
  by (auto simp: im_wf_def)

lemma im_wf_keys: "im_wf api \<Longrightarrow> None \<notin> set ks \<Longrightarrow> im_wf (api\<lparr>im_keys := gm_set k ks (im_keys api)\<rparr>)"
  by (auto simp: im_wf_def)

lemma im_wf_policies:
  "im_wf api \<Longrightarrow> int64_range (pol_version p) \<Longrightarrow> im_wf (api\<lparr>im_policies := gm_set k (Some p) (im_policies api)\<rparr>)"
  by (auto simp: im_wf_def)

lemma im_wf_delete: "im_wf api \<Longrightarrow> im_wf (api\<lparr>im_accounts := gm_del k (im_accounts api), im_keys := gm_del k (im_keys api)\<rparr>)"
  unfolding im_wf_def by (auto split: if_splits)

lemma account_keys_no_nil: "im_wf api \<Longrightarrow> None \<notin> set (account_keys api key)"
  by (auto simp: im_wf_def account_keys_def split: option.splits)

lemma search_key_range: "search_key sfx ks = KeyAt i k \<Longrightarrow> i < length ks"
  by (induction sfx ks arbitrary: i rule: search_key.induct) (auto split: if_splits key_search.splits)

lemma search_key_no_nil: "None \<notin> set ks \<Longrightarrow> search_key sfx ks \<noteq> NilKey"
  by (induction sfx ks rule: search_key.induct) (auto split: key_search.splits)

lemma dec_struct_inv:
  assumes "\<And>k v a b. f k v a = Inr b \<Longrightarrow> P a \<Longrightarrow> P b" and "P z"
  shows "dec_struct f z v = Inr b \<Longrightarrow> P b"
proof (cases v)
  case (JObj kvs)
  then show "dec_struct f z v = Inr b \<Longrightarrow> ?thesis"
    using decode_members_inv [of f P kvs z b] assms unfolding dec_struct_def by simp
qed (use assms(2) in \<open>simp_all add: dec_struct_def\<close>)

lemma set_text_inv: "set_text f r = Inr b \<Longrightarrow> (\<And>s. P (f s)) \<Longrightarrow> P b"
  by (auto simp: set_text_def split: sum.splits)

lemma dec_policy_version:
  assumes "dec_policy strict cur v = Inr p" and "int64_range (pol_version cur)"
  shows "int64_range (pol_version p)"
proof (rule dec_struct_inv [where P = "\<lambda>p. int64_range (pol_version p)", OF _ assms(2) assms(1) [unfolded dec_policy_def]])
  show "int64_range (pol_version b)" if "dec_policy_member strict k v a = Inr b" "int64_range (pol_version a)" for k v a b
    using that by (auto simp: dec_policy_member_def map_sum_def set_text_def dest: dec_int_range split: option.splits if_splits sum.splits)
qed

lemma dec_set_policy_version: "dec_body dec_set_policy r = Some p \<Longrightarrow> int64_range (pol_version p)"
proof -
  assume "dec_body dec_set_policy r = Some p"
  then obtain v where "dec_set_policy v = Inr p" by (auto simp: dec_body_def split: raw_message.splits sum.splits)
  then show ?thesis unfolding dec_set_policy_def
    by (rule dec_struct_inv [where P = "\<lambda>p. int64_range (pol_version p)", rotated 2])
      (auto simp: zero_policy_def int64_range_def [of 0] dest: dec_policy_version split: if_splits)
qed

section \<open>Over an entry store\<close>

text \<open>What the store may hold: nothing yet, or some well-formed snapshot.\<close>

definition iam_snapshot :: "json option \<Rightarrow> bool" where
  "iam_snapshot d \<longleftrightarrow> d = None \<or> (\<exists>m :: unit iam_api. im_wf m \<and> d = Some (enc_iam_metadata m))"

definition im_inv :: "(string \<Rightarrow> 's \<Rightarrow> json option) \<Rightarrow> 's iam_api \<Rightarrow> bool" where
  "im_inv durable api \<longleftrightarrow> im_wf api \<and> (\<forall>s. im_store api = Some s \<longrightarrow> iam_snapshot (durable iamStateEntry s))"

definition im_forget :: "'s iam_api \<Rightarrow> unit iam_api" where
  "im_forget api = \<lparr>im_store = None, im_accounts = im_accounts api, im_keys = im_keys api, im_policies = im_policies api,
     im_wif = im_wif api, im_strict = im_strict api, im_failed = im_failed api, im_audience = im_audience api\<rparr>"

lemma same_forget: "same_iam (im_forget api) api"
  by (simp add: same_iam_def im_forget_def)

lemma iam_snapshotI: "im_wf api \<Longrightarrow> iam_snapshot (Some (enc_iam_metadata api))"
  unfolding iam_snapshot_def using same_forget [of api] im_wf_same enc_iam_same by metis

lemma im_inv_replace:
  "im_inv durable api \<Longrightarrow> im_wf api1 \<Longrightarrow> im_store api1 = im_store api \<Longrightarrow> im_inv durable api1"
  by (simp add: im_inv_def)

text \<open>
  What every handler ensures: the invariant, no panic, and that an acknowledged request either changed
  nothing in memory or left the store with exactly what is in memory.
\<close>

definition im_handled :: "(string \<Rightarrow> 's \<Rightarrow> json option) \<Rightarrow> 's iam_api \<Rightarrow> iam_response \<Rightarrow> 's iam_api \<Rightarrow> bool" where
  "im_handled durable api resp api' \<longleftrightarrow>
     im_inv durable api' \<and> resp \<noteq> IamPanic \<and> im_strict api' = im_strict api \<and> im_failed api' = im_failed api \<and>
     ((\<exists>b. resp = IamResponse 200 b) \<longrightarrow> same_iam api' api \<or>
        (\<forall>s. im_store api' = Some s \<longrightarrow> durable iamStateEntry s = Some (enc_iam_metadata api')))"

lemma im_handled_refused: "im_inv durable api \<Longrightarrow> resp \<noteq> IamPanic \<Longrightarrow> im_handled durable api resp api"
  by (simp add: im_handled_def)

lemma iam_error_no_panic [simp]: "iam_error code status \<noteq> IamPanic"
  by (simp add: iam_error_def)

locale iam_store = entry_store save load durable
  for save :: "string \<Rightarrow> json option \<Rightarrow> 's \<Rightarrow> store_error option \<times> 's"
    and load :: "string \<Rightarrow> 's \<Rightarrow> (store_error + json) \<times> 's"
    and durable :: "string \<Rightarrow> 's \<Rightarrow> json option"
begin

lemma im_persist_durable:
  assumes "im_persist save api = (o', api')" and "im_store api' = Some s'"
  obtains s where "im_store api = Some s" "o' = Persisted \<Longrightarrow> durable iamStateEntry s' = Some (enc_iam_metadata api)"
    "durable iamStateEntry s' = durable iamStateEntry s \<or> durable iamStateEntry s' = Some (enc_iam_metadata api)"
proof -
  from assms obtain s where s: "im_store api = Some s" by (cases "im_store api") (auto simp: im_persist_def)
  show ?thesis
  proof (cases "list_ex (\<lambda>(k, ks). None \<in> set ks) (im_keys api)")
    case True
    with assms s have "o' = PersistPanics" "s' = s" by (auto simp: im_persist_def)
    with that s show ?thesis by simp
  next
    case False
    obtain err s1 where sv: "save iamStateEntry (Some (enc_iam_metadata api)) s = (err, s1)" by fastforce
    with False assms s have "s' = s1" "o' = (if err = None then Persisted else PersistFailed)"
      by (auto simp: im_persist_def split: option.splits)
    moreover have "err = None \<Longrightarrow> durable iamStateEntry s1 = Some (enc_iam_metadata api)" using save_ok sv by auto
    moreover have "durable iamStateEntry s1 = durable iamStateEntry s \<or> durable iamStateEntry s1 = Some (enc_iam_metadata api)"
      using save_cases [OF sv] by (metis option.inject)
    ultimately show ?thesis using that s by (simp split: if_splits)
  qed
qed

lemma persist_respond_handled:
  assumes "persist_respond save ok api1 = (resp, api')" and inv: "im_inv durable api"
    and wf: "im_wf api1" and st: "im_store api1 = im_store api" "im_strict api1 = im_strict api" "im_failed api1 = im_failed api"
    and ok: "ok \<noteq> IamPanic"
  shows "im_handled durable api resp api'"
proof -
  obtain o' api2 where p: "im_persist save api1 = (o', api2)" by fastforce
  have same: "same_iam api2 api1" by (rule im_persist_same [OF p])
  have flags: "im_strict api2 = im_strict api \<and> im_failed api2 = im_failed api"
    using p st by (auto simp: im_persist_def split: option.splits if_splits prod.splits)
  have inv1: "im_inv durable api1" by (rule im_inv_replace [OF inv wf st(1)])
  have "iam_snapshot (durable iamStateEntry s')" if "im_store api2 = Some s'" for s'
    using im_persist_durable [OF p that] inv1 iam_snapshotI [OF wf] by (metis im_inv_def)
  then have inv2: "im_inv durable api2" using wf im_wf_same [OF same] by (simp add: im_inv_def)
  have "durable iamStateEntry s' = Some (enc_iam_metadata api2)" if "o' = Persisted" "im_store api2 = Some s'" for s'
    using im_persist_durable [OF p that(2)] that(1) enc_iam_same [OF same] by metis
  with inv2 flags im_persist_panics [OF p wf] assms(1) p ok show ?thesis
    by (cases o') (auto simp: im_handled_def persist_respond_def iam_error_def)
qed

lemma createServiceAccount_handled:
  assumes "createServiceAccount save now r project api = (resp, api')" and inv: "im_inv durable api"
    and now: "0 < ck_nanos now" "ck_nanos now < 2 ^ 64"
  shows "im_handled durable api resp api'"
proof (cases "dec_body dec_create_account r")
  case None
  with assms(1) im_handled_refused [OF inv] show ?thesis by (auto simp: createServiceAccount_def)
next
  case (Some b)
  let ?sa = "new_account now project b"
  show ?thesis
  proof (cases "map_option snd (ParseCanonicalServiceAccountEmail (account_email (ca_id b) project)) = Some project")
    case True
    have "im_wf api" using inv by (simp add: im_inv_def)
    from persist_respond_handled [OF _ inv im_wf_account [OF this new_account_ok [OF True now]]] assms(1) Some True
      im_handled_refused [OF inv]
    show ?thesis unfolding createServiceAccount_def Let_def by (auto split: if_splits)
  qed (use assms(1) Some im_handled_refused [OF inv] in \<open>auto simp: createServiceAccount_def split: if_splits\<close>)
qed

lemma deleteServiceAccount_handled:
  assumes "deleteServiceAccount save project email api = (resp, api')" and inv: "im_inv durable api"
  shows "im_handled durable api resp api'"
  using assms(1) im_handled_refused [OF inv] persist_respond_handled [OF _ inv im_wf_delete] inv
  unfolding deleteServiceAccount_def Let_def im_inv_def by (auto split: if_splits)

lemma key_change_handled:
  assumes "persist_respond save ok (api\<lparr>im_keys := gm_set key ks (im_keys api)\<rparr>) = (resp, api')" and "None \<notin> set ks"
    and "ok \<noteq> IamPanic" and inv: "im_inv durable api"
  shows "im_handled durable api resp api'"
proof -
  have "im_wf api" using inv by (simp add: im_inv_def)
  from persist_respond_handled [OF assms(1) inv im_wf_keys [OF this assms(2)]] assms(3) show ?thesis by simp
qed

lemma no_nil_keys: "im_inv durable api \<Longrightarrow> None \<notin> set (account_keys api key)"
  by (rule account_keys_no_nil) (simp add: im_inv_def)

lemma createKey_handled:
  assumes "createKey save now created expires project email api = (resp, api')" and inv: "im_inv durable api"
  shows "im_handled durable api resp api'"
  using assms(1) im_handled_refused [OF inv] key_change_handled [OF _ _ _ inv] no_nil_keys [OF inv]
  by (auto simp: createKey_def Let_def split: if_splits)

lemma deleteKey_handled:
  assumes "deleteKey save project email keyID api = (resp, api')" and inv: "im_inv durable api"
  shows "im_handled durable api resp api'"
proof -
  let ?ks = "account_keys api (account_key project email)"
  have nn: "None \<notin> set ?ks" by (rule no_nil_keys [OF inv])
  then have "None \<notin> set (take i ?ks @ drop (Suc i) ?ks)" for i by (auto dest: in_set_takeD in_set_dropD)
  with assms(1) im_handled_refused [OF inv] key_change_handled [OF _ _ _ inv] search_key_no_nil [OF nn]
  show ?thesis unfolding deleteKey_def Let_def by (auto split: key_search.splits)
qed

lemma disableKey_handled:
  assumes "disableKey save path api = (resp, api')" and inv: "im_inv durable api"
  shows "im_handled durable api resp api'"
proof -
  let ?ks = "account_keys api (account_key (extractSegmentAfter path ''projects'') (extractSegmentAfter path ''serviceAccounts''))"
  have nn: "None \<notin> set ?ks" by (rule no_nil_keys [OF inv])
  then have "None \<notin> set (?ks[i := Some k])" for i k using set_update_subset_insert [of ?ks i "Some k"] by blast
  with assms(1) im_handled_refused [OF inv] key_change_handled [OF _ _ _ inv] search_key_no_nil [OF nn]
  show ?thesis unfolding disableKey_def Let_def by (auto split: key_search.splits)
qed

lemma setIamPolicy_handled:
  assumes "setIamPolicy save now r resource api = (resp, api')" and inv: "im_inv durable api"
  shows "im_handled durable api resp api'"
proof (cases "dec_body dec_set_policy r")
  case None
  with assms(1) im_handled_refused [OF inv] show ?thesis by (auto simp: setIamPolicy_def)
next
  case (Some p)
  let ?p1 = "p\<lparr>pol_etag := newEtag now\<rparr>"
  let ?p = "if pol_version ?p1 = 0 then ?p1\<lparr>pol_version := 1\<rparr> else ?p1"
  have "int64_range (pol_version ?p)" using dec_set_policy_version [OF Some] by (simp add: int64_range_def)
  moreover have "im_wf api" using inv by (simp add: im_inv_def)
  ultimately have wf: "im_wf (api\<lparr>im_policies := gm_set resource (Some ?p) (im_policies api)\<rparr>)" by (simp only: im_wf_policies)
  show ?thesis
    by (rule persist_respond_handled [OF _ inv wf, where ok = "IamResponse 200 (IamPolicy (Some ?p))"])
      (use assms(1) Some in \<open>simp_all add: setIamPolicy_def Let_def\<close>)
qed

lemma iam_serve_handled:
  assumes "iam_serve save now created expires r api = Some (resp, api')" and inv: "im_inv durable api"
    and now: "0 < ck_nanos now" "ck_nanos now < 2 ^ 64"
  shows "im_handled durable api resp api'"
proof -
  note refused = im_handled_refused [OF inv]
  have "(api' = api \<and> resp \<noteq> IamPanic) \<or> im_handled durable api resp api'"
    using assms(1) createServiceAccount_handled [OF _ inv now] deleteServiceAccount_handled [OF _ inv]
      createKey_handled [OF _ inv] deleteKey_handled [OF _ inv] disableKey_handled [OF _ inv] setIamPolicy_handled [OF _ inv]
    unfolding iam_serve_def routeServiceAccounts_def routeKeys_def Let_def
    by (auto simp: getServiceAccount_def listServiceAccounts_def listKeys_def getIamPolicy_def testIamPermissions_def Let_def
        iam_error_def split: if_splits option.splits)
  with refused show ?thesis by blast
qed

lemma commitWorkloadIdentityMutation_handled:
  assumes "commitWorkloadIdentityMutation save mutate registered api = (c, api')" and inv: "im_inv durable api" and m: "wif_mutation mutate"
  shows "im_inv durable api' \<and> c \<noteq> WifPanics"
proof (cases "mutate (im_wif api)")
  case (Inr w)
  have wf: "im_wf api" using inv by (simp add: im_inv_def)
  then have nil: "\<not> list_ex (\<lambda>(k, ks). None \<in> set ks) (im_keys api)" by (auto simp: im_wf_def list_ex_iff gm_get_mem)
  have "gm_wf (im_wif api)" "fst ` set (im_wif api) \<subseteq> wif_fields" using wf by (simp_all add: im_wf_def)
  with wif_mutationD [OF m _ _ Inr] wf have wf1: "im_wf (api\<lparr>im_wif := w\<rparr>)" by (simp add: im_wf_def)
  show ?thesis
  proof (cases "im_store api")
    case None
    with assms(1) Inr nil have "api' = api \<or> api' = api\<lparr>im_wif := w\<rparr>" "c \<noteq> WifPanics"
      by (auto simp: commitWorkloadIdentityMutation_def split: if_splits)
    with inv im_inv_replace [OF inv wf1] show ?thesis by auto
  next
    case (Some s)
    obtain e s' where sv: "save iamStateEntry (Some (enc_iam_metadata (api\<lparr>im_wif := w\<rparr>))) s = (e, s')" by fastforce
    have "iam_snapshot (durable iamStateEntry s)" using inv Some by (simp add: im_inv_def)
    with save_cases [OF sv] iam_snapshotI [OF wf1] have "iam_snapshot (durable iamStateEntry s')" by (metis option.inject)
    then have "im_inv durable (api\<lparr>im_store := Some s', im_wif := w\<rparr>)" "im_inv durable (api\<lparr>im_store := Some s'\<rparr>)"
      using wf wf1 by (simp_all add: im_inv_def im_wf_def)
    moreover have "api' = api \<or> api' = api\<lparr>im_store := Some s', im_wif := w\<rparr> \<or> api' = api\<lparr>im_store := Some s'\<rparr>" "c \<noteq> WifPanics"
      using assms(1) Inr nil Some sv by (auto simp: commitWorkloadIdentityMutation_def split: if_splits option.splits)
    ultimately show ?thesis using inv by auto
  qed
next
  case (Inl e)
  have "im_wf api" using inv by (simp add: im_inv_def)
  then have "\<not> list_ex (\<lambda>(k, ks). None \<in> set ks) (im_keys api)" by (auto simp: im_wf_def list_ex_iff gm_get_mem)
  with Inl assms(1) inv show ?thesis by (auto simp: commitWorkloadIdentityMutation_def)
qed

end

end
