(* ===== verification/Iam_Restart.thy ===== *)
theory Iam_Restart
  imports Iam_Properties
begin

text \<open>
  The IAM shim across restarts: what it wrote passes its own validator, and what it acknowledged is found
  again; two accounts created in the same nanosecond are the exception.
\<close>

section \<open>What a restart builds\<close>

lemma the_entries_Some [simp]: "the_entries (map (\<lambda>(k, a). (k, Some a)) m) = m"
  by (induction m) (auto simp: the_entries_def)

lemma new_iam_wf: "im_wf (newIamAPI mode st)"
  by (simp add: newIamAPI_def im_wf_def)

lemma im_wf_flag [simp]: "im_wf (api\<lparr>im_failed := f\<rparr>) = im_wf api" "im_wf (api\<lparr>im_store := st\<rparr>) = im_wf api"
  by (simp_all add: im_wf_def)

text \<open>The tables of the restarted shim answer every lookup as the snapshot did.\<close>

definition same_lookups :: "'s iam_api \<Rightarrow> 't iam_api \<Rightarrow> bool" where
  "same_lookups a b \<longleftrightarrow> gm_get (im_accounts a) = gm_get (im_accounts b) \<and> gm_get (im_keys a) = gm_get (im_keys b) \<and>
     gm_get (im_policies a) = gm_get (im_policies b) \<and> im_wif a = im_wif b"

lemma same_lookups_same: "same_iam b c \<Longrightarrow> same_lookups a b = same_lookups a c"
  by (simp add: same_lookups_def same_iam_def)

lemma same_lookups_wf:
  assumes "same_lookups a b" and "im_wf b" and "gm_wf (im_accounts a)" "gm_wf (im_keys a)" "gm_wf (im_policies a)"
  shows "im_wf a"
  using assms by (simp add: im_wf_def same_lookups_def)

context iam_store
begin

lemma new_iam_snapshot:
  assumes wf: "im_wf (m :: unit iam_api)" and d: "durable iamStateEntry s = Some (enc_iam_metadata m)"
    and l: "load iamStateEntry s = (Inr j, s1)"
  shows "j = enc_iam_metadata m \<and>
    (if shared_number (im_accounts m) then NewIam load mode (Some s) = (newIamAPI mode (Some s1))\<lparr>im_failed := True\<rparr>
     else \<not> im_failed (NewIam load mode (Some s)) \<and> same_lookups (NewIam load mode (Some s)) m \<and> im_wf (NewIam load mode (Some s)))"
proof -
  have j: "j = enc_iam_metadata m" using load_value l d by auto
  show ?thesis
  proof (cases "shared_number (im_accounts m)")
    case True
    with l j dec_enc_iam_metadata [OF wf] im_wf_validates [OF wf] show ?thesis
      by (simp add: NewIam_def NewIamWithStore_def loadIamMetadata_def or_empty_def)
  next
    case False
    let ?new = "(newIamAPI mode (Some s))\<lparr>im_store := Some s1, im_accounts := sort_members (im_accounts m),
      im_keys := sort_members (im_keys m), im_policies := sort_members (im_policies m), im_wif := im_wif m\<rparr>"
    have new: "NewIam load mode (Some s) = ?new"
      using l j False dec_enc_iam_metadata [OF wf] im_wf_validates [OF wf]
      by (simp add: NewIam_def NewIamWithStore_def loadIamMetadata_def or_empty_def)
    have "same_lookups ?new m" using wf by (auto simp: same_lookups_def im_wf_def)
    moreover have "im_wf ?new" using same_lookups_wf [OF calculation wf] wf by (simp add: im_wf_def)
    ultimately show ?thesis using False j new by (simp add: newIamAPI_def)
  qed
qed

lemma new_iam_unread:
  assumes d: "durable iamStateEntry s = Some x" and l: "load iamStateEntry s = (Inl e, s1)"
  shows "NewIam load mode (Some s) = (newIamAPI mode (Some s1))\<lparr>im_failed := True\<rparr>"
proof -
  have "\<not> is_err ErrNotFound e" using load_absent l d by auto
  with l show ?thesis by (simp add: NewIam_def NewIamWithStore_def loadIamMetadata_def)
qed

lemma new_iam_absent:
  assumes "durable iamStateEntry s = None" and "load iamStateEntry s = (l, s1)"
  shows "NewIam load mode (Some s) = newIamAPI mode (Some s1) \<or>
    NewIam load mode (Some s) = (newIamAPI mode (Some s1))\<lparr>im_failed := True\<rparr>"
proof (cases l)
  case (Inl e)
  with assms(2) show ?thesis by (simp add: NewIam_def NewIamWithStore_def loadIamMetadata_def newIamAPI_def)
next
  case (Inr j)
  with assms load_value show ?thesis by auto
qed

lemma new_iam_store: "load iamStateEntry s = (l, s1) \<Longrightarrow> im_store (NewIam load mode (Some s)) = Some s1"
  by (auto simp: NewIam_def NewIamWithStore_def loadIamMetadata_def newIamAPI_def split: option.splits sum.splits if_splits)

lemma new_iam_inv:
  assumes "iam_snapshot (durable iamStateEntry s)"
  shows "im_inv durable (NewIam load mode (Some s))"
proof -
  obtain l s1 where l: "load iamStateEntry s = (l, s1)" by fastforce
  have "im_wf (NewIam load mode (Some s))"
  proof (cases "durable iamStateEntry s")
    case None
    with new_iam_absent [OF None l, of mode] new_iam_wf show ?thesis by (metis im_wf_flag(1))
  next
    case (Some d)
    with assms obtain m :: "unit iam_api" where "im_wf m" "durable iamStateEntry s = Some (enc_iam_metadata m)"
      by (auto simp: iam_snapshot_def)
    with new_iam_snapshot [OF this, of _ _ mode] new_iam_unread [OF Some, of _ _ mode] new_iam_wf l show ?thesis
      by (cases l) (auto split: if_splits)
  qed
  with assms new_iam_store [OF l, of mode] load_same [OF l] show ?thesis by (simp add: im_inv_def)
qed

end

section \<open>Over the profile store\<close>

interpretation disk_iam: iam_store Save Load durable_entry
  by (rule iam_store.intro) (rule disk_store.entry_store_axioms)

text \<open>
  The states the shim reaches: constructed on a store without its entry or on none, then requests at any
  readings of the clock, mutations of the workload identity maps, whatever saves fail, and restarts.
\<close>

inductive im_reachable :: "store iam_api \<Rightarrow> bool" where
  fresh: "durable_entry iamStateEntry s = None \<Longrightarrow> im_reachable (NewIam Load mode (Some s))"
| unopened: "im_reachable (NewIam Load mode None)"
| request: "im_reachable api \<Longrightarrow> 0 < ck_nanos now \<Longrightarrow> ck_nanos now < 2 ^ 64 \<Longrightarrow>
    iam_serve Save now created expires r api = Some (resp, api') \<Longrightarrow> im_reachable api'"
| workload_identity: "im_reachable api \<Longrightarrow> wif_mutation mutate \<Longrightarrow>
    commitWorkloadIdentityMutation Save mutate registered api = (c, api') \<Longrightarrow> im_reachable api'"
| restart: "im_reachable api \<Longrightarrow> im_store api = Some s \<Longrightarrow> im_reachable (NewIam Load mode (Some s))"

lemma iam_reachable_inv: "im_reachable api \<Longrightarrow> im_inv durable_entry api"
proof (induction rule: im_reachable.induct)
  case (fresh s mode)
  then show ?case using disk_iam.new_iam_inv by (simp add: iam_snapshot_def)
next
  case (unopened mode)
  then show ?case using new_iam_wf [of mode None] by (simp add: NewIam_def im_inv_def) (simp add: newIamAPI_def)
next
  case (request api now created expires r resp api')
  then show ?case using disk_iam.iam_serve_handled by (simp add: im_handled_def)
next
  case (workload_identity api mutate registered c api')
  then show ?case using disk_iam.commitWorkloadIdentityMutation_handled by blast
next
  case (restart api s mode)
  then have "iam_snapshot (durable_entry iamStateEntry s)" by (simp add: im_inv_def)
  then show ?case by (rule disk_iam.new_iam_inv)
qed

text \<open>
  C28: the IAM shim accepts its own metadata but for two accounts of one nanosecond.  In every reachable
  state the next request and the next workload identity mutation end without a panic; what the store
  holds decodes, and a restart whose read of the entry succeeds is degraded exactly if two of the stored
  accounts have the same unique identifier, the clock's reading at their creation.
\<close>
theorem iam_accepts_its_own_metadata:
  assumes "im_reachable api" and "im_store api = Some s" and "Load iamStateEntry s = (Inr j, s1)"
    and "0 < ck_nanos now" and "ck_nanos now < 2 ^ 64" and "iam_serve Save now created expires r api = Some (resp, api')"
    and "wif_mutation mutate"
  shows "(\<exists>m accounts. dec_iam_metadata False j = Inr m \<and> imd_accounts m = Some (map (\<lambda>(k, a). (k, Some a)) accounts) \<and>
      (im_failed (NewIam Load mode (Some s)) \<longleftrightarrow> shared_number accounts)) \<and>
    resp \<noteq> IamPanic \<and> fst (commitWorkloadIdentityMutation Save mutate registered api) \<noteq> WifPanics"
proof -
  note inv = iam_reachable_inv [OF assms(1)]
  from assms(3) have "durable_entry iamStateEntry s = Some j" by (rule disk_store.load_value)
  with inv assms(2) obtain m :: "unit iam_api" where m: "im_wf m" "durable_entry iamStateEntry s = Some (enc_iam_metadata m)"
    by (auto simp: im_inv_def iam_snapshot_def)
  have "shared_number (sort_members (im_accounts m)) = shared_number (im_accounts m)" using m(1) by (simp add: shared_number_def im_wf_def)
  with disk_iam.new_iam_snapshot [OF m assms(3), of mode] dec_enc_iam_metadata [OF m(1)]
  have "\<exists>d accounts. dec_iam_metadata False j = Inr d \<and> imd_accounts d = Some (map (\<lambda>(k, a). (k, Some a)) accounts) \<and>
      (im_failed (NewIam Load mode (Some s)) \<longleftrightarrow> shared_number accounts)" by (auto split: if_splits)
  moreover have "resp \<noteq> IamPanic" using disk_iam.iam_serve_handled [OF assms(6) inv assms(4,5)] by (simp add: im_handled_def)
  moreover have "fst (commitWorkloadIdentityMutation Save mutate registered api) \<noteq> WifPanics"
    using disk_iam.commitWorkloadIdentityMutation_handled [OF prod.collapse [symmetric] inv assms(7)] by blast
  ultimately show ?thesis by blast
qed

text \<open>
  C6: what the IAM shim acknowledged survives a restart.  When a reachable shim answers a request that
  changed an account, a key or a policy with success, a shim constructed from its store, unless it cannot
  read the entry, finds exactly the accounts, keys, policies and workload identity maps there were; if two
  of the accounts were created in the same nanosecond it is degraded instead and serves none of them.
\<close>
theorem acknowledged_iam_change_survives_restart:
  assumes "im_reachable api" and "0 < ck_nanos now" and "ck_nanos now < 2 ^ 64"
    and "iam_serve Save now created expires r api = Some (IamResponse 200 b, api')"
    and "im_accounts api' \<noteq> im_accounts api \<or> im_keys api' \<noteq> im_keys api \<or> im_policies api' \<noteq> im_policies api"
    and "im_store api' = Some s" and "Load iamStateEntry s = (Inr j, s1)"
  shows "if shared_number (im_accounts api') then im_failed (NewIam Load mode (Some s))
    else \<not> im_failed (NewIam Load mode (Some s)) \<and>
      gm_get (im_accounts (NewIam Load mode (Some s))) = gm_get (im_accounts api') \<and>
      gm_get (im_keys (NewIam Load mode (Some s))) = gm_get (im_keys api') \<and>
      gm_get (im_policies (NewIam Load mode (Some s))) = gm_get (im_policies api') \<and>
      im_wif (NewIam Load mode (Some s)) = im_wif api'"
proof -
  have h: "im_handled durable_entry api (IamResponse 200 b) api'"
    by (rule disk_iam.iam_serve_handled [OF assms(4) iam_reachable_inv [OF assms(1)] assms(2,3)])
  with assms(5,6) have wf: "im_wf api'" and d: "durable_entry iamStateEntry s = Some (enc_iam_metadata api')"
    by (auto simp: im_handled_def im_inv_def same_iam_def)
  have f: "im_wf (im_forget api')" "durable_entry iamStateEntry s = Some (enc_iam_metadata (im_forget api'))"
    using wf d im_wf_same [OF same_forget] enc_iam_same [OF same_forget] by metis+
  have "im_accounts (im_forget api') = im_accounts api'" by (simp add: im_forget_def)
  with disk_iam.new_iam_snapshot [OF f assms(7), of mode] show ?thesis
    by (simp add: same_lookups_def im_forget_def split: if_splits)
qed

section \<open>Concrete runs\<close>

definition tick :: "nat \<Rightarrow> clock" where "tick n = \<lparr>ck_nanos = n, ck_text = ''2024-02-29T12:00:00Z''\<rparr>"

definition iam_post :: "string \<Rightarrow> (string \<times> json) list \<Rightarrow> http_request" where
  "iam_post path members = \<lparr>rq_method = ''POST'', rq_path = path, rq_header = [], rq_query = [], rq_body = Raw (JObj members)\<rparr>"

definition account_post :: "string \<Rightarrow> http_request" where
  "account_post i = iam_post ''/v1/projects/demo-42/serviceAccounts'' [(''accountId'', JStr i)]"

definition first_iam :: "store iam_api" where "first_iam = NewIam Load ''strict'' (Some (fresh_store []))"

definition iam_after :: "clock \<Rightarrow> http_request \<Rightarrow> store iam_api \<Rightarrow> store iam_api" where
  "iam_after now r api = snd (the (iam_serve Save now zero_time zero_time r api))"

definition second_iam :: "store iam_api" where "second_iam = iam_after (tick 26) (account_post ''robot-a'') first_iam"

lemma first_iam_reachable: "im_reachable first_iam"
  unfolding first_iam_def by (rule im_reachable.fresh) code_simp

lemma second_iam_run:
  "iam_serve Save (tick 26) zero_time zero_time (account_post ''robot-a'') first_iam =
     Some (IamResponse 200 (IamAccount (new_account (tick 26) ''demo-42'' \<lparr>ca_id = ''robot-a'', ca_display = [], ca_description = []\<rparr>)), second_iam)"
proof -
  have "map_option fst (iam_serve Save (tick 26) zero_time zero_time (account_post ''robot-a'') first_iam) =
     Some (IamResponse 200 (IamAccount (new_account (tick 26) ''demo-42'' \<lparr>ca_id = ''robot-a'', ca_display = [], ca_description = []\<rparr>)))"
    by code_simp
  then show ?thesis by (auto simp: second_iam_def iam_after_def)
qed

lemma second_iam_reachable: "im_reachable second_iam"
  using im_reachable.request [OF first_iam_reachable _ _ second_iam_run] by (simp add: tick_def)

lemma second_iam_loads:
  obtains s j s1 where "im_store second_iam = Some s" "Load iamStateEntry s = (Inr j, s1)"
proof -
  have "(case im_store second_iam of None \<Rightarrow> False | Some s \<Rightarrow> (case fst (Load iamStateEntry s) of Inr j \<Rightarrow> True | Inl e \<Rightarrow> False))"
    by code_simp
  then obtain s j where "im_store second_iam = Some s" "fst (Load iamStateEntry s) = Inr j" by (auto split: option.splits sum.splits)
  then show ?thesis using that by (metis prod.collapse)
qed

text \<open>Evaluation compares integers, which keep their binary form.\<close>

lemma validPositiveDecimal_code [code]:
  "validPositiveDecimal s \<longleftrightarrow> s \<noteq> [] \<and> hd s \<noteq> CHR ''0'' \<and> list_all is_digit s \<and> int (parse_digits s) < 18446744073709551616"
  by (auto simp: validPositiveDecimal_def)

definition third_iam :: "store iam_api" where "third_iam = iam_after (tick 26) (account_post ''robot-b'') second_iam"

lemma third_iam_failed: "im_failed (NewIam Load ''strict'' (im_store third_iam))"
  by code_simp

lemma third_iam_run:
  "iam_serve Save (tick 26) zero_time zero_time (account_post ''robot-b'') second_iam =
     Some (IamResponse 200 (IamAccount (new_account (tick 26) ''demo-42'' \<lparr>ca_id = ''robot-b'', ca_display = [], ca_description = []\<rparr>)), third_iam)"
proof -
  have "map_option fst (iam_serve Save (tick 26) zero_time zero_time (account_post ''robot-b'') second_iam) =
     Some (IamResponse 200 (IamAccount (new_account (tick 26) ''demo-42'' \<lparr>ca_id = ''robot-b'', ca_display = [], ca_description = []\<rparr>)))"
    by code_simp
  then show ?thesis by (auto simp: third_iam_def iam_after_def)
qed

lemma second_iam_serves: "\<not> im_failed (NewIam Load ''strict'' (im_store second_iam))"
  by code_simp

text \<open>Both sides: a store with one account restarts, one with two accounts of the same nanosecond does not.\<close>

theorem iam_accepts_its_own_metadata_witness:
  "(\<exists>m accounts. dec_iam_metadata False (projr (fst (Load iamStateEntry (the (im_store second_iam))))) = Inr m \<and>
      imd_accounts m = Some (map (\<lambda>(k, a). (k, Some a)) accounts) \<and> \<not> shared_number accounts) \<and>
   fst (the (iam_serve Save (tick 26) zero_time zero_time (account_post ''robot-b'') second_iam)) \<noteq> IamPanic \<and>
   fst (commitWorkloadIdentityMutation Save Inr True second_iam) \<noteq> WifPanics"
proof -
  obtain s j s1 where s: "im_store second_iam = Some s" "Load iamStateEntry s = (Inr j, s1)" by (rule second_iam_loads)
  have "wif_mutation Inr" by (simp add: wif_mutation_def)
  from iam_accepts_its_own_metadata [OF second_iam_reachable s _ _ third_iam_run this, of "''strict''" True] s second_iam_serves third_iam_run
  show ?thesis by (simp add: tick_def)
qed

theorem acknowledged_iam_change_survives_restart_witness:
  "gm_get (im_accounts (NewIam Load ''strict'' (im_store second_iam))) = gm_get (im_accounts second_iam) \<and>
   gm_get (im_accounts second_iam) ''demo-42:robot-a@demo-42.iam.gserviceaccount.com'' \<noteq> None"
proof -
  obtain s j s1 where s: "im_store second_iam = Some s" "Load iamStateEntry s = (Inr j, s1)" by (rule second_iam_loads)
  have n: "im_accounts first_iam = []" "gm_get (im_accounts second_iam) ''demo-42:robot-a@demo-42.iam.gserviceaccount.com'' \<noteq> None"
    by code_simp+
  then have "im_accounts second_iam \<noteq> im_accounts first_iam" by auto
  with acknowledged_iam_change_survives_restart [OF first_iam_reachable _ _ second_iam_run _ s, of "''strict''"] n s second_iam_serves
  show ?thesis by (simp add: tick_def split: if_splits)
qed

text \<open>
  Two accounts created in the same nanosecond lock the shim out.  Both creates are acknowledged
  with the same unique identifier, and the next start refuses the metadata as invalid: every request is
  answered 503 from then on.
\<close>
theorem same_nanosecond_accounts_block_restart:
  "map_option fst (iam_serve Save (tick 26) zero_time zero_time (account_post ''robot-b'') second_iam) =
     Some (IamResponse 200 (IamAccount (new_account (tick 26) ''demo-42'' \<lparr>ca_id = ''robot-b'', ca_display = [], ca_description = []\<rparr>))) \<and>
   iam_serve Save now created expires r (NewIam Load ''strict'' (im_store third_iam)) =
     Some (iam_error 503 ''UNAVAILABLE'', NewIam Load ''strict'' (im_store third_iam))"
proof
  show "map_option fst (iam_serve Save (tick 26) zero_time zero_time (account_post ''robot-b'') second_iam) =
     Some (IamResponse 200 (IamAccount (new_account (tick 26) ''demo-42'' \<lparr>ca_id = ''robot-b'', ca_display = [], ca_description = []\<rparr>)))"
    by (simp add: third_iam_run)
  show "iam_serve Save now created expires r (NewIam Load ''strict'' (im_store third_iam)) =
     Some (iam_error 503 ''UNAVAILABLE'', NewIam Load ''strict'' (im_store third_iam))"
    using third_iam_failed by (simp add: iam_serve_def)
qed

end
