(* ===== verification/Resource_Manager_Properties.thy ===== *)
theory Resource_Manager_Properties
  imports Resource_Manager State_Store_Properties
begin

text \<open>
  The Resource Manager over any entry store: the durable metadata decode to what was saved, the state
  stays well formed, acknowledged mutations survive a restart, failed ones are taken back, and the walk
  up the hierarchy ends.
\<close>

section \<open>The durable form\<close>

definition times_ok :: "project \<Rightarrow> bool" where
  "times_ok p \<longleftrightarrow> rfc3339 (p_create p) \<and> rfc3339 (p_delete p)"

definition unseed :: "project \<Rightarrow> project" where "unseed p = p\<lparr>p_seeded := False\<rparr>"

lemma dec_enc_project: "times_ok p \<Longrightarrow> dec_project b (enc_project p) = Inr (unseed p) \<and> enc_project p \<noteq> JNull"
  by (cases p) (simp add: dec_project_def enc_project_def dec_struct_def omit_str_def dec_project_member_def
      project_fields_def zero_project_def set_text_def unseed_def times_ok_def)

lemma dec_enc_organization: "dec_organization (enc_organization g) = Inr (id g) \<and> enc_organization g \<noteq> JNull"
  by (cases g) (simp add: dec_organization_def enc_organization_def dec_struct_def omit_str_def dec_organization_member_def set_text_def)

lemma dec_enc_folder: "dec_folder b (enc_folder f) = Inr (id f) \<and> enc_folder f \<noteq> JNull"
  by (cases f) (simp add: dec_folder_def enc_folder_def dec_struct_def omit_str_def dec_folder_member_def set_text_def)

text \<open>Well-formed state: Go maps without nil entries, readable times, and the two defaults.\<close>

definition rm_wf :: "'s rm_api \<Rightarrow> bool" where
  "rm_wf api \<longleftrightarrow> gm_wf (rm_projects api) \<and> gm_wf (rm_orgs api) \<and> gm_wf (rm_folders api) \<and>
     no_nil (rm_projects api) \<and> no_nil (rm_orgs api) \<and> no_nil (rm_folders api) \<and>
     (\<forall>k p. gm_get (rm_projects api) k = Some (Some p) \<longrightarrow> times_ok p)"

definition rm_defaults :: "'s rm_api \<Rightarrow> bool" where
  "rm_defaults api \<longleftrightarrow> gm_get (rm_projects api) defaultProjectID \<noteq> None \<and> gm_get (rm_orgs api) defaultOrgName \<noteq> None"

lemma enc_ptr_map_Nil: "m = [] \<Longrightarrow> enc_ptr_map f m = JObj []"
  by (simp add: enc_ptr_map_def sort_members_def)

lemma dec_enc_metadata:
  assumes "rm_wf api"
  shows "\<exists>md. dec_metadata (enc_metadata api) = Inr md \<and>
    or_empty (md_projects md) = map_ptrs unseed (sort_members (rm_projects api)) \<and>
    or_empty (md_orgs md) = map_ptrs id (sort_members (rm_orgs api)) \<and>
    or_empty (md_folders md) = map_ptrs id (sort_members (rm_folders api))"
proof -
  have p: "dec_ptr_map (dec_project False) (enc_ptr_map enc_project (rm_projects api)) None =
      Inr (Some (map_ptrs unseed (sort_members (rm_projects api))))"
    using assms by (intro dec_enc_ptr_map dec_enc_project) (auto simp: rm_wf_def gm_get_mem)
  have g: "dec_ptr_map dec_organization (enc_ptr_map enc_organization (rm_orgs api)) None =
      Inr (Some (map_ptrs id (sort_members (rm_orgs api))))"
    using assms by (intro dec_enc_ptr_map dec_enc_organization) (auto simp: rm_wf_def)
  have f: "dec_ptr_map (dec_folder False) (enc_ptr_map enc_folder (rm_folders api)) None =
      Inr (Some (map_ptrs id (sort_members (rm_folders api))))"
    using assms by (intro dec_enc_ptr_map dec_enc_folder) (auto simp: rm_wf_def)
  show ?thesis
    by (cases "rm_orgs api = []"; cases "rm_folders api = []")
      (simp_all add: dec_metadata_def enc_metadata_def dec_struct_def dec_metadata_member_def p g f or_empty_def
        map_ptrs_def sort_members_def)
qed

section \<open>Handlers keep the state well formed\<close>

definition same_resources :: "'s rm_api \<Rightarrow> 's rm_api \<Rightarrow> bool" where
  "same_resources a b \<longleftrightarrow> rm_projects a = rm_projects b \<and> rm_orgs a = rm_orgs b \<and> rm_folders a = rm_folders b"

lemma same_resources_refl [simp]: "same_resources a a"
  by (simp add: same_resources_def)

lemma rm_wf_same: "same_resources a b \<Longrightarrow> rm_wf a = rm_wf b"
  by (simp add: same_resources_def rm_wf_def)

lemma rm_defaults_same: "same_resources a b \<Longrightarrow> rm_defaults a = rm_defaults b"
  by (simp add: same_resources_def rm_defaults_def)

lemma rm_persist_same: "rm_persist save api = (o', api') \<Longrightarrow> same_resources api' api"
  by (auto simp: rm_persist_def same_resources_def split: option.splits if_splits prod.splits)

lemma rm_persist_wf: "rm_persist save api = (o', api') \<Longrightarrow> rm_wf api \<Longrightarrow> o' \<noteq> PersistPanics"
  by (auto simp: rm_persist_def rm_wf_def split: option.splits if_splits prod.splits)

lemma enc_metadata_same: "same_resources a b \<Longrightarrow> enc_metadata a = enc_metadata b"
  by (simp add: same_resources_def enc_metadata_def)

lemma rm_wf_project:
  "rm_wf api \<Longrightarrow> times_ok p \<Longrightarrow> rm_wf (api\<lparr>rm_projects := gm_set i (Some p) (rm_projects api)\<rparr>)"
  by (auto simp: rm_wf_def no_nil_set split: if_splits)

lemma rm_wf_project_del: "rm_wf api \<Longrightarrow> rm_wf (api\<lparr>rm_projects := gm_del i (rm_projects api)\<rparr>)"
  by (auto simp: rm_wf_def no_nil_del split: if_splits)

lemma rm_wf_folder: "rm_wf api \<Longrightarrow> rm_wf (api\<lparr>rm_folders := gm_set i (Some f) (rm_folders api)\<rparr>)"
  by (auto simp: rm_wf_def no_nil_set)

lemma rm_wf_org: "rm_wf api \<Longrightarrow> rm_wf (api\<lparr>rm_orgs := gm_set i (Some f) (rm_orgs api)\<rparr>)"
  by (auto simp: rm_wf_def no_nil_set)

lemma rm_wf_get: "rm_wf api \<Longrightarrow> ptr_get (rm_projects api) i = Some p \<Longrightarrow> times_ok p"
  by (auto simp: rm_wf_def ptr_get_def split: option.splits)

lemma times_ok_new: "rfc3339 (ck_text now) \<Longrightarrow> times_ok (new_project now p)"
  by (simp add: times_ok_def new_project_def)

lemma times_ok_default: "rfc3339 (ck_text now) \<Longrightarrow> times_ok (default_project now)"
  by (simp add: times_ok_def default_project_def)

section \<open>Over an entry store\<close>

text \<open>What the store may hold: nothing yet, or some well-formed snapshot.\<close>

definition snapshot_ok :: "json option \<Rightarrow> bool" where
  "snapshot_ok d \<longleftrightarrow> d = None \<or> (\<exists>m :: unit rm_api. rm_wf m \<and> d = Some (enc_metadata m))"

definition rm_inv :: "(string \<Rightarrow> 's \<Rightarrow> json option) \<Rightarrow> 's rm_api \<Rightarrow> bool" where
  "rm_inv durable api \<longleftrightarrow> rm_wf api \<and> (\<forall>s. rm_store api = Some s \<longrightarrow> snapshot_ok (durable rmEntry s))"

definition forget_store :: "'s rm_api \<Rightarrow> unit rm_api" where
  "forget_store api = \<lparr>rm_store = None, rm_projects = rm_projects api, rm_orgs = rm_orgs api, rm_folders = rm_folders api\<rparr>"

lemma snapshot_okI: "rm_wf api \<Longrightarrow> snapshot_ok (Some (enc_metadata api))"
  unfolding snapshot_ok_def
  by (intro disjI2 exI [of _ "forget_store api"]) (simp add: forget_store_def rm_wf_def enc_metadata_def)

definition resp_ok :: "rm_response \<Rightarrow> bool" where
  "resp_ok resp \<longleftrightarrow> (\<exists>b. resp = RmResponse 200 b)"

text \<open>What every mutating handler ensures of its state, its response and the store.\<close>

definition handled :: "(string \<Rightarrow> 's \<Rightarrow> json option) \<Rightarrow> 's rm_api \<Rightarrow> rm_response \<Rightarrow> 's rm_api \<Rightarrow> bool" where
  "handled durable api resp api' \<longleftrightarrow>
     rm_inv durable api' \<and> resp \<noteq> RmPanic \<and> (rm_defaults api \<longrightarrow> rm_defaults api') \<and>
     (resp_ok resp \<longrightarrow> (\<forall>s. rm_store api' = Some s \<longrightarrow> durable rmEntry s = Some (enc_metadata api')))"

lemma handled_refused: "rm_inv durable api \<Longrightarrow> code \<noteq> 200 \<Longrightarrow> handled durable api (rm_error code status) api"
  by (simp add: handled_def rm_error_def resp_ok_def)

locale resource_store = entry_store save load durable
  for save :: "string \<Rightarrow> json option \<Rightarrow> 's \<Rightarrow> store_error option \<times> 's"
    and load :: "string \<Rightarrow> 's \<Rightarrow> (store_error + json) \<times> 's"
    and durable :: "string \<Rightarrow> 's \<Rightarrow> json option"
begin

lemma persist_durable:
  assumes "rm_persist save api = (o', api')" and "rm_store api = Some s"
  obtains s' where "rm_store api' = Some s'" "o' = Persisted \<Longrightarrow> durable rmEntry s' = Some (enc_metadata api)"
    "durable rmEntry s' = durable rmEntry s \<or> durable rmEntry s' = Some (enc_metadata api)"
proof (cases "\<not> no_nil (rm_orgs api) \<or> \<not> no_nil (rm_folders api)")
  case True
  with assms have "o' = PersistPanics" "api' = api" by (auto simp: rm_persist_def)
  with that assms(2) show ?thesis by simp
next
  case False
  obtain err s' where sv: "save rmEntry (Some (enc_metadata api)) s = (err, s')" by fastforce
  with False assms have "rm_store api' = Some s'" "o' = (if err = None then Persisted else PersistFailed)"
    by (auto simp: rm_persist_def split: option.splits)
  moreover have "err = None \<Longrightarrow> durable rmEntry s' = Some (enc_metadata api)" using save_ok sv by auto
  moreover have "durable rmEntry s' = durable rmEntry s \<or> durable rmEntry s' = Some (enc_metadata api)"
    using save_cases [OF sv] by (metis option.inject)
  ultimately show ?thesis using that by (simp split: if_splits)
qed

lemma persist_inv:
  assumes "rm_persist save api = (o', api')" and "rm_inv durable api"
  shows "rm_inv durable api' \<and> o' \<noteq> PersistPanics \<and> same_resources api' api"
proof -
  have same: "same_resources api' api" by (rule rm_persist_same [OF assms(1)])
  have wf: "rm_wf api" "rm_wf api'" using assms(2) rm_wf_same [OF same] by (simp_all add: rm_inv_def)
  have "snapshot_ok (durable rmEntry s')" if "rm_store api' = Some s'" for s'
  proof (cases "rm_store api")
    case None
    with assms(1) that show ?thesis by (auto simp: rm_persist_def)
  next
    case (Some s)
    with assms(2) have ok: "snapshot_ok (durable rmEntry s)" by (simp add: rm_inv_def)
    from persist_durable [OF assms(1) Some] that
    have "durable rmEntry s' = durable rmEntry s \<or> durable rmEntry s' = Some (enc_metadata api)" by auto
    with ok snapshot_okI [OF wf(1)] show ?thesis by auto
  qed
  with wf same rm_persist_wf [OF assms(1)] show ?thesis by (simp add: rm_inv_def)
qed

lemma inv_replace: "rm_inv durable api \<Longrightarrow> rm_wf api' \<Longrightarrow> rm_store api' = rm_store api \<Longrightarrow> rm_inv durable api'"
  by (simp add: rm_inv_def)

lemma persist_changed:
  assumes "rm_persist save api1 = (o', api')" and "rm_inv durable api" and "rm_wf api1" and "rm_store api1 = rm_store api"
  shows "rm_inv durable api' \<and> o' \<noteq> PersistPanics \<and> same_resources api' api1"
  using persist_inv [OF assms(1) inv_replace [OF assms(2-4)]] .

lemma persisted_durable:
  assumes "rm_persist save api1 = (Persisted, api')" and "rm_store api' = Some s'"
  shows "durable rmEntry s' = Some (enc_metadata api')"
proof -
  from assms obtain s where s: "rm_store api1 = Some s" by (cases "rm_store api1") (auto simp: rm_persist_def)
  with persist_durable [OF assms(1) s] assms(2) have "durable rmEntry s' = Some (enc_metadata api1)" by auto
  with enc_metadata_same [OF rm_persist_same [OF assms(1)]] show ?thesis by simp
qed

text \<open>The common shape: change the memory, persist, and on failure perhaps change the memory back.\<close>

lemma handled_persist:
  assumes "rm_persist save api1 = (o', api2)" and "rm_inv durable api" and "rm_wf api1" and "rm_store api1 = rm_store api"
    and "rm_defaults api \<Longrightarrow> rm_defaults api1"
  shows "o' = Persisted \<Longrightarrow> resp \<noteq> RmPanic \<Longrightarrow> handled durable api resp api2"
    and "o' = PersistFailed \<Longrightarrow> rm_wf (f api2) \<Longrightarrow> rm_store (f api2) = rm_store api2 \<Longrightarrow> rm_defaults (f api2) = rm_defaults api \<Longrightarrow>
      code \<noteq> 200 \<Longrightarrow> handled durable api (rm_error code status) (f api2)"
    and "o' \<noteq> PersistPanics"
proof -
  note p = persist_changed [OF assms(1-4)]
  show "handled durable api resp api2" if "o' = Persisted" "resp \<noteq> RmPanic"
    using p persisted_durable [OF assms(1) [unfolded that(1)]] that(2) assms(5) rm_defaults_same [of api2 api1]
    by (simp add: handled_def)
  show "handled durable api (rm_error code status) (f api2)" if "o' = PersistFailed" "rm_wf (f api2)"
      "rm_store (f api2) = rm_store api2" "rm_defaults (f api2) = rm_defaults api" "code \<noteq> 200"
    using p inv_replace [of api2 "f api2"] that by (simp add: handled_def rm_error_def resp_ok_def)
  show "o' \<noteq> PersistPanics" using p by simp
qed

lemma commitProject_handled:
  assumes "commitProject save project api = (resp, api')" and inv: "rm_inv durable api" and ok: "times_ok project"
    and new: "gm_get (rm_projects api) (p_id project) = None"
  shows "handled durable api resp api'"
proof -
  let ?api1 = "api\<lparr>rm_projects := gm_set (p_id project) (Some project) (rm_projects api)\<rparr>"
  obtain o' api2 where p: "rm_persist save ?api1 = (o', api2)" by fastforce
  have wf: "rm_wf ?api1" using inv ok by (simp add: rm_inv_def rm_wf_project)
  have d: "rm_defaults api \<Longrightarrow> rm_defaults ?api1" by (simp add: rm_defaults_def)
  have st: "rm_store ?api1 = rm_store api" by simp
  note h = handled_persist [OF p inv wf st d]
  have same: "same_resources api2 ?api1" by (rule rm_persist_same [OF p])
  show ?thesis
  proof (cases o')
    case Persisted
    with assms(1) p h(1) show ?thesis by (auto simp: doneOperation_def commitProject_def)
  next
    case PersistFailed
    let ?f = "\<lambda>a. a\<lparr>rm_projects := gm_del (p_id project) (rm_projects a)\<rparr>"
    have "rm_wf (?f api2)" using same wf rm_wf_same rm_wf_project_del by blast
    moreover have "rm_defaults (?f api2) = rm_defaults api" using same new by (auto simp: rm_defaults_def same_resources_def)
    ultimately show ?thesis using assms(1) p PersistFailed h(2) [of ?f 500] by (auto simp: commitProject_def)
  qed (use h(3) in simp)
qed

lemma createProject_handled:
  assumes "createProject save now r api = (resp, api')" and inv: "rm_inv durable api" and now: "rfc3339 (ck_text now)"
  shows "handled durable api resp api'"
proof (cases "dec_body (dec_project True) r")
  case None
  with assms(1) handled_refused [OF inv] show ?thesis by (auto simp: createProject_def)
next
  case (Some input)
  have i: "p_id (new_project now input) = p_id input" by (simp add: new_project_def)
  show ?thesis
    using assms(1) handled_refused [OF inv] commitProject_handled [OF _ inv times_ok_new [OF now]]
    unfolding createProject_def Some option.case i by (auto split: if_splits simp: i)
qed

lemma removeProject_handled:
  assumes "removeProject save now i project api = (resp, api')" and inv: "rm_inv durable api"
    and i: "i \<noteq> defaultProjectID" and pr: "ptr_get (rm_projects api) i = Some project"
  shows "handled durable api resp api'"
proof -
  let ?api1 = "api\<lparr>rm_projects := gm_del i (rm_projects api)\<rparr>"
  obtain o' api2 where p: "rm_persist save ?api1 = (o', api2)" by fastforce
  have wf: "rm_wf ?api1" using inv by (simp add: rm_inv_def rm_wf_project_del)
  have d: "rm_defaults api \<Longrightarrow> rm_defaults ?api1" using i by (simp add: rm_defaults_def)
  have st: "rm_store ?api1 = rm_store api" by simp
  note h = handled_persist [OF p inv wf st d]
  have same: "same_resources api2 ?api1" by (rule rm_persist_same [OF p])
  show ?thesis
  proof (cases o')
    case Persisted
    with assms(1) p h(1) show ?thesis by (auto simp: doneOperation_def removeProject_def)
  next
    case PersistFailed
    let ?f = "\<lambda>a. a\<lparr>rm_projects := gm_set i (Some project) (rm_projects a)\<rparr>"
    have "times_ok project" using inv pr rm_wf_get by (auto simp: rm_inv_def)
    then have "rm_wf (?f api2)" using same wf rm_wf_same rm_wf_project by blast
    moreover have "rm_defaults (?f api2) = rm_defaults api" using same i by (auto simp: rm_defaults_def same_resources_def)
    ultimately show ?thesis using assms(1) p PersistFailed h(2) [of ?f 500] by (auto simp: removeProject_def)
  qed (use h(3) in simp)
qed

lemma deleteProject_handled:
  assumes "deleteProject save now i api = (resp, api')" and inv: "rm_inv durable api"
  shows "handled durable api resp api'"
  using assms(1) handled_refused [OF inv] removeProject_handled [OF _ inv]
  by (auto simp: deleteProject_def split: if_splits option.splits)

lemma PutFolder_handled:
  assumes "PutFolder save f api = (res, api')" and inv: "rm_inv durable api"
  shows "res \<noteq> Some PersistPanics" and "res = Some Persisted \<Longrightarrow> resp \<noteq> RmPanic \<Longrightarrow> handled durable api resp api'"
    and "res \<noteq> Some Persisted \<Longrightarrow> code \<noteq> 200 \<Longrightarrow> handled durable api (rm_error code status) api'"
proof -
  let ?api1 = "api\<lparr>rm_folders := gm_set (f_name f) (Some f) (rm_folders api)\<rparr>"
  obtain o' api2 where p: "rm_persist save ?api1 = (o', api2)" by fastforce
  have wf: "rm_wf ?api1" using inv by (simp add: rm_inv_def rm_wf_folder)
  have d: "rm_defaults api \<Longrightarrow> rm_defaults ?api1" by (simp add: rm_defaults_def)
  have st: "rm_store ?api1 = rm_store api" by simp
  note h = handled_persist [OF p inv wf st d]
  have same: "same_resources api2 ?api1" by (rule rm_persist_same [OF p])
  have res: "(res, api') = (None, api) \<or> (res, api') = (Some o', api2)" using assms(1) p by (auto simp: PutFolder_def split: if_splits)
  show "res \<noteq> Some PersistPanics" using res h(3) by auto
  show "handled durable api resp api'" if "res = Some Persisted" "resp \<noteq> RmPanic"
    using res that h(1) by auto
  have "rm_wf api2" "rm_defaults api2 = rm_defaults api"
    using same wf rm_wf_same by (auto simp: rm_defaults_def same_resources_def rm_wf_def)
  then show "handled durable api (rm_error code status) api'" if "res \<noteq> Some Persisted" "code \<noteq> 200"
    using res that h(2) [of "\<lambda>a. a" code] h(3) handled_refused [OF inv that(2)] by (cases o') auto
qed

lemma createFolder_handled:
  assumes "createFolder save now r api = (resp, api')" and inv: "rm_inv durable api"
  shows "handled durable api resp api'"
proof (cases "dec_body (dec_folder True) r")
  case None
  with assms(1) handled_refused [OF inv] show ?thesis by (auto simp: createFolder_def)
next
  case (Some input)
  let ?f = "if f_name input = [] then input\<lparr>f_name := ''folders/'' @ dec_nat (ck_nanos now)\<rparr> else input"
  obtain res api2 where put: "PutFolder save ?f api = (res, api2)" by fastforce
  note h = PutFolder_handled [OF put inv]
  have d: "doneOperation n b \<noteq> RmPanic" for n b by (simp add: doneOperation_def)
  show ?thesis
  proof (cases "f_parent input = []")
    case True
    with assms(1) Some handled_refused [OF inv] show ?thesis by (auto simp: createFolder_def)
  next
    case False
    with assms(1) Some put h(1) have
      "res = Some Persisted \<and> api' = api2 \<and> resp \<noteq> RmPanic \<or> res \<noteq> Some Persisted \<and> api' = api2 \<and> resp = rm_error 400 ''FAILED_PRECONDITION''"
      unfolding createFolder_def Let_def using d by (auto split: option.splits rm_persist.splits)
    with h(2) h(3) [of 400] show ?thesis by auto
  qed
qed

lemma serve_handled:
  assumes "rm_serve save now r api = (resp, api')" and inv: "rm_inv durable api" and now: "rfc3339 (ck_text now)"
  shows "rm_inv durable api' \<and> resp \<noteq> RmPanic \<and> (rm_defaults api \<longrightarrow> rm_defaults api')"
    and "rq_method r \<noteq> ''GET'' \<Longrightarrow> handled durable api resp api'"
proof -
  have nn: "no_nil (rm_projects api)" using inv by (simp add: rm_inv_def rm_wf_def)
  have "(api' = api \<and> resp \<noteq> RmPanic) \<or> handled durable api resp api'"
    using assms(1) createProject_handled [OF _ inv now] deleteProject_handled [OF _ inv] createFolder_handled [OF _ inv] nn
    by (auto simp: rm_serve_def Let_def rm_error_def getProject_def getFolder_def getOrganization_def listProjects_def
        split: if_splits option.splits)
  with inv show "rm_inv durable api' \<and> resp \<noteq> RmPanic \<and> (rm_defaults api \<longrightarrow> rm_defaults api')"
    by (auto simp: handled_def)
  show "handled durable api resp api'" if "rq_method r \<noteq> ''GET''"
    using assms(1) createProject_handled [OF _ inv now] deleteProject_handled [OF _ inv] createFolder_handled [OF _ inv] that inv
    by (auto simp: rm_serve_def Let_def rm_error_def handled_def resp_ok_def split: if_splits)
qed

end

section \<open>Restarts\<close>

text \<open>The memory a restart builds from a snapshot.\<close>

definition loaded_from :: "unit rm_api \<Rightarrow> 's \<Rightarrow> 's rm_api" where
  "loaded_from m s = \<lparr>rm_store = Some s, rm_projects = map_ptrs unseed (sort_members (rm_projects m)),
     rm_orgs = map_ptrs id (sort_members (rm_orgs m)), rm_folders = map_ptrs id (sort_members (rm_folders m))\<rparr>"

lemma loaded_from_wf: "rm_wf m \<Longrightarrow> rm_wf (loaded_from m s)"
  by (auto simp: rm_wf_def loaded_from_def times_ok_def unseed_def)

lemma loaded_from_defaults: "rm_wf m \<Longrightarrow> rm_defaults (loaded_from m s) = rm_defaults m"
  by (simp add: rm_wf_def rm_defaults_def loaded_from_def)

definition restarted :: "'s rm_api \<Rightarrow> 't rm_api \<Rightarrow> bool" where
  "restarted api m \<longleftrightarrow> ptr_get (rm_projects api) = map_option unseed \<circ> ptr_get (rm_projects m) \<and>
     ptr_get (rm_orgs api) = ptr_get (rm_orgs m) \<and> ptr_get (rm_folders api) = ptr_get (rm_folders m)"

lemma restarted_loaded: "rm_wf m \<Longrightarrow> restarted (loaded_from m s) m"
  by (auto simp: restarted_def loaded_from_def rm_wf_def fun_eq_iff option.map_id)

definition load_shape :: "'s \<Rightarrow> rm_metadata option \<Rightarrow> 's rm_api" where
  "load_shape s md = (case md of None \<Rightarrow> \<lparr>rm_store = Some s, rm_projects = [], rm_orgs = [], rm_folders = []\<rparr>
     | Some m \<Rightarrow> \<lparr>rm_store = Some s, rm_projects = or_empty (md_projects m), rm_orgs = or_empty (md_orgs m),
         rm_folders = or_empty (md_folders m)\<rparr>)"

lemma no_seeds:
  assumes "rm_defaults api"
  shows "seed_default save now api = (Persisted, api)" "seed_organization save api = (Persisted, api)"
  using assms by (auto simp: seed_default_def seed_organization_def rm_defaults_def)

context resource_store
begin

lemma load_snapshot:
  assumes "load_metadata load s = (Inr r, s')" and "rm_wf (m :: unit rm_api)" and "durable rmEntry s = Some (enc_metadata m)"
  shows "load_shape s' r = loaded_from m s' \<and> durable rmEntry s' = durable rmEntry s"
proof -
  obtain l s1 where l: "load rmEntry s = (l, s1)" by fastforce
  have same: "durable rmEntry s1 = durable rmEntry s" by (rule load_same [OF l])
  from l assms(1,3) load_absent obtain j where j: "l = Inr j"
    by (cases l) (fastforce simp: load_metadata_def split: if_splits)+
  with l load_value assms(3) have "j = enc_metadata m" by simp
  with dec_enc_metadata [OF assms(2)] assms(1) l j same show ?thesis
    by (auto simp: load_metadata_def load_shape_def loaded_from_def)
qed

lemma load_nothing:
  assumes "load_metadata load s = (Inr r, s')" and "durable rmEntry s = None"
  shows "r = None \<and> durable rmEntry s' = None"
proof -
  obtain l s1 where l: "load rmEntry s = (l, s1)" by fastforce
  have "durable rmEntry s1 = durable rmEntry s" by (rule load_same [OF l])
  with assms l load_value show ?thesis by (cases l) (fastforce simp: load_metadata_def split: if_splits)+
qed

lemma load_inv:
  assumes "load_metadata load s = (Inr r, s')" and "snapshot_ok (durable rmEntry s)"
  shows "rm_inv durable (load_shape s' r)"
proof (cases "durable rmEntry s")
  case None
  with load_nothing [OF assms(1)] show ?thesis by (simp add: rm_inv_def load_shape_def rm_wf_def snapshot_ok_def)
next
  case (Some j)
  with assms(2) obtain m where m: "rm_wf (m :: unit rm_api)" "durable rmEntry s = Some (enc_metadata m)"
    by (auto simp: snapshot_ok_def)
  with load_snapshot [OF assms(1) m] loaded_from_wf [OF m(1)] assms(2) show ?thesis
    by (simp add: rm_inv_def) (simp add: loaded_from_def)
qed

lemma seeds_inv:
  assumes "seed_default save now api = (Persisted, api1)" and "seed_organization save api1 = (Persisted, api2)"
    and "rm_inv durable api" and "rfc3339 (ck_text now)"
  shows "rm_inv durable api2 \<and> rm_defaults api2"
proof -
  have 1: "rm_inv durable api1 \<and> gm_get (rm_projects api1) defaultProjectID \<noteq> None"
  proof (cases "gm_get (rm_projects api) defaultProjectID")
    case None
    let ?a = "api\<lparr>rm_projects := gm_set defaultProjectID (Some (default_project now)) (rm_projects api)\<rparr>"
    have p: "rm_persist save ?a = (Persisted, api1)" using assms(1) None by (simp add: seed_default_def)
    have "rm_wf ?a" using assms(3,4) rm_wf_project times_ok_default by (auto simp: rm_inv_def)
    with persist_changed [OF p assms(3)] show ?thesis by (simp add: same_resources_def)
  qed (use assms(1,3) in \<open>simp add: seed_default_def\<close>)
  show ?thesis
  proof (cases "gm_get (rm_orgs api1) defaultOrgName")
    case None
    let ?a = "api1\<lparr>rm_orgs := gm_set defaultOrgName (Some default_organization) (rm_orgs api1)\<rparr>"
    have p: "rm_persist save ?a = (Persisted, api2)" using assms(2) None by (simp add: seed_organization_def)
    have "rm_wf ?a" using 1 rm_wf_org by (auto simp: rm_inv_def)
    with persist_changed [OF p, of api1] 1 show ?thesis by (simp add: same_resources_def rm_defaults_def)
  qed (use assms(2) 1 in \<open>simp add: seed_organization_def rm_defaults_def\<close>)
qed

lemma new_from_store:
  assumes "NewResourceManager save load now (Some s) = Some api2"
  obtains r s' api1 where "load_metadata load s = (Inr r, s')" "seed_default save now (load_shape s' r) = (Persisted, api1)"
    "seed_organization save api1 = (Persisted, api2)"
  using assms unfolding NewResourceManager_def load_shape_def
  by (auto split: option.splits prod.splits rm_persist.splits sum.splits)

lemma new_inv:
  assumes "NewResourceManager save load now (Some s) = Some api2" and "rfc3339 (ck_text now)" and "snapshot_ok (durable rmEntry s)"
  shows "rm_inv durable api2 \<and> rm_defaults api2"
proof -
  from assms(1) obtain r s' api1 where *: "load_metadata load s = (Inr r, s')"
    "seed_default save now (load_shape s' r) = (Persisted, api1)" "seed_organization save api1 = (Persisted, api2)"
    by (rule new_from_store)
  show ?thesis by (rule seeds_inv(1) [OF *(2,3) load_inv [OF *(1) assms(3)] assms(2)])
qed

lemma new_memory_inv:
  assumes "NewResourceManager save load now None = Some api2" and "rfc3339 (ck_text now)"
  shows "rm_inv durable api2 \<and> rm_defaults api2"
proof -
  let ?e = "\<lparr>rm_store = None, rm_projects = [], rm_orgs = [], rm_folders = []\<rparr>"
  from assms(1) obtain api1 where *: "seed_default save now ?e = (Persisted, api1)" "seed_organization save api1 = (Persisted, api2)"
    by (auto simp: NewResourceManager_def split: prod.splits rm_persist.splits)
  show ?thesis by (rule seeds_inv(1) [OF * _ assms(2)]) (simp add: rm_inv_def rm_wf_def)
qed

lemma new_restarts:
  assumes "NewResourceManager save load now (Some s) = Some api2" and "rm_wf api" and "rm_defaults api"
    and "durable rmEntry s = Some (enc_metadata api)"
  shows "restarted api2 api"
proof -
  let ?m = "forget_store api"
  have m: "rm_wf ?m" "rm_defaults ?m" "enc_metadata ?m = enc_metadata api"
    using assms(2,3) by (simp_all add: forget_store_def rm_wf_def rm_defaults_def enc_metadata_def)
  from assms(1) obtain r s' api1 where *: "load_metadata load s = (Inr r, s')"
    "seed_default save now (load_shape s' r) = (Persisted, api1)" "seed_organization save api1 = (Persisted, api2)"
    by (rule new_from_store)
  have "load_shape s' r = loaded_from ?m s'" using load_snapshot [OF *(1) m(1)] assms(4) m(3) by simp
  moreover have "rm_defaults (loaded_from ?m s')" by (simp only: loaded_from_defaults [OF m(1)] m(2))
  ultimately have "api2 = loaded_from ?m s'" using *(2,3) by (simp add: no_seeds)
  with restarted_loaded [OF m(1), of s'] show ?thesis by (simp add: restarted_def forget_store_def)
qed

end

section \<open>Over the profile store\<close>

interpretation disk_resources: resource_store Save Load durable_entry
  by (rule resource_store.intro) (rule disk_store.entry_store_axioms)

text \<open>
  The states a Resource Manager reaches over its store: constructed on a store without its entry, or
  without a store, then any requests, whatever saves fail, and any restarts.
\<close>

inductive rm_reachable :: "store rm_api \<Rightarrow> bool" where
  fresh: "durable_entry rmEntry s = None \<Longrightarrow> rfc3339 (ck_text now) \<Longrightarrow> NewResourceManager Save Load now (Some s) = Some api \<Longrightarrow>
    rm_reachable api"
| memory: "rfc3339 (ck_text now) \<Longrightarrow> NewResourceManager Save Load now None = Some api \<Longrightarrow> rm_reachable api"
| request: "rm_reachable api \<Longrightarrow> rfc3339 (ck_text now) \<Longrightarrow> rm_serve Save now r api = (resp, api') \<Longrightarrow> rm_reachable api'"
| restart: "rm_reachable api \<Longrightarrow> rm_store api = Some s \<Longrightarrow> rfc3339 (ck_text now) \<Longrightarrow>
    NewResourceManager Save Load now (Some s) = Some api' \<Longrightarrow> rm_reachable api'"

lemma reachable_inv: "rm_reachable api \<Longrightarrow> rm_inv durable_entry api \<and> rm_defaults api"
proof (induction rule: rm_reachable.induct)
  case (fresh s now api)
  then show ?case using disk_resources.new_inv by (simp add: snapshot_ok_def)
next
  case (memory now api)
  then show ?case using disk_resources.new_memory_inv by blast
next
  case (request api now r resp api')
  then show ?case using disk_resources.serve_handled(1) by blast
next
  case (restart api s now api')
  from restart have "snapshot_ok (durable_entry rmEntry s)" by (simp add: rm_inv_def)
  with restart disk_resources.new_inv show ?case by blast
qed

text \<open>
  C29: The Resource Manager never panics and never loses its defaults.  In every state it reaches, through
  any requests, failed saves and restarts, the maps hold no nil entry and only readable times, the seeded
  project and organization are there, and the next request is answered.
\<close>
theorem reachable_resources_wf:
  assumes "rm_reachable api"
  shows "rm_wf api \<and> rm_defaults api \<and> ProjectIDs api \<noteq> None \<and>
    (rfc3339 (ck_text now) \<longrightarrow> fst (rm_serve Save now r api) \<noteq> RmPanic)"
  using reachable_inv [OF assms] disk_resources.serve_handled(1) [OF surjective_pairing, where now = now and r = r and api = api]
  by (auto simp: rm_inv_def rm_wf_def ProjectIDs_def)

text \<open>
  C5: what the Resource Manager acknowledged survives a restart.  When a reachable manager answers a
  mutation with success, a manager constructed from its store afterwards finds exactly the projects,
  folders and organizations it had, the seeded mark apart.
\<close>
theorem acknowledged_mutation_survives_restart:
  assumes "rm_reachable api" and "rfc3339 (ck_text now)" and "rq_method r \<noteq> ''GET''"
    and "rm_serve Save now r api = (RmResponse 200 b, api')" and "rm_store api' = Some s"
    and "NewResourceManager Save Load later (Some s) = Some api2"
  shows "ptr_get (rm_projects api2) = map_option unseed \<circ> ptr_get (rm_projects api') \<and>
    ptr_get (rm_orgs api2) = ptr_get (rm_orgs api') \<and> ptr_get (rm_folders api2) = ptr_get (rm_folders api')"
proof -
  have inv: "rm_inv durable_entry api" "rm_defaults api" using reachable_inv [OF assms(1)] by simp_all
  have "handled durable_entry api (RmResponse 200 b) api'"
    by (rule disk_resources.serve_handled(2) [OF assms(4) inv(1) assms(2,3)])
  with inv assms(5) have "rm_wf api'" "rm_defaults api'" "durable_entry rmEntry s = Some (enc_metadata api')"
    by (auto simp: handled_def rm_inv_def resp_ok_def)
  from disk_resources.new_restarts [OF assms(6) this] show ?thesis by (simp add: restarted_def)
qed

text \<open>
  A project mutation that fails leaves the projects as they were.  Whatever store it runs on, a
  create or delete of a project that is not answered with success changes no project, folder or
  organization in memory.
\<close>
theorem failed_project_mutation_rolled_back:
  assumes "createProject save now r api = (RmResponse code b, api') \<or> deleteProject save now i api = (RmResponse code b, api')"
    and "code \<noteq> 200"
  shows "ptr_get (rm_projects api') = ptr_get (rm_projects api) \<and> rm_orgs api' = rm_orgs api \<and> rm_folders api' = rm_folders api"
  using assms(1)
proof (elim disjE)
  have new_id: "p_id (new_project now q) = p_id q" for q by (simp add: new_project_def)
  assume "createProject save now r api = (RmResponse code b, api')"
  with assms(2) consider (same) "api' = api"
    | (commit) q where "gm_get (rm_projects api) (p_id q) = None" "commitProject save (new_project now q) api = (RmResponse code b, api')"
    unfolding createProject_def by (auto split: option.splits if_splits)
  then show ?thesis
  proof cases
    case commit
    let ?p = "new_project now q"
    from commit obtain api2 where "rm_persist save (api\<lparr>rm_projects := gm_set (p_id ?p) (Some ?p) (rm_projects api)\<rparr>) = (PersistFailed, api2)"
      "api' = api2\<lparr>rm_projects := gm_del (p_id ?p) (rm_projects api2)\<rparr>"
      using assms(2) by (auto simp: commitProject_def doneOperation_def split: prod.splits rm_persist.splits)
    with rm_persist_same commit(1) new_id [of q] show ?thesis by (fastforce simp: same_resources_def fun_eq_iff ptr_get_def)
  qed simp
next
  assume "deleteProject save now i api = (RmResponse code b, api')"
  with assms(2) consider (same) "api' = api"
    | (remove) p where "ptr_get (rm_projects api) i = Some p" "removeProject save now i p api = (RmResponse code b, api')"
    unfolding deleteProject_def by (auto split: option.splits if_splits)
  then show ?thesis
  proof cases
    case remove
    then obtain api2 where "rm_persist save (api\<lparr>rm_projects := gm_del i (rm_projects api)\<rparr>) = (PersistFailed, api2)"
      "api' = api2\<lparr>rm_projects := gm_set i (Some p) (rm_projects api2)\<rparr>"
      using assms(2) by (auto simp: removeProject_def doneOperation_def split: prod.splits rm_persist.splits)
    with rm_persist_same remove(1) show ?thesis by (fastforce simp: same_resources_def fun_eq_iff)
  qed simp
qed

end
