(* ===== verification/Resource_Manager_Hierarchy.thy ===== *)
theory Resource_Manager_Hierarchy
  imports Resource_Manager_Properties
begin

text \<open>
  The walk up the resource hierarchy, concrete runs of the Resource Manager, and what it does with
  folders.
\<close>

section \<open>Ancestors\<close>

definition parent_link :: "'s rm_api \<Rightarrow> string \<Rightarrow> string \<Rightarrow> bool" where
  "parent_link api a b \<longleftrightarrow> parent_of api a = b"

lemma ancestors_loop_chain:
  assumes "set seen = set result" and "distinct result" and "result \<noteq> []" and "last result = current"
    and "successively (parent_link api) result" and "set (tl result) \<subseteq> all_parents api"
  shows "\<exists>more. ancestors_loop api seen result current = result @ more \<and> distinct (result @ more) \<and>
    successively (parent_link api) (result @ more) \<and> set (tl (result @ more)) \<subseteq> all_parents api \<and>
    (parent_of api (last (result @ more)) = [] \<or> parent_of api (last (result @ more)) \<in> set (result @ more))"
  using assms
proof (induction api seen result current rule: ancestors_loop.induct)
  case (1 api seen result current)
  let ?p = "parent_of api current"
  show ?case
  proof (cases "?p = [] \<or> ?p \<in> set seen")
    case True
    then have "ancestors_loop api seen result current = result" by (subst ancestors_loop.simps) auto
    with True 1 show ?thesis by (intro exI [of _ "[]"]) auto
  next
    case False
    then have run: "ancestors_loop api seen result current = ancestors_loop api (?p # seen) (result @ [?p]) ?p"
      by (subst ancestors_loop.simps) auto
    have "successively (parent_link api) (result @ [?p])"
      using 1 by (simp add: successively_append_iff parent_link_def)
    moreover have "set (tl (result @ [?p])) \<subseteq> all_parents api"
      using 1 False parent_of_mem [of api current] by (cases result) auto
    moreover have "distinct (result @ [?p])" "set (?p # seen) = set (result @ [?p])" using 1 False by auto
    ultimately obtain more where "ancestors_loop api (?p # seen) (result @ [?p]) ?p = (result @ [?p]) @ more"
      "distinct ((result @ [?p]) @ more)" "successively (parent_link api) ((result @ [?p]) @ more)"
      "set (tl ((result @ [?p]) @ more)) \<subseteq> all_parents api"
      "parent_of api (last ((result @ [?p]) @ more)) = [] \<or> parent_of api (last ((result @ [?p]) @ more)) \<in> set ((result @ [?p]) @ more)"
      using 1 False by auto
    with run show ?thesis by (intro exI [of _ "?p # more"]) simp
  qed
qed

lemma card_ptr_values: "card {p. \<exists>k. (k, Some p) \<in> set m} \<le> length m"
proof -
  have "{p. \<exists>k. (k, Some p) \<in> set m} \<subseteq> set (map (\<lambda>(k, v). the v) m)" by force
  then have "card {p. \<exists>k. (k, Some p) \<in> set m} \<le> card (set (map (\<lambda>(k, v). the v) m))" by (intro card_mono) auto
  also have "\<dots> \<le> length m" using card_length [of "map (\<lambda>(k, v). the v) m"] by simp
  finally show ?thesis .
qed

lemma card_all_parents: "card (all_parents api) \<le> length (rm_projects api) + length (rm_folders api)"
proof -
  have "card (all_parents api) \<le> card (p_parent ` {p. \<exists>k. (k, Some p) \<in> set (rm_projects api)}) +
      card (f_parent ` {f. \<exists>k. (k, Some f) \<in> set (rm_folders api)})"
    unfolding all_parents_def by (rule card_Un_le)
  also have "\<dots> \<le> card {p. \<exists>k. (k, Some p) \<in> set (rm_projects api)} + card {f. \<exists>k. (k, Some f) \<in> set (rm_folders api)}"
    by (intro add_mono card_image_le finite_ptr_values)
  also have "\<dots> \<le> length (rm_projects api) + length (rm_folders api)" by (intro add_mono card_ptr_values)
  finally show ?thesis .
qed

text \<open>
  C30: The walk up the hierarchy ends and is exact, also on cyclic data.  It starts at the resource,
  each next entry is the parent of the one before it, no entry occurs twice, the last one has no parent
  or one already listed, and there are at most as many as projects and folders and one more.
\<close>
theorem Ancestors_chain:
  "\<exists>more. Ancestors api r = trim_prefix r ''/v1/'' # more \<and> distinct (Ancestors api r) \<and>
     successively (parent_link api) (Ancestors api r) \<and>
     (parent_of api (last (Ancestors api r)) = [] \<or> parent_of api (last (Ancestors api r)) \<in> set (Ancestors api r)) \<and>
     length (Ancestors api r) \<le> 1 + length (rm_projects api) + length (rm_folders api)"
proof -
  let ?r = "trim_prefix r ''/v1/''"
  obtain more where m: "Ancestors api r = ?r # more" "distinct (?r # more)" "successively (parent_link api) (?r # more)"
    "set more \<subseteq> all_parents api" "parent_of api (last (?r # more)) = [] \<or> parent_of api (last (?r # more)) \<in> set (?r # more)"
    using ancestors_loop_chain [of "[?r]" "[?r]" ?r api] by (auto simp: Ancestors_def Let_def)
  have "length more = card (set more)" using m(2) distinct_card [of more] by simp
  also have "\<dots> \<le> card (all_parents api)" by (rule card_mono [OF finite_all_parents m(4)])
  finally have "length more \<le> length (rm_projects api) + length (rm_folders api)" using card_all_parents [of api] by simp
  with m show ?thesis by auto
qed

section \<open>Concrete runs\<close>

definition noon :: clock where "noon = \<lparr>ck_nanos = 26, ck_text = ''2024-02-29T12:00:00.5Z''\<rparr>"

lemma noon_ok: "rfc3339 (ck_text noon)"
  by code_simp

definition post :: "string \<Rightarrow> (string \<times> json) list \<Rightarrow> http_request" where
  "post path members = \<lparr>rq_method = ''POST'', rq_path = path, rq_header = [], rq_query = [], rq_body = Raw (JObj members)\<rparr>"

definition first_manager :: "store rm_api" where
  "first_manager = the (NewResourceManager Save Load noon (Some (fresh_store [])))"

lemma first_manager: "NewResourceManager Save Load noon (Some (fresh_store [])) = Some first_manager"
proof -
  have "NewResourceManager Save Load noon (Some (fresh_store [])) \<noteq> None" by code_simp
  then show ?thesis by (auto simp: first_manager_def)
qed

lemma first_manager_reachable: "rm_reachable first_manager"
  by (rule rm_reachable.fresh [OF _ _ first_manager]) code_simp+

definition project_post :: http_request where
  "project_post = post ''/v3/projects'' [(''projectId'', JStr ''demo-42''), (''parent'', JStr ''organizations/100000000000'')]"

lemma project_post_ok: "fst (rm_serve Save noon project_post first_manager) =
    doneOperation ''create-demo-42'' (RmProject (new_project noon (zero_project\<lparr>p_id := ''demo-42'', p_parent := ''organizations/100000000000''\<rparr>)))"
  by code_simp

theorem reachable_resources_wf_witness:
  "rm_wf first_manager \<and> rm_defaults first_manager \<and> ProjectIDs first_manager \<noteq> None \<and>
   fst (rm_serve Save noon project_post first_manager) \<noteq> RmPanic"
  using reachable_resources_wf [OF first_manager_reachable, of noon project_post] noon_ok by blast

definition second_manager :: "store rm_api" where
  "second_manager = snd (rm_serve Save noon project_post first_manager)"

definition third_manager :: "store rm_api" where
  "third_manager = the (NewResourceManager Save Load noon (rm_store second_manager))"

lemma third_manager: "NewResourceManager Save Load noon (rm_store second_manager) = Some third_manager"
proof -
  have "NewResourceManager Save Load noon (rm_store second_manager) \<noteq> None" by code_simp
  then show ?thesis by (auto simp: third_manager_def)
qed

theorem acknowledged_mutation_survives_restart_witness:
  "ptr_get (rm_projects third_manager) = map_option unseed \<circ> ptr_get (rm_projects second_manager) \<and>
   ptr_get (rm_projects second_manager) ''demo-42'' \<noteq> None"
proof -
  have "fst (rm_serve Save noon project_post first_manager) =
      RmResponse 200 (RmDone ''operations/create-demo-42'' (RmProject (new_project noon (zero_project\<lparr>p_id := ''demo-42'', p_parent := ''organizations/100000000000''\<rparr>))))"
    by code_simp
  then have run: "rm_serve Save noon project_post first_manager =
      (RmResponse 200 (RmDone ''operations/create-demo-42'' (RmProject (new_project noon (zero_project\<lparr>p_id := ''demo-42'', p_parent := ''organizations/100000000000''\<rparr>)))), second_manager)"
    by (simp add: second_manager_def prod_eq_iff)
  have not_get: "rq_method project_post \<noteq> ''GET''" by (simp add: project_post_def post_def)
  have "rm_store second_manager \<noteq> None" "ptr_get (rm_projects second_manager) ''demo-42'' \<noteq> None" by code_simp+
  then obtain s where s: "rm_store second_manager = Some s" and p: "ptr_get (rm_projects second_manager) ''demo-42'' \<noteq> None" by blast
  show ?thesis
    using acknowledged_mutation_survives_restart [OF first_manager_reachable noon_ok not_get run s third_manager [unfolded s]] p by simp
qed

text \<open>A store whose saves all fail.\<close>

definition failing_save :: "string \<Rightarrow> json option \<Rightarrow> unit \<Rightarrow> store_error option \<times> unit" where
  "failing_save n v s = (Some ErrMarshal, s)"

definition small_api :: "unit rm_api" where
  "small_api = \<lparr>rm_store = Some (), rm_projects = [], rm_orgs = [(defaultOrgName, Some default_organization)], rm_folders = []\<rparr>"

theorem failed_project_mutation_rolled_back_witness:
  "createProject failing_save noon project_post small_api = (rm_error 500 ''INTERNAL'', snd (createProject failing_save noon project_post small_api))
   \<and> ptr_get (rm_projects (snd (createProject failing_save noon project_post small_api))) = ptr_get (rm_projects small_api)"
proof -
  have r: "fst (createProject failing_save noon project_post small_api) = RmResponse 500 (RmError ''INTERNAL'')" by code_simp
  then have run: "createProject failing_save noon project_post small_api =
      (RmResponse 500 (RmError ''INTERNAL''), snd (createProject failing_save noon project_post small_api))" by (simp add: prod_eq_iff)
  show ?thesis using failed_project_mutation_rolled_back [OF disjI1 [OF run]] r by (simp add: prod_eq_iff rm_error_def)
qed

section \<open>Folders\<close>

definition folder_post :: "string \<Rightarrow> string \<Rightarrow> http_request" where
  "folder_post name parent = post ''/v3/folders'' [(''name'', JStr name), (''parent'', JStr parent)]"

definition memory_run :: "http_request list \<Rightarrow> unit rm_api \<Rightarrow> rm_response list \<times> unit rm_api" where
  "memory_run rs api = foldl (\<lambda>(out, a) r. case rm_serve failing_save noon r a of (o', a') \<Rightarrow> (out @ [o'], a')) ([], api) rs"

definition memory_api :: "unit rm_api" where
  "memory_api = small_api\<lparr>rm_store := None\<rparr>"

text \<open>
  Creating a folder that exists replaces it.  With folder a under the organization and b under a,
  a second create of a under b is acknowledged: the two folders now are each other's parent and the
  organization is no ancestor of either, so policies set on it no longer reach their projects.
\<close>
theorem folder_overwrite_cuts_inheritance:
  "Ancestors (snd (memory_run [folder_post ''folders/a'' defaultOrgName, folder_post ''folders/b'' ''folders/a''] memory_api)) ''folders/b''
     = [''folders/b'', ''folders/a'', defaultOrgName] \<and>
   fst (memory_run [folder_post ''folders/a'' defaultOrgName, folder_post ''folders/b'' ''folders/a'', folder_post ''folders/a'' ''folders/b''] memory_api)
     = [doneOperation ''create-a'' (RmFolder \<lparr>f_name = ''folders/a'', f_parent = defaultOrgName, f_display = []\<rparr>),
        doneOperation ''create-b'' (RmFolder \<lparr>f_name = ''folders/b'', f_parent = ''folders/a'', f_display = []\<rparr>),
        doneOperation ''create-a'' (RmFolder \<lparr>f_name = ''folders/a'', f_parent = ''folders/b'', f_display = []\<rparr>)] \<and>
   Ancestors (snd (memory_run [folder_post ''folders/a'' defaultOrgName, folder_post ''folders/b'' ''folders/a'', folder_post ''folders/a'' ''folders/b''] memory_api)) ''folders/b''
     = [''folders/b'', ''folders/a'']"
  by (intro conjI; code_simp)

text \<open>
  A folder whose create fails stays.  When the metadata cannot be persisted the request is refused as
  a failed precondition, but the folder answers the next read.
\<close>
theorem failed_folder_create_stays:
  "fst (rm_serve failing_save noon (folder_post ''folders/a'' defaultOrgName) small_api) = rm_error 400 ''FAILED_PRECONDITION'' \<and>
   getFolder ''a'' (snd (rm_serve failing_save noon (folder_post ''folders/a'' defaultOrgName) small_api)) =
     RmResponse 200 (RmFolder \<lparr>f_name = ''folders/a'', f_parent = defaultOrgName, f_display = []\<rparr>)"
  by (intro conjI; code_simp)

end
