(* ===== verification/Iam_Access.thy ===== *)
theory Iam_Access
  imports Iam_Restart Resource_Manager_Hierarchy
begin

text \<open>
  Who may do what: policy decisions of the IAM shim, alone and with the hierarchy of the Resource Manager
  wired in, and the service accounts tokens are issued for.
\<close>

section \<open>Policy decisions\<close>

definition granted :: "iam_policy option gomap \<Rightarrow> string \<Rightarrow> string \<Rightarrow> string \<Rightarrow> bool" where
  "granted policies who permission c \<longleftrightarrow>
     (\<exists>p b. policy_of policies c = Some p \<and> b \<in> set (pol_bindings p) \<and> who \<in> set (b_members b) \<and> permission \<in> set (binding_permissions b))"

lemma permissionsForPrincipal_iff:
  "permission \<in> set (permissionsForPrincipal policy who) \<longleftrightarrow>
     (\<exists>p b. policy = Some p \<and> b \<in> set (pol_bindings p) \<and> who \<in> set (b_members b) \<and> permission \<in> set (binding_permissions b))"
  by (auto simp: permissionsForPrincipal_def split: option.splits)

lemma Authorize_strict:
  "im_strict api \<Longrightarrow> Authorize h api resource who permission \<longleftrightarrow>
     trim_space who \<noteq> [] \<and> (\<exists>c \<in> set (policy_chain h resource). granted (im_policies api) who permission c)"
  by (auto simp: Authorize_def list_ex_iff permissionsForPrincipal_iff granted_def)

lemma set_foldl_new: "set (foldl (\<lambda>rs a. if a \<in> set rs then rs else rs @ [a]) rs as) = set rs \<union> set as"
  by (induction as arbitrary: rs) auto

lemma trim_slashes:
  assumes "x \<noteq> []" and "hd x \<noteq> CHR ''/''" and "last x \<noteq> CHR ''/''"
  shows "\<exists>z. trim_chars (x @ CHR ''/'' # rest) ''/'' = x @ z \<and> (z = [] \<or> (\<exists>w. z = CHR ''/'' # w))"
proof -
  let ?P = "\<lambda>c. c \<in> set ''/''" and ?y = "CHR ''/'' # rest"
  have front: "dropWhile ?P (x @ ?y) = x @ ?y" using assms by (cases x) auto
  have "rev (dropWhile ?P (rev (x @ ?y))) = x @ rev (dropWhile ?P (rev ?y))"
  proof (cases "\<forall>c \<in> set (rev ?y). ?P c")
    case True
    obtain a b where ab: "rev x = a # b" using assms(1) by (cases "rev x") auto
    then have a: "a = last x" by (metis hd_rev list.sel(1))
    have y: "dropWhile ?P (rev ?y) = []" using True by (simp only: dropWhile_eq_Nil_conv)
    have "dropWhile ?P (rev (x @ ?y)) = dropWhile ?P (rev ?y @ rev x)" by simp
    also have "\<dots> = dropWhile ?P (rev x)" using True by (intro dropWhile_append2) auto
    also have "\<dots> = rev x" unfolding ab using a assms(3) by simp
    finally show ?thesis using y by (simp only: rev_rev_ident rev.simps append_Nil2)
  next
    case False
    then obtain c where c: "c \<in> set (rev ?y)" "\<not> ?P c" by blast
    have "dropWhile ?P (rev (x @ ?y)) = dropWhile ?P (rev ?y @ rev x)" by simp
    also have "\<dots> = dropWhile ?P (rev ?y) @ rev x" by (rule dropWhile_append1 [OF c(1)]) (use c in simp)
    finally show ?thesis by (simp only: rev_append rev_rev_ident)
  qed
  then have eq: "trim_chars (x @ ?y) ''/'' = x @ rev (dropWhile ?P (rev ?y))" by (simp only: trim_chars_def front)
  have "suffix (dropWhile ?P (rev ?y)) (rev ?y)" by (rule suffix_dropWhile)
  then have "prefix (rev (dropWhile ?P (rev ?y))) ?y" by (simp only: suffix_to_prefix rev_rev_ident)
  then have "rev (dropWhile ?P (rev ?y)) = [] \<or> (\<exists>w. rev (dropWhile ?P (rev ?y)) = CHR ''/'' # w)"
    by (simp only: prefix_Cons) blast
  with eq show ?thesis by blast
qed

lemma project_of_resource:
  assumes "pid \<noteq> []" and "CHR ''/'' \<notin> set pid" and "\<not> has_suffix pid '':''"
  shows "projectResource (split (CHR ''/'') (trim_chars (''projects/'' @ pid @ ''/'' @ rest) ''/'')) = ''projects/'' @ pid"
proof -
  let ?x = "''projects/'' @ pid"
  have "?x \<noteq> []" "hd ?x \<noteq> CHR ''/''" "last ?x \<noteq> CHR ''/''" using assms(1,2) last_in_set [of pid] by (simp, simp, metis last_append)
  from trim_slashes [OF this, of rest] obtain z where z: "trim_chars (?x @ CHR ''/'' # rest) ''/'' = ?x @ z"
    "z = [] \<or> (\<exists>w. z = CHR ''/'' # w)" by blast
  have "\<exists>ps. split (CHR ''/'') (?x @ z) = ''projects'' # pid # ps"
    using z(2) split_append_sep [of "CHR ''/''" "''projects''" "pid @ z"] assms(2)
    by (auto simp: split_no_occ split_append_sep)
  moreover have "trim_suffix pid '':'' = pid" using assms(3) by (simp add: trim_suffix_def)
  ultimately show ?thesis using z(1) by auto
qed

text \<open>
  C7: a grant on an ancestor reaches every resource of the project.  With the Resource Manager as the
  resolver and enforcement on, a role bound to a principal on the project itself, a folder or the
  organization above it authorizes the role's permissions on each resource below the project.
\<close>
theorem ancestor_grant_reaches_project_resources:
  assumes "im_strict api" and "trim_space who \<noteq> []"
    and "pid \<noteq> []" and "CHR ''/'' \<notin> set pid" and "\<not> has_suffix pid '':''"
    and "ancestor \<in> set (Ancestors rm (''projects/'' @ pid))" and "policy_of (im_policies api) ancestor = Some p"
    and "b \<in> set (pol_bindings p)" and "who \<in> set (b_members b)" and "permission \<in> set (binding_permissions b)"
  shows "Authorize (Some (Ancestors rm)) api (''/v1/projects/'' @ pid @ ''/'' @ rest) who permission"
proof -
  let ?c = "''projects/'' @ pid @ ''/'' @ rest"
  have c: "trim_prefix (''/v1/projects/'' @ pid @ ''/'' @ rest) ''/v1/'' = ?c" using trim_prefix_append [of "''/v1/''" ?c] by simp
  have "ancestor \<in> set (policy_chain (Some (Ancestors rm)) (''/v1/projects/'' @ pid @ ''/'' @ rest))"
    using assms(6) unfolding policy_chain_def c Let_def project_of_resource [OF assms(3-5)] by (simp add: set_foldl_new)
  moreover have "granted (im_policies api) who permission ancestor" using assms(7-10) by (auto simp: granted_def)
  ultimately show ?thesis using assms(1,2) by (auto simp: Authorize_strict)
qed

text \<open>
  A policy only decides for the resources that ask it.  Setting the policy of a resource that is
  neither in the chain of another one nor its \<open>/v1/\<close> form changes no decision on that other resource,
  whether the change is persisted or not.
\<close>
theorem unrelated_policy_changes_no_decision:
  assumes "setIamPolicy save now r resource api = (resp, api')"
    and "resource \<notin> set (policy_chain h target)" and "resource \<notin> (\<lambda>c. ''/v1/'' @ trim_prefix c ''/'') ` set (policy_chain h target)"
  shows "Authorize h api' target who permission = Authorize h api target who permission"
proof -
  have "im_strict api' = im_strict api \<and>
      (im_policies api' = im_policies api \<or> (\<exists>p. im_policies api' = gm_set resource (Some p) (im_policies api)))"
    using assms(1) by (auto simp: setIamPolicy_def persist_respond_def im_persist_def Let_def
        split: option.splits if_splits prod.splits rm_persist.splits)
  moreover have "policy_of (gm_set resource (Some p) m) c = policy_of m c" if "c \<in> set (policy_chain h target)" for p m c
    using assms(2,3) that by (auto simp: policy_of_def ptr_get_def split: option.splits)
  ultimately have "policy_of (im_policies api') c = policy_of (im_policies api) c" if "c \<in> set (policy_chain h target)" for c
    using that by auto
  then show ?thesis using \<open>im_strict api' = im_strict api \<and> _\<close> by (simp add: Authorize_def list_ex_iff)
qed

definition strict_iam :: "(string \<times> iam_policy) list \<Rightarrow> unit iam_api" where
  "strict_iam ps = (newIamAPI ''strict'' None)\<lparr>im_policies := map (\<lambda>(k, p). (k, Some p)) ps\<rparr>"

definition org_viewers :: iam_policy where
  "org_viewers = \<lparr>pol_version = 1, pol_etag = [], pol_bindings = [\<lparr>b_role = ''roles/spanner.viewer'', b_members = [''user:ada'']\<rparr>]\<rparr>"

theorem ancestor_grant_reaches_project_resources_witness:
  "Authorize (Some (Ancestors second_manager)) (strict_iam [(''organizations/100000000000'', org_viewers)])
     ''/v1/projects/demo-42/instances/main'' ''user:ada'' ''spanner.backups.list''"
proof -
  have "''organizations/100000000000'' \<in> set (Ancestors second_manager (''projects/'' @ ''demo-42''))" by code_simp
  from ancestor_grant_reaches_project_resources [OF _ _ _ _ _ this, of "strict_iam [(''organizations/100000000000'', org_viewers)]"
      "''user:ada''" org_viewers "hd (pol_bindings org_viewers)" "''spanner.backups.list''" "''instances/main''"]
  show ?thesis by (simp add: strict_iam_def newIamAPI_def org_viewers_def policy_of_def ptr_get_def has_suffix_def
      binding_permissions_def cut_prefix_def has_prefix_def role_permissions_def rolePermissions_def trim_space_def trim_chars_def
      ascii_space_def equal_fold_def to_lower_def lower_char_def)
qed

definition policy_post :: http_request where
  "policy_post = iam_post ''/v1/projects/other-7:setIamPolicy'' [(''policy'', JObj [(''version'', JInt 1)])]"

theorem unrelated_policy_changes_no_decision_witness:
  "Authorize None (snd (setIamPolicy Save (tick 27) policy_post ''projects/other-7'' second_iam)) ''projects/demo-42/topics/a'' ''user:ada'' ''pubsub.topics.get'' =
   Authorize None second_iam ''projects/demo-42/topics/a'' ''user:ada'' ''pubsub.topics.get'' \<and>
   im_policies (snd (setIamPolicy Save (tick 27) policy_post ''projects/other-7'' second_iam)) \<noteq> im_policies second_iam"
proof
  have chain: "policy_chain None ''projects/demo-42/topics/a'' = [''projects/demo-42/topics/a'', ''projects/demo-42'']" by code_simp
  show "Authorize None (snd (setIamPolicy Save (tick 27) policy_post ''projects/other-7'' second_iam)) ''projects/demo-42/topics/a'' ''user:ada'' ''pubsub.topics.get'' =
   Authorize None second_iam ''projects/demo-42/topics/a'' ''user:ada'' ''pubsub.topics.get''"
    by (rule unrelated_policy_changes_no_decision [OF surjective_pairing]) (simp_all add: chain trim_prefix_def)
  have "length (im_policies (snd (setIamPolicy Save (tick 27) policy_post ''projects/other-7'' second_iam))) = 1" "length (im_policies second_iam) = 0"
    by code_simp+
  then show "im_policies (snd (setIamPolicy Save (tick 27) policy_post ''projects/other-7'' second_iam)) \<noteq> im_policies second_iam" by auto
qed

section \<open>Accounts by name\<close>

lemma account_ok_key: "account_ok k a \<Longrightarrow> \<exists>i p. ParseCanonicalServiceAccountEmail (sa_email a) = Some (i, p) \<and> k = account_key p (sa_email a)"
  by (auto simp: account_ok_def validateServiceAccountEntry_def split: option.splits prod.splits if_splits)

lemma same_email_same_key:
  assumes "im_wf api" and "gm_get (im_accounts api) k = Some a" and "gm_get (im_accounts api) l = Some b" and "sa_email a = sa_email b"
  shows "k = l"
  using account_ok_key [OF im_wf_account_ok [OF assms(1,2)]] account_ok_key [OF im_wf_account_ok [OF assms(1,3)]] assms(4) by auto

lemma id_chars_colon [simp]: "\<not> id_chars (CHR '':'')" "\<not> is_digit (CHR '':'')"
  by (simp_all add: id_chars_def is_lower_def is_digit_def)

lemma canonical_project_colon: "ParseCanonicalServiceAccountEmail e = Some (i, p) \<Longrightarrow> CHR '':'' \<notin> set p"
  by (auto simp: ParseCanonicalServiceAccountEmail_def validProjectID_def validPositiveDecimal_def list_all_iff Let_def
      split: if_splits prod.splits)

lemma append_colon_inj: "CHR '':'' \<notin> set p \<Longrightarrow> CHR '':'' \<notin> set q \<Longrightarrow> p @ CHR '':'' # e = q @ CHR '':'' # f \<Longrightarrow> p = q \<and> e = f"
  by (induction p arbitrary: q) (auto simp: Cons_eq_append_conv append_eq_Cons_conv)

lemma segment_after_colon: "CHR '':'' \<notin> set (segment_after k ps)"
  by (induction k ps rule: segment_after.induct) (auto simp: cut_def Let_def dest: set_takeWhileD split: list.splits)

lemma persist_respond_accounts:
  "persist_respond save ok api1 = (resp, api') \<Longrightarrow> im_accounts api' = im_accounts api1"
  by (auto simp: persist_respond_def im_persist_def split: option.splits if_splits prod.splits rm_persist.splits)

text \<open>
  C18: a deleted account gets no token.  When a reachable shim answers the deletion of a service account
  with success, no token is issued for that account's address from then on, until it is created again.
\<close>
theorem deleted_account_gets_no_token:
  assumes "im_reachable api"
    and "routeServiceAccounts save now created expires r path api = (IamResponse 200 b, api')"
    and "rq_method r = ''DELETE''" and "\<not> contains path ''/keys''"
  shows "tokenSubject api' (''serviceAccount:'' @ extractSegmentAfter path ''serviceAccounts'') = Some AccountNotFound"
proof -
  let ?project = "extractSegmentAfter path ''projects''" and ?email = "extractSegmentAfter path ''serviceAccounts''"
  let ?key = "account_key ?project ?email"
  have wf: "im_wf api" using iam_reachable_inv [OF assms(1)] by (simp add: im_inv_def)
  have del: "deleteServiceAccount save ?project ?email api = (IamResponse 200 b, api')"
    using assms(2-4) by (simp add: routeServiceAccounts_def Let_def)
  then obtain a where a: "gm_get (im_accounts api) ?key = Some a" and acc: "im_accounts api' = gm_del ?key (im_accounts api)"
    by (auto simp: deleteServiceAccount_def Let_def iam_error_def dest: persist_respond_accounts split: if_splits)
  obtain i p where p: "ParseCanonicalServiceAccountEmail (sa_email a) = Some (i, p)" "?key = account_key p (sa_email a)"
    using account_ok_key [OF im_wf_account_ok [OF wf a]] by blast
  have email: "sa_email a = ?email"
  proof -
    have "?project @ CHR '':'' # ?email = p @ CHR '':'' # sa_email a" using p(2) by (simp add: account_key_def)
    with append_colon_inj [OF _ canonical_project_colon [OF p(1)]] segment_after_colon show ?thesis
      unfolding extractSegmentAfter_def by metis
  qed
  have "sa_email c \<noteq> ?email" if "(k, c) \<in> set (im_accounts api')" for k c
  proof -
    have "gm_wf (im_accounts api')" using wf acc by (simp add: im_wf_def gm_wf_del)
    then have "k \<noteq> ?key" "gm_get (im_accounts api) k = Some c" using that acc by (auto simp: gm_get_mem split: if_splits)
    with same_email_same_key [OF wf _ a] email show ?thesis by auto
  qed
  then have "List.find (\<lambda>(k, a). validateServiceAccountEntry k (Some a) = None \<and> sa_email a = ?email) (im_accounts api') = None"
    by (auto simp: find_None_iff)
  then show ?thesis
    by (simp only: tokenSubject_def has_prefix_append trim_prefix_append Let_def not_True_eq_False if_False option.case)
qed

definition robot_path :: string where
  "robot_path = ''/v1/projects/demo-42/serviceAccounts/robot-a@demo-42.iam.gserviceaccount.com''"

definition robot_delete :: http_request where
  "robot_delete = \<lparr>rq_method = ''DELETE'', rq_path = robot_path, rq_header = [], rq_query = [], rq_body = RawNil\<rparr>"

theorem deleted_account_gets_no_token_witness:
  "tokenSubject second_iam ''serviceAccount:robot-a@demo-42.iam.gserviceaccount.com'' = None \<and>
   tokenSubject (snd (routeServiceAccounts Save (tick 27) zero_time zero_time robot_delete robot_path second_iam))
     ''serviceAccount:robot-a@demo-42.iam.gserviceaccount.com'' = Some AccountNotFound"
proof
  show "tokenSubject second_iam ''serviceAccount:robot-a@demo-42.iam.gserviceaccount.com'' = None" by code_simp
  have e: "extractSegmentAfter robot_path ''serviceAccounts'' = ''robot-a@demo-42.iam.gserviceaccount.com''" by code_simp
  have "fst (routeServiceAccounts Save (tick 27) zero_time zero_time robot_delete robot_path second_iam) = IamResponse 200 IamEmpty"
    "rq_method robot_delete = ''DELETE''" "\<not> contains robot_path ''/keys''" by code_simp+
  with deleted_account_gets_no_token [OF second_iam_reachable, of Save "tick 27" zero_time zero_time robot_delete robot_path IamEmpty
      "snd (routeServiceAccounts Save (tick 27) zero_time zero_time robot_delete robot_path second_iam)"] e
  show "tokenSubject (snd (routeServiceAccounts Save (tick 27) zero_time zero_time robot_delete robot_path second_iam))
     ''serviceAccount:robot-a@demo-42.iam.gserviceaccount.com'' = Some AccountNotFound"
    by (simp add: prod_eq_iff)
qed

definition names_account :: "string \<Rightarrow> service_account \<Rightarrow> bool" where
  "names_account i a \<longleftrightarrow> sa_email a = i \<or> sa_unique a = i"

lemma resolve_none: "(\<And>k a. (k, a) \<in> set m \<Longrightarrow> \<not> names_account i a) \<Longrightarrow> resolve_loop i x m = x"
  by (induction i x m rule: resolve_loop.induct) (auto simp: names_account_def)

lemma resolve_found:
  assumes "\<And>l b. (l, b) \<in> set xs \<Longrightarrow> \<not> names_account i b" "\<And>l b. (l, b) \<in> set ys \<Longrightarrow> \<not> names_account i b"
    and "validateServiceAccountEntry k (Some a) = None" and "names_account i a"
  shows "resolve_loop i None (xs @ (k, a) # ys) = Some a"
  using assms
proof (induction xs)
  case Nil
  then show ?case using resolve_none [of ys i "Some a"] by (auto simp: names_account_def)
next
  case (Cons x xs)
  then show ?case by (cases x) (auto simp: names_account_def)
qed

text \<open>
  Every service account is found by its address and by its unique identifier.  In a reachable state
  where no two accounts were created in the same nanosecond the lookup is never ambiguous: either name of
  a stored account resolves to that account.
\<close>
theorem every_account_resolves:
  assumes "im_reachable api" and "gm_get (im_accounts api) k = Some a" and "\<not> shared_number (im_accounts api)" and "trim_space i = sa_email a \<or> trim_space i = sa_unique a"
  shows "ResolveServiceAccount api i = Some (sa_email a, sa_disabled a)"
proof -
  have wf: "im_wf api" using iam_reachable_inv [OF assms(1)] by (simp add: im_inv_def)
  then have g: "gm_wf (im_accounts api)" by (simp add: im_wf_def)
  have uniq: "l = k" if "(l, c) \<in> set (im_accounts api)" "names_account (trim_space i) c" for l c
  proof -
    have c: "gm_get (im_accounts api) l = Some c" using that(1) g by (simp add: gm_get_mem)
    have at: "count_char (CHR ''@'') (sa_email x) = 1" "list_all is_digit (sa_unique x)" if "account_ok j x" for j x
      using that by (auto simp: account_ok_def validPositiveDecimal_def validateServiceAccountEntry_def ParseCanonicalServiceAccountEmail_def
          Let_def split: option.splits prod.splits if_splits)
    have "sa_email x \<noteq> sa_unique y" if "account_ok j x" "account_ok n y" for j n x y
    proof
      assume "sa_email x = sa_unique y"
      with at(1) [OF that(1)] at(2) [OF that(2)] have "count_char (CHR ''@'') (sa_unique y) = 1" "list_all is_digit (sa_unique y)" by auto
      then show False by (auto simp: count_char_def list_all_iff length_Suc_conv filter_eq_Cons_iff is_digit_def)
    qed
    with that(2) assms(4) im_wf_account_ok [OF wf c] im_wf_account_ok [OF wf assms(2)]
    have "sa_email c = sa_email a \<or> sa_unique c = sa_unique a" unfolding names_account_def by metis
    moreover have "l = k" if "sa_unique c = sa_unique a" using assms(3) c assms(2) that unfolding shared_number_def by blast
    ultimately show "l = k" using same_email_same_key [OF wf c assms(2)] by blast
  qed
  have "(k, a) \<in> set (im_accounts api)" using assms(2) g by (simp add: gm_get_mem)
  then obtain xs ys where m: "im_accounts api = xs @ (k, a) # ys" by (meson split_list)
  have "k \<notin> fst ` (set xs \<union> set ys)" using g by (auto simp: gm_wf_def m)
  then have "l \<noteq> k" if "(l, c) \<in> set xs \<union> set ys" for l c using image_eqI [of l fst "(l, c)" "set xs \<union> set ys"] that by auto
  then have "\<not> names_account (trim_space i) c" if "(l, c) \<in> set xs \<union> set ys" for l c using uniq [of l c] m that by auto
  moreover have "validateServiceAccountEntry k (Some a) = None" using im_wf_account_ok [OF wf assms(2)] by (simp add: account_ok_def)
  ultimately have "resolve_loop (trim_space i) None (im_accounts api) = Some a"
    unfolding m using assms(4) by (intro resolve_found) (auto simp: names_account_def)
  then show ?thesis by (simp add: ResolveServiceAccount_def)
qed

definition robot_a :: service_account where
  "robot_a = new_account (tick 26) ''demo-42'' \<lparr>ca_id = ''robot-a'', ca_display = [], ca_description = []\<rparr>"

theorem every_account_resolves_witness:
  "ResolveServiceAccount second_iam '' 26 '' = Some (sa_email robot_a, False)"
proof -
  have "(case im_accounts second_iam of ka # ks \<Rightarrow> fst ka = ''demo-42:robot-a@demo-42.iam.gserviceaccount.com'' \<and> snd ka = robot_a | _ \<Rightarrow> False)"
    by code_simp
  then have a: "gm_get (im_accounts second_iam) ''demo-42:robot-a@demo-42.iam.gserviceaccount.com'' = Some robot_a"
    by (auto split: list.splits)
  have "length (im_accounts second_iam) = 1" by code_simp
  then have one: "\<not> shared_number (im_accounts second_iam)" by (auto simp: shared_number_def length_Suc_conv split: if_splits)
  have "trim_space '' 26 '' = sa_unique robot_a" "\<not> sa_disabled robot_a" by code_simp+
  with every_account_resolves [OF second_iam_reachable a one] show ?thesis by simp
qed

end
