(* ===== verification/Json_Text.thy ===== *)
theory Json_Text
  imports Json Strconv
begin

text \<open>
  The texts of JSON values: what \<open>json.Marshal\<close> writes and what a \<open>json.Decoder\<close> makes of a text.
  Strings are their UTF-8 bytes, escapes above \<open>007f\<close> included; texts that are not UTF-8 are kept as they
  are. A text is decoded as one value with nothing but white space after it.
\<close>

section \<open>Writing\<close>

definition bs :: char where "bs = CHR 0x5C"
definition dq :: char where "dq = CHR 0x22"

definition hex_digit :: "nat \<Rightarrow> char" where
  "hex_digit d = (if d < 10 then char_of (48 + d) else char_of (87 + d))"

text \<open>\<open>json.Marshal\<close> escapes quotes, backslashes, control characters and the HTML ones.\<close>

definition escape_char :: "char \<Rightarrow> string" where
  "escape_char c =
     (if c = dq then [bs, dq] else if c = bs then [bs, bs]
      else if c = CHR 0x08 then [bs, CHR ''b''] else if c = CHR 0x0C then [bs, CHR ''f'']
      else if c = CHR 0x0A then [bs, CHR ''n''] else if c = CHR 0x0D then [bs, CHR ''r'']
      else if c = CHR 0x09 then [bs, CHR ''t'']
      else if (of_char c :: nat) < 32 \<or> c \<in> {CHR ''<'', CHR ''>'', CHR ''&''} then
        [bs, CHR ''u'', CHR ''0'', CHR ''0'', hex_digit (of_char c div 16), hex_digit (of_char c mod 16)]
      else [c])"

definition print_string :: "string \<Rightarrow> string" where
  "print_string s = dq # concat (map escape_char s) @ [dq]"

fun jprint :: "json \<Rightarrow> string" where
  "jprint JNull = ''null''"
| "jprint (JBool b) = (if b then ''true'' else ''false'')"
| "jprint (JInt i) = itoa i"
| "jprint (JNum s) = s"
| "jprint (JStr s) = print_string s"
| "jprint (JArr vs) = ''['' @ join '','' (map jprint vs) @ '']''"
| "jprint (JObj kvs) = ''{'' @ join '','' (map (\<lambda>(k, v). print_string k @ '':'' @ jprint v) kvs) @ ''}''"

section \<open>Reading\<close>

definition json_space :: "char \<Rightarrow> bool" where
  "json_space c \<longleftrightarrow> c \<in> {CHR 0x20, CHR 0x09, CHR 0x0A, CHR 0x0D}"

abbreviation skip :: "string \<Rightarrow> string" where "skip s \<equiv> dropWhile json_space s"

definition hex_value :: "char \<Rightarrow> nat option" where
  "hex_value c =
     (let n = of_char c :: nat in
      if 48 \<le> n \<and> n \<le> 57 then Some (n - 48) else if 97 \<le> n \<and> n \<le> 102 then Some (n - 87)
      else if 65 \<le> n \<and> n \<le> 70 then Some (n - 55) else None)"

definition simple_escape :: "char \<Rightarrow> char option" where
  "simple_escape c =
     map_of [(dq, dq), (bs, bs), (CHR ''/'', CHR ''/''), (CHR ''b'', CHR 0x08), (CHR ''f'', CHR 0x0C), (CHR ''n'', CHR 0x0A),
       (CHR ''r'', CHR 0x0D), (CHR ''t'', CHR 0x09)] c"

fun hex_code :: "string \<Rightarrow> nat option" where
  "hex_code [a, b, c, d] =
     (case (hex_value a, hex_value b, hex_value c, hex_value d) of
        (Some w, Some x, Some y, Some z) \<Rightarrow> Some (4096 * w + 256 * x + 16 * y + z)
      | _ \<Rightarrow> None)"
| "hex_code _ = None"

text \<open>The bytes of a code point.\<close>

definition rune_bytes :: "nat \<Rightarrow> string" where
  "rune_bytes n =
     (if n < 128 then [char_of n]
      else if n < 2048 then [char_of (192 + n div 64), char_of (128 + n mod 64)]
      else if n < 65536 then [char_of (224 + n div 4096), char_of (128 + n div 64 mod 64), char_of (128 + n mod 64)]
      else [char_of (240 + n div 262144), char_of (128 + n div 4096 mod 64), char_of (128 + n div 64 mod 64), char_of (128 + n mod 64)])"

text \<open>The second half of a surrogate pair after a high one, as an escape; a half alone is the replacement character.\<close>

definition low_surrogate :: "string \<Rightarrow> nat option" where
  "low_surrogate s =
     (if take 2 s = [bs, CHR ''u''] then
        (case hex_code (take 4 (drop 2 s)) of Some m \<Rightarrow> if 56320 \<le> m \<and> m < 57344 then Some (m - 56320) else None | None \<Rightarrow> None)
      else None)"

definition unicode_escape :: "nat \<Rightarrow> string \<Rightarrow> string \<times> string" where
  "unicode_escape n rest =
     (if 55296 \<le> n \<and> n < 56320 then
        (case low_surrogate rest of
           Some m \<Rightarrow> (rune_bytes (65536 + (n - 55296) * 1024 + m), drop 6 rest)
         | None \<Rightarrow> (rune_bytes 65533, rest))
      else if 56320 \<le> n \<and> n < 57344 then (rune_bytes 65533, rest)
      else (rune_bytes n, rest))"

lemma unicode_escape_rest [termination_simp]: "length (snd (unicode_escape n rest)) \<le> length rest"
  by (simp add: unicode_escape_def split: option.splits)

text \<open>The rest of a string after its opening quote.\<close>

function read_string :: "string \<Rightarrow> (string \<times> string) option" where
  "read_string s =
     (case s of [] \<Rightarrow> None
      | c # t \<Rightarrow>
          if c = dq then Some ([], t)
          else if c = bs then
            (case t of [] \<Rightarrow> None
             | e # u \<Rightarrow>
                 if e = CHR ''u'' then
                   (case hex_code (take 4 u) of None \<Rightarrow> None
                    | Some n \<Rightarrow> map_option (apfst ((@) (fst (unicode_escape n (drop 4 u))))) (read_string (snd (unicode_escape n (drop 4 u)))))
                 else (case simple_escape e of None \<Rightarrow> None | Some x \<Rightarrow> map_option (apfst ((#) x)) (read_string u)))
          else if (of_char c :: nat) < 32 then None
          else map_option (apfst ((#) c)) (read_string t))"
  by pat_completeness auto
termination
proof (relation "measure length", goal_cases)
  case (2 s c t e u n)
  then show ?case using unicode_escape_rest [of n "drop 4 u"] by simp
qed auto

declare read_string.simps [simp del]

definition number_char :: "char \<Rightarrow> bool" where
  "number_char c \<longleftrightarrow> is_digit c \<or> c \<in> {CHR ''+'', CHR ''-'', CHR ''.'', CHR ''e'', CHR ''E''}"

definition digits1 :: "string \<Rightarrow> bool" where "digits1 s \<longleftrightarrow> s \<noteq> [] \<and> list_all is_digit s"

definition valid_exponent :: "string \<Rightarrow> bool" where
  "valid_exponent s \<longleftrightarrow> s = [] \<or>
     hd s \<in> {CHR ''e'', CHR ''E''} \<and> (digits1 (tl s) \<or> tl s \<noteq> [] \<and> hd (tl s) \<in> {CHR ''+'', CHR ''-''} \<and> digits1 (tl (tl s)))"

definition valid_fraction :: "string \<Rightarrow> bool" where
  "valid_fraction s \<longleftrightarrow> valid_exponent s \<or>
     s \<noteq> [] \<and> hd s = CHR ''.'' \<and> digits1 (takeWhile is_digit (tl s)) \<and> valid_exponent (dropWhile is_digit (tl s))"

definition valid_number :: "string \<Rightarrow> bool" where
  "valid_number s =
     (let u = (if s \<noteq> [] \<and> hd s = CHR ''-'' then tl s else s); d = takeWhile is_digit u
      in digits1 d \<and> (d = ''0'' \<or> hd d \<noteq> CHR ''0'') \<and> valid_fraction (dropWhile is_digit u))"

definition number_value :: "string \<Rightarrow> json option" where
  "number_value s =
     (if \<not> valid_number s then None
      else let u = (if hd s = CHR ''-'' then tl s else s); i = (if hd s = CHR ''-'' then - int (parse_digits u) else int (parse_digits u))
           in Some (if itoa i = s then JInt i else JNum s))"

definition literals :: "(string \<times> json) list" where
  "literals = [(''null'', JNull), (''true'', JBool True), (''false'', JBool False)]"

text \<open>\<open>n\<close> bounds the steps; the length of the text is enough.\<close>

fun read_value :: "nat \<Rightarrow> string \<Rightarrow> (json \<times> string) option"
  and read_elements :: "nat \<Rightarrow> string \<Rightarrow> (json list \<times> string) option"
  and read_members :: "nat \<Rightarrow> string \<Rightarrow> ((string \<times> json) list \<times> string) option" where
  "read_value 0 s = None"
| "read_value (Suc n) s =
     (case skip s of [] \<Rightarrow> None
      | c # t \<Rightarrow>
          if c = dq then map_option (apfst JStr) (read_string t)
          else if c = CHR ''['' then
            (case skip t of x # u \<Rightarrow> if x = CHR '']'' then Some (JArr [], u) else map_option (apfst JArr) (read_elements n t) | [] \<Rightarrow> None)
          else if c = CHR ''{'' then
            (case skip t of x # u \<Rightarrow> if x = CHR ''}'' then Some (JObj [], u) else map_option (apfst JObj) (read_members n t) | [] \<Rightarrow> None)
          else if number_char c then
            map_option (\<lambda>v. (v, dropWhile number_char (c # t))) (number_value (takeWhile number_char (c # t)))
          else (case List.find (\<lambda>(w, v). has_prefix (c # t) w) literals of
                  None \<Rightarrow> None | Some (w, v) \<Rightarrow> Some (v, drop (length w) (c # t))))"
| "read_elements 0 s = None"
| "read_elements (Suc n) s =
     (case read_value n s of None \<Rightarrow> None
      | Some (v, t) \<Rightarrow> (case skip t of [] \<Rightarrow> None
          | x # u \<Rightarrow> if x = CHR '']'' then Some ([v], u)
                    else if x = CHR '','' then map_option (apfst ((#) v)) (read_elements n u) else None))"
| "read_members 0 s = None"
| "read_members (Suc n) s =
     (case skip s of [] \<Rightarrow> None
      | q # t \<Rightarrow>
          if q \<noteq> dq then None
          else (case read_string t of None \<Rightarrow> None
            | Some (k, t1) \<Rightarrow> (case skip t1 of [] \<Rightarrow> None
                | y # t2 \<Rightarrow>
                    if y \<noteq> CHR '':'' then None
                    else (case read_value n t2 of None \<Rightarrow> None
                      | Some (v, t3) \<Rightarrow> (case skip t3 of [] \<Rightarrow> None
                          | x # u \<Rightarrow> if x = CHR ''}'' then Some ([(k, v)], u)
                                    else if x = CHR '','' then map_option (apfst ((#) (k, v))) (read_members n u) else None)))))"

text \<open>The first value of a text, as one \<open>Decode\<close> of a \<open>json.Decoder\<close> takes it.\<close>

definition jfirst :: "string \<Rightarrow> raw_message" where
  "jfirst s =
     (if skip s = [] then RawNil else case read_value (length s) s of None \<Rightarrow> RawBad | Some (v, t) \<Rightarrow> Raw v)"

text \<open>A whole text, as \<open>json.Unmarshal\<close> takes it.\<close>

definition jparse :: "string \<Rightarrow> raw_message" where
  "jparse s =
     (if s = [] then RawNil
      else case read_value (length s) s of None \<Rightarrow> RawBad | Some (v, t) \<Rightarrow> if skip t = [] then Raw v else RawBad)"

section \<open>What is written is read back\<close>

lemma hex_value_digit: "d < 16 \<Longrightarrow> hex_value (hex_digit d) = Some d"
  by (auto simp: hex_value_def hex_digit_def Let_def)

lemma hex_code_char:
  assumes "(of_char c :: nat) < 64"
  shows "hex_code [CHR ''0'', CHR ''0'', hex_digit (of_char c div 16), hex_digit (of_char c mod 16)] = Some (of_char c)"
    "unicode_escape (of_char c) s = ([c], s)"
  using assms by (simp_all add: hex_value_digit hex_value_def [of "CHR ''0''"] unicode_escape_def rune_bytes_def)

lemma read_escape: "read_string (escape_char c @ s) = map_option (apfst ((#) c)) (read_string s)"
proof (cases "escape_char c = [bs, CHR ''u'', CHR ''0'', CHR ''0'', hex_digit (of_char c div 16), hex_digit (of_char c mod 16)]")
  case True
  then have "(of_char c :: nat) < 32 \<or> c \<in> {CHR ''<'', CHR ''>'', CHR ''&''}" by (simp add: escape_char_def split: if_splits)
  then have "(of_char c :: nat) < 64" by auto
  note h = hex_code_char [OF this]
  have "(@) [c] = (#) c" by (rule ext) simp
  then show ?thesis unfolding True
    by (subst read_string.simps) (simp add: h bs_def dq_def del: hex_code.simps)
next
  case False
  then show ?thesis by (subst read_string.simps) (auto simp: escape_char_def simple_escape_def bs_def dq_def split: if_splits)
qed

lemma read_escaped: "read_string (concat (map escape_char t) @ dq # s) = Some (t, s)"
proof (induction t)
  case Nil
  then show ?case by (subst read_string.simps) simp
next
  case (Cons c t)
  then show ?case using read_escape [of c "concat (map escape_char t) @ dq # s"] by simp
qed

lemma is_digit_number [simp]: "is_digit c \<Longrightarrow> number_char c"
  by (simp add: number_char_def)

lemma takeWhile_digits: "list_all is_digit s \<Longrightarrow> takeWhile is_digit s = s" "list_all is_digit s \<Longrightarrow> dropWhile is_digit s = []"
  by (simp_all add: list_all_iff)

lemma number_dec_nat: "valid_number (dec_nat n)" "valid_number (CHR ''-'' # dec_nat (Suc n))" "hd (dec_nat n) \<noteq> CHR ''-''"
proof -
  have lead: "dec_nat n = ''0'' \<or> hd (dec_nat n) \<noteq> CHR ''0''" for n
  proof (cases "n = 0")
    case True
    have "dec_nat 0 = ''0''" by code_simp
    with True show ?thesis by simp
  qed (simp add: dec_nat_lead)
  show m: "hd (dec_nat n) \<noteq> CHR ''-''" for n using hd_dec_nat [of n] by (auto simp: is_digit_def)
  show "valid_number (dec_nat n)" "valid_number (CHR ''-'' # dec_nat (Suc n))"
    unfolding valid_number_def using takeWhile_digits [OF dec_nat_digits] lead m by (simp_all del: takeWhile_eq_all_conv dropWhile_eq_Nil_conv add: Let_def digits1_def dec_nat_digits valid_fraction_def valid_exponent_def)
qed

lemma number_itoa: "number_value (itoa i) = Some (JInt i)"
proof (cases "i < 0")
  case True
  define n where "n = nat (- i) - 1"
  have "nat (- i) = Suc n" "i = - int (Suc n)" using True by (simp_all add: n_def)
  then show ?thesis using number_dec_nat(2) [of n] by (simp add: number_value_def itoa_def Let_def)
next
  case False
  then show ?thesis using number_dec_nat(1,3) [of "nat i"] by (simp add: number_value_def itoa_def Let_def)
qed

text \<open>Values of which the number literals are valid and not written canonically as integers.\<close>

fun json_ok :: "json \<Rightarrow> bool" where
  "json_ok (JNum s) \<longleftrightarrow> number_value s = Some (JNum s) \<and> list_all number_char s"
| "json_ok (JArr vs) \<longleftrightarrow> list_all json_ok vs"
| "json_ok (JObj kvs) \<longleftrightarrow> list_all (\<lambda>(k, v). json_ok v) kvs"
| "json_ok v \<longleftrightarrow> True"

text \<open>A text after a value does not begin inside a number.\<close>

definition ended :: "string \<Rightarrow> bool" where "ended s \<longleftrightarrow> s = [] \<or> \<not> number_char (hd s)"

fun steps :: "json \<Rightarrow> nat" where
  "steps (JArr vs) = Suc (sum_list (map (\<lambda>v. Suc (steps v)) vs))"
| "steps (JObj kvs) = Suc (sum_list (map (\<lambda>(k, v). Suc (steps v)) kvs))"
| "steps v = 1"

lemma itoa_chars: "list_all number_char (itoa i) \<and> itoa i \<noteq> []"
  using dec_nat_digits [of "nat i"] dec_nat_digits [of "nat (- i)"] by (auto simp: itoa_def list_all_iff number_char_def)

lemma number_char_not: "number_char c \<Longrightarrow> c \<noteq> dq \<and> c \<noteq> CHR ''['' \<and> c \<noteq> CHR ''{'' \<and> \<not> json_space c"
  by (auto simp: number_char_def dq_def json_space_def is_digit_def)

lemma read_number:
  assumes "list_all number_char s" and "s \<noteq> []" and "number_value s = Some v" and "ended rest"
  shows "read_value (Suc n) (s @ rest) = Some (v, rest)"
proof -
  obtain c t where s: "s = c # t" using assms(2) by (cases s) auto
  have split: "takeWhile number_char (s @ rest) = s" "dropWhile number_char (s @ rest) = rest"
    using assms(1,4) by (auto simp: list_all_iff ended_def dropWhile_eq_self_iff takeWhile_eq_Nil_iff)
  have "number_char c" using assms(1) s by simp
  with number_char_not [OF this] split assms(3) show ?thesis by (simp add: s)
qed

lemma read_literal: "read_value (Suc n) (''null'' @ rest) = Some (JNull, rest)"
  "read_value (Suc n) (''true'' @ rest) = Some (JBool True, rest)" "read_value (Suc n) (''false'' @ rest) = Some (JBool False, rest)"
  by (simp_all add: json_space_def dq_def number_char_def is_digit_def literals_def has_prefix_def)

text \<open>The first character written is no white space and closes nothing.\<close>

lemma jprint_first: "json_ok v \<Longrightarrow> \<exists>c s. jprint v = c # s \<and> \<not> json_space c \<and> c \<noteq> CHR '']'' \<and> c \<noteq> CHR ''}''"
proof (cases v)
  case (JInt i)
  then show ?thesis using itoa_chars [of i] by (cases "itoa i") (auto simp: number_char_def json_space_def is_digit_def)
next
  case (JNum s)
  then show "json_ok v \<Longrightarrow> ?thesis"
    by (cases s) (auto simp: number_char_def json_space_def is_digit_def number_value_def valid_number_def digits1_def)
qed (auto simp: print_string_def json_space_def dq_def)

lemma ended_close [simp]: "ended (CHR '']'' # s)" "ended (CHR ''}'' # s)" "ended (CHR '','' # s)" "ended []"
  by (simp_all add: ended_def number_char_def is_digit_def)

lemma not_space [simp]: "\<not> json_space (CHR '']'')" "\<not> json_space (CHR ''}'')" "\<not> json_space (CHR '','')" "\<not> json_space (CHR '':'')"
  "\<not> json_space (CHR ''['')" "\<not> json_space (CHR ''{'')" "\<not> json_space dq"
  by (simp_all add: json_space_def dq_def)

lemma dq_other [simp]: "CHR ''['' \<noteq> dq" "CHR ''{'' \<noteq> dq" "dq \<noteq> CHR ''['' " "dq \<noteq> CHR ''{''" "dq \<noteq> CHR ''}''" "dq \<noteq> CHR '']''"
  by (simp_all add: dq_def)

lemma join_Cons: "xs \<noteq> [] \<Longrightarrow> join sep (x # xs) = x @ sep @ join sep xs"
  by (cases xs) simp_all

definition reads_back :: "nat \<Rightarrow> json \<Rightarrow> bool" where
  "reads_back n v \<longleftrightarrow> (\<forall>rest. ended rest \<longrightarrow> read_value n (jprint v @ rest) = Some (v, rest))"

lemma read_elements_back:
  assumes "vs \<noteq> []" and "sum_list (map (\<lambda>v. Suc (steps v)) vs) \<le> n"
    and "\<And>v m. v \<in> set vs \<Longrightarrow> steps v \<le> m \<Longrightarrow> reads_back m v"
  shows "read_elements n (join '','' (map jprint vs) @ CHR '']'' # rest) = Some (vs, rest)"
  using assms
proof (induction vs arbitrary: n)
  case (Cons v vs)
  then obtain m where n: "n = Suc m" by (cases n) auto
  have v: "reads_back m v" using Cons.prems n by simp
  show ?case
  proof (cases "vs = []")
    case True
    with v n show ?thesis by (simp add: reads_back_def)
  next
    case False
    have "read_elements m (join '','' (map jprint vs) @ CHR '']'' # rest) = Some (vs, rest)"
      using Cons.prems n by (intro Cons.IH [OF False]) auto
    with v n False show ?thesis by (simp add: reads_back_def join_Cons)
  qed
qed simp

lemma read_members_back:
  assumes "kvs \<noteq> []" and "sum_list (map (\<lambda>(k, v). Suc (steps v)) kvs) \<le> n"
    and "\<And>k v m. (k, v) \<in> set kvs \<Longrightarrow> steps v \<le> m \<Longrightarrow> reads_back m v"
  shows "read_members n (join '','' (map (\<lambda>(k, v). print_string k @ '':'' @ jprint v) kvs) @ CHR ''}'' # rest) = Some (kvs, rest)"
  using assms
proof (induction kvs arbitrary: n)
  case (Cons kv kvs)
  obtain k v where kv: "kv = (k, v)" by (cases kv)
  from Cons.prems obtain m where n: "n = Suc m" by (cases n) (auto simp: kv)
  have v: "reads_back m v" using Cons.prems(3) [of k v m] Cons.prems(2) n kv by simp
  show ?case
  proof (cases "kvs = []")
    case True
    with v n kv show ?thesis by (simp add: reads_back_def print_string_def read_escaped)
  next
    case False
    have "read_members m (join '','' (map (\<lambda>(k, v). print_string k @ '':'' @ jprint v) kvs) @ CHR ''}'' # rest) = Some (kvs, rest)"
      using Cons.prems n kv by (intro Cons.IH [OF False]) auto
    with v n False kv show ?thesis by (simp add: reads_back_def join_Cons print_string_def read_escaped)
  qed
qed simp

text \<open>The values without parts are read back whatever follows them.\<close>
lemma reads_back_leaf:
  assumes "json_ok v" and "steps v \<le> n" and "\<forall>vs. v \<noteq> JArr vs" and "\<forall>kvs. v \<noteq> JObj kvs"
  shows "reads_back n v"
proof (cases v)
  case JNull
  then show ?thesis using assms read_literal(1) by (cases n) (auto simp: reads_back_def simp del: read_value.simps)
next
  case (JBool b)
  then show ?thesis using assms read_literal(2,3) by (cases n) (auto simp: reads_back_def simp del: read_value.simps)
next
  case (JInt i)
  then show ?thesis using assms read_number [OF _ _ number_itoa] itoa_chars by (cases n) (auto simp: reads_back_def simp del: read_value.simps)
next
  case (JNum s)
  then have "list_all number_char s" "s \<noteq> []" "number_value s = Some (JNum s)"
    using assms by (auto simp: number_value_def valid_number_def digits1_def split: if_splits)
  from read_number [OF this] JNum show ?thesis using assms by (cases n) (auto simp: reads_back_def simp del: read_value.simps)
next
  case (JStr s)
  then show ?thesis using assms by (cases n) (auto simp: reads_back_def print_string_def read_escaped)
qed (use assms in auto)

lemma read_value_back: "json_ok v \<Longrightarrow> steps v \<le> n \<Longrightarrow> reads_back n v"
proof (induction v arbitrary: n rule: steps.induct)
  case (1 vs)
  then obtain m where n: "n = Suc m" "sum_list (map (\<lambda>v. Suc (steps v)) vs) \<le> m" by (cases n) auto
  show ?case
  proof (cases vs)
    case Nil
    then show ?thesis using n by (simp add: reads_back_def dq_def)
  next
    case (Cons w ws)
    have ne: "vs \<noteq> []" using Cons by simp
    obtain c s where c: "jprint w = c # s" "\<not> json_space c" "c \<noteq> CHR '']''" using jprint_first [of w] 1(2) Cons by auto
    have "join '','' (map jprint vs) = c # drop 1 (join '','' (map jprint vs))" using c(1) Cons by (cases ws) simp_all
    then obtain u where u: "join '','' (map jprint vs) = c # u" by blast
    have "read_elements m (join '','' (map jprint vs) @ CHR '']'' # rest) = Some (vs, rest)" for rest
      using 1 n(2) by (intro read_elements_back [OF ne]) (auto simp: list_all_iff)
    then show ?thesis using n(1) c u by (simp add: reads_back_def dq_def)
  qed
next
  case (2 kvs)
  then obtain m where n: "n = Suc m" "sum_list (map (\<lambda>(k, v). Suc (steps v)) kvs) \<le> m" by (cases n) auto
  show ?case
  proof (cases kvs)
    case Nil
    then show ?thesis using n by (simp add: reads_back_def dq_def)
  next
    case (Cons w ws)
    let ?p = "\<lambda>(k, v). print_string k @ '':'' @ jprint v"
    have ne: "kvs \<noteq> []" using Cons by simp
    have "join '','' (map ?p kvs) = dq # drop 1 (join '','' (map ?p kvs))" using Cons by (cases ws; cases w) (simp_all add: print_string_def)
    then obtain u where u: "join '','' (map ?p kvs) = dq # u" by blast
    have "read_members m (join '','' (map ?p kvs) @ CHR ''}'' # rest) = Some (kvs, rest)" for rest
      using 2 n(2) by (intro read_members_back [OF ne]) (auto simp: list_all_iff)
    then show ?thesis using n(1) u by (simp add: reads_back_def)
  qed
qed (rule reads_back_leaf; simp)+

lemma steps_pos: "0 < steps v"
  by (cases v) simp_all

lemma length_join: "length (join '','' ss) + 1 = sum_list (map (\<lambda>s. Suc (length s)) ss) + (if ss = [] then 1 else 0)"
  by (induction ss rule: induct_list012) auto

lemma steps_leaf:
  assumes "json_ok v" and "\<forall>vs. v \<noteq> JArr vs" and "\<forall>kvs. v \<noteq> JObj kvs"
  shows "steps v \<le> length (jprint v)"
proof (cases v)
  case (JInt i)
  then show ?thesis using itoa_chars [of i] by (cases "itoa i") auto
next
  case (JNum s)
  then show ?thesis using assms by (cases s) (auto simp: number_value_def valid_number_def digits1_def)
qed (use assms in \<open>auto simp: print_string_def\<close>)

lemma steps_length: "json_ok v \<Longrightarrow> steps v \<le> length (jprint v)"
proof (induction v rule: steps.induct)
  case (1 vs)
  have "sum_list (map (\<lambda>v. Suc (steps v)) vs) \<le> sum_list (map (\<lambda>v. Suc (length (jprint v))) vs)"
    using 1 by (intro sum_list_mono) (auto simp: list_all_iff)
  with length_join [of "map jprint vs"] show ?case by (simp add: comp_def)
next
  case (2 kvs)
  have "sum_list (map (\<lambda>(k, v). Suc (steps v)) kvs) \<le> sum_list (map (\<lambda>kv. Suc (length (case kv of (k, v) \<Rightarrow> print_string k @ '':'' @ jprint v))) kvs)"
    using 2 by (intro sum_list_mono) (fastforce simp: list_all_iff)
  with length_join [of "map (\<lambda>(k, v). print_string k @ '':'' @ jprint v) kvs"] show ?case by (simp add: comp_def)
qed (rule steps_leaf; simp)+

theorem jparse_jprint:
  assumes ok: "json_ok v"
  shows "jparse (jprint v) = Raw v" "jfirst (jprint v) = Raw v"
proof -
  have "reads_back (length (jprint v)) v" by (rule read_value_back [OF ok steps_length [OF ok]])
  then have "read_value (length (jprint v)) (jprint v @ []) = Some (v, [])" by (simp only: reads_back_def ended_close)
  moreover have "jprint v \<noteq> []" "skip (jprint v) \<noteq> []" using jprint_first [OF ok] by auto
  ultimately show "jparse (jprint v) = Raw v" "jfirst (jprint v) = Raw v" by (simp_all add: jparse_def jfirst_def)
qed

section \<open>Lengths\<close>

lemma escape_length: "length (escape_char c) \<le> 6"
  by (simp add: escape_char_def)

lemma print_length: "length (print_string s) \<le> 6 * length s + 2"
proof -
  have "length (concat (map escape_char s)) \<le> 6 * length s"
    by (induction s) (use escape_length in \<open>auto intro: add_mono\<close>)
  then show ?thesis by (simp add: print_string_def)
qed

lemma object_length: "length (jprint (JObj kvs)) \<le> 2 + sum_list (map (\<lambda>(k, v). 6 * length k + 4 + length (jprint v)) kvs)"
proof -
  have "length (join '','' (map (\<lambda>(k, v). print_string k @ '':'' @ jprint v) kvs)) \<le>
      sum_list (map (\<lambda>(k, v). 6 * length k + 4 + length (jprint v)) kvs)"
  proof (induction kvs rule: induct_list012)
    case (2 kv)
    then show ?case using print_length [of "fst kv"] by (cases kv) simp
  next
    case (3 kv kv' kvs)
    then show ?case using print_length [of "fst kv"] by (cases kv; cases kv') simp
  qed simp
  then show ?thesis by simp
qed

end
