(* ===== verification/Base64_Url.thy ===== *)
theory Base64_Url
  imports Iam_Base64
begin

text \<open>
  \<open>base64.RawURLEncoding\<close>, which tokens are written with: the URL alphabet without padding.  Decoding
  skips line breaks and refuses other foreign characters and an impossible length.
\<close>

definition url_char :: "char \<Rightarrow> char" where
  "url_char c = (if c = CHR ''+'' then CHR ''-'' else if c = CHR ''/'' then CHR ''_'' else c)"

definition std_char :: "char \<Rightarrow> char" where
  "std_char c = (if c = CHR ''-'' then CHR ''+'' else if c = CHR ''_'' then CHR ''/'' else c)"

definition url_chars :: string where "url_chars = map url_char b64_chars"

definition unpadded :: "string \<Rightarrow> string" where "unpadded s = filter (\<lambda>c. c \<noteq> CHR ''='') s"

definition rawurl_encode :: "string \<Rightarrow> string" where
  "rawurl_encode s = map url_char (unpadded (b64Encode s))"

definition padding :: "nat \<Rightarrow> string" where "padding n = replicate ((4 - n mod 4) mod 4) (CHR ''='')"

definition rawurl_decode :: "string \<Rightarrow> string option" where
  "rawurl_decode t =
     (let u = filter (\<lambda>c. c \<notin> {CHR 0x0A, CHR 0x0D}) t in
      if list_all (\<lambda>c. c \<in> set url_chars) u \<and> length u mod 4 \<noteq> 1
      then Some (b64_decode (map std_char u @ padding (length u))) else None)"

section \<open>Round trip\<close>

lemma length_chars: "length b64_chars = 64"
  by (simp add: b64_chars_def)

lemma sextets_small:
  "unat (drop_bit 2 b0 AND (0x3F :: 8 word)) < 64" "unat (push_bit 4 ((b0 :: 8 word) AND 3) OR (drop_bit 4 b1 AND 0xF)) < 64"
  "unat (push_bit 2 ((b1 :: 8 word) AND 0xF) OR (drop_bit 6 b2 AND 3)) < 64" "unat ((b2 :: 8 word) AND 0x3F) < 64"
proof -
  have "unat b1 div 16 < 16" "unat b2 div 64 < 4" using byte_less [of b1] byte_less [of b2] by simp_all
  then show "unat (push_bit 4 ((b0 :: 8 word) AND 3) OR (drop_bit 4 b1 AND 0xF)) < 64"
    "unat (push_bit 2 ((b1 :: 8 word) AND 0xF) OR (drop_bit 6 b2 AND 3)) < 64"
    unfolding sextet1 sextet2 using mod_less_divisor [of 4 "unat b0"] mod_less_divisor [of 16 "unat b1"] by linarith+
  show "unat (drop_bit 2 b0 AND (0x3F :: 8 word)) < 64" "unat ((b2 :: 8 word) AND 0x3F) < 64"
    unfolding sextet3 by simp_all
qed

lemma group_chars: "set (b64_group x y z) \<subseteq> set b64_chars"
  unfolding b64_group_def using sextets_small by (auto simp only: list.set length_chars intro!: nth_mem)

lemma no_padding_char: "CHR ''='' \<notin> set b64_chars"
  by (simp add: b64_chars_def)

lemma unpadded_group: "unpadded (b64_group x y z) = b64_group x y z"
  using group_chars [of x y z] no_padding_char by (auto simp: unpadded_def filter_id_conv)

lemma group_four: "length (b64_group x y z) = 4"
  by (simp add: b64_group_def)

lemma unpadded_encode:
  "b64Encode s = unpadded (b64Encode s) @ padding (length (unpadded (b64Encode s))) \<and>
   set (unpadded (b64Encode s)) \<subseteq> set b64_chars \<and> length (unpadded (b64Encode s)) mod 4 \<noteq> 1"
proof (induction s rule: b64_loop.induct)
  case (2 c0)
  obtain p q r t where g: "b64_group (byte_of c0) 0 0 = [p, q, r, t]" by (simp add: b64_group_def)
  then have "p \<in> set b64_chars" "q \<in> set b64_chars" using group_chars [of "byte_of c0" 0 0] by auto
  moreover have "p \<noteq> CHR ''=''" "q \<noteq> CHR ''=''" using calculation no_padding_char by auto
  moreover have "b64Encode [c0] = [p, q, CHR ''='', CHR ''='']"
    using g by (simp add: b64Encode_def Let_def)
  moreover have "padding 2 = [CHR ''='', CHR ''='']" by code_simp
  ultimately show ?case by (simp add: unpadded_def numeral_2_eq_2)
next
  case (3 c0 c1)
  obtain p q r t where g: "b64_group (byte_of c0) (byte_of c1) 0 = [p, q, r, t]" by (simp add: b64_group_def)
  then have "p \<in> set b64_chars" "q \<in> set b64_chars" "r \<in> set b64_chars" using group_chars [of "byte_of c0" "byte_of c1" 0] by auto
  moreover have "p \<noteq> CHR ''=''" "q \<noteq> CHR ''=''" "r \<noteq> CHR ''=''" using calculation no_padding_char by auto
  moreover have e: "b64Encode [c0, c1] = [p, q, r, CHR ''='']"
    using g by (simp add: b64Encode_def Let_def)
  moreover have u: "unpadded [p, q, r, CHR ''=''] = [p, q, r]" using calculation by (simp add: unpadded_def)
  moreover have "padding (length [p, q, r]) = [CHR ''='']" by (simp add: padding_def)
  moreover have "length [p, q, r] mod 4 \<noteq> 1" by simp
  ultimately show ?case unfolding e u by auto
next
  case (4 c0 c1 c2 s)
  let ?g = "b64_group (byte_of c0) (byte_of c1) (byte_of c2)"
  have u: "unpadded (?g @ b64Encode s) = ?g @ unpadded (b64Encode s)" using unpadded_group by (simp add: unpadded_def)
  have len: "length (?g @ x) mod 4 = length x mod 4" for x by (simp add: group_four)
  then have "padding (length (?g @ x)) = padding (length x)" for x by (simp only: padding_def)
  with 4 u len group_chars [of "byte_of c0" "byte_of c1" "byte_of c2"] show ?case unfolding b64Encode_group by simp
qed (simp add: b64Encode_def unpadded_def padding_def)

lemma url_std: "c \<in> set b64_chars \<Longrightarrow> std_char (url_char c) = c \<and> url_char c \<in> set url_chars"
  by (auto simp: std_char_def url_char_def url_chars_def b64_chars_def)

lemma url_chars_plain: "c \<in> set url_chars \<Longrightarrow> c \<noteq> CHR ''.'' \<and> c \<notin> {CHR 0x0A, CHR 0x0D}"
  by (auto simp: url_chars_def b64_chars_def url_char_def)

lemma rawurl_chars: "set (rawurl_encode s) \<subseteq> set url_chars"
  using unpadded_encode [of s] url_std by (auto simp: rawurl_encode_def)

lemma rawurl_no_dot: "CHR ''.'' \<notin> set (rawurl_encode s)"
  using rawurl_chars [of s] url_chars_plain by auto

theorem rawurl_roundtrip: "rawurl_decode (rawurl_encode s) = Some s"
proof -
  let ?u = "unpadded (b64Encode s)"
  have u: "b64Encode s = ?u @ padding (length ?u)" "set ?u \<subseteq> set b64_chars" "length ?u mod 4 \<noteq> 1" using unpadded_encode [of s] by auto
  have f: "filter (\<lambda>c. c \<notin> {CHR 0x0A, CHR 0x0D}) (rawurl_encode s) = rawurl_encode s"
    using rawurl_chars [of s] url_chars_plain by (intro filter_True) auto
  have m: "map std_char (rawurl_encode s) = ?u"
    unfolding rawurl_encode_def map_map using u(2) url_std by (intro map_idI) auto
  have a: "list_all (\<lambda>c. c \<in> set url_chars) (rawurl_encode s)" using rawurl_chars [of s] by (auto simp: list_all_iff)
  have "length (rawurl_encode s) = length ?u" by (simp add: rawurl_encode_def)
  then show ?thesis using u(1,3) decode_encode [of s] unfolding rawurl_decode_def f Let_def m using a by simp
qed

end
