(* ===== verification/Security_Token.thy ===== *)
theory Security_Token
  imports Json_Text Base64_Url Http Resource_Manager
begin

text \<open>
  \<open>pkg/security/security.go\<close>, the local credentials: tokens signed with a keyed hash, their claims, and
  their verification.  The keyed hash \<open>mac\<close>, the formatting of times \<open>stamp\<close> and the random bytes are
  arguments; the signing secret's file and TLS are not modelled.
\<close>

section \<open>Claims\<close>

datatype token_error = ErrInvalidToken | ErrExpired | ErrAudience | ErrScope | ErrRequest

definition maxTokenLifetime :: int where "maxTokenLifetime = 3600 * 1000000000"

record claims =
  cl_subject :: string
  cl_audience :: string
  cl_scopes :: "string list"
  cl_issued :: string
  cl_expires :: string
  cl_id :: string

record token_request =
  tr_subject :: string
  tr_audience :: string
  tr_scopes :: "string list"
  tr_lifetime :: int

record verify_options =
  vo_audience :: string
  vo_scope :: string

definition enc_claims :: "claims \<Rightarrow> json" where
  "enc_claims c = JObj ([(''sub'', JStr (cl_subject c))] @ omit_str ''aud'' (cl_audience c) @
     (if cl_scopes c = [] then [] else [(''scope'', JArr (map JStr (cl_scopes c)))]) @
     [(''iat'', JStr (cl_issued c)), (''exp'', JStr (cl_expires c)), (''jti'', JStr (cl_id c))])"

text \<open>A slice of strings: \<open>null\<close> is nil, an element \<open>null\<close> the empty string.\<close>

definition dec_strings :: "json \<Rightarrow> json_error + string list" where
  "dec_strings v =
     (case v of
        JNull \<Rightarrow> Inr []
      | JArr vs \<Rightarrow> (if list_all (\<lambda>v. case v of JStr s \<Rightarrow> True | JNull \<Rightarrow> True | _ \<Rightarrow> False) vs
                   then Inr (map (\<lambda>v. case v of JStr s \<Rightarrow> s | _ \<Rightarrow> []) vs) else Inl (TypeMismatch ''string''))
      | _ \<Rightarrow> Inl (TypeMismatch ''slice''))"

definition claim_fields :: "string list" where
  "claim_fields = [''sub'', ''aud'', ''scope'', ''iat'', ''exp'', ''jti'']"

definition dec_claim :: "string \<Rightarrow> json \<Rightarrow> claims \<Rightarrow> json_error + claims" where
  "dec_claim k v c =
     (case match_field claim_fields k of
        None \<Rightarrow> Inl (UnknownField k)
      | Some f \<Rightarrow>
          if f = ''sub'' then set_text (\<lambda>s. c\<lparr>cl_subject := s\<rparr>) (dec_string v (cl_subject c))
          else if f = ''aud'' then set_text (\<lambda>s. c\<lparr>cl_audience := s\<rparr>) (dec_string v (cl_audience c))
          else if f = ''scope'' then map_sum id (\<lambda>ss. c\<lparr>cl_scopes := ss\<rparr>) (dec_strings v)
          else if f = ''iat'' then set_text (\<lambda>s. c\<lparr>cl_issued := s\<rparr>) (dec_time v (cl_issued c))
          else if f = ''exp'' then set_text (\<lambda>s. c\<lparr>cl_expires := s\<rparr>) (dec_time v (cl_expires c))
          else set_text (\<lambda>s. c\<lparr>cl_id := s\<rparr>) (dec_string v (cl_id c)))"

definition dec_claims :: "json \<Rightarrow> json_error + claims" where
  "dec_claims = dec_struct dec_claim \<lparr>cl_subject = [], cl_audience = [], cl_scopes = [], cl_issued = zero_time, cl_expires = zero_time, cl_id = []\<rparr>"

section \<open>Scopes\<close>

text \<open>Trimmed, without blanks, the first of equal ones.\<close>

fun normalize_scopes :: "string list \<Rightarrow> string list \<Rightarrow> string list" where
  "normalize_scopes seen [] = []"
| "normalize_scopes seen (s # ss) =
     (let t = trim_space s in
      if t = [] \<or> t \<in> set seen then normalize_scopes seen ss else t # normalize_scopes (t # seen) ss)"

definition normalizedScopes :: "string list \<Rightarrow> string list" where
  "normalizedScopes ss = normalize_scopes [] ss"

definition cloudPlatform :: string where "cloudPlatform = ''https://www.googleapis.com/auth/cloud-platform''"

definition hasScope :: "string list \<Rightarrow> string \<Rightarrow> bool" where
  "hasScope scopes required \<longleftrightarrow> list_ex (\<lambda>s. s = required \<or> s = cloudPlatform) scopes"

section \<open>Tokens\<close>

definition token_prefix :: string where "token_prefix = ''ms1''"

definition seal :: "(string \<Rightarrow> string \<Rightarrow> string) \<Rightarrow> string \<Rightarrow> string \<Rightarrow> string" where
  "seal mac key payload = token_prefix @ ''.'' @ rawurl_encode payload @ ''.'' @ rawurl_encode (mac key payload)"

text \<open>\<open>now\<close> is in nanoseconds, \<open>rnd\<close> the sixteen random bytes.\<close>

definition Issue ::
    "(string \<Rightarrow> string \<Rightarrow> string) \<Rightarrow> (int \<Rightarrow> string) \<Rightarrow> string \<Rightarrow> int \<Rightarrow> string \<Rightarrow> token_request \<Rightarrow> token_error + (string \<times> claims)" where
  "Issue mac stamp key now rnd r =
     (if length key < 32 \<or> trim_space (tr_subject r) = [] then Inl ErrRequest
      else let lifetime = (if tr_lifetime r = 0 then maxTokenLifetime else tr_lifetime r) in
        if lifetime \<le> 0 \<or> lifetime > maxTokenLifetime then Inl ErrRequest
        else let c = \<lparr>cl_subject = trim_space (tr_subject r), cl_audience = trim_space (tr_audience r),
                      cl_scopes = normalizedScopes (tr_scopes r), cl_issued = stamp now, cl_expires = stamp (now + lifetime),
                      cl_id = rawurl_encode rnd\<rparr>
             in Inr (seal mac key (jprint (enc_claims c)), c))"

text \<open>Opening a token: its shape, its signature, its claims.\<close>

definition open_token :: "(string \<Rightarrow> string \<Rightarrow> string) \<Rightarrow> string \<Rightarrow> string \<Rightarrow> claims option" where
  "open_token mac key token =
     (case split (CHR ''.'') token of
        [v, p, s] \<Rightarrow>
          (if v \<noteq> token_prefix then None
           else case rawurl_decode p of None \<Rightarrow> None
           | Some payload \<Rightarrow>
               (case rawurl_decode s of None \<Rightarrow> None
                | Some signature \<Rightarrow>
                    if signature \<noteq> mac key payload then None
                    else (case jfirst payload of
                        Raw j \<Rightarrow> (case dec_claims j of
                            Inr c \<Rightarrow> if cl_subject c = [] \<or> instant (cl_expires c) = instant zero_time then None else Some c
                          | Inl e \<Rightarrow> None)
                      | _ \<Rightarrow> None)))
      | _ \<Rightarrow> None)"

definition expired :: "int \<Rightarrow> claims \<Rightarrow> bool" where
  "expired now c \<longleftrightarrow> (case instant (cl_expires c) of Some e \<Rightarrow> e \<le> now | None \<Rightarrow> True)"

definition Verify ::
    "(string \<Rightarrow> string \<Rightarrow> string) \<Rightarrow> string \<Rightarrow> int \<Rightarrow> string \<Rightarrow> verify_options \<Rightarrow> token_error + claims" where
  "Verify mac key now token opts =
     (case open_token mac key token of
        None \<Rightarrow> Inl ErrInvalidToken
      | Some c \<Rightarrow>
          if expired now c then Inl ErrExpired
          else if vo_audience opts \<noteq> [] \<and> cl_audience c \<noteq> vo_audience opts then Inl ErrAudience
          else if vo_scope opts \<noteq> [] \<and> \<not> hasScope (cl_scopes c) (vo_scope opts) then Inl ErrScope
          else Inr c)"

end
