(* ===== verification/Security_Token_Properties.thy ===== *)
theory Security_Token_Properties
  imports Security_Token
begin

text \<open>
  What local tokens guarantee: an issued token is accepted by the key that signed it until it expires and
  for its audience and scopes, and whatever is accepted was signed over exactly the claims answered.
\<close>

section \<open>Claims and seals\<close>

lemma dec_strings_map [simp]: "dec_strings (JArr (map JStr ss)) = Inr ss"
  by (simp add: dec_strings_def list_all_iff comp_def)

lemma dec_enc_claims: "rfc3339 (cl_issued c) \<Longrightarrow> rfc3339 (cl_expires c) \<Longrightarrow> dec_claims (enc_claims c) = Inr c"
  by (cases c) (simp add: dec_claims_def enc_claims_def dec_struct_def omit_str_def dec_claim_def claim_fields_def set_text_def)

lemma json_ok_claims: "json_ok (enc_claims c)"
  by (simp add: enc_claims_def omit_str_def list_all_iff)

lemma split_seal: "split (CHR ''.'') (seal mac key payload) = [token_prefix, rawurl_encode payload, rawurl_encode (mac key payload)]"
proof -
  have "seal mac key payload = join [CHR ''.''] [token_prefix, rawurl_encode payload, rawurl_encode (mac key payload)]"
    by (simp add: seal_def)
  moreover have "split (CHR ''.'') (join [CHR ''.''] [token_prefix, rawurl_encode payload, rawurl_encode (mac key payload)]) =
      [token_prefix, rawurl_encode payload, rawurl_encode (mac key payload)]"
    using rawurl_no_dot by (intro split_join) (auto simp: token_prefix_def)
  ultimately show ?thesis by simp
qed

lemma open_seal:
  assumes "rfc3339 (cl_issued c)" and "rfc3339 (cl_expires c)" and "cl_subject c \<noteq> []" and "instant (cl_expires c) \<noteq> instant zero_time"
  shows "open_token mac other (seal mac key (jprint (enc_claims c))) =
    (if mac other (jprint (enc_claims c)) = mac key (jprint (enc_claims c)) then Some c else None)"
  unfolding open_token_def split_seal using assms jparse_jprint(2) [OF json_ok_claims]
  by (simp add: rawurl_roundtrip dec_enc_claims)

lemma normalize_scopes_spec:
  "set (normalize_scopes seen ss) = {trim_space s |s. s \<in> set ss} - {[]} - set seen \<and> distinct (normalize_scopes seen ss)"
  by (induction seen ss rule: normalize_scopes.induct) (auto simp: Let_def)

lemma instant_rfc3339: "instant t = Some n \<Longrightarrow> rfc3339 t"
  by (simp add: instant_def split: if_splits)

section \<open>Issued tokens\<close>

definition token_lifetime :: "token_request \<Rightarrow> int" where
  "token_lifetime r = (if tr_lifetime r = 0 then maxTokenLifetime else tr_lifetime r)"

lemma Issue_Inr:
  assumes "Issue mac stamp key now rnd r = Inr (token, c)"
  shows "token = seal mac key (jprint (enc_claims c))" "cl_subject c = trim_space (tr_subject r)" "cl_subject c \<noteq> []"
    "cl_audience c = trim_space (tr_audience r)" "cl_scopes c = normalizedScopes (tr_scopes r)" "cl_issued c = stamp now"
    "cl_expires c = stamp (now + token_lifetime r)" "0 < token_lifetime r" "token_lifetime r \<le> maxTokenLifetime"
  using assms by (auto simp: Issue_def token_lifetime_def Let_def split: if_splits)

lemma token_verdict:
  assumes "Issue mac stamp key now rnd r = Inr (token, c)"
    and "instant (stamp now) = Some now" and "instant (stamp (now + token_lifetime r)) = Some (now + token_lifetime r)"
    and "instant zero_time = Some z" and "z \<le> now"
  shows "Verify mac other later token opts =
    (if mac other (jprint (enc_claims c)) \<noteq> mac key (jprint (enc_claims c)) then Inl ErrInvalidToken
     else if now + token_lifetime r \<le> later then Inl ErrExpired
     else if vo_audience opts \<noteq> [] \<and> trim_space (tr_audience r) \<noteq> vo_audience opts then Inl ErrAudience
     else if vo_scope opts \<noteq> [] \<and> \<not> hasScope (normalizedScopes (tr_scopes r)) (vo_scope opts) then Inl ErrScope
     else Inr c) \<and>
    0 < token_lifetime r \<and> token_lifetime r \<le> maxTokenLifetime"
proof -
  note i = Issue_Inr [OF assms(1)]
  have exp: "instant (cl_expires c) = Some (now + token_lifetime r)" using i(7) assms(3) by simp
  have "instant (cl_expires c) \<noteq> instant zero_time" using exp i(8) assms(4,5) by simp
  moreover have "rfc3339 (cl_issued c)" "rfc3339 (cl_expires c)" using instant_rfc3339 assms(2,3) i(6,7) by auto
  ultimately have "open_token mac other token = (if mac other (jprint (enc_claims c)) = mac key (jprint (enc_claims c)) then Some c else None)"
    using open_seal i(1,3) by simp
  with exp i show ?thesis by (simp add: Verify_def expired_def)
qed

text \<open>
  C26: what becomes of an issued token is settled by its request.  Presented to a verifier whose keyed
  hash agrees with the issuer's on the payload it is good, with exactly the claims issued, until its
  lifetime (an hour at most) is over, for its audience and for its scopes; any other key refuses it.
\<close>
theorem issued_token_verdict:
  assumes "Issue mac stamp key now rnd r = Inr (token, c)"
    and "instant (stamp now) = Some now" and "instant (stamp (now + token_lifetime r)) = Some (now + token_lifetime r)"
    and "instant zero_time = Some z" and "z \<le> now"
  shows "Verify mac other later token opts =
    (if mac other (jprint (enc_claims c)) \<noteq> mac key (jprint (enc_claims c)) then Inl ErrInvalidToken
     else if now + token_lifetime r \<le> later then Inl ErrExpired
     else if vo_audience opts \<noteq> [] \<and> trim_space (tr_audience r) \<noteq> vo_audience opts then Inl ErrAudience
     else if vo_scope opts \<noteq> [] \<and> \<not> hasScope (normalizedScopes (tr_scopes r)) (vo_scope opts) then Inl ErrScope
     else Inr c) \<and>
    0 < token_lifetime r \<and> token_lifetime r \<le> maxTokenLifetime"
  by (rule token_verdict [OF assms])

lemma split_three: "split (CHR ''.'') t = [a, b, c] \<Longrightarrow> t = a @ ''.'' @ b @ ''.'' @ c"
  using join_split [of "CHR ''.''" t] by simp

text \<open>
  C27: a token is only accepted with its signature.  An accepted token has the three parts, its second
  part decodes to a payload whose keyed hash is exactly the third, the claims answered are those of the
  payload, the token has not expired, and it has the audience and a scope that were asked for.
\<close>
theorem Verify_sound:
  assumes "Verify mac key now token opts = Inr c"
  shows "\<exists>p s payload j. token = token_prefix @ ''.'' @ p @ ''.'' @ s \<and> rawurl_decode p = Some payload \<and>
    rawurl_decode s = Some (mac key payload) \<and> jfirst payload = Raw j \<and> dec_claims j = Inr c \<and> cl_subject c \<noteq> [] \<and>
    (\<exists>e. instant (cl_expires c) = Some e \<and> now < e) \<and>
    (vo_audience opts = [] \<or> cl_audience c = vo_audience opts) \<and> (vo_scope opts = [] \<or> hasScope (cl_scopes c) (vo_scope opts))"
proof -
  have o: "open_token mac key token = Some c" "\<not> expired now c" "vo_audience opts = [] \<or> cl_audience c = vo_audience opts"
    "vo_scope opts = [] \<or> hasScope (cl_scopes c) (vo_scope opts)"
    using assms by (auto simp: Verify_def split: option.splits if_splits)
  from o(1) obtain v p s where parts: "split (CHR ''.'') token = [v, p, s]"
    by (auto simp: open_token_def split: list.splits)
  with o(1) obtain payload j where "v = token_prefix" "rawurl_decode p = Some payload" "rawurl_decode s = Some (mac key payload)"
    "jfirst payload = Raw j" "dec_claims j = Inr c" "cl_subject c \<noteq> []"
    by (auto simp: open_token_def split: option.splits if_splits raw_message.splits sum.splits)
  with o(2-4) split_three [OF parts] show ?thesis by (fastforce simp: expired_def split: option.splits)
qed

section \<open>A concrete token\<close>

definition sample_key :: string where "sample_key = ''0123456789abcdef0123456789abcdef''"

text \<open>A stand-in for the keyed hash, and the times of one minute.\<close>

definition sample_mac :: "string \<Rightarrow> string \<Rightarrow> string" where "sample_mac key payload = take 4 key @ take 4 (rev payload)"

definition sample_now :: int where "sample_now = the (instant ''2024-02-29T12:00:00Z'')"

definition sample_stamp :: "int \<Rightarrow> string" where
  "sample_stamp t = (if t = sample_now then ''2024-02-29T12:00:00Z'' else ''2024-02-29T12:01:00Z'')"

definition sample_request :: token_request where
  "sample_request = \<lparr>tr_subject = '' user:ada '', tr_audience = ''minisky-gateway'', tr_scopes = [''read'', '' read '', []],
     tr_lifetime = 60000000000\<rparr>"

definition sample_claims :: claims where
  "sample_claims = \<lparr>cl_subject = ''user:ada'', cl_audience = ''minisky-gateway'', cl_scopes = [''read''],
     cl_issued = ''2024-02-29T12:00:00Z'', cl_expires = ''2024-02-29T12:01:00Z'', cl_id = rawurl_encode ''0123456789abcdef''\<rparr>"

definition sample_token :: string where "sample_token = seal sample_mac sample_key (jprint (enc_claims sample_claims))"

lemma sample_times: "instant ''2024-02-29T12:00:00Z'' = Some sample_now" "instant ''2024-02-29T12:01:00Z'' = Some (sample_now + 60000000000)"
  "\<exists>z. instant zero_time = Some z \<and> z \<le> sample_now"
  by (simp_all add: sample_now_def zero_time_def instant_def rfc3339_def digits_at_def num_at_def parse_digits_def digit_value_def
      civil_days_def days_in_def zone_ok_def zone_offset_def fraction_nanos_def after_fraction_def is_digit_def)

lemma sample_issue: "Issue sample_mac sample_stamp sample_key sample_now ''0123456789abcdef'' sample_request = Inr (sample_token, sample_claims)"
proof -
  have "trim_space '' user:ada '' = ''user:ada''" "normalizedScopes [''read'', '' read '', []] = [''read'']"
    "trim_space ''minisky-gateway'' = ''minisky-gateway''" by code_simp+
  then show ?thesis
    by (simp add: Issue_def sample_key_def sample_request_def sample_claims_def sample_token_def sample_stamp_def maxTokenLifetime_def Let_def)
qed

lemma sample_stamps: "instant (sample_stamp sample_now) = Some sample_now"
  "instant (sample_stamp (sample_now + token_lifetime sample_request)) = Some (sample_now + token_lifetime sample_request)"
  using sample_times(1,2) by (simp_all add: sample_stamp_def sample_request_def token_lifetime_def)

definition gateway_read :: verify_options where "gateway_read = \<lparr>vo_audience = ''minisky-gateway'', vo_scope = ''read''\<rparr>"

theorem issued_token_verdict_witness:
  "Verify sample_mac sample_key (sample_now + 59999999999) sample_token gateway_read = Inr sample_claims \<and>
   Verify sample_mac sample_key (sample_now + 60000000000) sample_token gateway_read = Inl ErrExpired \<and>
   Verify sample_mac ''another key'' sample_now sample_token gateway_read = Inl ErrInvalidToken"
proof -
  obtain z where z: "instant zero_time = Some z" "z \<le> sample_now" using sample_times(3) by blast
  have "normalizedScopes [''read'', '' read '', []] = [''read'']" "trim_space ''minisky-gateway'' = ''minisky-gateway''" by code_simp+
  then show ?thesis
    using issued_token_verdict [OF sample_issue sample_stamps z, where opts = gateway_read]
    by (simp add: gateway_read_def sample_request_def token_lifetime_def hasScope_def sample_mac_def sample_key_def)
qed

theorem Verify_sound_witness:
  "\<exists>p s payload j. sample_token = token_prefix @ ''.'' @ p @ ''.'' @ s \<and> rawurl_decode p = Some payload \<and>
    rawurl_decode s = Some (sample_mac sample_key payload) \<and> jfirst payload = Raw j \<and> dec_claims j = Inr sample_claims"
proof -
  obtain z where z: "instant zero_time = Some z" "z \<le> sample_now" using sample_times(3) by blast
  have "normalizedScopes [''read'', '' read '', []] = [''read'']" "trim_space ''minisky-gateway'' = ''minisky-gateway''" by code_simp+
  then have "Verify sample_mac sample_key sample_now sample_token gateway_read = Inr sample_claims"
    using token_verdict [OF sample_issue sample_stamps z, where opts = gateway_read]
    by (simp add: gateway_read_def sample_request_def token_lifetime_def hasScope_def)
  from Verify_sound [OF this] show ?thesis by blast
qed

end
