(* ===== verification/Local_Credentials.thy ===== *)
theory Local_Credentials
  imports Iam_Access Security_Token_Properties
begin

text \<open>
  The credential interface of the IAM shim (\<open>pkg/shims/iam/api.go\<close>), as the credential shims and the
  dashboard hold it: a Go interface value is a record of functions, and \<open>iam_service_of\<close> is the one the
  IAM shim provides.  Also Go's \<open>time.ParseDuration\<close> and \<open>net.SplitHostPort\<close>, as these clients use them.
\<close>

section \<open>The interface\<close>

datatype issue_failure = Refused token_refusal | NotIssued token_error

record iam_service =
  sv_enforcing :: bool
  sv_authorize :: "string \<Rightarrow> string \<Rightarrow> string \<Rightarrow> bool"
  sv_verify :: "string \<Rightarrow> string \<Rightarrow> string \<Rightarrow> token_error + claims"
  sv_resolve :: "string \<Rightarrow> (string \<times> bool) option"
  sv_issue :: "string \<Rightarrow> string \<Rightarrow> string list \<Rightarrow> int \<Rightarrow> issue_failure + (string \<times> claims)"
  sv_audience :: string

text \<open>The signing side: the keyed hash, its secret, and the text of a time.\<close>

record token_issuer =
  is_mac :: "string \<Rightarrow> string \<Rightarrow> string"
  is_key :: string
  is_stamp :: "int \<Rightarrow> string"

definition IssueLocalToken ::
    "token_issuer \<Rightarrow> int \<Rightarrow> string \<Rightarrow> 's iam_api \<Rightarrow> string \<Rightarrow> string \<Rightarrow> string list \<Rightarrow> int \<Rightarrow> issue_failure + (string \<times> claims)" where
  "IssueLocalToken iss now rnd api subject audience scopes lifetime =
     (case tokenSubject api subject of
        Some e \<Rightarrow> Inl (Refused e)
      | None \<Rightarrow>
          map_sum NotIssued id (Issue (is_mac iss) (is_stamp iss) (is_key iss) now rnd
            \<lparr>tr_subject = subject, tr_audience = audience, tr_scopes = scopes, tr_lifetime = lifetime\<rparr>))"

definition VerifyLocalToken :: "token_issuer \<Rightarrow> int \<Rightarrow> string \<Rightarrow> string \<Rightarrow> string \<Rightarrow> token_error + claims" where
  "VerifyLocalToken iss now token audience scope =
     Verify (is_mac iss) (is_key iss) now token \<lparr>vo_audience = audience, vo_scope = scope\<rparr>"

definition iam_service_of ::
    "(string \<Rightarrow> string list) option \<Rightarrow> token_issuer \<Rightarrow> int \<Rightarrow> string \<Rightarrow> 's iam_api \<Rightarrow> iam_service" where
  "iam_service_of hierarchy iss now rnd api =
     \<lparr>sv_enforcing = im_strict api, sv_authorize = Authorize hierarchy api, sv_verify = VerifyLocalToken iss now,
      sv_resolve = ResolveServiceAccount api, sv_issue = IssueLocalToken iss now rnd api, sv_audience = im_audience api\<rparr>"

lemma cut_before: "cut c s = (a, b, ok) \<Longrightarrow> c \<notin> set a"
  by (auto simp: cut_def Let_def split: list.splits dest: set_takeWhileD)

lemma cut_found: "cut c s = (a, b, True) \<Longrightarrow> s = a @ c # b"
proof -
  assume cut: "cut c s = (a, b, True)"
  then obtain x xs where x: "dropWhile (\<lambda>d. d \<noteq> c) s = x # xs" by (cases "dropWhile (\<lambda>d. d \<noteq> c) s") (auto simp: cut_def Let_def)
  then have "x = c" using hd_dropWhile [of "\<lambda>d. d \<noteq> c" s] by simp
  with cut x show ?thesis using takeWhile_dropWhile_id [of "\<lambda>d. d \<noteq> c" s] by (simp add: cut_def Let_def)
qed

section \<open>Durations\<close>

definition duration_units :: "(string \<times> int) list" where
  "duration_units = [(''ns'', 1), (''us'', 1000), ([CHR 0xC2, CHR 0xB5, CHR ''s''], 1000), ([CHR 0xCE, CHR 0xBC, CHR ''s''], 1000), (''ms'', 1000000), (''s'', 1000000000), (''m'', 60000000000), (''h'', 3600000000000)]"

text \<open>
  One number with its unit after another; \<open>n\<close> bounds the parts.  Sums past the 64-bit range are errors;
  a fraction counts its whole nanoseconds.
\<close>

primrec duration_parts :: "nat \<Rightarrow> string \<Rightarrow> int \<Rightarrow> int option" where
  "duration_parts 0 s d = None"
| "duration_parts (Suc n) s d =
     (if s = [] then Some d
      else let i = takeWhile is_digit s; s1 = dropWhile is_digit s;
               dotted = (s1 \<noteq> [] \<and> hd s1 = CHR ''.'');
               f = (if dotted then takeWhile is_digit (tl s1) else []);
               s2 = (if dotted then dropWhile is_digit (tl s1) else s1);
               u = takeWhile (\<lambda>c. c \<noteq> CHR ''.'' \<and> \<not> is_digit c) s2
           in if i = [] \<and> f = [] then None
              else case map_of duration_units u of None \<Rightarrow> None
              | Some unit \<Rightarrow>
                  let d' = d + int (parse_digits i) * unit + int (parse_digits f) * unit div 10 ^ length f
                  in if d' > 2 ^ 63 then None else duration_parts n (drop (length u) s2) d')"

definition ParseDuration :: "string \<Rightarrow> int option" where
  "ParseDuration s =
     (let neg = (s \<noteq> [] \<and> hd s = CHR ''-''); t = (if s \<noteq> [] \<and> hd s \<in> {CHR ''-'', CHR ''+''} then tl s else s)
      in if t = ''0'' then Some 0
         else if t = [] then None
         else case duration_parts (Suc (length t)) t 0 of
             None \<Rightarrow> None | Some d \<Rightarrow> if neg then Some (- d) else if d > 2 ^ 63 - 1 then None else Some d)"

section \<open>Addresses\<close>

definition last_index :: "char \<Rightarrow> string \<Rightarrow> nat option" where
  "last_index c s = (if c \<in> set s then Some (length s - Suc (length (takeWhile (\<lambda>d. d \<noteq> c) (rev s)))) else None)"

definition first_index :: "char \<Rightarrow> string \<Rightarrow> nat option" where
  "first_index c s = (if c \<in> set s then Some (length (takeWhile (\<lambda>d. d \<noteq> c) s)) else None)"

text \<open>The host of \<open>host:port\<close> or \<open>[host]:port\<close>.\<close>

definition split_host :: "string \<Rightarrow> string option" where
  "split_host s =
     (case last_index (CHR '':'') s of None \<Rightarrow> None
      | Some i \<Rightarrow>
          if hd s = CHR ''['' then
            (case first_index (CHR '']'') s of None \<Rightarrow> None
             | Some e \<Rightarrow>
                 if Suc e \<noteq> i then None
                 else if CHR ''['' \<in> set (drop 1 s) \<or> CHR '']'' \<in> set (drop (Suc e) s) then None
                 else Some (take (e - 1) (drop 1 s)))
          else if CHR '':'' \<in> set (take i s) then None
          else if CHR ''['' \<in> set s \<or> CHR '']'' \<in> set s then None
          else Some (take i s))"

section \<open>What the clients rely on\<close>

text \<open>
  A token the interface has issued is good, until its time is over, for the audience and the scopes it
  was asked for.
\<close>

locale credential_issuer =
  fixes issue :: "string \<Rightarrow> string \<Rightarrow> string list \<Rightarrow> int \<Rightarrow> issue_failure + (string \<times> claims)"
    and verify :: "string \<Rightarrow> string \<Rightarrow> string \<Rightarrow> token_error + claims"
    and clocked :: "int \<Rightarrow> bool"
  assumes issued_verifies: "clocked lifetime \<Longrightarrow> issue subject audience scopes lifetime = Inr (token, c) \<Longrightarrow> trim_space audience = audience \<Longrightarrow>
      required = [] \<or> hasScope (normalizedScopes scopes) required \<Longrightarrow> verify token audience required = Inr c"
    and issued_claims: "issue subject audience scopes lifetime = Inr (token, c) \<Longrightarrow>
      cl_subject c = trim_space subject \<and> cl_scopes c = normalizedScopes scopes \<and> cl_audience c = trim_space audience"
    and verified_scope: "verify token audience required = Inr c \<Longrightarrow> required = [] \<or> hasScope (cl_scopes c) required"
begin

text \<open>What is issued can be presented again for any scope it holds.\<close>

lemma issued_for_scope:
  assumes "clocked lifetime" and "issue subject audience scopes lifetime = Inr (token, c)" and "trim_space audience = audience" and "s \<in> set (cl_scopes c)"
  shows "verify token audience s = Inr c"
proof (rule issued_verifies [OF assms(1-3)])
  show "s = [] \<or> hasScope (normalizedScopes scopes) s"
    using issued_claims [OF assms(2)] assms(4) by (auto simp: hasScope_def list_ex_iff)
qed

lemma issued_as_asked:
  assumes "clocked lifetime" and "issue subject audience scopes lifetime = Inr (token, c)" and "trim_space audience = audience"
  shows "verify token audience [] = Inr c"
  by (rule issued_verifies [OF assms]) simp

lemma verified_for_required: "verify token audience required = Inr c \<Longrightarrow> required \<noteq> [] \<Longrightarrow> hasScope (cl_scopes c) required"
  using verified_scope by blast

end

text \<open>The texts of the times a token is given are read back as those times.\<close>

definition stamps_read :: "token_issuer \<Rightarrow> int \<Rightarrow> int \<Rightarrow> bool" where
  "stamps_read iss now lifetime \<longleftrightarrow>
     (let l = (if lifetime = 0 then maxTokenLifetime else lifetime) in
      instant (is_stamp iss now) = Some now \<and> instant (is_stamp iss (now + l)) = Some (now + l)) \<and>
     (\<exists>z. instant zero_time = Some z \<and> z \<le> now)"

lemma IssueLocalToken_Inr:
  "IssueLocalToken iss now rnd api subject audience scopes lifetime = Inr (token, c) \<Longrightarrow>
   tokenSubject api subject = None \<and>
   Issue (is_mac iss) (is_stamp iss) (is_key iss) now rnd
     \<lparr>tr_subject = subject, tr_audience = audience, tr_scopes = scopes, tr_lifetime = lifetime\<rparr> = Inr (token, c)"
  unfolding IssueLocalToken_def
  by (cases "Issue (is_mac iss) (is_stamp iss) (is_key iss) now rnd
       \<lparr>tr_subject = subject, tr_audience = audience, tr_scopes = scopes, tr_lifetime = lifetime\<rparr>") (auto split: option.splits)

lemma IssueLocalToken_ok:
  assumes "tokenSubject api subject = None" and "32 \<le> length (is_key iss)" and "trim_space subject \<noteq> []"
    and "0 < lifetime" and "lifetime \<le> maxTokenLifetime"
  shows "\<exists>token c. IssueLocalToken iss now rnd api subject audience scopes lifetime = Inr (token, c)"
  using assms by (simp add: IssueLocalToken_def Issue_def Let_def)

lemma local_token_verdict:
  assumes "IssueLocalToken iss now rnd api subject audience scopes lifetime = Inr (token, c)" and "stamps_read iss now lifetime"
    and "trim_space audience = audience" and "required = [] \<or> hasScope (normalizedScopes scopes) required"
  shows "VerifyLocalToken iss now token audience required = Inr c"
proof -
  let ?r = "\<lparr>tr_subject = subject, tr_audience = audience, tr_scopes = scopes, tr_lifetime = lifetime\<rparr>"
  have i: "Issue (is_mac iss) (is_stamp iss) (is_key iss) now rnd ?r = Inr (token, c)" using IssueLocalToken_Inr [OF assms(1)] by simp
  have l: "0 < token_lifetime ?r" "token_lifetime ?r \<le> maxTokenLifetime" using Issue_Inr [OF i] by simp_all
  have "instant (is_stamp iss now) = Some now" "instant (is_stamp iss (now + token_lifetime ?r)) = Some (now + token_lifetime ?r)"
    using assms(2) by (auto simp: stamps_read_def token_lifetime_def Let_def split: if_splits)
  moreover obtain z where "instant zero_time = Some z" "z \<le> now" using assms(2) by (auto simp: stamps_read_def)
  ultimately show ?thesis using token_verdict [OF i, of z "is_key iss" now "\<lparr>vo_audience = audience, vo_scope = required\<rparr>"] assms(3,4) l
    by (auto simp: VerifyLocalToken_def)
qed

interpretation lc: credential_issuer "IssueLocalToken iss now rnd api" "VerifyLocalToken iss now" "stamps_read iss now"
  for iss now rnd and api :: "'s iam_api"
proof (unfold_locales, goal_cases)
  case 1
  then show ?case using local_token_verdict by blast
next
  case 2
  then show ?case using Issue_Inr [OF conjunct2 [OF IssueLocalToken_Inr]] by fastforce
next
  case 3
  then show ?case by (auto simp: VerifyLocalToken_def Verify_def split: option.splits if_splits)
qed

section \<open>Tokens in headers\<close>

definition no_space :: "string \<Rightarrow> bool" where
  "no_space s \<longleftrightarrow> s \<noteq> [] \<and> (\<forall>c \<in> set s. c \<notin> set ascii_space)"

lemma trim_no_space:
  assumes "no_space s" and "p = [] \<or> hd p \<notin> set ascii_space"
  shows "trim_space (p @ s) = p @ s"
proof -
  have "dropWhile (\<lambda>c. c \<in> set ascii_space) (p @ s) = p @ s"
    using assms by (cases p; cases s) (auto simp: no_space_def)
  moreover have "dropWhile (\<lambda>c. c \<in> set ascii_space) (rev (p @ s)) = rev (p @ s)"
    using assms(1) by (cases "rev s") (auto simp: no_space_def dest: arg_cong [where f = set])
  ultimately show ?thesis by (simp add: trim_space_def trim_chars_def)
qed

lemma url_chars_no_space: "c \<in> set url_chars \<Longrightarrow> c \<notin> set ascii_space"
proof -
  have "list_all (\<lambda>c. c \<notin> set ascii_space) url_chars" by code_simp
  then show "c \<in> set url_chars \<Longrightarrow> c \<notin> set ascii_space" by (simp add: list_all_iff)
qed

lemma seal_no_space: "no_space (seal mac key payload)"
proof -
  have "c \<notin> set ascii_space" if "c \<in> set (rawurl_encode s)" for c s
    using url_chars_no_space rawurl_chars that by blast
  moreover have "\<forall>c \<in> set (token_prefix @ ''.''). c \<notin> set ascii_space" by (simp add: token_prefix_def ascii_space_def)
  ultimately show ?thesis by (auto simp: seal_def no_space_def token_prefix_def)
qed

text \<open>An issued token, sent as a bearer token, is what the header is read as.\<close>

lemma issued_no_space: "IssueLocalToken iss now rnd api subject audience scopes lifetime = Inr (token, c) \<Longrightarrow> no_space token"
  using Issue_Inr(1) [OF conjunct2 [OF IssueLocalToken_Inr]] seal_no_space by blast

lemma bearer_read:
  assumes "no_space token"
  shows "trim_space (''Bearer '' @ token) = ''Bearer '' @ token" "trim_space token = token" "token \<noteq> []"
    "cut (CHR '' '') (''Bearer '' @ token) = (''Bearer'', token, True)" "equal_fold ''Bearer'' ''Bearer''"
proof -
  show "trim_space (''Bearer '' @ token) = ''Bearer '' @ token" by (rule trim_no_space [OF assms]) (simp add: ascii_space_def)
  show "trim_space token = token" using trim_no_space [OF assms, of "[]"] by simp
  show "token \<noteq> []" using assms by (simp add: no_space_def)
qed (simp_all add: cut_def equal_fold_def)

end
