(* ===== verification/Iam_Credentials.thy ===== *)
theory Iam_Credentials
  imports Local_Credentials
begin

text \<open>
  \<open>pkg/shims/iamcredentials/api.go\<close>: \<open>generateAccessToken\<close>, which answers a token of a service account to
  a caller who may act as it, directly or through a chain of delegates.  The body is what the decoder makes of
  the whole text; the address and the path as sent are arguments beside the request.
\<close>

section \<open>Names\<close>

definition sa_name_prefix :: string where "sa_name_prefix = ''projects/-/serviceAccounts/''"

definition allDigits :: "string \<Rightarrow> bool" where
  "allDigits s \<longleftrightarrow> s \<noteq> [] \<and> list_all is_digit s"

definition parseServiceAccountName :: "string \<Rightarrow> string option" where
  "parseServiceAccountName name =
     (case cut_prefix name sa_name_prefix of
        None \<Rightarrow> None
      | Some i \<Rightarrow>
          if i = [] \<or> contains_any i [CHR ''/'', CHR 0x5C, CHR ''%'', CHR 0x20, CHR 0x09, CHR 0x0D, CHR 0x0A] then None
          else if allDigits i then Some i
          else if count_char (CHR ''@'') i \<noteq> 1 then None
          else (case cut (CHR ''@'') i of (local, domain, found) \<Rightarrow>
                  if local = [] \<or> domain = [] \<or> CHR ''.'' \<notin> set domain then None else Some i))"

definition canonicalServiceAccountResource :: "string \<Rightarrow> string" where
  "canonicalServiceAccountResource email = sa_name_prefix @ email"

section \<open>The request\<close>

record token_input =
  ti_delegates :: "string list"
  ti_scopes :: "string list"
  ti_lifetime :: string

definition dec_token_member :: "string \<Rightarrow> json \<Rightarrow> token_input \<Rightarrow> json_error + token_input" where
  "dec_token_member k v i =
     (case match_field [''delegates'', ''scope'', ''lifetime''] k of
        None \<Rightarrow> Inl (UnknownField k)
      | Some f \<Rightarrow>
          if f = ''delegates'' then map_sum id (\<lambda>ss. i\<lparr>ti_delegates := ss\<rparr>) (dec_strings v)
          else if f = ''scope'' then map_sum id (\<lambda>ss. i\<lparr>ti_scopes := ss\<rparr>) (dec_strings v)
          else set_text (\<lambda>s. i\<lparr>ti_lifetime := s\<rparr>) (dec_string v (ti_lifetime i)))"

definition dec_token_input :: "json \<Rightarrow> json_error + token_input" where
  "dec_token_input = dec_struct dec_token_member \<lparr>ti_delegates = [], ti_scopes = [], ti_lifetime = []\<rparr>"

type_synonym cred_failure = "int \<times> string"

datatype cred_response = CredError int string | CredToken string string

type_synonym perimeter_evaluator = "string \<Rightarrow> string \<Rightarrow> string \<Rightarrow> string \<Rightarrow> bool \<times> bool"

record cred_api =
  cr_iam :: "iam_service option"
  cr_perimeters :: "perimeter_evaluator option"

definition ConfigureServicePerimeters :: "perimeter_evaluator option \<Rightarrow> cred_api \<Rightarrow> cred_api" where
  "ConfigureServicePerimeters e api = api\<lparr>cr_perimeters := e\<rparr>"

section \<open>The caller\<close>

definition cloud_scope :: string where "cloud_scope = ''https://www.googleapis.com/auth/cloud-platform''"

definition requestPrincipal :: "iam_service \<Rightarrow> http_request \<Rightarrow> cred_failure + string" where
  "requestPrincipal svc r =
     (let asserted = trim_space (header r ''X-Minisky-Principal'') in
      if \<not> sv_enforcing svc then Inr asserted
      else let authorization = trim_space (header r ''Authorization'') in
        if authorization = [] then Inl (401, ''UNAUTHENTICATED'')
        else (case cut (CHR '' '') authorization of (scheme, token, ok) \<Rightarrow>
          if \<not> ok \<or> \<not> equal_fold scheme ''Bearer'' \<or> trim_space token = [] then Inl (401, ''UNAUTHENTICATED'')
          else (case sv_verify svc (trim_space token) (sv_audience svc) cloud_scope of
              Inl e \<Rightarrow> Inl (401, ''UNAUTHENTICATED'')
            | Inr c \<Rightarrow>
                let who = trim_space (cl_subject c) in
                if who = [] then Inl (401, ''UNAUTHENTICATED'')
                else if asserted \<noteq> [] \<and> asserted \<noteq> who then Inl (401, ''UNAUTHENTICATED'')
                else Inr who)))"

section \<open>The delegation chain\<close>

fun parse_delegates :: "string list \<Rightarrow> string list \<Rightarrow> cred_failure + string list" where
  "parse_delegates seen [] = Inr []"
| "parse_delegates seen (d # ds) =
     (case parseServiceAccountName d of
        None \<Rightarrow> Inl (400, ''INVALID_ARGUMENT'')
      | Some i \<Rightarrow>
          if i \<in> set seen then Inl (400, ''INVALID_ARGUMENT'')
          else map_sum id ((#) i) (parse_delegates (i # seen) ds))"

fun resolve_delegates :: "iam_service \<Rightarrow> string list \<Rightarrow> string list \<Rightarrow> cred_failure + string list" where
  "resolve_delegates svc seen [] = Inr []"
| "resolve_delegates svc seen (i # is) =
     (case sv_resolve svc i of
        None \<Rightarrow> Inl (404, ''NOT_FOUND'')
      | Some (email, disabled) \<Rightarrow>
          if disabled then Inl (412, ''FAILED_PRECONDITION'')
          else if email \<in> set seen then Inl (400, ''INVALID_ARGUMENT'')
          else map_sum id ((#) email) (resolve_delegates svc (email # seen) is))"

definition getAccessToken :: string where "getAccessToken = ''iam.serviceAccounts.getAccessToken''"

text \<open>Each principal must be allowed to act as the next account; the target comes last.\<close>

fun chain_authorized :: "iam_service \<Rightarrow> string \<Rightarrow> string list \<Rightarrow> string \<Rightarrow> bool" where
  "chain_authorized svc edge [] target = sv_authorize svc (canonicalServiceAccountResource target) edge getAccessToken"
| "chain_authorized svc edge (e # es) target =
     (if \<not> sv_authorize svc (canonicalServiceAccountResource e) edge getAccessToken then False
      else chain_authorized svc (''serviceAccount:'' @ e) es target)"

section \<open>Service perimeters\<close>

fun perimeter_projects :: "string list \<Rightarrow> string list \<Rightarrow> string list option" where
  "perimeter_projects seen [] = Some []"
| "perimeter_projects seen (e # es) =
     (case ParseCanonicalServiceAccountEmail e of
        None \<Rightarrow> None
      | Some (i, p) \<Rightarrow>
          if p \<in> set seen then perimeter_projects seen es else map_option ((#) p) (perimeter_projects (p # seen) es))"

definition enforceServicePerimeters :: "cred_api \<Rightarrow> string \<Rightarrow> string list \<Rightarrow> bool" where
  "enforceServicePerimeters api remote emails =
     (case perimeter_projects [] emails of
        None \<Rightarrow> False
      | Some projects \<Rightarrow>
          (case cr_perimeters api of
             None \<Rightarrow> True
           | Some evaluate \<Rightarrow>
               let source = (case split_host remote of Some h \<Rightarrow> h | None \<Rightarrow> remote)
               in \<not> list_ex (\<lambda>p. case evaluate (''projects/'' @ p) ''iamcredentials.googleapis.com'' source [] of
                    (configured, allowed) \<Rightarrow> configured \<and> \<not> allowed) projects))"

section \<open>Generating a token\<close>

text \<open>The checks of the request itself, before anyone is asked.\<close>

definition token_request_of :: "string \<Rightarrow> http_request \<Rightarrow> cred_failure + (string \<times> token_input \<times> int)" where
  "token_request_of raw_path r =
     (if rq_method r \<noteq> ''POST'' \<or> \<not> has_suffix (rq_path r) '':generateAccessToken'' then Inl (501, ''UNIMPLEMENTED'')
      else if raw_path \<noteq> [] then Inl (400, ''INVALID_ARGUMENT'')
      else (case parseServiceAccountName (trim_suffix (trim_prefix (rq_path r) ''/v1/'') '':generateAccessToken'') of
          None \<Rightarrow> Inl (400, ''INVALID_ARGUMENT'')
        | Some target \<Rightarrow>
            (case dec_body dec_token_input r of
               None \<Rightarrow> Inl (400, ''INVALID_ARGUMENT'')
             | Some input \<Rightarrow>
                 if 4 < length (ti_delegates input) then Inl (501, ''UNIMPLEMENTED'')
                 else if ti_scopes input = [] then Inl (400, ''INVALID_ARGUMENT'')
                 else if ti_lifetime input = [] then Inr (target, input, maxTokenLifetime)
                 else (case ParseDuration (ti_lifetime input) of
                     None \<Rightarrow> Inl (400, ''INVALID_ARGUMENT'')
                   | Some d \<Rightarrow> if d \<le> 0 \<or> d > maxTokenLifetime then Inl (400, ''INVALID_ARGUMENT'') else Inr (target, input, d)))))"

definition generateAccessToken :: "cred_api \<Rightarrow> string \<Rightarrow> string \<Rightarrow> http_request \<Rightarrow> cred_response" where
  "generateAccessToken api raw_path remote r =
     (case token_request_of raw_path r of
        Inl (code, status) \<Rightarrow> CredError code status
      | Inr (target, input, lifetime) \<Rightarrow>
          (case cr_iam api of
             None \<Rightarrow> CredError 503 ''UNAVAILABLE''
           | Some svc \<Rightarrow>
               (case parse_delegates [target] (ti_delegates input) of
                  Inl (code, status) \<Rightarrow> CredError code status
                | Inr identifiers \<Rightarrow>
                    (case requestPrincipal svc r of
                       Inl (code, status) \<Rightarrow> CredError code status
                     | Inr who \<Rightarrow>
                         (case sv_resolve svc target of
                            None \<Rightarrow> CredError 404 ''NOT_FOUND''
                          | Some (email, disabled) \<Rightarrow>
                              if disabled then CredError 412 ''FAILED_PRECONDITION''
                              else (case resolve_delegates svc [email] identifiers of
                                  Inl (code, status) \<Rightarrow> CredError code status
                                | Inr emails \<Rightarrow>
                                    if sv_enforcing svc \<and> \<not> chain_authorized svc who emails email then CredError 403 ''PERMISSION_DENIED''
                                    else if \<not> enforceServicePerimeters api remote (email # emails) then CredError 403 ''PERMISSION_DENIED''
                                    else (case sv_issue svc (''serviceAccount:'' @ email) (sv_audience svc) (ti_scopes input) lifetime of
                                        Inl e \<Rightarrow> CredError 400 ''FAILED_PRECONDITION''
                                      | Inr (token, c) \<Rightarrow> CredToken token (cl_expires c))))))))"

section \<open>What a token took\<close>

lemma parse_delegates_Inr: "parse_delegates seen ds = Inr is \<Longrightarrow> length is = length ds"
  by (induction seen ds arbitrary: "is" rule: parse_delegates.induct) (auto split: option.splits if_splits elim!: map_sum_Inr)

lemma resolve_delegates_Inr:
  "resolve_delegates svc seen is = Inr es \<Longrightarrow>
   list_all2 (\<lambda>i e. sv_resolve svc i = Some (e, False)) is es \<and> distinct es \<and> set es \<inter> set seen = {}"
proof (induction svc seen "is" arbitrary: es rule: resolve_delegates.induct)
  case (2 svc seen i "is")
  from 2(2) obtain e es' where e: "sv_resolve svc i = Some (e, False)" "e \<notin> set seen" "resolve_delegates svc (e # seen) is = Inr es'" "es = e # es'"
    by (auto split: option.splits if_splits elim!: map_sum_Inr)
  have "list_all2 (\<lambda>i e. sv_resolve svc i = Some (e, False)) is es' \<and> distinct es' \<and> set es' \<inter> set (e # seen) = {}"
    using 2(1) [OF e(1) refl] e by simp
  with e show ?case by auto
qed simp

text \<open>What a request names: the target in its path, the delegates in its body.\<close>

lemma parseServiceAccountName_Some: "parseServiceAccountName n = Some i \<Longrightarrow> n = sa_name_prefix @ i"
  by (auto simp: parseServiceAccountName_def cut_prefix_Some split: option.splits if_splits prod.splits)

lemma parse_delegates_names: "parse_delegates seen ds = Inr is \<Longrightarrow> ds = map ((@) sa_name_prefix) is"
  by (induction seen ds arbitrary: "is" rule: parse_delegates.induct)
    (auto split: option.splits if_splits elim!: map_sum_Inr dest: parseServiceAccountName_Some)

definition requested_target :: "http_request \<Rightarrow> string" where
  "requested_target r = trim_suffix (trim_prefix (rq_path r) ''/v1/'') '':generateAccessToken''"

lemma token_request_named:
  "token_request_of raw_path r = Inr (target, input, lifetime) \<Longrightarrow>
    requested_target r = sa_name_prefix @ target \<and> dec_body dec_token_input r = Some input"
  unfolding requested_target_def
  by (auto simp: token_request_of_def dest: parseServiceAccountName_Some split: if_splits option.splits)

text \<open>A token in the \<open>Authorization\<close> header of a request.\<close>

definition bears :: "http_request \<Rightarrow> string \<Rightarrow> bool" where
  "bears r bearer \<longleftrightarrow> (\<exists>scheme rest. trim_space (header r ''Authorization'') = scheme @ '' '' @ rest \<and> CHR '' '' \<notin> set scheme \<and>
     bearer = trim_space rest \<and> equal_fold scheme ''Bearer'')"

text \<open>The edges of a chain: who acts as whom.\<close>

definition chain_edges :: "string \<Rightarrow> string list \<Rightarrow> (string \<times> string) list" where
  "chain_edges who accounts = zip (who # map (\<lambda>e. ''serviceAccount:'' @ e) (butlast accounts)) accounts"

lemma chain_authorized_edges:
  "chain_authorized svc edge es target \<longleftrightarrow>
     (\<forall>(w, e) \<in> set (chain_edges edge (es @ [target])). sv_authorize svc (canonicalServiceAccountResource e) w getAccessToken)"
proof (induction es arbitrary: edge)
  case (Cons e es)
  have "butlast (e # es @ [target]) = e # butlast (es @ [target])" by simp
  then show ?case using Cons by (simp add: chain_edges_def)
qed (simp add: chain_edges_def)

lemma requestPrincipal_Inr:
  assumes "requestPrincipal svc r = Inr who" and "sv_enforcing svc"
  shows "\<exists>bearer c. bears r bearer \<and> sv_verify svc bearer (sv_audience svc) cloud_scope = Inr c \<and> who = trim_space (cl_subject c) \<and> who \<noteq> []"
proof -
  let ?a = "trim_space (header r ''Authorization'')"
  obtain scheme rest ok where c: "cut (CHR '' '') ?a = (scheme, rest, ok)" by (cases "cut (CHR '' '') ?a")
  with assms have ok: "ok" "equal_fold scheme ''Bearer''" by (auto simp: requestPrincipal_def Let_def split: if_splits sum.splits)
  have "?a = scheme @ '' '' @ rest" "CHR '' '' \<notin> set scheme" using cut_found [of "CHR '' ''" ?a scheme rest] cut_before [OF c] c ok(1) by simp_all
  with ok(2) have "bears r (trim_space rest)" unfolding bears_def by blast
  with assms c ok(1) show ?thesis
    by (auto simp: requestPrincipal_def Let_def split: if_splits sum.splits intro!: exI)
qed

lemma generated_token:
  assumes "generateAccessToken api raw_path remote r = CredToken token expires"
  shows "\<exists>svc target input lifetime who ids email emails c. cr_iam api = Some svc \<and>
    token_request_of raw_path r = Inr (target, input, lifetime) \<and> parse_delegates [target] (ti_delegates input) = Inr ids \<and>
    requestPrincipal svc r = Inr who \<and> sv_resolve svc target = Some (email, False) \<and> resolve_delegates svc [email] ids = Inr emails \<and>
    (sv_enforcing svc \<longrightarrow> chain_authorized svc who emails email) \<and> enforceServicePerimeters api remote (email # emails) \<and>
    sv_issue svc (''serviceAccount:'' @ email) (sv_audience svc) (ti_scopes input) lifetime = Inr (token, c) \<and> expires = cl_expires c"
  using assms unfolding generateAccessToken_def
  by (auto split: sum.splits option.splits if_splits prod.splits)

end
