(* ===== verification/Iam_Credentials_Properties.thy ===== *)
theory Iam_Credentials_Properties
  imports Iam_Credentials
begin

text \<open>
  What a generated token took: the credential shim over the IAM shim's own interface.
\<close>

lemma iam_service_simps [simp]:
  "sv_enforcing (iam_service_of h iss now rnd api) = im_strict api" "sv_authorize (iam_service_of h iss now rnd api) = Authorize h api"
  "sv_verify (iam_service_of h iss now rnd api) = VerifyLocalToken iss now" "sv_resolve (iam_service_of h iss now rnd api) = ResolveServiceAccount api"
  "sv_issue (iam_service_of h iss now rnd api) = IssueLocalToken iss now rnd api" "sv_audience (iam_service_of h iss now rnd api) = im_audience api"
  by (simp_all add: iam_service_of_def)

lemma perimeter_projects_set:
  "perimeter_projects seen es = Some ps \<Longrightarrow> e \<in> set es \<Longrightarrow>
   \<exists>i p. ParseCanonicalServiceAccountEmail e = Some (i, p) \<and> p \<in> set seen \<union> set ps"
proof (induction seen es arbitrary: ps rule: perimeter_projects.induct)
  case (2 seen x es)
  obtain i p where p: "ParseCanonicalServiceAccountEmail x = Some (i, p)" using 2(3) by (auto split: option.splits)
  show ?case
  proof (cases "p \<in> set seen")
    case True
    then have "perimeter_projects seen es = Some ps" using 2(3) p by simp
    then show ?thesis using 2(1) [OF p refl True] 2(4) p True by auto
  next
    case False
    then obtain ps' where "perimeter_projects (p # seen) es = Some ps'" "ps = p # ps'" using 2(3) p by auto
    then show ?thesis using 2(2) [OF p refl False] 2(4) p by auto
  qed
qed simp

lemma perimeters_allow:
  assumes "enforceServicePerimeters api remote emails" and "cr_perimeters api = Some evaluate" and "e \<in> set emails"
  shows "\<exists>i p. ParseCanonicalServiceAccountEmail e = Some (i, p) \<and>
    evaluate (''projects/'' @ p) ''iamcredentials.googleapis.com'' (case split_host remote of Some h \<Rightarrow> h | None \<Rightarrow> remote) [] \<noteq> (True, False)"
proof -
  obtain ps where ps: "perimeter_projects [] emails = Some ps" using assms(1) by (auto simp: enforceServicePerimeters_def split: option.splits)
  from perimeter_projects_set [OF ps assms(3)] obtain i p where "ParseCanonicalServiceAccountEmail e = Some (i, p)" "p \<in> set ps" by auto
  then show ?thesis using assms(1,2) ps by (fastforce simp: enforceServicePerimeters_def list_ex_iff Let_def)
qed

lemma list_all2_mem: "list_all2 P xs ys \<Longrightarrow> y \<in> set ys \<Longrightarrow> \<exists>x. P x y"
  by (auto simp: list_all2_conv_all_nth in_set_conv_nth)

lemma token_request_Inr: "token_request_of raw_path r = Inr (target, input, lifetime) \<Longrightarrow> length (ti_delegates input) \<le> 4 \<and> ti_scopes input \<noteq> []"
  by (auto simp: token_request_of_def split: if_splits option.splits)

lemma chain_resolved:
  assumes "sv_resolve svc target = Some (email, False)" and "resolve_delegates svc [email] ids = Inr emails"
  shows "list_all2 (\<lambda>i e. sv_resolve svc i = Some (e, False)) (ids @ [target]) (emails @ [email])" and "distinct (emails @ [email])"
  using resolve_delegates_Inr [OF assms(2)] assms(1) by (auto simp: list_all2_appendI)

text \<open>
  A token of a service account takes authority over the whole chain the request names.  When the IAM shim
  enforces (strict mode) and a token is answered, the \<open>Authorization\<close> header of the request carries a good
  token for the gateway with the cloud-platform scope; the target is the account of the path and the accounts
  before it are those of the body's delegates, in this order, at most four, none twice, all known
  and enabled; the subject of the caller's token may act as the first account, each account as the next, the
  last as the target, and no perimeter prohibits their projects.  The token is the target's: verified for the
  gateway, its claims are the target and the scopes the body asked for.
\<close>
theorem impersonation_needs_authority:
  assumes "token_request_of raw_path r = Inr (target, input, lifetime)" and "stamps_read iss now lifetime"
    and "cr_iam api = Some (iam_service_of h iss now rnd im)" and "im_strict im" and "trim_space (im_audience im) = im_audience im"
    and "generateAccessToken api raw_path remote r = CredToken token expires"
  shows "requested_target r = sa_name_prefix @ target \<and> dec_body dec_token_input r = Some input \<and>
    (\<exists>bearer c ids email emails c'. bears r bearer \<and> VerifyLocalToken iss now bearer (im_audience im) cloud_scope = Inr c \<and>
    ti_delegates input = map ((@) sa_name_prefix) ids \<and> length ids \<le> 4 \<and>
    list_all2 (\<lambda>i e. ResolveServiceAccount im i = Some (e, False)) (ids @ [target]) (emails @ [email]) \<and> distinct (emails @ [email]) \<and>
    (\<forall>(w, e) \<in> set (chain_edges (trim_space (cl_subject c)) (emails @ [email])).
       Authorize h im (canonicalServiceAccountResource e) w getAccessToken) \<and> trim_space (cl_subject c) \<noteq> [] \<and>
    (\<forall>evaluate. cr_perimeters api = Some evaluate \<longrightarrow> (\<forall>e \<in> set (emails @ [email]). \<exists>i p. ParseCanonicalServiceAccountEmail e = Some (i, p) \<and>
       evaluate (''projects/'' @ p) ''iamcredentials.googleapis.com'' (case split_host remote of Some h \<Rightarrow> h | None \<Rightarrow> remote) [] \<noteq> (True, False))) \<and>
    VerifyLocalToken iss now token (im_audience im) [] = Inr c' \<and> cl_subject c' = trim_space (''serviceAccount:'' @ email) \<and>
    cl_scopes c' = normalizedScopes (ti_scopes input) \<and> expires = cl_expires c')"
proof -
  let ?svc = "iam_service_of h iss now rnd im"
  obtain who ids email emails c' where g: "parse_delegates [target] (ti_delegates input) = Inr ids" "requestPrincipal ?svc r = Inr who"
    "sv_resolve ?svc target = Some (email, False)" "resolve_delegates ?svc [email] ids = Inr emails"
    "sv_enforcing ?svc \<longrightarrow> chain_authorized ?svc who emails email" "enforceServicePerimeters api remote (email # emails)"
    "sv_issue ?svc (''serviceAccount:'' @ email) (sv_audience ?svc) (ti_scopes input) lifetime = Inr (token, c')" "expires = cl_expires c'"
    using generated_token [OF assms(6)] assms(1,3) by fastforce
  obtain bearer c where b: "bears r bearer" "VerifyLocalToken iss now bearer (im_audience im) cloud_scope = Inr c"
    "who = trim_space (cl_subject c)" "who \<noteq> []"
    using requestPrincipal_Inr [OF g(2)] assms(4) by auto
  have edges: "\<forall>(w, e) \<in> set (chain_edges who (emails @ [email])). Authorize h im (canonicalServiceAccountResource e) w getAccessToken"
    using g(5) assms(4) chain_authorized_edges [of ?svc who emails email] by simp
  have len: "length ids \<le> 4" using parse_delegates_Inr [OF g(1)] token_request_Inr [OF assms(1)] by simp
  have per: "\<forall>evaluate. cr_perimeters api = Some evaluate \<longrightarrow> (\<forall>e \<in> set (emails @ [email]). \<exists>i p. ParseCanonicalServiceAccountEmail e = Some (i, p) \<and>
       evaluate (''projects/'' @ p) ''iamcredentials.googleapis.com'' (case split_host remote of Some h \<Rightarrow> h | None \<Rightarrow> remote) [] \<noteq> (True, False))"
    using perimeters_allow [OF g(6)] by simp
  have i: "IssueLocalToken iss now rnd im (''serviceAccount:'' @ email) (im_audience im) (ti_scopes input) lifetime = Inr (token, c')"
    using g(7) by simp
  have t: "VerifyLocalToken iss now token (im_audience im) [] = Inr c'" by (rule lc.issued_as_asked [OF assms(2) i assms(5)])
  note cl = lc.issued_claims [OF i] and n = token_request_named [OF assms(1)] and res = chain_resolved [OF g(3,4), simplified iam_service_simps]
  have "bears r bearer \<and> VerifyLocalToken iss now bearer (im_audience im) cloud_scope = Inr c \<and>
      ti_delegates input = map ((@) sa_name_prefix) ids \<and> length ids \<le> 4 \<and>
      list_all2 (\<lambda>i e. ResolveServiceAccount im i = Some (e, False)) (ids @ [target]) (emails @ [email]) \<and> distinct (emails @ [email])"
    using b(1,2) parse_delegates_names [OF g(1)] len res by blast
  with n edges per t cl g(8) b(3,4) show ?thesis by blast
qed

section \<open>A concrete chain\<close>

definition chain_account :: "string \<Rightarrow> string \<Rightarrow> string \<times> service_account" where
  "chain_account i n = (let email = i @ ''@demo-42.iam.gserviceaccount.com'' in
     (account_key ''demo-42'' email,
      \<lparr>sa_name = account_name ''demo-42'' email, sa_project = ''demo-42'', sa_unique = n, sa_email = email, sa_display = [],
       sa_description = [], sa_disabled = False, sa_etag = ''ACAB1'', sa_oauth = n\<rparr>))"

definition token_creators :: "string \<Rightarrow> iam_policy" where
  "token_creators who = \<lparr>pol_version = 1, pol_etag = [],
     pol_bindings = [\<lparr>b_role = ''roles/iam.serviceAccountTokenCreator'', b_members = [who]\<rparr>]\<rparr>"

text \<open>Ada may act as the robot, the robot as the builder.\<close>

definition chain_iam :: "unit iam_api" where
  "chain_iam = (newIamAPI ''strict'' None)\<lparr>
     im_accounts := [chain_account ''robot-1'' ''101'', chain_account ''builder'' ''102''],
     im_policies := [(''projects/-/serviceAccounts/robot-1@demo-42.iam.gserviceaccount.com'', Some (token_creators ''user:ada'')),
       (''projects/-/serviceAccounts/builder@demo-42.iam.gserviceaccount.com'',
        Some (token_creators ''serviceAccount:robot-1@demo-42.iam.gserviceaccount.com''))]\<rparr>"

definition sample_issuer :: token_issuer where
  "sample_issuer = \<lparr>is_mac = sample_mac, is_key = sample_key, is_stamp = sample_stamp\<rparr>"

definition ada_issue :: "issue_failure + (string \<times> claims)" where
  "ada_issue = IssueLocalToken sample_issuer sample_now ''fedcba9876543210'' chain_iam ''user:ada'' ''minisky-gateway'' [cloud_scope] 60000000000"

definition ada_token :: string where "ada_token = (case ada_issue of Inr (t, c) \<Rightarrow> t | Inl e \<Rightarrow> [])"

definition chain_post :: http_request where
  "chain_post = \<lparr>rq_method = ''POST'', rq_path = ''/v1/projects/-/serviceAccounts/102:generateAccessToken'',
     rq_header = [(''Authorization'', ''Bearer '' @ ada_token)], rq_query = [],
     rq_body = Raw (JObj [(''delegates'', JArr [JStr ''projects/-/serviceAccounts/robot-1@demo-42.iam.gserviceaccount.com'']),
       (''scope'', JArr [JStr '' read '', JStr ''read'']), (''lifetime'', JStr ''60s'')])\<rparr>"

definition chain_api :: cred_api where
  "chain_api = \<lparr>cr_iam = Some (iam_service_of None sample_issuer sample_now ''0123456789abcdef'' chain_iam),
     cr_perimeters = Some (\<lambda>project service source region. (True, source = ''10.0.0.7''))\<rparr>"

lemma sample_stamps_read: "stamps_read sample_issuer sample_now 60000000000"
  using sample_stamps sample_times(3) by (simp add: stamps_read_def sample_issuer_def sample_request_def token_lifetime_def)

abbreviation robot :: string where "robot \<equiv> ''robot-1@demo-42.iam.gserviceaccount.com''"
abbreviation builder :: string where "builder \<equiv> ''builder@demo-42.iam.gserviceaccount.com''"

definition chain_service :: iam_service where
  "chain_service = iam_service_of None sample_issuer sample_now ''0123456789abcdef'' chain_iam"

definition chain_input :: token_input where
  "chain_input = \<lparr>ti_delegates = [''projects/-/serviceAccounts/robot-1@demo-42.iam.gserviceaccount.com''],
     ti_scopes = ['' read '', ''read''], ti_lifetime = ''60s''\<rparr>"

lemma chain_request: "token_request_of [] chain_post = Inr (''102'', chain_input, 60000000000)"
proof -
  have "token_request_of [] (chain_post\<lparr>rq_header := []\<rparr>) = Inr (''102'', chain_input, 60000000000)" by code_simp
  moreover have "token_request_of [] chain_post = token_request_of [] (chain_post\<lparr>rq_header := []\<rparr>)" by (simp add: token_request_of_def dec_body_def cong: option.case_cong)
  ultimately show ?thesis by simp
qed

lemma chain_iam_facts:
  "let a = chain_iam in im_strict a \<and> im_audience a = ''minisky-gateway'' \<and> tokenSubject a ''user:ada'' = None \<and> tokenSubject a (''serviceAccount:'' @ builder) = None"
  by code_simp

lemma chain_facts: "im_strict chain_iam" "trim_space (im_audience chain_iam) = im_audience chain_iam" "im_audience chain_iam = ''minisky-gateway''"
  "normalizedScopes ['' read '', ''read''] = [''read'']" "hasScope (normalizedScopes [cloud_scope]) cloud_scope"
proof -
  note f = chain_iam_facts [unfolded Let_def]
  show "im_strict chain_iam" "im_audience chain_iam = ''minisky-gateway''" using f by simp_all
  have "trim_space ''minisky-gateway'' = ''minisky-gateway''" by code_simp
  with f show "trim_space (im_audience chain_iam) = im_audience chain_iam" by simp
qed code_simp+

lemma sample_issues:
  assumes "tokenSubject chain_iam subject = None" and "trim_space subject \<noteq> []"
  shows "\<exists>token c. IssueLocalToken sample_issuer sample_now rnd chain_iam subject audience scopes 60000000000 = Inr (token, c)"
  by (rule IssueLocalToken_ok [OF assms(1) _ assms(2)]) (simp_all add: sample_issuer_def sample_key_def maxTokenLifetime_def)

lemma chain_subjects: "tokenSubject chain_iam ''user:ada'' = None" "tokenSubject chain_iam (''serviceAccount:'' @ builder) = None"
  "trim_space ''user:ada'' \<noteq> []" "trim_space (''serviceAccount:'' @ builder) \<noteq> []"
  using chain_iam_facts [unfolded Let_def] by blast+ code_simp+

lemma ada_issued: "\<exists>c. ada_issue = Inr (ada_token, c)"
proof -
  obtain t c where x: "ada_issue = Inr (t, c)" using sample_issues [OF chain_subjects(1,3)] unfolding ada_issue_def by blast
  then show ?thesis unfolding ada_token_def x by simp
qed

lemma ada_verifies: "\<exists>c. VerifyLocalToken sample_issuer sample_now ada_token ''minisky-gateway'' cloud_scope = Inr c \<and> cl_subject c = ''user:ada''"
proof -
  obtain c where i: "IssueLocalToken sample_issuer sample_now ''fedcba9876543210'' chain_iam ''user:ada'' ''minisky-gateway'' [cloud_scope] 60000000000 =
      Inr (ada_token, c)"
    using ada_issued by (auto simp: ada_issue_def)
  have "trim_space ''user:ada'' = ''user:ada''" "trim_space ''minisky-gateway'' = ''minisky-gateway''" by code_simp+
  then show ?thesis using lc.issued_verifies [OF sample_stamps_read i, of cloud_scope] lc.issued_claims [OF i] chain_facts(5) by auto
qed

lemma chain_caller: "requestPrincipal chain_service chain_post = Inr ''user:ada''"
proof -
  obtain c where c: "VerifyLocalToken sample_issuer sample_now ada_token ''minisky-gateway'' cloud_scope = Inr c" "cl_subject c = ''user:ada''"
    using ada_verifies by blast
  have "no_space ada_token" using ada_issued issued_no_space by (fastforce simp: ada_issue_def)
  note b = bearer_read [OF this]
  have h: "trim_space (header chain_post ''Authorization'') = ''Bearer '' @ ada_token" "trim_space (header chain_post ''X-Minisky-Principal'') = []"
    using b(1) by (simp_all add: header_def chain_post_def trim_space_def trim_chars_def)
  have "trim_space ''user:ada'' = ''user:ada''" by code_simp
  then show ?thesis unfolding requestPrincipal_def Let_def h b(4)
    using b(2,3) c chain_facts(1,3) by (simp add: chain_service_def equal_fold_def)
qed

lemma chain_service_facts:
  "let s = chain_service in sv_resolve s ''102'' = Some (builder, False) \<and> resolve_delegates s [builder] [robot] = Inr [robot] \<and>
     chain_authorized s ''user:ada'' [robot] builder"
  by code_simp

lemma chain_answers: "parse_delegates [''102''] (ti_delegates chain_input) = Inr [robot]" "sv_resolve chain_service ''102'' = Some (builder, False)"
  "resolve_delegates chain_service [builder] [robot] = Inr [robot]" "chain_authorized chain_service ''user:ada'' [robot] builder"
  "enforceServicePerimeters chain_api ''10.0.0.7:4711'' [builder, robot]"
  subgoal by code_simp
  subgoal using chain_service_facts [unfolded Let_def] by blast
  subgoal using chain_service_facts [unfolded Let_def] by blast
  subgoal using chain_service_facts [unfolded Let_def] by blast
  subgoal by code_simp
  done

lemma chain_issues: "\<exists>token c. sv_issue chain_service (''serviceAccount:'' @ builder) (sv_audience chain_service) (ti_scopes chain_input) 60000000000 = Inr (token, c)"
  using sample_issues [OF chain_subjects(2,4)] by (simp add: chain_service_def)

lemma chain_token: "\<exists>token expires. generateAccessToken chain_api [] ''10.0.0.7:4711'' chain_post = CredToken token expires"
proof -
  have "cr_iam chain_api = Some chain_service" by (simp add: chain_api_def chain_service_def)
  with chain_issues chain_answers chain_caller chain_request show ?thesis by (auto simp: generateAccessToken_def)
qed

theorem impersonation_needs_authority_witness:
  "\<exists>token c expires. generateAccessToken chain_api [] ''10.0.0.7:4711'' chain_post = CredToken token expires \<and>
    VerifyLocalToken sample_issuer sample_now token ''minisky-gateway'' [] = Inr c \<and> cl_scopes c = [''read'']"
proof -
  obtain token expires where t: "generateAccessToken chain_api [] ''10.0.0.7:4711'' chain_post = CredToken token expires"
    using chain_token by blast
  have "cr_iam chain_api = Some (iam_service_of None sample_issuer sample_now ''0123456789abcdef'' chain_iam)" by (simp add: chain_api_def)
  from impersonation_needs_authority [OF chain_request sample_stamps_read this chain_facts(1,2) t] show ?thesis
    using t chain_facts(3,4) by (auto simp: chain_input_def)
qed

end
