(* ===== verification/Workload_Identity.thy ===== *)
theory Workload_Identity
  imports Iam
begin

text \<open>
  \<open>pkg/shims/iam/wif.go\<close>, the data: workload identity pools and their providers, their JSON forms, their
  names, the audiences that name them and the lookup of the STS shim.  A nil and an empty attribute mapping
  are one value; objects of settings a provider only stores are kept in normal form.
\<close>

section \<open>Pools and providers\<close>

record wi_pool =
  wo_name :: string
  wo_display :: string
  wo_description :: string
  wo_disabled :: bool
  wo_state :: string

record wi_oidc =
  od_issuer :: string
  od_audiences :: "string list"
  od_jwks :: string

record wi_provider =
  wp_name :: string
  wp_display :: string
  wp_description :: string
  wp_disabled :: bool
  wp_state :: string
  wp_mapping :: "string gomap"
  wp_condition :: string
  wp_oidc :: "wi_oidc option"
  wp_aws :: "json gomap option"
  wp_saml :: "json gomap option"
  wp_x509 :: "json gomap option"

definition zero_pool :: wi_pool where
  "zero_pool = \<lparr>wo_name = [], wo_display = [], wo_description = [], wo_disabled = False, wo_state = []\<rparr>"

definition zero_oidc :: wi_oidc where
  "zero_oidc = \<lparr>od_issuer = [], od_audiences = [], od_jwks = []\<rparr>"

definition zero_provider :: wi_provider where
  "zero_provider = \<lparr>wp_name = [], wp_display = [], wp_description = [], wp_disabled = False, wp_state = [], wp_mapping = [],
     wp_condition = [], wp_oidc = None, wp_aws = None, wp_saml = None, wp_x509 = None\<rparr>"

section \<open>The JSON forms\<close>

definition omit_bool :: "string \<Rightarrow> bool \<Rightarrow> (string \<times> json) list" where
  "omit_bool k b = (if b then [(k, JBool True)] else [])"

definition omit_settings :: "string \<Rightarrow> json gomap option \<Rightarrow> (string \<times> json) list" where
  "omit_settings k m = (case m of None \<Rightarrow> [] | Some kvs \<Rightarrow> if kvs = [] then [] else [(k, JObj kvs)])"

definition enc_pool :: "wi_pool \<Rightarrow> json" where
  "enc_pool p = JObj ([(''name'', JStr (wo_name p))] @ omit_str ''displayName'' (wo_display p) @
     omit_str ''description'' (wo_description p) @ omit_bool ''disabled'' (wo_disabled p) @ [(''state'', JStr (wo_state p))])"

definition enc_oidc :: "wi_oidc \<Rightarrow> json" where
  "enc_oidc d = JObj (omit_str ''issuerUri'' (od_issuer d) @
     (if od_audiences d = [] then [] else [(''allowedAudiences'', JArr (map JStr (od_audiences d)))]) @
     omit_str ''jwksJson'' (od_jwks d))"

definition enc_provider :: "wi_provider \<Rightarrow> json" where
  "enc_provider p = JObj ([(''name'', JStr (wp_name p))] @ omit_str ''displayName'' (wp_display p) @
     omit_str ''description'' (wp_description p) @ omit_bool ''disabled'' (wp_disabled p) @ [(''state'', JStr (wp_state p))] @
     (if wp_mapping p = [] then [] else [(''attributeMapping'', enc_value_map JStr (wp_mapping p))]) @
     omit_str ''attributeCondition'' (wp_condition p) @
     (case wp_oidc p of None \<Rightarrow> [] | Some d \<Rightarrow> [(''oidc'', enc_oidc d)]) @
     omit_settings ''aws'' (wp_aws p) @ omit_settings ''saml'' (wp_saml p) @ omit_settings ''x509'' (wp_x509 p))"

definition dec_pool_member :: "bool \<Rightarrow> string \<Rightarrow> json \<Rightarrow> wi_pool \<Rightarrow> json_error + wi_pool" where
  "dec_pool_member strict k v p =
     (case match_field [''name'', ''displayName'', ''description'', ''disabled'', ''state''] k of
        None \<Rightarrow> (if strict then Inl (UnknownField k) else Inr p)
      | Some f \<Rightarrow>
          if f = ''name'' then set_text (\<lambda>s. p\<lparr>wo_name := s\<rparr>) (dec_string v (wo_name p))
          else if f = ''displayName'' then set_text (\<lambda>s. p\<lparr>wo_display := s\<rparr>) (dec_string v (wo_display p))
          else if f = ''description'' then set_text (\<lambda>s. p\<lparr>wo_description := s\<rparr>) (dec_string v (wo_description p))
          else if f = ''disabled'' then map_sum id (\<lambda>b. p\<lparr>wo_disabled := b\<rparr>) (dec_bool v (wo_disabled p))
          else set_text (\<lambda>s. p\<lparr>wo_state := s\<rparr>) (dec_string v (wo_state p)))"

definition dec_pool :: "bool \<Rightarrow> json \<Rightarrow> json_error + wi_pool" where
  "dec_pool strict = dec_struct (dec_pool_member strict) zero_pool"

definition dec_oidc_member :: "bool \<Rightarrow> string \<Rightarrow> json \<Rightarrow> wi_oidc \<Rightarrow> json_error + wi_oidc" where
  "dec_oidc_member strict k v d =
     (case match_field [''issuerUri'', ''allowedAudiences'', ''jwksJson''] k of
        None \<Rightarrow> (if strict then Inl (UnknownField k) else Inr d)
      | Some f \<Rightarrow>
          if f = ''issuerUri'' then set_text (\<lambda>s. d\<lparr>od_issuer := s\<rparr>) (dec_string v (od_issuer d))
          else if f = ''allowedAudiences'' then map_sum id (\<lambda>ss. d\<lparr>od_audiences := ss\<rparr>) (dec_slice (\<lambda>v. dec_string v []) v)
          else set_text (\<lambda>s. d\<lparr>od_jwks := s\<rparr>) (dec_string v (od_jwks d)))"

definition dec_settings :: "json \<Rightarrow> json gomap option \<Rightarrow> json_error + json gomap option" where
  "dec_settings v cur =
     (case v of
        JNull \<Rightarrow> Inr None
      | JObj kvs \<Rightarrow> Inr (Some (sort_members (foldl (\<lambda>m (k, x). gm_set k (jcanon x) m) (case cur of Some m \<Rightarrow> m | None \<Rightarrow> []) kvs)))
      | _ \<Rightarrow> Inl (TypeMismatch ''map''))"

definition provider_fields :: "string list" where
  "provider_fields = [''name'', ''displayName'', ''description'', ''disabled'', ''state'', ''attributeMapping'', ''attributeCondition'',
     ''oidc'', ''aws'', ''saml'', ''x509'']"

text \<open>A repeated \<open>oidc\<close> member is decoded into the struct the first one made.\<close>

definition dec_provider_member :: "bool \<Rightarrow> string \<Rightarrow> json \<Rightarrow> wi_provider \<Rightarrow> json_error + wi_provider" where
  "dec_provider_member strict k v p =
     (case match_field provider_fields k of
        None \<Rightarrow> (if strict then Inl (UnknownField k) else Inr p)
      | Some f \<Rightarrow>
          if f = ''name'' then set_text (\<lambda>s. p\<lparr>wp_name := s\<rparr>) (dec_string v (wp_name p))
          else if f = ''displayName'' then set_text (\<lambda>s. p\<lparr>wp_display := s\<rparr>) (dec_string v (wp_display p))
          else if f = ''description'' then set_text (\<lambda>s. p\<lparr>wp_description := s\<rparr>) (dec_string v (wp_description p))
          else if f = ''disabled'' then map_sum id (\<lambda>b. p\<lparr>wp_disabled := b\<rparr>) (dec_bool v (wp_disabled p))
          else if f = ''state'' then set_text (\<lambda>s. p\<lparr>wp_state := s\<rparr>) (dec_string v (wp_state p))
          else if f = ''attributeMapping'' then
            map_sum id (\<lambda>m. p\<lparr>wp_mapping := (case m of Some kvs \<Rightarrow> kvs | None \<Rightarrow> [])\<rparr>)
              (dec_value_map (\<lambda>v. dec_string v []) v (Some (wp_mapping p)))
          else if f = ''attributeCondition'' then set_text (\<lambda>s. p\<lparr>wp_condition := s\<rparr>) (dec_string v (wp_condition p))
          else if f = ''oidc'' then
            (if v = JNull then Inr (p\<lparr>wp_oidc := None\<rparr>)
             else map_sum id (\<lambda>d. p\<lparr>wp_oidc := Some d\<rparr>)
               (dec_struct (dec_oidc_member strict) (case wp_oidc p of Some d \<Rightarrow> d | None \<Rightarrow> zero_oidc) v))
          else if f = ''aws'' then map_sum id (\<lambda>m. p\<lparr>wp_aws := m\<rparr>) (dec_settings v (wp_aws p))
          else if f = ''saml'' then map_sum id (\<lambda>m. p\<lparr>wp_saml := m\<rparr>) (dec_settings v (wp_saml p))
          else map_sum id (\<lambda>m. p\<lparr>wp_x509 := m\<rparr>) (dec_settings v (wp_x509 p)))"

definition dec_provider :: "bool \<Rightarrow> json \<Rightarrow> json_error + wi_provider" where
  "dec_provider strict = dec_struct (dec_provider_member strict) zero_provider"

section \<open>Names\<close>

text \<open>The pattern \<open>^[a-z0-9][a-z0-9-]{3,31}$\<close>, and not reserved.\<close>

definition validWorkloadIdentityID :: "string \<Rightarrow> bool" where
  "validWorkloadIdentityID i \<longleftrightarrow>
     4 \<le> length i \<and> length i \<le> 32 \<and> hd i \<noteq> CHR ''-'' \<and> list_all id_char i \<and> \<not> has_prefix i ''gcp-''"

definition validWorkloadIdentityParent :: "string \<Rightarrow> bool" where
  "validWorkloadIdentityParent parent \<longleftrightarrow>
     (case split (CHR ''/'') parent of
        [a, p, b, c] \<Rightarrow> a = ''projects'' \<and> projectIDPattern p \<and> b = ''locations'' \<and> c = ''global''
      | _ \<Rightarrow> False)"

definition audience_prefix :: string where "audience_prefix = ''//iam.googleapis.com/''"

text \<open>The pool's and the provider's name in an audience.\<close>

definition parseWorkloadIdentityProviderAudience :: "string \<Rightarrow> (string \<times> string) option" where
  "parseWorkloadIdentityProviderAudience audience =
     (case cut_prefix audience audience_prefix of
        None \<Rightarrow> None
      | Some name \<Rightarrow>
          let parts = split (CHR ''/'') name in
          if length parts \<noteq> 8 \<or> \<not> validWorkloadIdentityParent (join ''/'' (take 4 parts)) \<or> parts ! 4 \<noteq> ''workloadIdentityPools'' \<or>
             \<not> validWorkloadIdentityID (parts ! 5) \<or> parts ! 6 \<noteq> ''providers'' \<or> \<not> validWorkloadIdentityID (parts ! 7) then None
          else Some (join ''/'' (take 6 parts), name))"

definition ValidWorkloadIdentityProviderAudience :: "string \<Rightarrow> bool" where
  "ValidWorkloadIdentityProviderAudience audience \<longleftrightarrow> parseWorkloadIdentityProviderAudience audience \<noteq> None"

definition LookupWorkloadIdentityProvider ::
    "wi_pool option gomap \<Rightarrow> wi_provider option gomap \<Rightarrow> string \<Rightarrow> (wi_pool \<times> wi_provider) option" where
  "LookupWorkloadIdentityProvider pools providers audience =
     (case parseWorkloadIdentityProviderAudience audience of
        None \<Rightarrow> None
      | Some (pool_name, provider_name) \<Rightarrow>
          (case (ptr_get pools pool_name, ptr_get providers provider_name) of
             (Some pool, Some provider) \<Rightarrow> Some (pool, provider) | _ \<Rightarrow> None))"

section \<open>Masks\<close>

definition requiredUpdateMask :: "http_request \<Rightarrow> string list option" where
  "requiredUpdateMask r =
     (let value = trim_space (query r ''updateMask'') in
      if value = [] then None
      else let names = map trim_space (split (CHR '','') value) in if [] \<in> set names then None else Some names)"

definition normalizeMaskField :: "string \<Rightarrow> string" where
  "normalizeMaskField f =
     (case map_of [(''display_name'', ''displayName''), (''attribute_mapping'', ''attributeMapping''),
        (''attribute_condition'', ''attributeCondition''), (''oidc.allowed_audiences'', ''oidc.allowedAudiences''),
        (''oidc.issuer_uri'', ''oidc.issuerUri''), (''oidc.jwks_json'', ''oidc.jwksJson'')] f of
        Some g \<Rightarrow> g | None \<Rightarrow> f)"

definition validateUpdateMask :: "string list \<Rightarrow> string list \<Rightarrow> bool" where
  "validateUpdateMask names allowed \<longleftrightarrow> list_all (\<lambda>f. normalizeMaskField f \<in> set allowed) names"

end
