(* ===== verification/Sts.thy ===== *)
theory Sts
  imports Workload_Identity Local_Credentials
begin

text \<open>
  \<open>pkg/shims/sts/api.go\<close>: the exchange of a local token or of a token of an external identity provider for
  a local access token.  The RSA signature check and, for the form, the parsing of the request's body are
  arguments; the form is the map \<open>ParseForm\<close> makes, \<open>None\<close> when it fails.
\<close>

section \<open>Texts\<close>

text \<open>\<open>utf8.Valid\<close>, on the bytes of a text.\<close>

fun utf8_valid :: "nat list \<Rightarrow> bool" where
  "utf8_valid [] = True"
| "utf8_valid (b # rest) =
     (let tail = (\<lambda>c. 128 \<le> c \<and> c \<le> (191 :: nat)) in
      if b < 128 then utf8_valid rest
      else if 194 \<le> b \<and> b \<le> 223 then (case rest of c # cs \<Rightarrow> tail c \<and> utf8_valid cs | [] \<Rightarrow> False)
      else if 224 \<le> b \<and> b \<le> 239 then
        (case rest of c # d # cs \<Rightarrow> tail c \<and> tail d \<and> (b = 224 \<longrightarrow> 160 \<le> c) \<and> (b = 237 \<longrightarrow> c \<le> 159) \<and> utf8_valid cs | _ \<Rightarrow> False)
      else if 240 \<le> b \<and> b \<le> 244 then
        (case rest of c # d # e # cs \<Rightarrow> tail c \<and> tail d \<and> tail e \<and> (b = 240 \<longrightarrow> 144 \<le> c) \<and> (b = 244 \<longrightarrow> c \<le> 143) \<and> utf8_valid cs | _ \<Rightarrow> False)
      else False)"

definition utf8_text :: "string \<Rightarrow> bool" where "utf8_text s = utf8_valid (map of_char s)"

text \<open>\<open>strings.Fields\<close>; \<open>url.PathEscape\<close>.\<close>

fun fields_loop :: "string \<Rightarrow> string \<Rightarrow> string list" where
  "fields_loop word [] = (if word = [] then [] else [rev word])"
| "fields_loop word (c # s) =
     (if c \<in> set ascii_space then (if word = [] then fields_loop [] s else rev word # fields_loop [] s)
      else fields_loop (c # word) s)"

definition text_fields :: "string \<Rightarrow> string list" where "text_fields s = fields_loop [] s"

definition path_plain :: "char \<Rightarrow> bool" where
  "path_plain c \<longleftrightarrow> is_lower c \<or> is_upper c \<or> is_digit c \<or>
     c \<in> {CHR ''-'', CHR ''_'', CHR ''.'', CHR ''~'', CHR ''$'', CHR ''&'', CHR ''+'', CHR ''='', CHR '':'', CHR ''@''}"

definition upper_hex :: "nat \<Rightarrow> char" where
  "upper_hex d = (if d < 10 then char_of (48 + d) else char_of (55 + d))"

definition path_escape :: "string \<Rightarrow> string" where
  "path_escape s = concat (map (\<lambda>c. if path_plain c then [c] else [CHR ''%'', upper_hex (of_char c div 16), upper_hex (of_char c mod 16)]) s)"

section \<open>Tokens of external providers\<close>

definition maxSubjectTokenBytes :: int where "maxSubjectTokenBytes = 32768"
definition maxJWKSBytes :: int where "maxJWKSBytes = 65536"
definition maxJWKCount :: nat where "maxJWKCount = 32"
definition maxSubjectBytes :: nat where "maxSubjectBytes = 256"
definition oidcClockSkew :: int where "oidcClockSkew = 30 * 1000000000"

definition unix :: "int \<Rightarrow> int" where "unix t = t div 1000000000"

text \<open>Exactly one value, with no unknown fields.\<close>

definition decodeStrictJSON :: "(json \<Rightarrow> json_error + 'a) \<Rightarrow> string \<Rightarrow> 'a option" where
  "decodeStrictJSON f text =
     (case jparse text of Raw v \<Rightarrow> (case f v of Inr x \<Rightarrow> Some x | Inl e \<Rightarrow> None) | _ \<Rightarrow> None)"

definition decodeJWTPart :: "string \<Rightarrow> string option" where
  "decodeJWTPart s = (case rawurl_decode s of None \<Rightarrow> None | Some t \<Rightarrow> if utf8_text t then Some t else None)"

record jwt_header =
  jh_alg :: string
  jh_kid :: string
  jh_typ :: string

definition dec_jwt_member :: "string \<Rightarrow> json \<Rightarrow> jwt_header \<Rightarrow> json_error + jwt_header" where
  "dec_jwt_member k v h =
     (case match_field [''alg'', ''kid'', ''typ''] k of
        None \<Rightarrow> Inl (UnknownField k)
      | Some f \<Rightarrow>
          if f = ''alg'' then set_text (\<lambda>s. h\<lparr>jh_alg := s\<rparr>) (dec_string v (jh_alg h))
          else if f = ''kid'' then set_text (\<lambda>s. h\<lparr>jh_kid := s\<rparr>) (dec_string v (jh_kid h))
          else set_text (\<lambda>s. h\<lparr>jh_typ := s\<rparr>) (dec_string v (jh_typ h)))"

definition dec_jwt_header :: "json \<Rightarrow> json_error + jwt_header" where
  "dec_jwt_header = dec_struct dec_jwt_member \<lparr>jh_alg = [], jh_kid = [], jh_typ = []\<rparr>"

record jwk =
  jk_type :: string
  jk_kid :: string
  jk_alg :: string
  jk_use :: string
  jk_modulus :: string
  jk_exponent :: string

definition dec_jwk_member :: "string \<Rightarrow> json \<Rightarrow> jwk \<Rightarrow> json_error + jwk" where
  "dec_jwk_member k v j =
     (case match_field [''kty'', ''kid'', ''alg'', ''use'', ''n'', ''e''] k of
        None \<Rightarrow> Inl (UnknownField k)
      | Some f \<Rightarrow>
          if f = ''kty'' then set_text (\<lambda>s. j\<lparr>jk_type := s\<rparr>) (dec_string v (jk_type j))
          else if f = ''kid'' then set_text (\<lambda>s. j\<lparr>jk_kid := s\<rparr>) (dec_string v (jk_kid j))
          else if f = ''alg'' then set_text (\<lambda>s. j\<lparr>jk_alg := s\<rparr>) (dec_string v (jk_alg j))
          else if f = ''use'' then set_text (\<lambda>s. j\<lparr>jk_use := s\<rparr>) (dec_string v (jk_use j))
          else if f = ''n'' then set_text (\<lambda>s. j\<lparr>jk_modulus := s\<rparr>) (dec_string v (jk_modulus j))
          else set_text (\<lambda>s. j\<lparr>jk_exponent := s\<rparr>) (dec_string v (jk_exponent j)))"

definition dec_jwk :: "json \<Rightarrow> json_error + jwk" where
  "dec_jwk = dec_struct dec_jwk_member \<lparr>jk_type = [], jk_kid = [], jk_alg = [], jk_use = [], jk_modulus = [], jk_exponent = []\<rparr>"

definition dec_jwks :: "json \<Rightarrow> json_error + jwk list" where
  "dec_jwks = dec_struct (\<lambda>k v ks. case match_field [''keys''] k of None \<Rightarrow> Inl (UnknownField k) | Some f \<Rightarrow> dec_slice dec_jwk v) []"

text \<open>A number from its bytes, the first the most significant.\<close>

definition bytes_number :: "string \<Rightarrow> nat" where
  "bytes_number s = foldl (\<lambda>n c. 256 * n + of_char c) 0 s"

definition rsa_modulus_ok :: "nat \<Rightarrow> bool" where
  "rsa_modulus_ok n \<longleftrightarrow> 2 ^ 2047 \<le> n \<and> n < 2 ^ 8192"

definition publicKeyForJWT :: "string \<Rightarrow> jwt_header \<Rightarrow> (nat \<times> nat) option" where
  "publicKeyForJWT text h =
     (if text = [] \<or> maxJWKSBytes < int (length text) \<or> \<not> utf8_text text then None
      else case decodeStrictJSON dec_jwks text of
        None \<Rightarrow> None
      | Some keys \<Rightarrow>
          if keys = [] \<or> maxJWKCount < length keys then None
          else case filter (\<lambda>j. jk_kid j = jh_kid h) keys of
            [j] \<Rightarrow>
              if jk_type j \<noteq> ''RSA'' \<or> (jk_alg j \<noteq> [] \<and> jk_alg j \<noteq> ''RS256'') \<or> (jk_use j \<noteq> [] \<and> jk_use j \<noteq> ''sig'') then None
              else (case (rawurl_decode (jk_modulus j), rawurl_decode (jk_exponent j)) of
                (Some m, Some e) \<Rightarrow>
                  if e = [] \<or> 4 < length e then None
                  else if bytes_number e < 3 \<or> even (bytes_number e) then None
                  else if \<not> rsa_modulus_ok (bytes_number m) then None
                  else Some (bytes_number m, bytes_number e)
              | _ \<Rightarrow> None)
          | _ \<Rightarrow> None)"

record oidc_claims =
  oc_issuer :: string
  oc_audiences :: "string list"
  oc_subject :: string
  oc_expires :: int
  oc_not_before :: "int option"
  oc_issued :: "int option"

text \<open>\<open>json.Unmarshal\<close> of one claim: an absent one is an error.\<close>

definition claim_text :: "json gomap \<Rightarrow> string \<Rightarrow> string option" where
  "claim_text m k =
     (case gm_get m k of Some v \<Rightarrow> (case dec_string v [] of Inr s \<Rightarrow> Some s | Inl e \<Rightarrow> None) | None \<Rightarrow> None)"

definition claim_number :: "json \<Rightarrow> int option" where
  "claim_number v = (case dec_int v 0 of Inr i \<Rightarrow> Some i | Inl e \<Rightarrow> None)"

definition decodeAudience :: "json option \<Rightarrow> string list option" where
  "decodeAudience raw =
     (case raw of
        None \<Rightarrow> None
      | Some v \<Rightarrow>
          (case dec_string v [] of
             Inr one \<Rightarrow> if one = [] then None else Some [one]
           | Inl e \<Rightarrow>
               (case dec_slice (\<lambda>v. dec_string v []) v of
                  Inl e \<Rightarrow> None
                | Inr many \<Rightarrow> if many = [] \<or> [] \<in> set many then None else Some many)))"

text \<open>A time claim that may be absent: \<open>None\<close> when it is there and no number.\<close>

definition optional_claim :: "json gomap \<Rightarrow> string \<Rightarrow> int option option" where
  "optional_claim m k = (case gm_get m k of None \<Rightarrow> Some None | Some v \<Rightarrow> map_option Some (claim_number v))"

definition decodeClaims :: "string \<Rightarrow> oidc_claims option" where
  "decodeClaims text =
     (if \<not> utf8_text text then None
      else case (case jparse text of Raw (JObj kvs) \<Rightarrow> Some (map_of_members kvs) | Raw JNull \<Rightarrow> Some [] | _ \<Rightarrow> None) of
        None \<Rightarrow> None
      | Some m \<Rightarrow>
          (case (claim_text m ''iss'', claim_text m ''sub'', Option.bind (gm_get m ''exp'') claim_number) of
             (Some iss, Some sub, Some exp) \<Rightarrow>
               (case decodeAudience (gm_get m ''aud'') of
                  None \<Rightarrow> None
                | Some auds \<Rightarrow>
                    (case (optional_claim m ''nbf'', optional_claim m ''iat'') of
                       (Some nbf, Some iat) \<Rightarrow>
                         Some \<lparr>oc_issuer = iss, oc_audiences = auds, oc_subject = sub, oc_expires = exp, oc_not_before = nbf, oc_issued = iat\<rparr>
                     | _ \<Rightarrow> None))
           | _ \<Rightarrow> None))"

definition audienceAllowed :: "string list \<Rightarrow> string \<Rightarrow> string list \<Rightarrow> bool" where
  "audienceAllowed tokens exchange configured =
     (let allowed = (if configured = [] then [exchange] else configured) in list_ex (\<lambda>t. list_ex (\<lambda>a. t = a) allowed) tokens)"

definition late :: "int option \<Rightarrow> int \<Rightarrow> bool" where
  "late claim now = (case claim of None \<Rightarrow> False | Some t \<Rightarrow> t > unix (now + oidcClockSkew))"

text \<open>\<open>rsa n e signed signature\<close> is the PKCS #1 v1.5 check with SHA-256.\<close>

type_synonym rsa_check = "nat \<Rightarrow> nat \<Rightarrow> string \<Rightarrow> string \<Rightarrow> bool"

definition validateOIDCJWT :: "rsa_check \<Rightarrow> string \<Rightarrow> string \<Rightarrow> wi_oidc \<Rightarrow> int \<Rightarrow> string option" where
  "validateOIDCJWT rsa token exchange oidc now =
     (if token = [] \<or> maxSubjectTokenBytes < int (length token) then None
      else case split (CHR ''.'') token of
        [p0, p1, p2] \<Rightarrow>
          (case Option.bind (decodeJWTPart p0) (decodeStrictJSON dec_jwt_header) of
             None \<Rightarrow> None
           | Some h \<Rightarrow>
               if jh_alg h \<noteq> ''RS256'' \<or> jh_kid h = [] then None
               else (case Option.bind (decodeJWTPart p1) decodeClaims of
                   None \<Rightarrow> None
                 | Some c \<Rightarrow>
                     if oc_issuer c \<noteq> od_issuer oidc \<or> \<not> audienceAllowed (oc_audiences c) exchange (od_audiences oidc) then None
                     else if oc_subject c = [] \<or> maxSubjectBytes < length (oc_subject c) then None
                     else if oc_expires c \<le> unix now \<or> late (oc_not_before c) now \<or> late (oc_issued c) now then None
                     else (case publicKeyForJWT (od_jwks oidc) h of
                         None \<Rightarrow> None
                       | Some (n, e) \<Rightarrow>
                           (case rawurl_decode p2 of
                              None \<Rightarrow> None
                            | Some signature \<Rightarrow> if rsa n e (p0 @ ''.'' @ p1) signature then Some (oc_subject c) else None))))
      | _ \<Rightarrow> None)"

section \<open>Exchanging\<close>

definition tokenExchangeGrant :: string where "tokenExchangeGrant = ''urn:ietf:params:oauth:grant-type:token-exchange''"
definition accessTokenType :: string where "accessTokenType = ''urn:ietf:params:oauth:token-type:access_token''"
definition jwtTokenType :: string where "jwtTokenType = ''urn:ietf:params:oauth:token-type:jwt''"

text \<open>\<open>st_lookup\<close> is the IAM shim's lookup of providers, \<open>st_now\<close> the shim's clock.\<close>

record sts_api =
  st_iam :: "iam_service option"
  st_lookup :: "(string \<Rightarrow> (wi_pool \<times> wi_provider) option) option"
  st_now :: int

datatype sts_response = StsError int string | StsToken string int string

definition validateExecutableProvider :: "wi_pool \<Rightarrow> wi_provider \<Rightarrow> wi_oidc option" where
  "validateExecutableProvider pool p =
     (if wo_state pool \<noteq> ''ACTIVE'' \<or> wo_disabled pool \<or> wp_state p \<noteq> ''ACTIVE'' \<or> wp_disabled p then None
      else case wp_oidc p of
        None \<Rightarrow> None
      | Some oidc \<Rightarrow>
          if wp_aws p \<noteq> None \<or> wp_saml p \<noteq> None \<or> wp_x509 p \<noteq> None then None
          else if wp_condition p \<noteq> [] then None
          else if length (wp_mapping p) \<noteq> 1 \<or> gm_get (wp_mapping p) ''google.subject'' \<noteq> Some ''assertion.sub'' then None
          else Some oidc)"

text \<open>\<open>later\<close> is the clock when the answer is written.\<close>

definition issueToken :: "iam_service \<Rightarrow> int \<Rightarrow> string \<Rightarrow> string list \<Rightarrow> sts_response" where
  "issueToken svc later subject scopes =
     (case sv_issue svc subject (sv_audience svc) scopes maxTokenLifetime of
        Inl e \<Rightarrow> StsError 400 ''invalid_grant''
      | Inr (token, c) \<Rightarrow>
          StsToken token (case instant (cl_expires c) of Some e \<Rightarrow> (if later \<le> e then (e - later) div 1000000000 else - ((later - e) div 1000000000))
            | None \<Rightarrow> 0) (join '' '' scopes))"

definition form_get :: "string gomap \<Rightarrow> string \<Rightarrow> string" where
  "form_get form k = (case gm_get form k of Some v \<Rightarrow> v | None \<Rightarrow> [])"

definition exchangeLocalToken :: "iam_service \<Rightarrow> int \<Rightarrow> string gomap \<Rightarrow> sts_response" where
  "exchangeLocalToken svc later form =
     (let scope = form_get form ''scope'' in
      case sv_verify svc (form_get form ''subject_token'') (form_get form ''audience'') scope of
        Inl e \<Rightarrow> StsError 401 ''invalid_grant''
      | Inr c \<Rightarrow> issueToken svc later (cl_subject c) (text_fields scope))"

definition wif_principal :: "wi_pool \<Rightarrow> string \<Rightarrow> string" where
  "wif_principal pool subject = ''principal://iam.googleapis.com/'' @ wo_name pool @ ''/subject/'' @ path_escape subject"

definition exchangeOIDCToken :: "rsa_check \<Rightarrow> sts_api \<Rightarrow> iam_service \<Rightarrow> int \<Rightarrow> string gomap \<Rightarrow> sts_response" where
  "exchangeOIDCToken rsa api svc later form =
     (let scope = trim_space (form_get form ''scope''); audience = form_get form ''audience'' in
      if scope = [] then StsError 400 ''invalid_request''
      else case st_lookup api of
        None \<Rightarrow> StsError 400 ''invalid_target''
      | Some lookup \<Rightarrow>
          if \<not> ValidWorkloadIdentityProviderAudience audience then StsError 400 ''invalid_target''
          else (case lookup audience of
              None \<Rightarrow> StsError 400 ''invalid_target''
            | Some (pool, provider) \<Rightarrow>
                (case validateExecutableProvider pool provider of
                   None \<Rightarrow> StsError 400 ''invalid_request''
                 | Some oidc \<Rightarrow>
                     (case validateOIDCJWT rsa (form_get form ''subject_token'') audience oidc (st_now api) of
                        None \<Rightarrow> StsError 400 ''invalid_grant''
                      | Some subject \<Rightarrow> issueToken svc later (wif_principal pool subject) (text_fields scope)))))"

definition sts_serve :: "rsa_check \<Rightarrow> sts_api \<Rightarrow> int \<Rightarrow> http_request \<Rightarrow> string gomap option \<Rightarrow> sts_response" where
  "sts_serve rsa api later r form =
     (if rq_method r \<noteq> ''POST'' \<or> rq_path r \<noteq> ''/v1/token'' then StsError 501 ''UNIMPLEMENTED''
      else if \<not> has_prefix (header r ''Content-Type'') ''application/x-www-form-urlencoded'' then StsError 415 ''invalid_request''
      else case form of
        None \<Rightarrow> StsError 400 ''invalid_request''
      | Some f \<Rightarrow>
          if form_get f ''grant_type'' \<noteq> tokenExchangeGrant \<or> form_get f ''requested_token_type'' \<noteq> accessTokenType
          then StsError 400 ''invalid_request''
          else (case st_iam api of
              None \<Rightarrow> StsError 503 ''temporarily_unavailable''
            | Some svc \<Rightarrow>
                if form_get f ''subject_token_type'' = accessTokenType then exchangeLocalToken svc later f
                else if form_get f ''subject_token_type'' = jwtTokenType then exchangeOIDCToken rsa api svc later f
                else StsError 400 ''invalid_request''))"

end
