(* ===== verification/Sts_Properties.thy ===== *)
theory Sts_Properties
  imports Sts
begin

text \<open>
  What an exchange guarantees: whose token an external provider's token becomes, what it took, and what a
  local token's exchange keeps.
\<close>

section \<open>Principals\<close>

lemma path_escape_Cons: "path_escape (c # s) = (if path_plain c then [c] else [CHR ''%'', upper_hex (of_char c div 16), upper_hex (of_char c mod 16)]) @ path_escape s"
  by (simp add: path_escape_def)

lemma upper_hex_value: "d < 16 \<Longrightarrow> hex_value (upper_hex d) = Some d"
  by (auto simp: hex_value_def upper_hex_def Let_def)

text \<open>Reading an escaped segment back.\<close>

fun path_unescape :: "string \<Rightarrow> string option" where
  "path_unescape [] = Some []"
| "path_unescape (c # s) =
     (if c = CHR ''%'' then
        (case s of a # b # t \<Rightarrow>
           (case (hex_value a, hex_value b) of (Some x, Some y) \<Rightarrow> map_option ((#) (char_of (16 * x + y))) (path_unescape t) | _ \<Rightarrow> None)
         | _ \<Rightarrow> None)
      else map_option ((#) c) (path_unescape s))"

lemma path_unescape_escape: "path_unescape (path_escape s) = Some s"
proof (induction s)
  case (Cons c s)
  have b: "(of_char c :: nat) < 256" by (rule nat_of_char_less_256)
  then have "of_char c div 16 < (16 :: nat)" "of_char c mod 16 < (16 :: nat)" by linarith+
  note h = this [THEN upper_hex_value]
  have "char_of (16 * (of_char c div 16 :: nat) + of_char c mod 16) = c" by (simp only: mult_div_mod_eq char_of_char)
  moreover have "path_plain c \<Longrightarrow> c \<noteq> CHR ''%''" by (auto simp: path_plain_def is_lower_def is_upper_def is_digit_def)
  ultimately show ?case using Cons h by (auto simp: path_escape_Cons)
qed (simp add: path_escape_def)

lemma path_escape_inj: "path_escape s = path_escape t \<Longrightarrow> s = t"
  by (metis option.inject path_unescape_escape)

lemma path_escape_no_slash: "CHR ''/'' \<notin> set (path_escape s)"
proof (induction s)
  case (Cons c s)
  have u: "upper_hex d \<noteq> CHR ''/''" if "d < 16" for d
    using upper_hex_value [OF that] by (auto simp: hex_value_def)
  have "(of_char c :: nat) < 256" by (rule nat_of_char_less_256)
  then have "of_char c div 16 < (16 :: nat)" "of_char c mod 16 < (16 :: nat)" by linarith+
  then have "CHR ''/'' \<noteq> upper_hex (of_char c div 16)" "CHR ''/'' \<noteq> upper_hex (of_char c mod 16)" using u by metis+
  moreover have "\<not> path_plain (CHR ''/'')" by (simp add: path_plain_def is_lower_def is_upper_def is_digit_def)
  ultimately show ?case using Cons by (auto simp: path_escape_Cons)
qed (simp add: path_escape_def)

lemma last_part_unique:
  assumes "c \<notin> set s" and "c \<notin> set t" and "a @ c # s = b @ c # t"
  shows "a = b \<and> s = t"
proof -
  have "rev s @ c # rev a = rev t @ c # rev b" using arg_cong [OF assms(3), of rev] by simp
  moreover have "takeWhile (\<lambda>d. d \<noteq> c) (rev s @ c # rev a) = rev s" "takeWhile (\<lambda>d. d \<noteq> c) (rev t @ c # rev b) = rev t"
    using assms(1,2) by (subst takeWhile_append2; force)+
  ultimately have "rev s = rev t" by metis
  then show ?thesis using assms(3) by simp
qed

text \<open>
  A principal names one subject of one pool.  Whatever bytes an external provider puts into a subject,
  two subjects never share a principal and no subject reaches into another pool's principals.
\<close>
theorem wif_principal_unique:
  "wif_principal pool subject = wif_principal pool' subject' \<longleftrightarrow> wo_name pool = wo_name pool' \<and> subject = subject'"
proof
  assume "wif_principal pool subject = wif_principal pool' subject'"
  then have "(wo_name pool @ ''/subject'') @ CHR ''/'' # path_escape subject = (wo_name pool' @ ''/subject'') @ CHR ''/'' # path_escape subject'"
    by (simp add: wif_principal_def)
  from last_part_unique [OF path_escape_no_slash path_escape_no_slash this]
  have "wo_name pool @ ''/subject'' = wo_name pool' @ ''/subject'' \<and> path_escape subject = path_escape subject'" .
  then show "wo_name pool = wo_name pool' \<and> subject = subject'" using path_escape_inj by simp
qed (simp add: wif_principal_def)

section \<open>Tokens of external providers\<close>

lemma bind_Some: "Option.bind x f = Some y \<longleftrightarrow> (\<exists>z. x = Some z \<and> f z = Some y)"
  by (cases x) auto

lemma validated_jwt:
  assumes "validateOIDCJWT rsa token exchange oidc now = Some subject"
  shows "\<exists>p0 p1 p2 payload h c n e signature. token = p0 @ ''.'' @ p1 @ ''.'' @ p2 \<and> decodeJWTPart p1 = Some payload \<and> decodeClaims payload = Some c \<and>
    oc_issuer c = od_issuer oidc \<and> audienceAllowed (oc_audiences c) exchange (od_audiences oidc) \<and> oc_subject c = subject \<and> subject \<noteq> [] \<and>
    length subject \<le> maxSubjectBytes \<and> unix now < oc_expires c \<and> \<not> late (oc_not_before c) now \<and> \<not> late (oc_issued c) now \<and>
    jh_alg h = ''RS256'' \<and> publicKeyForJWT (od_jwks oidc) h = Some (n, e) \<and> rawurl_decode p2 = Some signature \<and> rsa n e (p0 @ ''.'' @ p1) signature"
proof -
  obtain p0 p1 p2 where parts: "split (CHR ''.'') token = [p0, p1, p2]"
    using assms by (auto simp: validateOIDCJWT_def split: if_splits list.splits)
  then have t: "token = p0 @ ''.'' @ p1 @ ''.'' @ p2" by (rule split_three)
  obtain h where h: "Option.bind (decodeJWTPart p0) (decodeStrictJSON dec_jwt_header) = Some h" "jh_alg h = ''RS256''"
    using assms parts by (auto simp: validateOIDCJWT_def split: if_splits option.splits)
  obtain c where c: "Option.bind (decodeJWTPart p1) decodeClaims = Some c"
    using assms parts h by (auto simp: validateOIDCJWT_def split: if_splits option.splits)
  have "oc_issuer c = od_issuer oidc \<and> audienceAllowed (oc_audiences c) exchange (od_audiences oidc) \<and> oc_subject c = subject \<and> subject \<noteq> [] \<and>
    length subject \<le> maxSubjectBytes \<and> unix now < oc_expires c \<and> \<not> late (oc_not_before c) now \<and> \<not> late (oc_issued c) now \<and>
    (\<exists>n e signature. publicKeyForJWT (od_jwks oidc) h = Some (n, e) \<and> rawurl_decode p2 = Some signature \<and> rsa n e (p0 @ ''.'' @ p1) signature)"
    using assms parts h c by (auto simp: validateOIDCJWT_def split: if_splits option.splits prod.splits)
  moreover obtain payload where "decodeJWTPart p1 = Some payload" "decodeClaims payload = Some c" using c by (auto simp: bind_Some)
  ultimately show ?thesis using t h(2) by blast
qed

lemma executable_provider:
  "validateExecutableProvider pool p = Some oidc \<Longrightarrow>
   wo_state pool = ''ACTIVE'' \<and> \<not> wo_disabled pool \<and> wp_state p = ''ACTIVE'' \<and> \<not> wp_disabled p \<and> wp_oidc p = Some oidc \<and> wp_condition p = []"
  by (auto simp: validateExecutableProvider_def split: if_splits option.splits)

lemma issueToken_Token: "issueToken svc later subject scopes = StsToken token secs text \<Longrightarrow>
   \<exists>c. sv_issue svc subject (sv_audience svc) scopes maxTokenLifetime = Inr (token, c) \<and> text = join '' '' scopes"
  by (auto simp: issueToken_def split: sum.splits)

text \<open>
  C9: an external token is exchanged only as its provider signed it.  When the shim answers a local token, the
  audience names a pool and a provider of the IAM shim, both active and enabled; the token's signature is
  good under the key of the provider's set that the token names; its issuer, audience and times are accepted;
  and what is issued is a token of exactly the signed subject, in that pool.
\<close>
theorem federated_exchange_sound:
  assumes "sts_serve rsa api later r (Some f) = StsToken token secs scope" and "form_get f ''subject_token_type'' = jwtTokenType"
  shows "\<exists>svc lookup pool provider oidc p0 p1 p2 payload h c n e signature cl.
    st_iam api = Some svc \<and> st_lookup api = Some lookup \<and> lookup (form_get f ''audience'') = Some (pool, provider) \<and>
    wo_state pool = ''ACTIVE'' \<and> \<not> wo_disabled pool \<and> wp_state provider = ''ACTIVE'' \<and> \<not> wp_disabled provider \<and> wp_oidc provider = Some oidc \<and>
    form_get f ''subject_token'' = p0 @ ''.'' @ p1 @ ''.'' @ p2 \<and> decodeJWTPart p1 = Some payload \<and> decodeClaims payload = Some c \<and>
    oc_issuer c = od_issuer oidc \<and> audienceAllowed (oc_audiences c) (form_get f ''audience'') (od_audiences oidc) \<and> unix (st_now api) < oc_expires c \<and>
    publicKeyForJWT (od_jwks oidc) h = Some (n, e) \<and> rawurl_decode p2 = Some signature \<and> rsa n e (p0 @ ''.'' @ p1) signature \<and>
    sv_issue svc (wif_principal pool (oc_subject c)) (sv_audience svc) (text_fields (trim_space (form_get f ''scope''))) maxTokenLifetime = Inr (token, cl)"
proof -
  have ne: "jwtTokenType \<noteq> accessTokenType" by (simp add: jwtTokenType_def accessTokenType_def)
  obtain svc where svc: "st_iam api = Some svc" "exchangeOIDCToken rsa api svc later f = StsToken token secs scope"
    using assms ne by (auto simp: sts_serve_def split: if_splits option.splits)
  let ?aud = "form_get f ''audience''"
  obtain lookup where l: "st_lookup api = Some lookup" using svc(2) by (auto simp: exchangeOIDCToken_def Let_def split: if_splits option.splits)
  obtain pool provider where p: "lookup ?aud = Some (pool, provider)"
    using svc(2) l by (auto simp: exchangeOIDCToken_def Let_def split: if_splits option.splits)
  obtain oidc where o: "validateExecutableProvider pool provider = Some oidc"
    using svc(2) l p by (auto simp: exchangeOIDCToken_def Let_def split: if_splits option.splits)
  obtain subject where s: "validateOIDCJWT rsa (form_get f ''subject_token'') ?aud oidc (st_now api) = Some subject"
    "issueToken svc later (wif_principal pool subject) (text_fields (trim_space (form_get f ''scope''))) = StsToken token secs scope"
    using svc(2) l p o by (auto simp: exchangeOIDCToken_def Let_def split: if_splits option.splits)
  from issueToken_Token [OF s(2)] obtain cl where
    "sv_issue svc (wif_principal pool subject) (sv_audience svc) (text_fields (trim_space (form_get f ''scope''))) maxTokenLifetime = Inr (token, cl)"
    by blast
  with svc(1) l p executable_provider [OF o] validated_jwt [OF s(1)] show ?thesis by blast
qed

section \<open>Local tokens\<close>

lemma fields_loop_plain: "(\<forall>c \<in> set s. c \<notin> set ascii_space) \<Longrightarrow> fields_loop w s = (if w = [] \<and> s = [] then [] else [rev w @ s])"
  by (induction s arbitrary: w) auto

lemma text_fields_plain: "no_space s \<Longrightarrow> text_fields s = [s]"
  by (simp add: text_fields_def fields_loop_plain no_space_def)

lemma hasScope_cloud: "hasScope ss s \<Longrightarrow> s \<in> set ss \<or> cloudPlatform \<in> set ss"
  by (auto simp: hasScope_def list_ex_iff)

lemma normalized_single: "no_space s \<Longrightarrow> normalizedScopes [s] = [s]"
  using trim_no_space [of s "[]"] by (auto simp: normalizedScopes_def no_space_def)

lemma exchanged_local:
  assumes "sts_serve rsa api later r (Some f) = StsToken token secs scope" and "form_get f ''subject_token_type'' = accessTokenType"
  shows "\<exists>svc c cl. st_iam api = Some svc \<and>
    sv_verify svc (form_get f ''subject_token'') (form_get f ''audience'') (form_get f ''scope'') = Inr c \<and>
    sv_issue svc (cl_subject c) (sv_audience svc) (text_fields (form_get f ''scope'')) maxTokenLifetime = Inr (token, cl)"
proof -
  obtain svc where svc: "st_iam api = Some svc" "exchangeLocalToken svc later f = StsToken token secs scope"
    using assms by (auto simp: sts_serve_def split: if_splits option.splits)
  then obtain c where "sv_verify svc (form_get f ''subject_token'') (form_get f ''audience'') (form_get f ''scope'') = Inr c"
    "issueToken svc later (cl_subject c) (text_fields (form_get f ''scope'')) = StsToken token secs scope"
    by (auto simp: exchangeLocalToken_def Let_def split: sum.splits)
  with issueToken_Token svc(1) show ?thesis by blast
qed

lemma fields_loop_words:
  "set word \<inter> set ascii_space = {} \<Longrightarrow> x \<in> set (fields_loop word s) \<Longrightarrow> no_space x"
proof (induction word s rule: fields_loop.induct)
  case (1 word)
  then show ?case by (auto simp only: fields_loop.simps no_space_def set_rev split: if_splits) auto
next
  case (2 word c s)
  show ?case
  proof (cases "c \<in> set ascii_space")
    case True
    have "no_space (rev word)" if "word \<noteq> []" using that 2(4) unfolding no_space_def set_rev by blast
    with 2 True show ?thesis by (simp split: if_splits) blast
  next
    case False
    have "set (c # word) \<inter> set ascii_space = {}" using 2(4) False by simp
    with 2 False show ?thesis by simp
  qed
qed

lemma text_fields_words: "x \<in> set (text_fields s) \<Longrightarrow> no_space x"
  using fields_loop_words [of "[]" x s] by (simp add: text_fields_def)

lemma normalize_subset: "set (normalize_scopes seen ss) \<subseteq> trim_space ` set ss"
  by (induction ss arbitrary: seen) (auto simp: Let_def)

lemma normalized_words:
  assumes "x \<in> set (normalizedScopes (text_fields s))"
  shows "x \<in> set (text_fields s)"
proof -
  obtain y where "y \<in> set (text_fields s)" "x = trim_space y" using assms normalize_subset [of "[]" "text_fields s"] by (auto simp: normalizedScopes_def)
  with trim_no_space [OF text_fields_words, of y s "[]"] show ?thesis by simp
qed

text \<open>
  C39: exchanging a local token keeps its subject and widens nothing but scopes with white space in them.
  The exchanged token is good for the gateway, of the same subject, and every scope of it is one the
  presented token grants or a word of a scope it holds that has white space in it.
\<close>
theorem exchange_keeps_grants:
  assumes "sts_serve rsa api later r (Some f) = StsToken token secs scope" and "form_get f ''subject_token_type'' = accessTokenType"
    and "st_iam api = Some (iam_service_of h iss now rnd im)" and "stamps_read iss now maxTokenLifetime"
    and "trim_space (im_audience im) = im_audience im"
    and "VerifyLocalToken iss now (form_get f ''subject_token'') (form_get f ''audience'') (form_get f ''scope'') = Inr c"
  shows "\<exists>cl. VerifyLocalToken iss now token (im_audience im) [] = Inr cl \<and> cl_subject cl = trim_space (cl_subject c) \<and>
    list_all (\<lambda>s. hasScope (cl_scopes c) s \<or> (\<exists>g \<in> set (cl_scopes c). \<not> no_space g \<and> s \<in> set (text_fields g))) (cl_scopes cl)"
proof -
  let ?scope = "form_get f ''scope''"
  let ?kept = "\<lambda>s. hasScope (cl_scopes c) s \<or> (\<exists>g \<in> set (cl_scopes c). \<not> no_space g \<and> s \<in> set (text_fields g))"
  obtain cl where i: "IssueLocalToken iss now rnd im (cl_subject c) (im_audience im) (text_fields ?scope) maxTokenLifetime = Inr (token, cl)"
    using exchanged_local [OF assms(1,2)] assms(3,6) by (auto simp: iam_service_of_def)
  note cl = lc.issued_claims [OF i]
  have v: "VerifyLocalToken iss now token (im_audience im) [] = Inr cl" by (rule lc.issued_as_asked [OF assms(4) i assms(5)])
  have "list_all ?kept (normalizedScopes (text_fields ?scope))"
  proof (cases "?scope = []")
    case True
    then show ?thesis by (simp add: text_fields_def normalizedScopes_def)
  next
    case False
    then have s: "hasScope (cl_scopes c) ?scope" using lc.verified_for_required [OF assms(6)] by simp
    show ?thesis
    proof (cases "cloudPlatform \<in> set (cl_scopes c)")
      case True
      then show ?thesis by (auto simp: list_all_iff hasScope_def list_ex_iff)
    next
      case False
      then have g: "?scope \<in> set (cl_scopes c)" using hasScope_cloud [OF s] by blast
      show ?thesis
      proof (cases "no_space ?scope")
        case True
        with s show ?thesis by (simp add: text_fields_plain normalized_single)
      next
        case False
        with g show ?thesis by (auto simp: list_all_iff dest: normalized_words)
      qed
    qed
  qed
  with v cl show ?thesis by auto
qed

section \<open>Concrete exchanges\<close>

text \<open>A clock that writes noon, one minute past and one o'clock.\<close>

definition hour_stamp :: "int \<Rightarrow> string" where
  "hour_stamp t = (if t = sample_now then ''2024-02-29T12:00:00Z''
     else if t = sample_now + 60000000000 then ''2024-02-29T12:01:00Z'' else ''2024-02-29T13:00:00Z'')"

definition hour_issuer :: token_issuer where
  "hour_issuer = \<lparr>is_mac = sample_mac, is_key = sample_key, is_stamp = hour_stamp\<rparr>"

lemma hour_stamps_read: "stamps_read hour_issuer sample_now 60000000000" "stamps_read hour_issuer sample_now maxTokenLifetime"
proof -
  have "instant ''2024-02-29T13:00:00Z'' = map_option (\<lambda>n. n + 3600000000000) (instant ''2024-02-29T12:00:00Z'')" by code_simp
  then show "stamps_read hour_issuer sample_now 60000000000" "stamps_read hour_issuer sample_now maxTokenLifetime"
    using sample_times by (simp_all add: stamps_read_def hour_issuer_def hour_stamp_def maxTokenLifetime_def)
qed

definition sts_iam :: "unit iam_api" where "sts_iam = newIamAPI ''strict'' None"

definition sts_service :: iam_service where
  "sts_service = iam_service_of None hour_issuer sample_now ''0123456789abcdef'' sts_iam"

lemma sts_iam_facts: "tokenSubject sts_iam ''user:ada'' = None" "trim_space ''user:ada'' = ''user:ada''" "im_audience sts_iam = ''minisky-gateway''"
  "trim_space (im_audience sts_iam) = im_audience sts_iam"
  by code_simp+

lemma hour_issues:
  "tokenSubject sts_iam subject = None \<Longrightarrow> trim_space subject \<noteq> [] \<Longrightarrow> lifetime = 60000000000 \<or> lifetime = maxTokenLifetime \<Longrightarrow>
   \<exists>token c. IssueLocalToken hour_issuer sample_now rnd sts_iam subject audience scopes lifetime = Inr (token, c)"
  by (rule IssueLocalToken_ok) (auto simp: hour_issuer_def sample_key_def maxTokenLifetime_def)

definition sts_post :: http_request where
  "sts_post = \<lparr>rq_method = ''POST'', rq_path = ''/v1/token'', rq_header = [(''Content-Type'', ''application/x-www-form-urlencoded'')],
     rq_query = [], rq_body = RawNil\<rparr>"

definition local_form :: "string \<Rightarrow> string \<Rightarrow> string gomap" where
  "local_form token scope = [(''grant_type'', tokenExchangeGrant), (''requested_token_type'', accessTokenType),
     (''subject_token_type'', accessTokenType), (''subject_token'', token), (''audience'', ''minisky-gateway''), (''scope'', scope)]"

definition local_sts :: sts_api where
  "local_sts = \<lparr>st_iam = Some sts_service, st_lookup = None, st_now = sample_now\<rparr>"

lemma local_form_get: "form_get (local_form token scope) ''scope'' = scope" "form_get (local_form token scope) ''subject_token'' = token"
  "form_get (local_form token scope) ''audience'' = ''minisky-gateway''" "form_get (local_form token scope) ''subject_token_type'' = accessTokenType"
  "form_get (local_form token scope) ''grant_type'' = tokenExchangeGrant" "form_get (local_form token scope) ''requested_token_type'' = accessTokenType"
  by (simp_all add: form_get_def local_form_def)

lemma local_exchange:
  assumes "VerifyLocalToken hour_issuer sample_now token ''minisky-gateway'' scope = Inr c" and "cl_subject c = ''user:ada''"
  shows "\<exists>token' secs. sts_serve rsa local_sts later sts_post (Some (local_form token scope)) = StsToken token' secs (join '' '' (text_fields scope))"
proof -
  obtain token' c' where i: "IssueLocalToken hour_issuer sample_now ''0123456789abcdef'' sts_iam ''user:ada'' ''minisky-gateway'' (text_fields scope) maxTokenLifetime =
      Inr (token', c')"
    using hour_issues [OF sts_iam_facts(1), of maxTokenLifetime "''0123456789abcdef''" "''minisky-gateway''" "text_fields scope"] sts_iam_facts(2) by auto
  have "has_prefix (header sts_post ''Content-Type'') ''application/x-www-form-urlencoded''" by (simp add: header_def sts_post_def)
  then have "sts_serve rsa local_sts later sts_post (Some (local_form token scope)) = exchangeLocalToken sts_service later (local_form token scope)"
    by (simp add: sts_serve_def local_form_get local_sts_def) (simp add: sts_post_def)
  then show ?thesis using assms i
    by (simp add: exchangeLocalToken_def issueToken_def local_form_get sts_service_def iam_service_of_def sts_iam_facts Let_def)
qed

lemma ada_local_token:
  assumes "scope \<in> set (normalizedScopes scopes)"
  shows "\<exists>token c. VerifyLocalToken hour_issuer sample_now token ''minisky-gateway'' scope = Inr c \<and> cl_subject c = ''user:ada'' \<and>
    cl_scopes c = normalizedScopes scopes"
proof -
  obtain token c where i: "IssueLocalToken hour_issuer sample_now ''fedcba9876543210'' sts_iam ''user:ada'' ''minisky-gateway'' scopes 60000000000 = Inr (token, c)"
    using hour_issues [OF sts_iam_facts(1), of 60000000000 "''fedcba9876543210''" "''minisky-gateway''" scopes] sts_iam_facts(2) by auto
  have "hasScope (normalizedScopes scopes) scope" using assms by (auto simp: hasScope_def list_ex_iff)
  moreover have "trim_space ''minisky-gateway'' = ''minisky-gateway''" using sts_iam_facts(3,4) by simp
  ultimately show ?thesis using lc.issued_verifies [OF hour_stamps_read(1) i] lc.issued_claims [OF i] sts_iam_facts(2) by auto
qed

theorem exchange_keeps_grants_witness:
  "\<exists>old token secs cl. sts_serve (\<lambda>n e m s. False) local_sts 0 sts_post (Some (local_form old ''read'')) = StsToken token secs ''read'' \<and>
    VerifyLocalToken hour_issuer sample_now token ''minisky-gateway'' [] = Inr cl \<and> cl_subject cl = ''user:ada'' \<and>
    list_all (hasScope [''read'', ''write'']) (cl_scopes cl)"
proof -
  have n: "normalizedScopes [''read'', ''write''] = [''read'', ''write'']" "text_fields ''read'' = [''read'']" "list_all no_space [''read'', ''write'']"
    by code_simp+
  obtain old c where c: "VerifyLocalToken hour_issuer sample_now old ''minisky-gateway'' ''read'' = Inr c" "cl_subject c = ''user:ada''"
    "cl_scopes c = [''read'', ''write'']"
    using ada_local_token [of "''read''" "[''read'', ''write'']"] n(1) by auto
  obtain token secs where t: "sts_serve (\<lambda>n e m s. False) local_sts 0 sts_post (Some (local_form old ''read'')) = StsToken token secs ''read''"
    using local_exchange [OF c(1,2)] n(2) by fastforce
  have "st_iam local_sts = Some (iam_service_of None hour_issuer sample_now ''0123456789abcdef'' sts_iam)" by (simp add: local_sts_def sts_service_def)
  from exchange_keeps_grants [OF t local_form_get(4) this hour_stamps_read(2) sts_iam_facts(4)] c
  obtain cl where "VerifyLocalToken hour_issuer sample_now token ''minisky-gateway'' [] = Inr cl" "cl_subject cl = ''user:ada''"
      "list_all (\<lambda>s. hasScope [''read'', ''write''] s \<or> (\<exists>g \<in> set [''read'', ''write'']. \<not> no_space g \<and> s \<in> set (text_fields g))) (cl_scopes cl)"
    using sts_iam_facts(2,3) by (auto simp: local_form_get)
  moreover from this(3) have "list_all (hasScope [''read'', ''write'']) (cl_scopes cl)" using n(3) by (auto simp: list_all_iff)
  ultimately show ?thesis using t by blast
qed

text \<open>
  A scope with white space in it is split by the exchange.  A token that does not grant the cloud-platform
  scope, but a scope that mentions it after a space, is exchanged for one that grants it.
\<close>
theorem exchange_splits_spaced_scope:
  "\<exists>old token secs c cl. VerifyLocalToken hour_issuer sample_now old ''minisky-gateway'' (''read '' @ cloudPlatform) = Inr c \<and>
    \<not> hasScope (cl_scopes c) cloudPlatform \<and>
    sts_serve rsa local_sts later sts_post (Some (local_form old (''read '' @ cloudPlatform))) = StsToken token secs (''read '' @ cloudPlatform) \<and>
    VerifyLocalToken hour_issuer sample_now token ''minisky-gateway'' cloudPlatform = Inr cl"
proof -
  let ?s = "''read '' @ cloudPlatform"
  have n: "normalizedScopes [?s] = [?s]" "text_fields ?s = [''read'', cloudPlatform]" "join '' '' [''read'', cloudPlatform] = ?s"
    "normalizedScopes [''read'', cloudPlatform] = [''read'', cloudPlatform]" "\<not> hasScope [?s] cloudPlatform"
    by code_simp+
  obtain old c where c: "VerifyLocalToken hour_issuer sample_now old ''minisky-gateway'' ?s = Inr c" "cl_subject c = ''user:ada''" "cl_scopes c = [?s]"
    using ada_local_token [of ?s "[?s]"] n(1) by auto
  obtain token secs where t: "sts_serve rsa local_sts later sts_post (Some (local_form old ?s)) = StsToken token secs ?s"
    using local_exchange [OF c(1,2), of rsa later] n(2,3) by metis
  from exchanged_local [OF t local_form_get(4)] obtain cl where
    i: "IssueLocalToken hour_issuer sample_now ''0123456789abcdef'' sts_iam (cl_subject c) ''minisky-gateway'' [''read'', cloudPlatform] maxTokenLifetime = Inr (token, cl)"
    using c(1) n(2) by (auto simp: local_form_get local_sts_def sts_service_def iam_service_of_def sts_iam_facts)
  have "VerifyLocalToken hour_issuer sample_now token ''minisky-gateway'' cloudPlatform = Inr cl"
    by (rule lc.issued_verifies [OF hour_stamps_read(2) i]) (use sts_iam_facts(3,4) n(4) in \<open>auto simp: hasScope_def\<close>)
  with c t n(5) show ?thesis by metis
qed

end
