(* ===== verification/Sts_Example.thy ===== *)
theory Sts_Example
  imports Sts_Properties
begin

text \<open>
  A token of an external provider, with a 2048-bit key of its provider's set, exchanged step by step.
\<close>

section \<open>Keys\<close>

lemma bytes_number_snoc [simp]: "bytes_number (s @ [c]) = 256 * bytes_number s + of_char c" "bytes_number [] = 0"
  by (simp_all add: bytes_number_def)

lemma bytes_number_bounds: "128 \<le> (of_char c :: nat) \<Longrightarrow> 2 ^ (8 * length s + 7) \<le> bytes_number (c # s) \<and> bytes_number (c # s) < 2 ^ (8 * length s + 8)"
proof (induction s rule: rev_induct)
  case Nil
  then show ?case using nat_of_char_less_256 [of c] by (simp add: bytes_number_def)
next
  case (snoc d s)
  have d: "(of_char d :: nat) < 256" by (rule nat_of_char_less_256)
  have b: "bytes_number (c # s @ [d]) = 256 * bytes_number (c # s) + of_char d" using bytes_number_snoc(1) [of "c # s" d] by simp
  have "2 ^ (8 * length (s @ [d]) + 7) = (256 :: nat) * 2 ^ (8 * length s + 7)" "2 ^ (8 * length (s @ [d]) + 8) = (256 :: nat) * 2 ^ (8 * length s + 8)"
    by (simp_all add: power_add)
  moreover have "2 ^ (8 * length s + 7) \<le> bytes_number (c # s)" "bytes_number (c # s) < 2 ^ (8 * length s + 8)" using snoc by simp_all
  ultimately show ?case using b d by linarith
qed

lemma rsa_modulus_bytes: "128 \<le> (of_char c :: nat) \<Longrightarrow> 255 \<le> length s \<Longrightarrow> length s \<le> 1023 \<Longrightarrow> rsa_modulus_ok (bytes_number (c # s))"
proof -
  assume c: "128 \<le> (of_char c :: nat)" and l: "255 \<le> length s" "length s \<le> 1023"
  have "(2 :: nat) ^ 2047 \<le> 2 ^ (8 * length s + 7)" by (rule power_increasing) (use l in simp_all)
  moreover have "(2 :: nat) ^ (8 * length s + 8) \<le> 2 ^ 8192" by (rule power_increasing) (use l in simp_all)
  ultimately show ?thesis using bytes_number_bounds [OF c, of s] unfolding rsa_modulus_ok_def by linarith
qed

definition key_modulus :: string where "key_modulus = replicate 256 (CHR 0xFF)"

lemma key_modulus_ok: "rsa_modulus_ok (bytes_number key_modulus)"
proof -
  have "key_modulus = CHR 0xFF # replicate 255 (CHR 0xFF)" by (simp add: key_modulus_def numeral_eq_Suc)
  moreover have "rsa_modulus_ok (bytes_number (CHR 0xFF # replicate 255 (CHR 0xFF)))" by (rule rsa_modulus_bytes) simp_all
  ultimately show ?thesis by simp
qed

section \<open>Texts of ASCII characters\<close>

definition ascii :: "string \<Rightarrow> bool" where "ascii s \<longleftrightarrow> list_all (\<lambda>c. \<not> digit7 c) s"

lemma ascii_simps [simp]: "ascii []" "ascii (c # s) \<longleftrightarrow> \<not> digit7 c \<and> ascii s" "ascii (s @ t) \<longleftrightarrow> ascii s \<and> ascii t"
  by (auto simp: ascii_def)

lemma small_char: "\<not> digit7 c \<Longrightarrow> (of_char c :: nat) < 128"
  by (cases c) (simp add: of_char_Char)

lemma utf8_ascii: "ascii s \<Longrightarrow> utf8_text s"
proof -
  have "ascii s \<Longrightarrow> utf8_valid (map of_char s)" by (induction s) (simp_all add: small_char)
  then show "ascii s \<Longrightarrow> utf8_text s" by (simp add: utf8_text_def)
qed

lemma ascii_hex: "d < 16 \<Longrightarrow> \<not> digit7 (hex_digit d)"
proof -
  have "\<forall>d \<in> set [0..<16]. \<not> digit7 (hex_digit d)" by code_simp
  then show "d < 16 \<Longrightarrow> ?thesis" by simp
qed

lemma ascii_escape: "\<not> digit7 c \<Longrightarrow> ascii (escape_char c)"
proof -
  assume c: "\<not> digit7 c"
  have "(of_char c :: nat) < 256" by (rule nat_of_char_less_256)
  then have "of_char c div 16 < (16 :: nat)" "of_char c mod 16 < (16 :: nat)" by linarith+
  then show ?thesis using c by (simp add: escape_char_def bs_def dq_def ascii_hex)
qed

lemma ascii_print [simp]: "ascii s \<Longrightarrow> ascii (print_string s)"
proof -
  have "ascii s \<Longrightarrow> ascii (concat (map escape_char s))" by (induction s) (simp_all add: ascii_escape)
  then show "ascii s \<Longrightarrow> ?thesis" by (simp add: print_string_def dq_def)
qed

lemma ascii_rawurl [simp]: "ascii (rawurl_encode s)"
proof -
  have "list_all (\<lambda>c. \<not> digit7 c) url_chars" by code_simp
  then show ?thesis using rawurl_chars [of s] by (auto simp: ascii_def list_all_iff)
qed

lemma ascii_itoa [simp]: "ascii (itoa i)"
proof -
  have "number_char c \<Longrightarrow> \<not> digit7 c" for c
    using is_digit_def [of c] by (cases c) (auto simp: number_char_def of_char_Char Let_def split: if_splits)
  then show ?thesis using itoa_chars [of i] by (auto simp: ascii_def list_all_iff)
qed

lemma rawurl_length: "length (rawurl_encode s) \<le> 2 * length s + 4"
proof -
  have "length (rawurl_encode s) \<le> length (b64_loop s)" by (simp add: rawurl_encode_def unpadded_def b64Encode_def Let_def length_filter_le [THEN order_trans])
  then show ?thesis using length_b64_loop [of s] by simp
qed

section \<open>The provider and its token\<close>

definition key_set :: json where
  "key_set = JObj [(''keys'', JArr [JObj [(''kty'', JStr ''RSA''), (''kid'', JStr ''k1''), (''n'', JStr (rawurl_encode key_modulus)),
     (''e'', JStr (rawurl_encode [CHR 0x01, CHR 0x00, CHR 0x01]))]])]"

definition wif_audience :: string where
  "wif_audience = ''//iam.googleapis.com/projects/demo-42/locations/global/workloadIdentityPools/pool-1/providers/idp-1''"

definition wif_pool :: wi_pool where
  "wif_pool = zero_pool\<lparr>wo_name := ''projects/demo-42/locations/global/workloadIdentityPools/pool-1'', wo_state := ''ACTIVE''\<rparr>"

definition wif_oidc :: wi_oidc where
  "wif_oidc = \<lparr>od_issuer = ''https://idp.example'', od_audiences = [], od_jwks = jprint key_set\<rparr>"

definition wif_provider :: wi_provider where
  "wif_provider = zero_provider\<lparr>wp_state := ''ACTIVE'', wp_mapping := [(''google.subject'', ''assertion.sub'')], wp_oidc := Some wif_oidc\<rparr>"

definition wif_lookup :: "string \<Rightarrow> (wi_pool \<times> wi_provider) option" where
  "wif_lookup = LookupWorkloadIdentityProvider [(wo_name wif_pool, Some wif_pool)] [(drop 21 wif_audience, Some wif_provider)]"

definition jwt_head :: json where "jwt_head = JObj [(''alg'', JStr ''RS256''), (''kid'', JStr ''k1'')]"

definition jwt_payload :: json where
  "jwt_payload = JObj [(''iss'', JStr ''https://idp.example''), (''sub'', JStr ''alice/1''), (''exp'', JInt 4102444800), (''aud'', JStr wif_audience)]"

definition external_token :: string where
  "external_token = rawurl_encode (jprint jwt_head) @ ''.'' @ rawurl_encode (jprint jwt_payload) @ ''.'' @ rawurl_encode ''sig''"

text \<open>A stand-in for the signature check: one signature, under the key's exponent.\<close>

definition example_rsa :: rsa_check where
  "example_rsa n e text signature \<longleftrightarrow> e = 65537 \<and> signature = ''sig''"

definition federated_form :: "string gomap" where
  "federated_form = [(''grant_type'', tokenExchangeGrant), (''requested_token_type'', accessTokenType),
     (''subject_token_type'', jwtTokenType), (''subject_token'', external_token), (''audience'', wif_audience), (''scope'', '' read '')]"

definition federated_sts :: sts_api where
  "federated_sts = \<lparr>st_iam = Some sts_service, st_lookup = Some wif_lookup, st_now = 1700000000000000000\<rparr>"

lemma split_encoded: "split (CHR ''.'') (rawurl_encode a @ ''.'' @ rawurl_encode b @ ''.'' @ rawurl_encode c) = [rawurl_encode a, rawurl_encode b, rawurl_encode c]"
  by (simp add: split_append_sep split_no_occ rawurl_no_dot)

lemma strict_printed: "json_ok v \<Longrightarrow> decodeStrictJSON f (jprint v) = (case f v of Inr x \<Rightarrow> Some x | Inl e \<Rightarrow> None)"
  using jparse_jprint(1) by (simp add: decodeStrictJSON_def)

lemma example_head: "Option.bind (decodeJWTPart (rawurl_encode (jprint jwt_head))) (decodeStrictJSON dec_jwt_header) =
    Some \<lparr>jh_alg = ''RS256'', jh_kid = ''k1'', jh_typ = []\<rparr>"
proof -
  have "utf8_text (jprint jwt_head)" "json_ok jwt_head" "dec_jwt_header jwt_head = Inr \<lparr>jh_alg = ''RS256'', jh_kid = ''k1'', jh_typ = []\<rparr>" by code_simp+
  then show ?thesis by (simp add: decodeJWTPart_def rawurl_roundtrip strict_printed)
qed

lemma example_payload: "Option.bind (decodeJWTPart (rawurl_encode (jprint jwt_payload))) decodeClaims =
    Some \<lparr>oc_issuer = ''https://idp.example'', oc_audiences = [wif_audience], oc_subject = ''alice/1'', oc_expires = 4102444800,
      oc_not_before = None, oc_issued = None\<rparr>"
proof -
  have u: "utf8_text (jprint jwt_payload)" "json_ok jwt_payload" "wif_audience \<noteq> []"
    by (rule utf8_ascii) (simp_all add: jwt_payload_def wif_audience_def)
  from jparse_jprint(1) [OF u(2)] have "jparse (jprint jwt_payload) = Raw jwt_payload" .
  with u show ?thesis
    by (simp add: decodeJWTPart_def rawurl_roundtrip decodeClaims_def)
      (simp add: jwt_payload_def map_of_members_def claim_text_def claim_number_def decodeAudience_def optional_claim_def dec_int_def int64_range_def)
qed

lemma example_key: "\<exists>n. publicKeyForJWT (jprint key_set) \<lparr>jh_alg = ''RS256'', jh_kid = ''k1'', jh_typ = []\<rparr> = Some (n, 65537)"
proof -
  have t: "utf8_text (jprint key_set)" "jprint key_set \<noteq> []" "json_ok key_set"
    by (rule utf8_ascii) (simp_all add: key_set_def)
  have "length (jprint key_set) \<le> 10000"
    using print_length [of "rawurl_encode key_modulus"] rawurl_length [of key_modulus] print_length [of "''kty''"] print_length [of "''kid''"]
      print_length [of "''n''"] print_length [of "''e''"] print_length [of "''RSA''"] print_length [of "''k1''"] print_length [of "''keys''"]
      print_length [of "rawurl_encode [CHR 0x01, CHR 0x00, CHR 0x01]"] rawurl_length [of "[CHR 0x01, CHR 0x00, CHR 0x01]"]
    by (simp add: key_set_def key_modulus_def)
  then have len: "\<not> maxJWKSBytes < int (length (jprint key_set))" by (simp add: maxJWKSBytes_def)
  have d: "dec_jwks key_set = Inr [\<lparr>jk_type = ''RSA'', jk_kid = ''k1'', jk_alg = [], jk_use = [], jk_modulus = rawurl_encode key_modulus,
      jk_exponent = rawurl_encode [CHR 0x01, CHR 0x00, CHR 0x01]\<rparr>]"
    by (simp add: dec_jwks_def key_set_def dec_struct_def dec_slice_def dec_jwk_def dec_jwk_member_def set_text_def)
  have e: "bytes_number [CHR 0x01, CHR 0x00, CHR 0x01] = 65537" by (simp add: bytes_number_def)
  show ?thesis using t len key_modulus_ok
    by (simp add: publicKeyForJWT_def strict_printed d rawurl_roundtrip e maxJWKCount_def)
qed

lemma example_validates: "validateOIDCJWT example_rsa external_token wif_audience wif_oidc (st_now federated_sts) = Some ''alice/1''"
proof -
  have i: "length (itoa 4102444800) \<le> 20" by (simp add: itoa_def dec_nat.simps)
  have "length (jprint jwt_head) \<le> 1000" "length (jprint jwt_payload) \<le> 2000"
    using i print_length [of "''alg''"] print_length [of "''RS256''"] print_length [of "''kid''"] print_length [of "''k1''"] print_length [of "''iss''"]
      print_length [of "''sub''"] print_length [of "''exp''"] print_length [of "''aud''"] print_length [of "''https://idp.example''"]
      print_length [of "''alice/1''"] print_length [of wif_audience]
    by (simp_all add: jwt_head_def jwt_payload_def wif_audience_def)
  then have "length external_token \<le> 10000"
    using rawurl_length [of "jprint jwt_head"] rawurl_length [of "jprint jwt_payload"] rawurl_length [of "''sig''"] by (simp add: external_token_def)
  then have t: "external_token \<noteq> []" "\<not> maxSubjectTokenBytes < int (length external_token)"
    by (simp_all add: maxSubjectTokenBytes_def external_token_def)
  have c: "unix (st_now federated_sts) < 4102444800" by (simp add: unix_def federated_sts_def)
  obtain n where n: "publicKeyForJWT (jprint key_set) \<lparr>jh_alg = ''RS256'', jh_kid = ''k1'', jh_typ = []\<rparr> = Some (n, 65537)" using example_key by blast
  have split: "split (CHR ''.'') external_token = [rawurl_encode (jprint jwt_head), rawurl_encode (jprint jwt_payload), rawurl_encode ''sig'']"
    unfolding external_token_def by (rule split_encoded)
  have o: "od_jwks wif_oidc = jprint key_set" "od_issuer wif_oidc = ''https://idp.example''" "od_audiences wif_oidc = []" by (simp_all add: wif_oidc_def)
  show ?thesis unfolding validateOIDCJWT_def split
    using t c n example_head example_payload by (simp add: o audienceAllowed_def late_def maxSubjectBytes_def rawurl_roundtrip example_rsa_def)
qed

theorem federated_exchange_sound_witness:
  "\<exists>token secs h n e p0 p1 signature cl. sts_serve example_rsa federated_sts 0 sts_post (Some federated_form) = StsToken token secs ''read'' \<and>
    publicKeyForJWT (jprint key_set) h = Some (n, e) \<and> example_rsa n e (p0 @ ''.'' @ p1) signature \<and>
    VerifyLocalToken hour_issuer sample_now token ''minisky-gateway'' ''read'' = Inr cl \<and>
    cl_subject cl = ''principal://iam.googleapis.com/projects/demo-42/locations/global/workloadIdentityPools/pool-1/subject/alice%2F1''"
proof -
  let ?p = "wif_principal wif_pool ''alice/1''"
  have f: "form_get federated_form ''subject_token_type'' = jwtTokenType" "form_get federated_form ''subject_token'' = external_token"
    "form_get federated_form ''audience'' = wif_audience" "trim_space (form_get federated_form ''scope'') = ''read''"
    "form_get federated_form ''grant_type'' = tokenExchangeGrant" "form_get federated_form ''requested_token_type'' = accessTokenType"
    by (simp_all add: form_get_def federated_form_def) code_simp
  have p: "parseWorkloadIdentityProviderAudience wif_audience = Some (''projects/demo-42/locations/global/workloadIdentityPools/pool-1'', drop 21 wif_audience)"
    by code_simp
  then have v: "ValidWorkloadIdentityProviderAudience wif_audience" "wif_lookup wif_audience = Some (wif_pool, wif_provider)"
    "validateExecutableProvider wif_pool wif_provider = Some wif_oidc"
    by (simp_all add: ValidWorkloadIdentityProviderAudience_def wif_lookup_def LookupWorkloadIdentityProvider_def ptr_get_def wif_pool_def
      wif_provider_def zero_pool_def zero_provider_def validateExecutableProvider_def)
  have x: "text_fields ''read'' = [''read'']" "tokenSubject sts_iam ?p = None"
    "?p = ''principal://iam.googleapis.com/projects/demo-42/locations/global/workloadIdentityPools/pool-1/subject/alice%2F1''"
    "trim_space ?p = ?p" "normalizedScopes [''read''] = [''read'']" "jwtTokenType \<noteq> accessTokenType"
    by code_simp+
  obtain token cl where i: "IssueLocalToken hour_issuer sample_now ''0123456789abcdef'' sts_iam ?p ''minisky-gateway'' [''read''] maxTokenLifetime = Inr (token, cl)"
    using hour_issues [OF x(2), of maxTokenLifetime "''0123456789abcdef''" "''minisky-gateway''" "[''read'']"] x(3,4) by auto
  have sp: "rq_method sts_post = ''POST''" "rq_path sts_post = ''/v1/token''" "st_iam federated_sts = Some sts_service"
    "st_lookup federated_sts = Some wif_lookup"
    by (simp_all add: sts_post_def federated_sts_def)
  have "has_prefix (header sts_post ''Content-Type'') ''application/x-www-form-urlencoded''" by (simp add: header_def sts_post_def)
  then have "sts_serve example_rsa federated_sts 0 sts_post (Some federated_form) = exchangeOIDCToken example_rsa federated_sts sts_service 0 federated_form"
    using x(6) sp by (simp add: sts_serve_def f)
  also have "\<dots> = issueToken sts_service 0 ?p [''read'']"
    using v x(1) example_validates sp(4) by (simp add: exchangeOIDCToken_def f Let_def)
  finally obtain secs where t: "sts_serve example_rsa federated_sts 0 sts_post (Some federated_form) = StsToken token secs ''read''"
    using i by (auto simp: issueToken_def sts_service_def iam_service_of_def sts_iam_facts)
  have "wp_oidc wif_provider = Some wif_oidc" "od_jwks wif_oidc = jprint key_set" by (simp_all add: wif_provider_def wif_oidc_def)
  then obtain h n e p0 p1 signature where k: "publicKeyForJWT (jprint key_set) h = Some (n, e)" "example_rsa n e (p0 @ ''.'' @ p1) signature"
    using federated_exchange_sound [OF t f(1)] v(2) unfolding f(3) by (auto simp: federated_sts_def)
  have w: "VerifyLocalToken hour_issuer sample_now token ''minisky-gateway'' ''read'' = Inr cl"
    by (rule lc.issued_verifies [OF hour_stamps_read(2) i]) (use sts_iam_facts(3,4) x(5) in \<open>auto simp: hasScope_def\<close>)
  show ?thesis using t k w lc.issued_claims [OF i] x(3,4) by metis
qed

end
