(* ===== verification/Dashboard_Rbac.thy ===== *)
theory Dashboard_Rbac
  imports Local_Credentials
begin

text \<open>
  \<open>pkg/dashboard/rbac.go\<close> and \<open>gke_route.go\<close>: who may send what to the dashboard.  A request's body is its
  text, an oversized body its first bytes past the limit; the path as it was escaped is an argument.
\<close>

record dashboard_request =
  db_method :: string
  db_path :: string
  db_escaped :: string
  db_header :: "string gomap"
  db_query :: "string gomap"
  db_body :: "string option"

definition db_get :: "dashboard_request \<Rightarrow> string \<Rightarrow> string" where
  "db_get r k = (case gm_get (db_header r) k of Some v \<Rightarrow> v | None \<Rightarrow> [])"

definition db_query_get :: "dashboard_request \<Rightarrow> string \<Rightarrow> string" where
  "db_query_get r k = (case gm_get (db_query r) k of Some v \<Rightarrow> v | None \<Rightarrow> [])"

section \<open>Routes of GKE clusters\<close>

record gke_route =
  gr_project :: string
  gr_zone :: string
  gr_cluster :: string
  gr_kubeconfig :: bool

definition isDashboardGKERoute :: "dashboard_request \<Rightarrow> bool" where
  "isDashboardGKERoute r \<longleftrightarrow> has_prefix (db_path r) ''/api/manage/gke/''"

definition parseDashboardGKERoute :: "dashboard_request \<Rightarrow> gke_route option" where
  "parseDashboardGKERoute r =
     (let path0 = db_path r; escaped = to_lower (db_escaped r) in
      if contains escaped ''%2f'' \<or> contains escaped ''%5c'' \<or> contains path0 ''//'' then None
      else let path = trim_suffix path0 ''/''; parts = split (CHR ''/'') (trim_prefix path ''/''); n = length parts in
        if n < 8 \<or> 10 < n then None
        else if join ''/'' (take 4 parts) \<noteq> ''api/manage/gke/projects'' \<or> parts ! 4 = [] \<or> parts ! 5 \<noteq> ''zones'' \<or> parts ! 6 = [] \<or>
                parts ! 7 \<noteq> ''clusters'' then None
        else if 9 \<le> n \<and> parts ! 8 = [] then None
        else if n = 10 \<and> parts ! 9 \<noteq> ''config'' then None
        else Some \<lparr>gr_project = parts ! 4, gr_zone = parts ! 6, gr_cluster = (if 9 \<le> n then parts ! 8 else []), gr_kubeconfig = (n = 10)\<rparr>)"

section \<open>The project of a request\<close>

text \<open>The projects named by consecutive segments \<open>projects/p\<close> of a path.\<close>

fun path_projects :: "string list \<Rightarrow> string list" where
  "path_projects (a # b # ps) = (if a = ''projects'' then trim_suffix b '':'' # path_projects (b # ps) else path_projects (b # ps))"
| "path_projects _ = []"

definition resource_projects :: "string \<Rightarrow> string list" where
  "resource_projects resource = path_projects (split (CHR ''/'') (trim_chars resource ''/''))"

text \<open>The projects a JSON value mentions, at any depth; a Go map keeps the last of equal keys.\<close>

fun json_projects :: "json \<Rightarrow> string list" where
  "json_projects (JObj kvs) = concat (map (\<lambda>(k, v).
     (case v of
        JStr s \<Rightarrow> (if k \<in> {''project'', ''projectId'', ''project_id''} then [s]
                  else if k \<in> {''name'', ''parent'', ''logName''} then resource_projects s else [])
      | _ \<Rightarrow> []) @ json_projects v) kvs)"
| "json_projects (JArr vs) = concat (map json_projects vs)"
| "json_projects _ = []"

definition dashboardProjectsFromJSON :: "json \<Rightarrow> string list" where
  "dashboardProjectsFromJSON v = json_projects (jcanon v)"

definition dashboardWebSocketProject :: "dashboard_request \<Rightarrow> string" where
  "dashboardWebSocketProject r =
     (if db_path r \<noteq> ''/api/manage/compute/terminal'' then []
      else case List.find (\<lambda>p. has_prefix (trim_space p) ''minisky-project.'') (split (CHR '','') (db_get r ''Sec-Websocket-Protocol'')) of
        Some p \<Rightarrow> trim_prefix (trim_space p) ''minisky-project.'' | None \<Rightarrow> [])"

definition dashboardWebSocketToken :: "dashboard_request \<Rightarrow> string" where
  "dashboardWebSocketToken r =
     (if db_path r \<noteq> ''/api/manage/compute/terminal'' then []
      else case split (CHR '','') (db_get r ''Sec-Websocket-Protocol'') of
        p # q # ps \<Rightarrow> if trim_space p \<noteq> ''minisky-auth'' then [] else trim_space q
      | _ \<Rightarrow> [])"

text \<open>Adding a project to the set of targets: \<open>None\<close> when it is no project ID.\<close>

definition add_project :: "string \<Rightarrow> string list \<Rightarrow> string list option" where
  "add_project p targets =
     (let t = trim_space p in
      if t = [] then Some targets else if \<not> projectIDPattern t then None else Some (List.insert t targets))"

fun add_projects :: "string list \<Rightarrow> string list \<Rightarrow> string list option" where
  "add_projects [] targets = Some targets"
| "add_projects (p # ps) targets = Option.bind (add_project p targets) (add_projects ps)"

definition body_limit :: int where "body_limit = 1048576"

text \<open>\<open>Inl\<close> when the body is too large; a body that is not JSON names no project.\<close>

definition body_projects :: "dashboard_request \<Rightarrow> string list option" where
  "body_projects r =
     (case db_body r of
        None \<Rightarrow> Some []
      | Some text \<Rightarrow>
          if \<not> contains (to_lower (db_get r ''Content-Type'')) ''application/json'' then Some []
          else if body_limit < int (length text) then None
          else if trim_space text = [] then Some []
          else (case jparse text of Raw v \<Rightarrow> Some (dashboardProjectsFromJSON v) | _ \<Rightarrow> Some []))"

definition dashboardProject :: "dashboard_request \<Rightarrow> string option" where
  "dashboardProject r =
     (case add_projects (resource_projects (db_path r) @ [db_get r ''X-Minisky-Project'', dashboardWebSocketProject r]) [] of
        None \<Rightarrow> None
      | Some targets \<Rightarrow>
          (case body_projects r of
             None \<Rightarrow> None
           | Some ps \<Rightarrow>
               (case add_projects ps targets of
                  None \<Rightarrow> None
                | Some targets' \<Rightarrow>
                    if 1 < length targets' then None
                    else let q0 = trim_space (db_query_get r ''project'');
                             q = (if q0 = [] then trim_space (db_query_get r ''projectId'') else q0);
                             project = (case targets' of p # _ \<Rightarrow> p | [] \<Rightarrow> []) in
                      if q \<noteq> [] \<and> (project = [] \<or> q \<noteq> project) then None
                      else if project = [] then None else Some project)))"

section \<open>Creating projects\<close>

text \<open>The pattern \<open>^(folders|organizations)/[^/]+$\<close>.\<close>

definition dashboardProjectParentPattern :: "string \<Rightarrow> bool" where
  "dashboardProjectParentPattern s \<longleftrightarrow>
     (case split (CHR ''/'') s of [a, b] \<Rightarrow> a \<in> {''folders'', ''organizations''} \<and> b \<noteq> [] | _ \<Rightarrow> False)"

record project_input =
  pi_id :: string
  pi_parent :: string

definition dec_project_input_member :: "string \<Rightarrow> json \<Rightarrow> project_input \<Rightarrow> json_error + project_input" where
  "dec_project_input_member k v i =
     (case match_field [''projectId'', ''parent''] k of
        None \<Rightarrow> Inr i
      | Some f \<Rightarrow>
          if f = ''projectId'' then set_text (\<lambda>s. i\<lparr>pi_id := s\<rparr>) (dec_string v (pi_id i))
          else set_text (\<lambda>s. i\<lparr>pi_parent := s\<rparr>) (dec_string v (pi_parent i)))"

definition dec_project_input :: "json \<Rightarrow> json_error + project_input" where
  "dec_project_input = dec_struct dec_project_input_member \<lparr>pi_id = [], pi_parent = []\<rparr>"

text \<open>The parent a project is created under, and the body with that parent written into it.\<close>

definition dashboardProjectCreateParent :: "dashboard_request \<Rightarrow> (string \<times> string) option" where
  "dashboardProjectCreateParent r =
     (case db_body r of
        None \<Rightarrow> None
      | Some text \<Rightarrow>
          if body_limit < int (length text) then None
          else (case jparse text of
              Raw (JObj kvs) \<Rightarrow>
                (case dec_project_input (JObj kvs) of
                   Inl e \<Rightarrow> None
                 | Inr i \<Rightarrow>
                     if \<not> projectIDPattern (trim_space (pi_id i)) then None
                     else let p = trim_space (pi_parent i); parent = (if p = [] then ''organizations/100000000000'' else p) in
                       if \<not> dashboardProjectParentPattern parent then None
                       else Some (parent, jprint (JObj (sort_members (gm_set ''parent'' (JStr parent) (map_of_members kvs))))))
            | _ \<Rightarrow> None))"

section \<open>The gate\<close>

text \<open>Either an answer or the request as it is passed on.\<close>

datatype gate = GateError int string | Passed dashboard_request

definition dashboard_bearer :: "dashboard_request \<Rightarrow> string option" where
  "dashboard_bearer r =
     (case cut (CHR '' '') (trim_space (db_get r ''Authorization'')) of (scheme0, token0, ok0) \<Rightarrow>
        let ws = dashboardWebSocketToken r;
            scheme = (if ws \<noteq> [] then ''Bearer'' else scheme0); token = (if ws \<noteq> [] then ws else token0); ok = (ws \<noteq> [] \<or> ok0)
        in if \<not> ok \<or> \<not> equal_fold scheme ''Bearer'' \<or> trim_space token = [] then None else Some (trim_space token))"

text \<open>The resource asked about, with the request as the creation of a project rewrites it.\<close>

definition dashboard_resource :: "dashboard_request \<Rightarrow> (string \<times> dashboard_request) option" where
  "dashboard_resource r =
     (if db_method r = ''POST'' \<and> db_path r = ''/api/projects'' then
        map_option (\<lambda>(parent, body). (parent, r\<lparr>db_body := Some body\<rparr>)) (dashboardProjectCreateParent r)
      else map_option (\<lambda>p. (''projects/'' @ p, r)) (dashboardProject r))"

definition dashboard_permission :: "dashboard_request \<Rightarrow> bool \<Rightarrow> string" where
  "dashboard_permission r kubeconfig =
     (if db_path r = ''/api/manage/compute/terminal'' then ''minisky.dashboard.terminal''
      else if kubeconfig then ''minisky.gke.kubeconfig.download''
      else if db_method r \<in> {''GET'', ''HEAD''} then ''minisky.dashboard.view''
      else if db_method r = ''POST'' \<and> db_path r = ''/api/projects'' then ''resourcemanager.projects.create''
      else ''minisky.dashboard.manage'')"

definition withDashboardRBAC :: "iam_service option \<Rightarrow> string \<Rightarrow> dashboard_request \<Rightarrow> gate" where
  "withDashboardRBAC authorizer audience r0 =
     (let gke = isDashboardGKERoute r0; route = parseDashboardGKERoute r0 in
      if gke \<and> route = None then GateError 400 ''INVALID_ARGUMENT''
      else let kubeconfig = (gke \<and> db_method r0 = ''GET'' \<and> (case route of Some x \<Rightarrow> gr_kubeconfig x | None \<Rightarrow> False)) in
        case (case authorizer of None \<Rightarrow> None | Some svc \<Rightarrow> if sv_enforcing svc then Some svc else None) of
          None \<Rightarrow> (if kubeconfig then GateError 403 ''PERMISSION_DENIED'' else Passed r0)
        | Some svc \<Rightarrow>
            let r = r0\<lparr>db_header := gm_del ''X-Minisky-Principal'' (db_header r0)\<rparr> in
            (case dashboard_bearer r of
               None \<Rightarrow> GateError 401 ''UNAUTHENTICATED''
             | Some token \<Rightarrow>
                 (case sv_verify svc token audience cloudPlatform of
                    Inl e \<Rightarrow> GateError 401 ''UNAUTHENTICATED''
                  | Inr c \<Rightarrow>
                      let r1 = r\<lparr>db_header := gm_set ''X-Minisky-Principal'' (cl_subject c) (db_header r)\<rparr> in
                      (case dashboard_resource r1 of
                         None \<Rightarrow> GateError 400 ''INVALID_ARGUMENT''
                       | Some (resource, r2) \<Rightarrow>
                           if \<not> sv_authorize svc resource (cl_subject c) (dashboard_permission r2 kubeconfig)
                           then GateError 403 ''PERMISSION_DENIED'' else Passed r2))))"

end
