(* ===== verification/Json_Into.thy ===== *)
theory Json_Into
  imports Operation_Scope Http
begin

text \<open>
  Decoding that keeps going: \<open>json.Unmarshal\<close> into a Go value notes the first member of a wrong type,
  leaves its field as it was and decodes the rest.  A decoder takes the value there is and answers the new
  value with whether all fitted, so it serves the handlers that check the error and those that drop it.
  The second part is the merge that the \<open>PATCH\<close> handlers of the metadata shims share.
\<close>

section \<open>Decoders\<close>

type_synonym 'a into = "json \<Rightarrow> 'a \<Rightarrow> 'a \<times> bool"

definition into_string :: "string into" where
  "into_string v s = (case v of JStr t \<Rightarrow> (t, True) | JNull \<Rightarrow> (s, True) | _ \<Rightarrow> (s, False))"

definition into_bool :: "bool into" where
  "into_bool v b = (case v of JBool c \<Rightarrow> (c, True) | JNull \<Rightarrow> (b, True) | _ \<Rightarrow> (b, False))"

definition into_int :: "int into" where
  "into_int v i = (case dec_int v i of Inr j \<Rightarrow> (j, True) | Inl e \<Rightarrow> (i, False))"

text \<open>A value of type \<open>any\<close>: maps in normal form, numbers as \<open>float64\<close>.\<close>

definition any_json :: "json \<Rightarrow> json" where
  "any_json v = jcanon (float_json v)"

definition into_any :: "json into" where
  "into_any v cur = (any_json v, True)"

text \<open>Nil and the empty slice, or map, are one value; a map is listed in the order of its keys.\<close>

definition into_slice :: "'a into \<Rightarrow> 'a \<Rightarrow> 'a list into" where
  "into_slice f zero v xs =
     (case v of
        JArr vs \<Rightarrow> (map (\<lambda>w. fst (f w zero)) vs, list_all (\<lambda>w. snd (f w zero)) vs)
      | JNull \<Rightarrow> ([], True)
      | _ \<Rightarrow> (xs, False))"

definition into_map :: "'a into \<Rightarrow> 'a \<Rightarrow> 'a gomap into" where
  "into_map f zero v m =
     (case v of
        JObj kvs \<Rightarrow> (sort_members (foldl (\<lambda>m (k, w). gm_set k (fst (f w zero)) m) m kvs), list_all (\<lambda>(k, w). snd (f w zero)) kvs)
      | JNull \<Rightarrow> ([], True)
      | _ \<Rightarrow> (m, False))"

definition into_ptr :: "'a into \<Rightarrow> 'a \<Rightarrow> 'a option into" where
  "into_ptr f zero v p =
     (if v = JNull then (None, True)
      else case f v (case p of Some x \<Rightarrow> x | None \<Rightarrow> zero) of (x, ok) \<Rightarrow> (Some x, ok))"

text \<open>A struct: its members in the order they are written, each into the field of its name.\<close>

fun into_members :: "(string \<Rightarrow> 'a into) \<Rightarrow> (string \<times> json) list \<Rightarrow> 'a \<Rightarrow> 'a \<times> bool" where
  "into_members f [] a = (a, True)"
| "into_members f ((k, v) # kvs) a =
     (case f k v a of (b, ok) \<Rightarrow> case into_members f kvs b of (c, ok') \<Rightarrow> (c, ok \<and> ok'))"

declare into_members.simps(2) [simp del]

definition into_struct :: "(string \<Rightarrow> 'a into) \<Rightarrow> 'a into" where
  "into_struct f v a = (case v of JObj kvs \<Rightarrow> into_members f kvs a | JNull \<Rightarrow> (a, True) | _ \<Rightarrow> (a, False))"

text \<open>A field of a struct, by its getter and setter; a member no field has is an error to a strict decoder only.\<close>

definition at_field :: "('a \<Rightarrow> 'b) \<Rightarrow> ('b \<Rightarrow> 'a \<Rightarrow> 'a) \<Rightarrow> 'b into \<Rightarrow> 'a into" where
  "at_field get put f v a = (case f v (get a) of (x, ok) \<Rightarrow> (put x a, ok))"

definition in_fields :: "bool \<Rightarrow> (string \<times> 'a into) list \<Rightarrow> string \<Rightarrow> 'a into" where
  "in_fields strict table k v a =
     (case match_field (map fst table) k of
        None \<Rightarrow> (a, \<not> strict)
      | Some n \<Rightarrow> (case map_of table n of Some f \<Rightarrow> f v a | None \<Rightarrow> (a, True)))"

text \<open>Decoding a request's body, or a text that \<open>json.Marshal\<close> has written.\<close>

datatype body_error = BodyEOF | BodyMalformed | BodyMismatch

definition body_into :: "'a into \<Rightarrow> 'a \<Rightarrow> raw_message \<Rightarrow> body_error + 'a" where
  "body_into f zero b =
     (case b of
        RawNil \<Rightarrow> Inl BodyEOF
      | RawBad \<Rightarrow> Inl BodyMalformed
      | Raw v \<Rightarrow> (case f v zero of (x, ok) \<Rightarrow> if ok then Inr x else Inl BodyMismatch))"

definition clone_via :: "('a \<Rightarrow> json) \<Rightarrow> 'a into \<Rightarrow> 'a \<Rightarrow> 'a \<Rightarrow> 'a" where
  "clone_via enc f zero x = fst (f (enc x) zero)"

section \<open>Writing\<close>

definition omit_list :: "string \<Rightarrow> ('a \<Rightarrow> json) \<Rightarrow> 'a list \<Rightarrow> (string \<times> json) list" where
  "omit_list k enc xs = (if xs = [] then [] else [(k, JArr (map enc xs))])"

definition omit_map :: "string \<Rightarrow> ('a \<Rightarrow> json) \<Rightarrow> 'a gomap \<Rightarrow> (string \<times> json) list" where
  "omit_map k enc m = (if m = [] then [] else [(k, JObj (map (\<lambda>(k, v). (k, enc v)) (sort_members m)))])"

definition omit_ptr :: "string \<Rightarrow> ('a \<Rightarrow> json) \<Rightarrow> 'a option \<Rightarrow> (string \<times> json) list" where
  "omit_ptr k enc p = (case p of None \<Rightarrow> [] | Some x \<Rightarrow> [(k, enc x)])"

definition omit_int :: "string \<Rightarrow> int \<Rightarrow> (string \<times> json) list" where
  "omit_int k i = (if i = 0 then [] else [(k, JInt i)])"

definition omit_true :: "string \<Rightarrow> bool \<Rightarrow> (string \<times> json) list" where
  "omit_true k b = (if b then [(k, JBool True)] else [])"

definition omit_any :: "string \<Rightarrow> json \<Rightarrow> (string \<times> json) list" where
  "omit_any k v = (if v = JNull then [] else [(k, v)])"

section \<open>Merging a patch\<close>

text \<open>The body of a \<open>PATCH\<close> decoded into a map; \<open>null\<close> is the nil map.\<close>

definition patch_body :: "raw_message \<Rightarrow> json gomap option" where
  "patch_body b =
     (case b of
        Raw v \<Rightarrow> (case any_json v of JObj kvs \<Rightarrow> Some kvs | JNull \<Rightarrow> Some [] | _ \<Rightarrow> None)
      | _ \<Rightarrow> None)"

definition members_of :: "json \<Rightarrow> json gomap" where
  "members_of v = (case v of JObj kvs \<Rightarrow> kvs | _ \<Rightarrow> [])"

definition set_all :: "json gomap \<Rightarrow> json gomap \<Rightarrow> json gomap" where
  "set_all new m = foldl (\<lambda>m (k, v). gm_set k v m) m new"

definition mask_merge :: "string \<Rightarrow> json gomap \<Rightarrow> json gomap \<Rightarrow> json gomap" where
  "mask_merge fm patch m =
     (if fm = [] then set_all patch m
      else foldl (\<lambda>m f. case gm_get patch (trim_space f) of Some v \<Rightarrow> gm_set (trim_space f) v m | None \<Rightarrow> m) m (split (CHR '','') fm))"

text \<open>
  What a \<open>PATCH\<close> makes of a resource: its members, those of the patch over them, the pinned ones over
  both; written with the keys sorted and decoded with the error dropped.
\<close>

definition patched :: "('a \<Rightarrow> json) \<Rightarrow> 'a into \<Rightarrow> 'a \<Rightarrow> string \<Rightarrow> json gomap \<Rightarrow> json gomap \<Rightarrow> 'a \<Rightarrow> 'a" where
  "patched enc f zero fm patch pinned x =
     fst (f (JObj (sort_members (set_all pinned (mask_merge fm patch (members_of (any_json (enc x))))))) zero)"

end
