(* ===== verification/Json_Into_Laws.thy ===== *)
theory Json_Into_Laws
  imports Json_Into
begin

text \<open>
  Round trips of the continuing decoders: a struct written field by field, optional ones left out when they
  are zero, is read back; a value of type \<open>any\<close> is in normal form once it was read.
\<close>

section \<open>Values of type any\<close>

lemma bit_length_bounds: "0 < n \<Longrightarrow> 2 ^ (bit_length n - 1) \<le> n \<and> n < 2 ^ bit_length n \<and> 0 < bit_length n"
proof (induction n rule: bit_length.induct)
  case (1 n)
  have b: "bit_length n = Suc (bit_length (n div 2))" using "1.prems" by (subst bit_length.simps) simp
  show ?case
  proof (cases "n div 2 = 0")
    case True
    then have "n = 1" using "1.prems" by simp
    moreover have "bit_length 0 = 0" by (subst bit_length.simps) simp
    ultimately show ?thesis using b by simp
  next
    case False
    then have ih: "2 ^ (bit_length (n div 2) - 1) \<le> n div 2 \<and> n div 2 < 2 ^ bit_length (n div 2) \<and> 0 < bit_length (n div 2)"
      using "1.IH" "1.prems" by simp
    then obtain k where k: "bit_length (n div 2) = Suc k" by (cases "bit_length (n div 2)") auto
    with ih have "2 ^ k \<le> n div 2" "n div 2 < 2 ^ Suc k" by simp_all
    then have "2 ^ Suc k \<le> n" "n < 2 ^ Suc (Suc k)" by simp_all
    with b k show ?thesis by simp
  qed
qed

lemma bit_length_unique: "2 ^ k \<le> n \<Longrightarrow> n < 2 ^ Suc k \<Longrightarrow> bit_length n = Suc k"
proof -
  assume n: "(2::nat) ^ k \<le> n" "n < 2 ^ Suc k"
  then have "0 < n" by (metis less_le_trans zero_less_numeral zero_less_power)
  from bit_length_bounds [OF this] obtain j where j: "bit_length n = Suc j" "2 ^ j \<le> n" "n < 2 ^ Suc j"
    by (cases "bit_length n") auto
  from n j have "(2::nat) ^ k < 2 ^ Suc j" "(2::nat) ^ j < 2 ^ Suc k" by linarith+
  then have "k < Suc j" "j < Suc k" by (metis one_less_numeral_iff power_less_imp_less_exp semiring_norm(76))+
  with j(1) show ?thesis by simp
qed

lemma round53_multiple:
  assumes "2 ^ 52 \<le> q" and "q \<le> 2 ^ 53"
  shows "round53 (q * 2 ^ e) = q * 2 ^ e"
proof (cases "q = 2 ^ 53")
  case True
  have "bit_length (q * 2 ^ e) = Suc (e + 53)"
    by (rule bit_length_unique) (simp_all add: True power_add)
  moreover have "q * 2 ^ e = 2 ^ 52 * 2 ^ Suc e" by (simp add: True)
  ultimately show ?thesis by (simp add: round53_def Let_def)
next
  case False
  with assms(2) have lt: "q < 2 ^ 53" by simp
  have "2 ^ (e + 52) \<le> q * 2 ^ e" using assms(1) by (simp add: power_add)
  moreover have "q * 2 ^ e < 2 ^ Suc (e + 52)" using lt by (simp add: power_add)
  ultimately have "bit_length (q * 2 ^ e) = Suc (e + 52)" by (rule bit_length_unique)
  then show ?thesis by (simp add: round53_def Let_def)
qed

lemma round53_idem [simp]: "round53 (round53 n) = round53 n"
proof (cases "bit_length n - 53 = 0")
  case False
  define e where "e = bit_length n - 53"
  define u :: nat where "u = 2 ^ e"
  define q where "q = n div u"
  have "0 < n" using False by (intro gr0I) (simp add: bit_length.simps [of 0])
  moreover have "bit_length n - 1 = 52 + e" "bit_length n = 53 + e" using False by (simp_all add: e_def)
  ultimately have "2 ^ (52 + e) \<le> n" "n < 2 ^ (53 + e)" using bit_length_bounds [of n] by metis+
  then have "2 ^ 52 * u \<le> n" "n < 2 ^ 53 * u" unfolding u_def by (simp_all only: power_add)
  moreover have "0 < u" by (simp add: u_def)
  ultimately have q: "2 ^ 52 \<le> q" "q < 2 ^ 53"
    unfolding q_def using less_eq_div_iff_mult_less_eq div_less_iff_less_mult by blast+
  have "round53 n = q * 2 ^ e \<or> round53 n = (q + 1) * 2 ^ e"
    using False unfolding round53_def Let_def e_def [symmetric] u_def [symmetric] q_def [symmetric] by simp
  moreover have "2 ^ 52 \<le> q + 1" "q + 1 \<le> 2 ^ 53" "q \<le> 2 ^ 53" using q by simp_all
  ultimately show ?thesis
  proof (elim disjE)
    assume "round53 n = q * 2 ^ e"
    then show ?thesis using round53_multiple [OF q(1) \<open>q \<le> 2 ^ 53\<close>, of e] by simp
  next
    assume "round53 n = (q + 1) * 2 ^ e"
    then show ?thesis using round53_multiple [OF \<open>2 ^ 52 \<le> q + 1\<close> \<open>q + 1 \<le> 2 ^ 53\<close>, of e] by simp
  qed
qed (simp add: round53_def Let_def)

lemma float_json_idem [simp]: "float_json (float_json v) = float_json v"
proof (induction v rule: float_json.induct)
  case (1 i)
  have "round53 0 = 0" by (simp add: round53_def bit_length.simps [of 0])
  then show ?case using round53_idem [of "nat i"] round53_idem [of "nat (- i)"] by (cases "i < 0") simp_all
qed (auto cong: map_cong)

lemma sort_members_map: "sort_members (map (\<lambda>(k, v). (k, h v)) m) = map (\<lambda>(k, v). (k, h v)) (sort_members m)"
proof -
  have "insort_key fst (k, h v) (map (\<lambda>(k, v). (k, h v)) xs) = map (\<lambda>(k, v). (k, h v)) (insort_key fst (k, v) xs)" for k v xs
    by (induction xs) auto
  note ins = this
  show ?thesis unfolding sort_members_def
  proof (induction m)
    case (Cons kv m)
    obtain k v where "kv = (k, v)" by (cases kv)
    with Cons ins [of k v "sort_key fst m"] show ?case by simp
  qed simp
qed

lemma gm_set_map: "gm_set k (h v) (map (\<lambda>(k, v). (k, h v)) m) = map (\<lambda>(k, v). (k, h v)) (gm_set k v m)"
  by (induction m) auto

lemma map_of_members_map: "map_of_members (map (\<lambda>(k, v). (k, h v)) kvs) = map (\<lambda>(k, v). (k, h v)) (map_of_members kvs)"
proof -
  have "foldl (\<lambda>m (k, v). gm_set k v m) (map (\<lambda>(k, v). (k, h v)) m) (map (\<lambda>(k, v). (k, h v)) kvs) =
      map (\<lambda>(k, v). (k, h v)) (foldl (\<lambda>m (k, v). gm_set k v m) m kvs)" for m
    by (induction kvs arbitrary: m) (auto simp: gm_set_map)
  from this [of "[]"] show ?thesis by (simp add: map_of_members_def)
qed

lemma float_jcanon: "float_json (jcanon v) = jcanon (float_json v)"
proof (induction v rule: jcanon.induct)
  case (2 kvs)
  have "map (\<lambda>(k, v). (k, jcanon v)) (map (\<lambda>(k, v). (k, float_json v)) kvs) = map (\<lambda>(k, v). (k, float_json v)) (map (\<lambda>(k, v). (k, jcanon v)) kvs)"
    using 2 by (auto simp: list.map_comp intro!: map_cong)
  then show ?case by (simp add: map_of_members_map sort_members_map del: list.map_comp map_map)
qed (auto simp: list.map_comp comp_def cong: map_cong)

lemma any_json_idem [simp]: "any_json (any_json v) = any_json v"
  by (simp add: any_json_def float_jcanon)

lemma any_json_null [simp]: "any_json v = JNull \<longleftrightarrow> v = JNull"
  by (cases v) (simp_all add: any_json_def)

lemma into_any_idem [simp]: "into_any (any_json v) cur = (any_json v, True)"
  by (simp add: into_any_def)

section \<open>Structs\<close>

lemma into_members_append:
  "into_members f (xs @ ys) a = (case into_members f xs a of (b, ok) \<Rightarrow> case into_members f ys b of (c, ok') \<Rightarrow> (c, ok \<and> ok'))"
  by (induction f xs a rule: into_members.induct) (auto simp: into_members.simps split: prod.splits)

lemma in_fields_exact: "map_of table k = Some h \<Longrightarrow> in_fields strict table k = h"
proof (intro ext)
  fix v a assume m: "map_of table k = Some h"
  then have "k \<in> set (map fst table)" by (auto dest!: map_of_SomeD intro: rev_image_eqI)
  then have "match_field (map fst table) k = Some k" by (rule match_field_exact)
  with m show "in_fields strict table k v a = h v a" by (simp add: in_fields_def)
qed

named_theorems into_simps \<open>a struct that was written is read back\<close>

lemma into_string_simps [simp]: "into_string (JStr s) t = (s, True)" "into_string JNull t = (t, True)"
  by (simp_all add: into_string_def)

lemma into_bool_simps [simp]: "into_bool (JBool b) c = (b, True)"
  by (simp add: into_bool_def)

lemma into_int_simps [simp]: "int64_range i \<Longrightarrow> into_int (JInt i) j = (i, True)"
  by (simp add: into_int_def)

lemma into_slice_map: "(\<And>x. x \<in> set xs \<Longrightarrow> h (enc x) z = (x, True)) \<Longrightarrow> into_slice h z (JArr (map enc xs)) ys = (xs, True)"
  by (simp add: into_slice_def list_all_iff comp_def map_idI)

lemma into_slice_strings [simp]: "into_slice into_string z (JArr (map JStr xs)) ys = (xs, True)"
  by (rule into_slice_map) simp

text \<open>A map in the order of its keys.\<close>

definition map_ok :: "'a gomap \<Rightarrow> bool" where
  "map_ok m \<longleftrightarrow> gm_wf m \<and> sort_members m = m"

lemma map_ok_Nil [simp]: "map_ok []"
  by (simp add: map_ok_def) (simp add: sort_members_def)

lemma map_ok_sort [simp]: "gm_wf m \<Longrightarrow> map_ok (sort_members m)"
  by (simp add: map_ok_def)

lemma map_okD: "map_ok m \<Longrightarrow> gm_wf m \<and> sort_members m = m"
  by (simp add: map_ok_def)

lemma foldl_gm_set_new:
  "distinct (map fst (m @ kvs)) \<Longrightarrow> foldl (\<lambda>m (k, w). gm_set k (h w) m) m (map (\<lambda>(k, v). (k, e v)) kvs) = m @ map (\<lambda>(k, v). (k, h (e v))) kvs"
proof (induction kvs arbitrary: m)
  case (Cons kv kvs)
  obtain k v where kv: "kv = (k, v)" by (cases kv)
  have "k \<notin> fst ` set m" using Cons.prems by (auto simp: kv)
  then have "gm_set k (h (e v)) m = m @ [(k, h (e v))]" by (rule update_new)
  then show ?case using Cons.prems Cons.IH [of "m @ [(k, h (e v))]"] by (simp add: kv)
qed simp

lemma into_map_map:
  assumes "\<And>k x. (k, x) \<in> set m \<Longrightarrow> h (enc x) z = (x, True)" and "map_ok m"
  shows "into_map h z (JObj (map (\<lambda>(k, v). (k, enc v)) m)) [] = (m, True)"
proof -
  have "foldl (\<lambda>m (k, w). gm_set k (fst (h w z)) m) [] (map (\<lambda>(k, v). (k, enc v)) m) = map (\<lambda>(k, v). (k, fst (h (enc v) z))) m"
    using foldl_gm_set_new [of "[]" m "\<lambda>w. fst (h w z)" enc] assms(2) by (simp add: map_ok_def gm_wf_def)
  also have "\<dots> = m" using assms(1) by (intro map_idI) fastforce
  finally have f: "foldl (\<lambda>m (k, w). gm_set k (fst (h w z)) m) [] (map (\<lambda>(k, v). (k, enc v)) m) = m" .
  have "list_all (\<lambda>(k, w). snd (h w z)) (map (\<lambda>(k, v). (k, enc v)) m)"
    unfolding list_all_iff set_map
  proof
    fix y assume "y \<in> (\<lambda>(k, v). (k, enc v)) ` set m"
    then obtain k v where "(k, v) \<in> set m" "y = (k, enc v)" by auto
    with assms(1) show "case y of (k, w) \<Rightarrow> snd (h w z)" by simp
  qed
  moreover have "sort_members m = m" using assms(2) by (simp add: map_ok_def)
  ultimately show ?thesis unfolding into_map_def json.case f by simp
qed

lemma into_map_strings [simp]: "map_ok m \<Longrightarrow> into_map into_string z (JObj (map (\<lambda>(k, v). (k, JStr v)) m)) [] = (m, True)"
  by (rule into_map_map) simp_all

lemma into_member [into_simps]:
  assumes "map_of tab k = Some (at_field get put h)" and "h v (get a) = (x, True)"
  shows "into_members (in_fields strict tab) ((k, v) # kvs) a = into_members (in_fields strict tab) kvs (put x a)"
proof -
  have "in_fields strict tab k v a = (put x a, True)" using assms in_fields_exact [of tab k _ strict] by (simp add: at_field_def)
  then show ?thesis by (simp add: into_members.simps split: prod.splits)
qed

lemma into_omit_str [into_simps]:
  "map_of tab k = Some (at_field get put into_string) \<Longrightarrow> put [] a = a \<Longrightarrow>
   into_members (in_fields strict tab) (omit_str k s) a = (put s a, True)"
  by (drule in_fields_exact [where strict = strict]) (auto simp: into_members.simps at_field_def omit_str_def)

lemma into_omit_list [into_simps]:
  "map_of tab k = Some (at_field get put (into_slice h z)) \<Longrightarrow> put [] a = a \<Longrightarrow> (\<And>x. x \<in> set xs \<Longrightarrow> h (enc x) z = (x, True)) \<Longrightarrow>
   into_members (in_fields strict tab) (omit_list k enc xs) a = (put xs a, True)"
  by (drule in_fields_exact [where strict = strict]) (auto simp: into_members.simps at_field_def omit_list_def into_slice_map)

lemma into_omit_map [into_simps]:
  "map_of tab k = Some (at_field get put (into_map h z)) \<Longrightarrow> put [] a = a \<Longrightarrow> get a = [] \<Longrightarrow> map_ok m \<Longrightarrow>
   (\<And>k x. (k, x) \<in> set m \<Longrightarrow> h (enc x) z = (x, True)) \<Longrightarrow>
   into_members (in_fields strict tab) (omit_map k enc m) a = (put m a, True)"
  by (drule in_fields_exact [where strict = strict]) (auto simp: into_members.simps at_field_def omit_map_def into_map_map map_okD)

lemma into_omit_ptr [into_simps]:
  "map_of tab k = Some (at_field get put (into_ptr h z)) \<Longrightarrow> put None a = a \<Longrightarrow> get a = None \<Longrightarrow>
   (\<And>x. p = Some x \<Longrightarrow> h (enc x) z = (x, True) \<and> enc x \<noteq> JNull) \<Longrightarrow>
   into_members (in_fields strict tab) (omit_ptr k enc p) a = (put p a, True)"
  by (drule in_fields_exact [where strict = strict]) (auto simp: into_members.simps at_field_def omit_ptr_def into_ptr_def split: option.split)

lemma into_omit_int [into_simps]:
  "map_of tab k = Some (at_field get put into_int) \<Longrightarrow> put 0 a = a \<Longrightarrow> int64_range i \<Longrightarrow>
   into_members (in_fields strict tab) (omit_int k i) a = (put i a, True)"
  by (drule in_fields_exact [where strict = strict]) (auto simp: into_members.simps at_field_def omit_int_def)

lemma into_omit_true [into_simps]:
  "map_of tab k = Some (at_field get put into_bool) \<Longrightarrow> put False a = a \<Longrightarrow>
   into_members (in_fields strict tab) (omit_true k b) a = (put b a, True)"
  by (drule in_fields_exact [where strict = strict]) (auto simp: into_members.simps at_field_def omit_true_def)

lemma into_omit_any [into_simps]:
  "map_of tab k = Some (at_field get put into_any) \<Longrightarrow> put JNull a = a \<Longrightarrow> any_json v = v \<Longrightarrow>
   into_members (in_fields strict tab) (omit_any k v) a = (put v a, True)"
  by (drule in_fields_exact [where strict = strict]) (auto simp: into_members.simps at_field_def omit_any_def into_any_def)

text \<open>What every field's decoder keeps, the decoder of the struct keeps.\<close>

lemma into_members_inv: "(\<And>k v a. P a \<Longrightarrow> P (fst (f k v a))) \<Longrightarrow> P a \<Longrightarrow> P (fst (into_members f kvs a))"
proof (induction kvs arbitrary: a)
  case (Cons kv kvs)
  obtain k v where kv: "kv = (k, v)" by (cases kv)
  have "P (fst (into_members f kvs (fst (f k v a))))" by (rule Cons.IH) (use Cons.prems in auto)
  then show ?case by (simp add: kv into_members.simps split: prod.splits) (metis fst_conv)
qed simp

lemma into_struct_inv:
  assumes "list_all (\<lambda>(n, h). \<forall>v a. P a \<longrightarrow> P (fst (h v a))) table" and "P a"
  shows "P (fst (into_struct (in_fields strict table) v a))"
proof -
  have "P (fst (in_fields strict table k w b))" if "P b" for k w b
    using assms(1) that by (auto simp: in_fields_def list_all_iff dest!: map_of_SomeD split: option.splits)
  then have "P (fst (into_members (in_fields strict table) kvs a))" for kvs using into_members_inv [of P] assms(2) by blast
  then show ?thesis using assms(2) by (simp add: into_struct_def split: json.splits)
qed

lemma fst_at_field [simp]: "fst (at_field get put f v a) = put (fst (f v (get a))) a"
  by (simp add: at_field_def split: prod.splits)

lemma fst_into_any [simp]: "fst (into_any v a) = any_json v"
  by (simp add: into_any_def)

lemma body_into_Inr: "body_into f z b = Inr x \<Longrightarrow> \<exists>v. b = Raw v \<and> f v z = (x, True)"
  by (auto simp: body_into_def split: raw_message.splits prod.splits if_splits)

section \<open>Which member wins\<close>

text \<open>Folding a name to lowercase does not lower it, so among the members of a field the lowercase one comes last.\<close>

lemma lower_char_le: "c \<le> lower_char c"
proof -
  have "lower_char c = c \<or> (of_char c :: nat) + 32 < 256 \<and> lower_char c = char_of ((of_char c :: nat) + 32)" by (auto simp: lower_char_def Let_def)
  moreover have "of_char (char_of (n :: nat) :: char) = n" if "n < 256" for n using that by simp
  ultimately show ?thesis by (auto simp: less_eq_char_def)
qed

lemma to_lower_le: "k \<le> to_lower k"
proof (induction k)
  case (Cons c k)
  then show ?case using lower_char_le [of c] by (auto simp: to_lower_def)
qed (simp add: to_lower_def)

lemma match_field_fold: "match_field ns k = Some n \<Longrightarrow> k = n \<or> to_lower k = to_lower n"
  by (auto simp: match_field_def equal_fold_def find_Some_iff split: if_splits)

lemma into_members_inv_keys:
  "(\<And>k v a. k \<in> fst ` set kvs \<Longrightarrow> P a \<Longrightarrow> P (fst (f k v a))) \<Longrightarrow> P a \<Longrightarrow> P (fst (into_members f kvs a))"
proof (induction kvs arbitrary: a)
  case (Cons kv kvs)
  obtain k v where kv: "kv = (k, v)" by (cases kv)
  have "P (fst (into_members f kvs (fst (f k v a))))" by (rule Cons.IH) (use Cons.prems kv in auto)
  then show ?case by (simp add: kv into_members.simps split: prod.splits) (metis fst_conv)
qed simp

text \<open>A lowercase field that is written into a sorted object has its own value, whatever other members there are.\<close>

lemma into_sorted_field:
  assumes "map_of tab n = Some h" and "to_lower n = n"
    and "list_all (\<lambda>(k, h'). k = n \<or> (\<forall>v a. get (fst (h' v a)) = get a)) tab"
    and "\<And>a. get (fst (h v a)) = x" and "gm_wf m" and "gm_get m n = Some v"
  shows "get (fst (into_struct (in_fields strict tab) (JObj (sort_members m)) a)) = x"
proof -
  have s: "sorted (map fst (sort_members m))" "distinct (map fst (sort_members m))" "(n, v) \<in> set (sort_members m)"
    using assms(5,6) sort_members_wf [of m] by (auto simp: sort_members_def gm_wf_def dest: map_of_SomeD)
  from split_list [OF s(3)] obtain xs ys where e: "sort_members m = xs @ (n, v) # ys" by auto
  have other: "get (fst (in_fields strict tab k w b)) = get b" if "k \<in> fst ` set ys" for k w b
  proof -
    from s(1,2) e that have lt: "n < k" by (auto simp: sorted_append less_le)
    have "match_field (map fst tab) k \<noteq> Some n"
    proof
      assume "match_field (map fst tab) k = Some n"
      then have "k = n \<or> to_lower k = n" using match_field_fold assms(2) by metis
      then show False using lt to_lower_le [of k] by auto
    qed
    then show ?thesis using assms(3) by (auto simp: in_fields_def list_all_iff dest!: map_of_SomeD split: option.splits)
  qed
  obtain b ok where b: "into_members (in_fields strict tab) xs a = (b, ok)" by (cases "into_members (in_fields strict tab) xs a")
  obtain c ok' where c: "h v b = (c, ok')" by (cases "h v b")
  have "get (fst (into_members (in_fields strict tab) ys c)) = x"
    by (rule into_members_inv_keys [where P = "\<lambda>a. get a = x"]) (use other assms(4) [of b] c in auto)
  then show ?thesis using b c in_fields_exact [OF assms(1), of strict]
    by (cases "into_members (in_fields strict tab) ys c") (simp add: into_struct_def e into_members_append into_members.simps)
qed

section \<open>What the decoders keep\<close>

lemma into_slice_inv: "(\<And>v a. P a \<Longrightarrow> P (fst (h v a))) \<Longrightarrow> P z \<Longrightarrow> list_all P xs \<Longrightarrow> list_all P (fst (into_slice h z v xs))"
  by (auto simp: into_slice_def list_all_iff split: json.split)

lemma into_int_inv: "int64_range i \<Longrightarrow> int64_range (fst (into_int v i))"
  by (auto simp: into_int_def dec_int_def split: json.split sum.split if_splits)

lemma into_map_inv:
  assumes "\<And>v. P (fst (h v z))" and "map_ok m" and "list_all (P \<circ> snd) m"
  shows "map_ok (fst (into_map h z v m)) \<and> list_all (P \<circ> snd) (fst (into_map h z v m))"
proof (cases v)
  case (JObj kvs)
  have "gm_wf (foldl (\<lambda>m (k, w). gm_set k (fst (h w z)) m) m kvs) \<and>
      list_all (P \<circ> snd) (foldl (\<lambda>m (k, w). gm_set k (fst (h w z)) m) m kvs)"
    using map_okD [OF assms(2), THEN conjunct1] assms(3)
  proof (induction kvs arbitrary: m)
    case (Cons kv kvs)
    obtain k w where kv: "kv = (k, w)" by (cases kv)
    have "set (gm_set k y m) \<subseteq> insert (k, y) (set m)" for y by (induction m) auto
    then have "list_all (P \<circ> snd) (gm_set k (fst (h w z)) m)" using Cons.prems assms(1) by (fastforce simp: list_all_iff)
    then show ?case using Cons.IH [of "gm_set k (fst (h w z)) m"] Cons.prems by (simp add: kv comp_def)
  qed simp
  with JObj show ?thesis by (simp add: into_map_def list_all_iff sort_members_def map_ok_def [symmetric]) (simp add: sort_members_def [symmetric])
qed (use assms in \<open>simp_all add: into_map_def\<close>)

section \<open>Patches\<close>

lemma set_all_wf: "gm_wf m \<Longrightarrow> gm_wf (set_all new m)"
  by (induction new arbitrary: m) (auto simp: set_all_def)

lemma gm_wf_Nil_any: "gm_wf []"
  by (simp add: gm_wf_def)

lemma gm_wf_members_map: "gm_wf (map (\<lambda>(k, v). (k, h v)) m) = gm_wf m"
  by (simp add: gm_wf_def comp_def case_prod_unfold)

lemma members_of_any_wf [simp]: "gm_wf (members_of (any_json v))"
  by (cases v) (auto simp: any_json_def members_of_def sort_members_map [symmetric] gm_wf_Nil_any)

lemma mask_merge_wf: "gm_wf m \<Longrightarrow> gm_wf (mask_merge fm patch m)"
proof -
  have "gm_wf m \<Longrightarrow> gm_wf (foldl (\<lambda>m f. case gm_get patch (trim_space f) of Some v \<Rightarrow> gm_set (trim_space f) v m | None \<Rightarrow> m) m fs)" for fs
    by (induction fs arbitrary: m) (auto split: option.split)
  then show "gm_wf m \<Longrightarrow> ?thesis" by (simp add: mask_merge_def set_all_wf)
qed

lemma patched_pinned:
  assumes "map_of tab n = Some h" and "to_lower n = n"
    and "list_all (\<lambda>(k, h'). k = n \<or> (\<forall>v a. get (fst (h' v a)) = get a)) tab"
    and "\<And>a. get (fst (h v a)) = x" and "gm_get (set_all pinned m) n = Some v" and "gm_wf m"
  shows "get (fst (into_struct (in_fields strict tab) (JObj (sort_members (set_all pinned m))) z)) = x"
  by (rule into_sorted_field [OF assms(1-4)]) (simp_all add: assms(5,6) set_all_wf)

end
