(* ===== verification/Dashboard_Rbac_Properties.thy ===== *)
theory Dashboard_Rbac_Properties
  imports Dashboard_Rbac Json_Into_Laws
begin

text \<open>
  What the gate of the dashboard guarantees: a request it passes on was authorized for the project it
  mentions everywhere, and a project is created under the parent that was authorized.
\<close>

section \<open>Values that were read\<close>




section \<open>Projects\<close>














section \<open>Creating projects\<close>












section \<open>Example\<close>








end
