(* ===== verification/Audit_Log.thy ===== *)
theory Audit_Log
  imports Json_Text Http Resource_Manager "HOL-Library.Word"
begin

text \<open>
  \<open>pkg/security/audit.go\<close>: the hash-chained log of mutations, one JSON record per line, beside a
  checkpoint that names the last record.  The digest (SHA-256 in hexadecimal) is an argument, as are the
  outcomes of the system calls; the sequence number keeps its 64 bits.
\<close>

section \<open>Records\<close>

record audit_event =
  ev_principal :: string
  ev_method :: string
  ev_service :: string
  ev_route :: string
  ev_project :: string

record audit_record =
  ar_sequence :: "64 word"
  ar_timestamp :: string
  ar_profile :: string
  ar_phase :: string
  ar_principal :: string
  ar_method :: string
  ar_service :: string
  ar_route :: string
  ar_project :: string
  ar_status :: int
  ar_previous :: string
  ar_hash :: string

definition zero_record :: audit_record where
  "zero_record = \<lparr>ar_sequence = 0, ar_timestamp = zero_time, ar_profile = [], ar_phase = [], ar_principal = [], ar_method = [],
     ar_service = [], ar_route = [], ar_project = [], ar_status = 0, ar_previous = [], ar_hash = []\<rparr>"

definition omit_int :: "string \<Rightarrow> int \<Rightarrow> (string \<times> json) list" where
  "omit_int k i = (if i = 0 then [] else [(k, JInt i)])"

definition enc_record :: "audit_record \<Rightarrow> json" where
  "enc_record r = JObj ([(''sequence'', JInt (uint (ar_sequence r))), (''timestamp'', JStr (ar_timestamp r)),
     (''profile'', JStr (ar_profile r)), (''phase'', JStr (ar_phase r))] @ omit_str ''principal'' (ar_principal r) @
     [(''method'', JStr (ar_method r))] @ omit_str ''service'' (ar_service r) @ omit_str ''route'' (ar_route r) @
     omit_str ''project'' (ar_project r) @ omit_int ''status'' (ar_status r) @ omit_str ''previousHash'' (ar_previous r) @
     [(''hash'', JStr (ar_hash r))])"

definition dec_uint64 :: "json \<Rightarrow> 64 word \<Rightarrow> json_error + 64 word" where
  "dec_uint64 v cur =
     (case v of
        JNull \<Rightarrow> Inr cur
      | JInt i \<Rightarrow> (if 0 \<le> i \<and> i < 2 ^ 64 then Inr (word_of_int i) else Inl (TypeMismatch ''uint64''))
      | _ \<Rightarrow> Inl (TypeMismatch ''uint64''))"

text \<open>
  A time keeps its instant and its offset, so it is written again with the fraction's trailing zeros gone,
  nine digits at most, and \<open>Z\<close> for a zero offset.
\<close>

definition canonical_time :: "string \<Rightarrow> string" where
  "canonical_time s =
     (let z = after_fraction (drop 19 s);
          f = (if drop 19 s \<noteq> z then take 9 (takeWhile is_digit (drop 20 s)) else []);
          f' = rev (dropWhile (\<lambda>c. c = CHR ''0'') (rev f))
      in take 19 s @ (if f' = [] then [] else CHR ''.'' # f') @ (if zone_offset z = 0 then ''Z'' else z))"

definition record_fields :: "string list" where
  "record_fields = [''sequence'', ''timestamp'', ''profile'', ''phase'', ''principal'', ''method'', ''service'', ''route'',
     ''project'', ''status'', ''previousHash'', ''hash'']"

definition dec_record_member :: "string \<Rightarrow> json \<Rightarrow> audit_record \<Rightarrow> json_error + audit_record" where
  "dec_record_member k v r =
     (case match_field record_fields k of
        None \<Rightarrow> Inl (UnknownField k)
      | Some f \<Rightarrow>
          if f = ''sequence'' then map_sum id (\<lambda>n. r\<lparr>ar_sequence := n\<rparr>) (dec_uint64 v (ar_sequence r))
          else if f = ''timestamp'' then set_text (\<lambda>s. r\<lparr>ar_timestamp := canonical_time s\<rparr>) (dec_time v (ar_timestamp r))
          else if f = ''profile'' then set_text (\<lambda>s. r\<lparr>ar_profile := s\<rparr>) (dec_string v (ar_profile r))
          else if f = ''phase'' then set_text (\<lambda>s. r\<lparr>ar_phase := s\<rparr>) (dec_string v (ar_phase r))
          else if f = ''principal'' then set_text (\<lambda>s. r\<lparr>ar_principal := s\<rparr>) (dec_string v (ar_principal r))
          else if f = ''method'' then set_text (\<lambda>s. r\<lparr>ar_method := s\<rparr>) (dec_string v (ar_method r))
          else if f = ''service'' then set_text (\<lambda>s. r\<lparr>ar_service := s\<rparr>) (dec_string v (ar_service r))
          else if f = ''route'' then set_text (\<lambda>s. r\<lparr>ar_route := s\<rparr>) (dec_string v (ar_route r))
          else if f = ''project'' then set_text (\<lambda>s. r\<lparr>ar_project := s\<rparr>) (dec_string v (ar_project r))
          else if f = ''status'' then map_sum id (\<lambda>i. r\<lparr>ar_status := i\<rparr>) (dec_int v (ar_status r))
          else if f = ''previousHash'' then set_text (\<lambda>s. r\<lparr>ar_previous := s\<rparr>) (dec_string v (ar_previous r))
          else set_text (\<lambda>s. r\<lparr>ar_hash := s\<rparr>) (dec_string v (ar_hash r)))"

definition dec_record :: "json \<Rightarrow> json_error + audit_record" where
  "dec_record = dec_struct dec_record_member zero_record"

definition hashAuditRecord :: "(string \<Rightarrow> string) \<Rightarrow> audit_record \<Rightarrow> string" where
  "hashAuditRecord digest r = digest (jprint (enc_record (r\<lparr>ar_hash := []\<rparr>)))"

section \<open>What is recorded of a request\<close>

text \<open>
  The runes of a text as \<open>range\<close> yields them: a byte that starts no encoded rune is the replacement character
  alone.  The rune that starts with byte \<open>b\<close>, and what follows it.
\<close>

definition continuation :: "nat \<Rightarrow> bool" where "continuation c \<longleftrightarrow> 128 \<le> c \<and> c < 192"

definition decode_rune :: "nat \<Rightarrow> nat list \<Rightarrow> nat \<times> nat list" where
  "decode_rune b rest =
     (if b < 128 then (b, rest)
      else let broken = (65533, rest) in
      if b < 194 then broken
      else if b < 224 then
        (case rest of c # cs \<Rightarrow> if continuation c then ((b - 192) * 64 + (c - 128), cs) else broken | [] \<Rightarrow> broken)
      else if b < 240 then
        (case rest of
           c # d # cs \<Rightarrow>
             if continuation c \<and> continuation d \<and> (b = 224 \<longrightarrow> 160 \<le> c) \<and> (b = 237 \<longrightarrow> c < 160)
             then ((b - 224) * 4096 + (c - 128) * 64 + (d - 128), cs) else broken
         | _ \<Rightarrow> broken)
      else if b < 245 then
        (case rest of
           c # d # e # cs \<Rightarrow>
             if continuation c \<and> continuation d \<and> continuation e \<and> (b = 240 \<longrightarrow> 144 \<le> c) \<and> (b = 244 \<longrightarrow> c < 144)
             then ((b - 240) * 262144 + (c - 128) * 4096 + (d - 128) * 64 + (e - 128), cs) else broken
         | _ \<Rightarrow> broken)
      else broken)"

lemma decode_rune_shorter: "length (snd (decode_rune b rest)) \<le> length rest"
  by (auto simp: decode_rune_def Let_def split: list.split)

function byte_runes :: "nat list \<Rightarrow> nat list" where
  "byte_runes [] = []"
| "byte_runes (b # rest) = (case decode_rune b rest of (r, s) \<Rightarrow> r # byte_runes s)"
  by pat_completeness auto
termination
  by (relation "measure length") (simp_all, metis decode_rune_shorter le_imp_less_Suc snd_conv)

definition runes :: "string \<Rightarrow> nat list" where "runes s = byte_runes (map of_char s)"

definition rune_text :: "nat list \<Rightarrow> string" where "rune_text rs = concat (map rune_bytes rs)"

text \<open>\<open>unicode.IsSpace\<close> and \<open>unicode.IsControl\<close>; trimming a text trims its runes.\<close>

definition rune_space :: "nat \<Rightarrow> bool" where
  "rune_space r \<longleftrightarrow> (9 \<le> r \<and> r \<le> 13) \<or> r \<in> {32, 133, 160, 5760, 8232, 8233, 8239, 8287, 12288} \<or> (8192 \<le> r \<and> r \<le> 8202)"

text \<open>Evaluation compares integers, which keep their binary form.\<close>

lemma rune_space_code [code]:
  "rune_space r \<longleftrightarrow> (let i = int r in (9 \<le> i \<and> i \<le> 13) \<or> i \<in> {32, 133, 160, 5760, 8232, 8233, 8239, 8287, 12288} \<or> (8192 \<le> i \<and> i \<le> 8202))"
  by (auto simp: rune_space_def Let_def)

definition rune_control :: "nat \<Rightarrow> bool" where
  "rune_control r \<longleftrightarrow> r < 32 \<or> (127 \<le> r \<and> r < 160)"

definition trim_runes :: "nat list \<Rightarrow> nat list" where
  "trim_runes rs = rev (dropWhile rune_space (rev (dropWhile rune_space rs)))"

text \<open>\<open>n\<close> bytes are written already; a rune is written whole, then the limit is looked at.\<close>

fun sanitize_loop :: "nat \<Rightarrow> nat \<Rightarrow> nat list \<Rightarrow> string" where
  "sanitize_loop limit n [] = []"
| "sanitize_loop limit n (r # rs) =
     (if rune_control r then sanitize_loop limit n rs
      else let w = rune_bytes r; m = n + length w in w @ (if limit \<le> m then [] else sanitize_loop limit m rs))"

definition sanitizeAuditValue :: "string \<Rightarrow> nat \<Rightarrow> string" where
  "sanitizeAuditValue v limit = sanitize_loop limit 0 (trim_runes (runes v))"

definition sanitizeAuditPrincipal :: "string \<Rightarrow> string" where
  "sanitizeAuditPrincipal v =
     (let s = sanitizeAuditValue v 256; l = to_lower s
      in if contains l ''bearer '' \<or> has_prefix l ''ms1.'' then ''[REDACTED]'' else s)"

definition isMutationMethod :: "string \<Rightarrow> bool" where
  "isMutationMethod m \<longleftrightarrow> m \<in> {''POST'', ''PUT'', ''PATCH'', ''DELETE''}"

definition upper_char :: "char \<Rightarrow> char" where
  "upper_char c = (let n = of_char c :: nat in if 97 \<le> n \<and> n \<le> 122 then char_of (n - 32) else c)"

section \<open>The files\<close>

datatype node = Missing | Regular string | Symlink | Unreadable

record audit_disk =
  ad_log :: node
  ad_checkpoint :: node

datatype audit_error =
    AuditArguments | AuditSymlink | AuditDirectory | AuditOpen | AuditMode
  | AuditRead | AuditTampered | AuditClosed | AuditWrite | AuditSync | AuditCheckpoint | AuditLimit

definition newline :: char where "newline = CHR 0x0A"

text \<open>The lines of a \<open>bufio.Scanner\<close> over a text: without their ends, no empty one at the end.\<close>

definition raw_lines :: "string \<Rightarrow> string list" where
  "raw_lines s = (let ls = split newline s in if last ls = [] then butlast ls else ls)"

definition drop_cr :: "string \<Rightarrow> string" where
  "drop_cr l = (if l \<noteq> [] \<and> last l = CHR 0x0D then butlast l else l)"

definition maxLine :: int where "maxLine = 1048576"

fun verify_lines :: "(string \<Rightarrow> string) \<Rightarrow> 64 word \<Rightarrow> string \<Rightarrow> string list \<Rightarrow> audit_error + audit_record list" where
  "verify_lines digest seq prev [] = Inr []"
| "verify_lines digest seq prev (l # ls) =
     (if maxLine \<le> int (length l) then Inl AuditRead
      else case jfirst (drop_cr l) of
        Raw j \<Rightarrow> (case dec_record j of
            Inl e \<Rightarrow> Inl AuditTampered
          | Inr r \<Rightarrow>
              if ar_sequence r \<noteq> seq + 1 \<or> ar_previous r \<noteq> prev then Inl AuditTampered
              else if ar_hash r = [] \<or> ar_hash r \<noteq> hashAuditRecord digest r then Inl AuditTampered
              else map_sum id ((#) r) (verify_lines digest (ar_sequence r) (ar_hash r) ls))
      | _ \<Rightarrow> Inl AuditTampered)"

definition readAndVerifyAudit :: "(string \<Rightarrow> string) \<Rightarrow> node \<Rightarrow> audit_error + audit_record list" where
  "readAndVerifyAudit digest f =
     (case f of Missing \<Rightarrow> Inr [] | Regular s \<Rightarrow> verify_lines digest 0 [] (raw_lines s) | _ \<Rightarrow> Inl AuditRead)"

record checkpoint =
  ckp_sequence :: "64 word"
  ckp_hash :: string

definition enc_checkpoint :: "checkpoint \<Rightarrow> json" where
  "enc_checkpoint c = JObj [(''sequence'', JInt (uint (ckp_sequence c))), (''hash'', JStr (ckp_hash c))]"

definition dec_checkpoint_member :: "string \<Rightarrow> json \<Rightarrow> checkpoint \<Rightarrow> json_error + checkpoint" where
  "dec_checkpoint_member k v c =
     (case match_field [''sequence'', ''hash''] k of
        None \<Rightarrow> Inl (UnknownField k)
      | Some f \<Rightarrow>
          if f = ''sequence'' then map_sum id (\<lambda>n. c\<lparr>ckp_sequence := n\<rparr>) (dec_uint64 v (ckp_sequence c))
          else set_text (\<lambda>s. c\<lparr>ckp_hash := s\<rparr>) (dec_string v (ckp_hash c)))"

definition dec_checkpoint :: "json \<Rightarrow> json_error + checkpoint" where
  "dec_checkpoint = dec_struct dec_checkpoint_member \<lparr>ckp_sequence = 0, ckp_hash = []\<rparr>"

text \<open>The log against its checkpoint.\<close>

definition verifyAuditPath :: "(string \<Rightarrow> string) \<Rightarrow> audit_disk \<Rightarrow> audit_error + audit_record list" where
  "verifyAuditPath digest d =
     (if ad_log d = Symlink then Inl AuditSymlink
      else case readAndVerifyAudit digest (ad_log d) of
        Inl e \<Rightarrow> Inl e
      | Inr rs \<Rightarrow>
          (case ad_checkpoint d of
             Symlink \<Rightarrow> Inl AuditSymlink
           | Missing \<Rightarrow> if rs = [] then Inr rs else Inl AuditTampered
           | Unreadable \<Rightarrow> Inl AuditRead
           | Regular text \<Rightarrow>
               (case jfirst text of
                  Raw j \<Rightarrow> (case dec_checkpoint j of
                      Inl e \<Rightarrow> Inl AuditTampered
                    | Inr c \<Rightarrow>
                        if rs = [] \<or> ckp_sequence c \<noteq> ar_sequence (last rs) \<or> ckp_hash c \<noteq> ar_hash (last rs)
                        then Inl AuditTampered else Inr rs)
                | _ \<Rightarrow> Inl AuditTampered)))"

section \<open>The log\<close>

record audit_log =
  al_profile :: string
  al_strict :: bool
  al_open :: bool
  al_sequence :: "64 word"
  al_last :: string
  al_error :: "audit_error option"

text \<open>What the system answers while the log is opened.\<close>

record open_outcome =
  oo_profile_link :: bool
  oo_mkdir :: bool
  oo_private :: bool
  oo_open :: bool
  oo_mode :: bool

definition OpenAuditLog ::
    "(string \<Rightarrow> string) \<Rightarrow> open_outcome \<Rightarrow> string \<Rightarrow> string \<Rightarrow> bool \<Rightarrow> audit_disk \<Rightarrow> (audit_error + audit_log) \<times> audit_disk" where
  "OpenAuditLog digest o' dir profile strict d =
     (if trim_space dir = [] \<or> trim_space profile = [] then (Inl AuditArguments, d)
      else if oo_profile_link o' then (Inl AuditSymlink, d)
      else if \<not> oo_mkdir o' \<or> \<not> oo_private o' then (Inl AuditDirectory, d)
      else case verifyAuditPath digest d of
        Inl e \<Rightarrow> (Inl e, d)
      | Inr rs \<Rightarrow>
          if \<not> oo_open o' then (Inl AuditOpen, d)
          else let d' = (if ad_log d = Missing then d\<lparr>ad_log := Regular []\<rparr> else d) in
            if \<not> oo_mode o' then (Inl AuditMode, d')
            else (Inr \<lparr>al_profile = profile, al_strict = strict, al_open = True,
                       al_sequence = (if rs = [] then 0 else ar_sequence (last rs)),
                       al_last = (if rs = [] then [] else ar_hash (last rs)), al_error = None\<rparr>, d'))"

text \<open>\<open>Close\<close>: the writer is forgotten whether or not closing it succeeds.\<close>

definition Close :: "audit_log \<Rightarrow> audit_log" where
  "Close a = a\<lparr>al_open := False\<rparr>"

definition recordPersistenceError :: "audit_error \<Rightarrow> audit_log \<Rightarrow> audit_log" where
  "recordPersistenceError e a = (if al_error a = None then a\<lparr>al_error := Some e\<rparr> else a)"

text \<open>What becomes of one append: bytes written before a failing write, the sync, the checkpoint's replacement.\<close>

record append_outcome =
  ao_torn :: "nat option"
  ao_sync :: bool
  ao_checkpoint :: bool

definition all_well :: append_outcome where "all_well = \<lparr>ao_torn = None, ao_sync = True, ao_checkpoint = True\<rparr>"

definition append_bytes :: "string \<Rightarrow> node \<Rightarrow> node" where
  "append_bytes s f = (case f of Regular t \<Rightarrow> Regular (t @ s) | _ \<Rightarrow> f)"

definition new_record :: "(string \<Rightarrow> string) \<Rightarrow> audit_log \<Rightarrow> string \<Rightarrow> audit_event \<Rightarrow> string \<Rightarrow> int \<Rightarrow> audit_record" where
  "new_record digest a now ev phase status =
     (let r = \<lparr>ar_sequence = al_sequence a + 1, ar_timestamp = now, ar_profile = sanitizeAuditValue (al_profile a) 128,
               ar_phase = phase, ar_principal = sanitizeAuditPrincipal (ev_principal ev),
               ar_method = sanitizeAuditValue (map upper_char (ev_method ev)) 16, ar_service = sanitizeAuditValue (ev_service ev) 253,
               ar_route = sanitizeAuditValue (ev_route ev) 512, ar_project = sanitizeAuditValue (ev_project ev) 128,
               ar_status = status, ar_previous = al_last a, ar_hash = []\<rparr>
      in r\<lparr>ar_hash := hashAuditRecord digest r\<rparr>)"

definition record_line :: "audit_record \<Rightarrow> string" where
  "record_line r = jprint (enc_record r) @ [newline]"

definition append_record ::
    "(string \<Rightarrow> string) \<Rightarrow> append_outcome \<Rightarrow> string \<Rightarrow> audit_event \<Rightarrow> string \<Rightarrow> int \<Rightarrow> audit_log \<Rightarrow> audit_disk \<Rightarrow>
     audit_error option \<times> audit_log \<times> audit_disk" where
  "append_record digest o' now ev phase status a d =
     (if \<not> al_open a then (Some AuditClosed, recordPersistenceError AuditClosed a, d)
      else let r = new_record digest a now ev phase status; payload = record_line r in
        case ao_torn o' of
          Some n \<Rightarrow> (Some AuditWrite, recordPersistenceError AuditWrite a, d\<lparr>ad_log := append_bytes (take n payload) (ad_log d)\<rparr>)
        | None \<Rightarrow>
            let d1 = d\<lparr>ad_log := append_bytes payload (ad_log d)\<rparr> in
            if \<not> ao_sync o' then (Some AuditSync, recordPersistenceError AuditSync a, d1)
            else let a1 = a\<lparr>al_sequence := ar_sequence r, al_last := ar_hash r\<rparr>;
                     text = jprint (enc_checkpoint \<lparr>ckp_sequence = al_sequence a1, ckp_hash = al_last a1\<rparr>) @ [newline] in
              if \<not> ao_checkpoint o' then (Some AuditCheckpoint, recordPersistenceError AuditCheckpoint a1, d1)
              else (None, a1, d1\<lparr>ad_checkpoint := Regular text\<rparr>))"

section \<open>Requests\<close>

text \<open>
  The wrapped handler \<open>next\<close> answers a status (0 when it wrote none), the request's headers as it leaves
  them, and the state behind it.
\<close>

datatype audited = AuditUnavailable | Dispatched int

record 's audit_state =
  as_log :: audit_log
  as_disk :: audit_disk
  as_behind :: 's

definition audit_append ::
    "(string \<Rightarrow> string) \<Rightarrow> append_outcome \<Rightarrow> string \<Rightarrow> audit_event \<Rightarrow> string \<Rightarrow> int \<Rightarrow> 's audit_state \<Rightarrow> audit_error option \<times> 's audit_state" where
  "audit_append digest o' now ev phase status s =
     (case append_record digest o' now ev phase status (as_log s) (as_disk s) of
        (e, a, d) \<Rightarrow> (e, s\<lparr>as_log := a, as_disk := d\<rparr>))"

definition dispatch ::
    "(string \<Rightarrow> string) \<Rightarrow> append_outcome \<Rightarrow> string \<Rightarrow> (http_request \<Rightarrow> 's \<Rightarrow> int \<times> http_request \<times> 's) \<Rightarrow> http_request \<Rightarrow> audit_event \<Rightarrow>
     's audit_state \<Rightarrow> audited \<times> 's audit_state" where
  "dispatch digest o' now next' r ev s =
     (case next' r (as_behind s) of
        (code, r', b) \<Rightarrow>
          let status = (if code = 0 then 200 else code);
              ev' = ev\<lparr>ev_principal := trim_space (header r' ''X-Minisky-Principal'')\<rparr>
          in (Dispatched status, snd (audit_append digest o' now ev' ''complete'' status (s\<lparr>as_behind := b\<rparr>))))"

definition Wrap ::
    "(string \<Rightarrow> string) \<Rightarrow> append_outcome \<times> append_outcome \<Rightarrow> string \<times> string \<Rightarrow>
     (http_request \<Rightarrow> 's \<Rightarrow> int \<times> http_request \<times> 's) \<Rightarrow> (http_request \<Rightarrow> audit_event) option \<Rightarrow> http_request \<Rightarrow>
     's audit_state \<Rightarrow> audited \<times> 's audit_state" where
  "Wrap digest os nows next' resolve r s =
     (if \<not> isMutationMethod (rq_method r) then
        (case next' r (as_behind s) of (code, r', b) \<Rightarrow> (Dispatched (if code = 0 then 200 else code), s\<lparr>as_behind := b\<rparr>))
      else let ev0 = \<lparr>ev_principal = [], ev_method = rq_method r, ev_service = [], ev_route = [], ev_project = []\<rparr>;
               ev = (case resolve of Some f \<Rightarrow> (f r)\<lparr>ev_method := rq_method r\<rparr> | None \<Rightarrow> ev0)
           in if al_strict (as_log s) then
                (case audit_append digest (fst os) (fst nows) (ev\<lparr>ev_principal := []\<rparr>) ''attempt'' 0 s of
                   (Some e, s') \<Rightarrow> (AuditUnavailable, s')
                 | (None, s') \<Rightarrow> dispatch digest (snd os) (snd nows) next' r ev s')
              else dispatch digest (snd os) (snd nows) next' r ev s)"

section \<open>Verifying and exporting\<close>

definition audit_Verify :: "(string \<Rightarrow> string) \<Rightarrow> bool \<Rightarrow> audit_log \<Rightarrow> audit_disk \<Rightarrow> audit_error option" where
  "audit_Verify digest sync a d =
     (if al_open a \<and> \<not> sync then Some AuditSync
      else case verifyAuditPath digest d of Inl e \<Rightarrow> Some e | Inr rs \<Rightarrow> None)"

definition maxAuditExportRecords :: int where "maxAuditExportRecords = 10000"
definition defaultAuditExport :: int where "defaultAuditExport = 100"

definition Export :: "(string \<Rightarrow> string) \<Rightarrow> bool \<Rightarrow> int \<Rightarrow> audit_log \<Rightarrow> audit_disk \<Rightarrow> audit_error + audit_record list" where
  "Export digest sync n a d =
     (let limit = (if n = 0 then defaultAuditExport else n) in
      if limit < 1 \<or> limit > maxAuditExportRecords then Inl AuditLimit
      else if al_open a \<and> \<not> sync then Inl AuditSync
      else case verifyAuditPath digest d of
        Inl e \<Rightarrow> Inl e
      | Inr rs \<Rightarrow> Inr (if int (length rs) > limit then drop (nat (int (length rs) - limit)) rs else rs))"

end
