(* ===== verification/Audit_Chain.thy ===== *)
theory Audit_Chain
  imports Audit_Log
begin

text \<open>
  The lemmas on audit records and on the texts of their log: what is written is read back, a line is one
  record and short enough for the scanner, and a chain of records verifies.
\<close>

section \<open>Sanitizing\<close>

lemma rune_bytes_length: "0 < length (rune_bytes r)" "length (rune_bytes r) \<le> 4"
  by (simp_all add: rune_bytes_def)

text \<open>
  What the loop writes: the shortest prefix of the runes that are no control characters that reaches the limit.
\<close>

definition cut_at :: "nat \<Rightarrow> nat list \<Rightarrow> nat list \<Rightarrow> bool" where
  "cut_at limit rs ps \<longleftrightarrow> (\<exists>qs. rs = ps @ qs \<and> (qs = [] \<or> limit \<le> length (rune_text ps)) \<and>
     (ps \<noteq> [] \<longrightarrow> length (rune_text (butlast ps)) < limit))"

lemma sanitize_loop_cut:
  assumes "n < limit"
  shows "\<exists>ps qs. filter (Not \<circ> rune_control) rs = ps @ qs \<and> sanitize_loop limit n rs = rune_text ps \<and>
    (qs = [] \<or> limit \<le> n + length (rune_text ps)) \<and> (ps \<noteq> [] \<longrightarrow> n + length (rune_text (butlast ps)) < limit)"
  using assms
proof (induction limit n rs rule: sanitize_loop.induct)
  case (1 limit n)
  then show ?case by (simp add: rune_text_def)
next
  case (2 limit n r rs)
  let ?m = "n + length (rune_bytes r)"
  consider "rune_control r" | "\<not> rune_control r" "limit \<le> ?m" | "\<not> rune_control r" "?m < limit" by linarith
  then show ?case
  proof cases
    case 1
    then show ?thesis using 2 by simp
  next
    case 2
    then have "filter (Not \<circ> rune_control) (r # rs) = [r] @ filter (Not \<circ> rune_control) rs \<and>
        sanitize_loop limit n (r # rs) = rune_text [r] \<and>
        (filter (Not \<circ> rune_control) rs = [] \<or> limit \<le> n + length (rune_text [r])) \<and>
        ([r] \<noteq> [] \<longrightarrow> n + length (rune_text (butlast [r])) < limit)"
      using \<open>n < limit\<close> by (simp add: rune_text_def Let_def)
    then show ?thesis by blast
  next
    case 3
    have "\<not> limit \<le> ?m" using 3(2) by simp
    from 2(2) [OF 3(1) refl refl this 3(2)] obtain ps qs where ih: "filter (Not \<circ> rune_control) rs = ps @ qs"
      "sanitize_loop limit ?m rs = rune_text ps" "qs = [] \<or> limit \<le> ?m + length (rune_text ps)"
      "ps \<noteq> [] \<longrightarrow> ?m + length (rune_text (butlast ps)) < limit" by blast
    then have "filter (Not \<circ> rune_control) (r # rs) = (r # ps) @ qs \<and> sanitize_loop limit n (r # rs) = rune_text (r # ps) \<and>
        (qs = [] \<or> limit \<le> n + length (rune_text (r # ps))) \<and>
        (r # ps \<noteq> [] \<longrightarrow> n + length (rune_text (butlast (r # ps))) < limit)"
      using 3 2(3) by (auto simp: rune_text_def Let_def)
    then show ?thesis by blast
  qed
qed

lemma sanitize_cut:
  assumes "0 < limit"
  shows "\<exists>ps. cut_at limit (filter (Not \<circ> rune_control) (trim_runes (runes v))) ps \<and> sanitizeAuditValue v limit = rune_text ps"
  using sanitize_loop_cut [OF assms, of "trim_runes (runes v)"] by (auto simp: sanitizeAuditValue_def cut_at_def)

lemma cut_length:
  assumes "cut_at limit rs ps"
  shows "length (rune_text ps) \<le> limit + 3"
proof (cases ps rule: rev_cases)
  case Nil
  then show ?thesis by (simp add: rune_text_def)
next
  case (snoc qs r)
  then have "length (rune_text ps) = length (rune_text (butlast ps)) + length (rune_bytes r)" by (simp add: rune_text_def)
  moreover have "length (rune_text (butlast ps)) < limit" using assms snoc by (auto simp: cut_at_def)
  ultimately show ?thesis using rune_bytes_length(2) [of r] by linarith
qed

lemma sanitize_length: "0 < limit \<Longrightarrow> length (sanitizeAuditValue v limit) \<le> limit + 3"
  using sanitize_cut cut_length by metis

lemma principal_length: "length (sanitizeAuditPrincipal v) \<le> 259"
  using sanitize_length [of 256 v] by (simp add: sanitizeAuditPrincipal_def Let_def)

section \<open>Texts\<close>

lemma escape_no_newline: "newline \<notin> set (escape_char c)"
proof -
  have newline: "hex_value newline = None" by (simp add: hex_value_def newline_def)
  have h: "newline \<noteq> hex_digit d" if "d < 16" for d
    using hex_value_digit [OF that] newline by auto
  have "(of_char c :: nat) < 256" by (rule nat_of_char_less_256)
  then have "of_char c div 16 < (16 :: nat)" "of_char c mod 16 < (16 :: nat)" by linarith+
  then have "newline \<noteq> hex_digit (of_char c div 16)" "newline \<noteq> hex_digit (of_char c mod 16)" using h by blast+
  then show ?thesis by (auto simp: escape_char_def newline_def dq_def bs_def)
qed

lemma print_no_newline: "newline \<notin> set (print_string s)"
  using escape_no_newline by (auto simp: print_string_def newline_def dq_def)

lemma itoa_no_newline: "newline \<notin> set (itoa i)"
  using itoa_chars [of i] by (auto simp: list_all_iff number_char_def newline_def is_digit_def)

lemma set_join: "set (join sep ss) \<subseteq> set sep \<union> (\<Union>s \<in> set ss. set s)"
  by (induction ss rule: induct_list012) auto

lemma object_no_newline:
  assumes "list_all (\<lambda>(k, v). newline \<notin> set (jprint v)) kvs"
  shows "newline \<notin> set (jprint (JObj kvs))"
proof -
  have "newline \<notin> set (print_string k @ '':'' @ jprint v)" if "(k, v) \<in> set kvs" for k v
    using assms that print_no_newline [of k] by (auto simp: newline_def list_all_iff)
  then show ?thesis
    using set_join [of "'',''" "map (\<lambda>(k, v). print_string k @ '':'' @ jprint v) kvs"] by (fastforce simp: newline_def)
qed

lemma omitted_all:
  "list_all P (omit_str k s) \<longleftrightarrow> s = [] \<or> P (k, JStr s)" "list_all P (omit_int k i) \<longleftrightarrow> i = 0 \<or> P (k, JInt i)"
  by (simp_all add: omit_str_def omit_int_def)

lemma record_no_newline: "newline \<notin> set (jprint (enc_record r))"
  unfolding enc_record_def
  by (rule object_no_newline) (simp add: omitted_all print_no_newline itoa_no_newline)

lemma split_lines:
  "newline \<notin> set a \<Longrightarrow> split newline (a @ newline # s) = a # split newline s"
  by (rule split_append_sep)

lemma raw_lines_records: "raw_lines (concat (map record_line rs)) = map (\<lambda>r. jprint (enc_record r)) rs"
proof -
  have "split newline (concat (map record_line rs)) = map (\<lambda>r. jprint (enc_record r)) rs @ [[]]"
    by (induction rs) (simp_all add: record_line_def split_lines record_no_newline)
  then show ?thesis by (simp add: raw_lines_def)
qed

lemma drop_cr_record [simp]: "drop_cr (jprint (enc_record r)) = jprint (enc_record r)"
  by (simp add: drop_cr_def enc_record_def)

section \<open>Lengths\<close>

lemma dec_nat_length: "n < 10 ^ Suc k \<Longrightarrow> length (dec_nat n) \<le> Suc k"
proof (induction k arbitrary: n)
  case 0
  then show ?case by (subst dec_nat.simps) simp
next
  case (Suc k)
  have "n div 10 < 10 ^ Suc k" using Suc.prems by (simp add: less_mult_imp_div_less)
  with Suc.IH [of "n div 10"] show ?case by (subst dec_nat.simps) simp
qed

lemma itoa_length: "\<bar>i\<bar> < 10 ^ 20 \<Longrightarrow> length (itoa i) \<le> 21"
proof -
  assume i: "\<bar>i\<bar> < 10 ^ 20"
  have "nat \<bar>i\<bar> < 10 ^ Suc 19" using i by simp
  then have "length (dec_nat (nat \<bar>i\<bar>)) \<le> 20" using dec_nat_length [of "nat \<bar>i\<bar>" 19] by simp
  then show ?thesis by (auto simp: itoa_def abs_if split: if_splits)
qed

lemma uint_length: "length (itoa (uint (w :: 64 word))) \<le> 21"
proof (rule itoa_length)
  have "uint w < 2 ^ 64" using uint_lt2p [of w] by simp
  then show "\<bar>uint w\<bar> < 10 ^ 20" by simp
qed

lemma int64_length: "int64_range i \<Longrightarrow> length (itoa i) \<le> 21"
  by (rule itoa_length) (auto simp: int64_range_def)

lemma zone_length: "zone_ok z \<Longrightarrow> length z \<le> 6"
  by (auto simp: zone_ok_def)

lemma canonical_length: "rfc3339 s \<Longrightarrow> length (canonical_time s) \<le> 35"
proof -
  assume "rfc3339 s"
  then have z: "length (after_fraction (drop 19 s)) \<le> 6" by (intro zone_length) (simp add: rfc3339_def)
  have f: "length (dropWhile P (rev (take 9 x))) \<le> 9" for P and x :: string
    using length_dropWhile_le [of P "rev (take 9 x)"] by simp
  have "length (canonical_time s) \<le> 19 + (10 + 6)"
    unfolding canonical_time_def Let_def length_append using z f
    by (intro add_mono) auto
  then show ?thesis by simp
qed

section \<open>Records written and read\<close>

text \<open>The records the code makes: their texts are bounded, their times and numbers are read back.\<close>

definition plain_record :: "audit_record \<Rightarrow> bool" where
  "plain_record r \<longleftrightarrow> rfc3339 (ar_timestamp r) \<and> canonical_time (ar_timestamp r) = ar_timestamp r \<and> int64_range (ar_status r)"

lemma dec_uint64_enc [simp]: "dec_uint64 (JInt (uint w)) cur = Inr w"
  using uint_lt2p [of w] by (simp add: dec_uint64_def)

lemmas dec_record_defs = omit_str_def omit_int_def dec_record_member_def record_fields_def set_text_def

text \<open>A member left out leaves the field's zero value.\<close>

lemma dec_omitted_record:
  "ar_principal r = [] \<Longrightarrow> decode_members dec_record_member (omit_str ''principal'' s @ kvs) r =
     decode_members dec_record_member kvs (r\<lparr>ar_principal := s\<rparr>)"
  "ar_service r = [] \<Longrightarrow> decode_members dec_record_member (omit_str ''service'' s @ kvs) r =
     decode_members dec_record_member kvs (r\<lparr>ar_service := s\<rparr>)"
  "ar_route r = [] \<Longrightarrow> decode_members dec_record_member (omit_str ''route'' s @ kvs) r =
     decode_members dec_record_member kvs (r\<lparr>ar_route := s\<rparr>)"
  "ar_project r = [] \<Longrightarrow> decode_members dec_record_member (omit_str ''project'' s @ kvs) r =
     decode_members dec_record_member kvs (r\<lparr>ar_project := s\<rparr>)"
  "ar_previous r = [] \<Longrightarrow> decode_members dec_record_member (omit_str ''previousHash'' s @ kvs) r =
     decode_members dec_record_member kvs (r\<lparr>ar_previous := s\<rparr>)"
  "ar_status r = 0 \<Longrightarrow> int64_range i \<Longrightarrow> decode_members dec_record_member (omit_int ''status'' i @ kvs) r =
     decode_members dec_record_member kvs (r\<lparr>ar_status := i\<rparr>)"
  by (cases r, simp add: dec_record_defs)+

lemma dec_plain_member:
  "dec_record_member ''sequence'' (JInt (uint w)) r = Inr (r\<lparr>ar_sequence := w\<rparr>)"
  "rfc3339 s \<Longrightarrow> canonical_time s = s \<Longrightarrow> dec_record_member ''timestamp'' (JStr s) r = Inr (r\<lparr>ar_timestamp := s\<rparr>)"
  "dec_record_member ''profile'' (JStr s) r = Inr (r\<lparr>ar_profile := s\<rparr>)"
  "dec_record_member ''phase'' (JStr s) r = Inr (r\<lparr>ar_phase := s\<rparr>)"
  "dec_record_member ''method'' (JStr s) r = Inr (r\<lparr>ar_method := s\<rparr>)"
  "dec_record_member ''hash'' (JStr s) r = Inr (r\<lparr>ar_hash := s\<rparr>)"
  by (simp_all add: dec_record_defs)

lemma dec_enc_record: "plain_record r \<Longrightarrow> dec_record (enc_record r) = Inr r"
  by (cases r)
    (simp add: plain_record_def dec_record_def enc_record_def dec_struct_def zero_record_def dec_plain_member dec_omitted_record)

lemma json_ok_record: "json_ok (enc_record r)"
  by (simp add: enc_record_def omit_str_def omit_int_def)

lemma read_record: "jfirst (jprint (enc_record r)) = Raw (enc_record r)"
  by (rule jparse_jprint [OF json_ok_record])

lemma enc_record_inj: "enc_record r = enc_record r' \<Longrightarrow> r = r'"
proof -
  assume "enc_record r = enc_record r'"
  then have m: "map_of (case enc_record r of JObj kvs \<Rightarrow> kvs) k = map_of (case enc_record r' of JObj kvs \<Rightarrow> kvs) k" for k by simp
  have o: "map_of (omit_str k s @ xs) k' = (if k' = k \<and> s \<noteq> [] then Some (JStr s) else map_of xs k')"
    "map_of (omit_int k i @ xs) k' = (if k' = k \<and> i \<noteq> 0 then Some (JInt i) else map_of xs k')" for k k' s i xs
    by (simp_all add: omit_str_def omit_int_def)
  note e = m [unfolded enc_record_def json.case append.simps append_assoc]
  have "uint (ar_sequence r) = uint (ar_sequence r')" using e [of "''sequence''"] by simp
  then have "ar_sequence r = ar_sequence r'" by (simp add: word_uint_eq_iff)
  moreover have "ar_timestamp r = ar_timestamp r'" using e [of "''timestamp''"] by simp
  moreover have "ar_profile r = ar_profile r'" using e [of "''profile''"] by simp
  moreover have "ar_phase r = ar_phase r'" using e [of "''phase''"] by simp
  moreover have "ar_principal r = ar_principal r'" using e [of "''principal''"] by (simp add: o del: map_of_append split: if_splits)
  moreover have "ar_method r = ar_method r'" using e [of "''method''"] by (simp add: o del: map_of_append)
  moreover have "ar_service r = ar_service r'" using e [of "''service''"] by (simp add: o del: map_of_append split: if_splits)
  moreover have "ar_route r = ar_route r'" using e [of "''route''"] by (simp add: o del: map_of_append split: if_splits)
  moreover have "ar_project r = ar_project r'" using e [of "''project''"] by (simp add: o del: map_of_append split: if_splits)
  moreover have "ar_status r = ar_status r'" using e [of "''status''"] by (simp add: o del: map_of_append split: if_splits)
  moreover have "ar_previous r = ar_previous r'" using e [of "''previousHash''"] by (simp add: o del: map_of_append split: if_splits)
  moreover have "ar_hash r = ar_hash r'" using e [of "''hash''"] by (simp add: o del: map_of_append)
  ultimately show ?thesis by (cases r; cases r') simp
qed

lemma print_record_inj: "jprint (enc_record r) = jprint (enc_record r') \<Longrightarrow> r = r'"
  by (rule enc_record_inj) (metis raw_message.inject read_record)

text \<open>The text a record's hash is taken over settles all but the hash.\<close>

definition hashed_text :: "audit_record \<Rightarrow> string" where
  "hashed_text r = jprint (enc_record (r\<lparr>ar_hash := []\<rparr>))"

lemma hashed_text_inj: "hashed_text r = hashed_text r' \<Longrightarrow> ar_hash r = ar_hash r' \<Longrightarrow> r = r'"
proof -
  assume h: "hashed_text r = hashed_text r'" "ar_hash r = ar_hash r'"
  have "r\<lparr>ar_hash := []\<rparr> = r'\<lparr>ar_hash := []\<rparr>" using print_record_inj h(1) by (simp add: hashed_text_def)
  then show ?thesis using h(2) by (cases r; cases r') simp
qed

section \<open>Chains\<close>

text \<open>What verification establishes of a list of records, from a sequence number and a hash on.\<close>

fun chained :: "(string \<Rightarrow> string) \<Rightarrow> 64 word \<Rightarrow> string \<Rightarrow> audit_record list \<Rightarrow> bool" where
  "chained digest seq prev [] \<longleftrightarrow> True"
| "chained digest seq prev (r # rs) \<longleftrightarrow>
     ar_sequence r = seq + 1 \<and> ar_previous r = prev \<and> ar_hash r \<noteq> [] \<and> ar_hash r = digest (hashed_text r) \<and>
     chained digest (ar_sequence r) (ar_hash r) rs"

definition last_sequence :: "audit_record list \<Rightarrow> 64 word" where
  "last_sequence rs = (if rs = [] then 0 else ar_sequence (last rs))"

definition last_hash :: "audit_record list \<Rightarrow> string" where
  "last_hash rs = (if rs = [] then [] else ar_hash (last rs))"

lemma chained_append:
  "chained digest seq prev (rs @ rs') \<longleftrightarrow> chained digest seq prev rs \<and>
     chained digest (if rs = [] then seq else ar_sequence (last rs)) (if rs = [] then prev else ar_hash (last rs)) rs'"
  by (induction rs arbitrary: seq prev) auto

lemma chained_snoc:
  "chained digest 0 [] (rs @ [r]) \<longleftrightarrow> chained digest 0 [] rs \<and> ar_sequence r = last_sequence rs + 1 \<and> ar_previous r = last_hash rs \<and>
     ar_hash r \<noteq> [] \<and> ar_hash r = digest (hashed_text r)"
  by (auto simp: chained_append last_sequence_def last_hash_def)

lemma last_snoc_simps [simp]:
  "last_sequence (rs @ [r]) = ar_sequence r" "last_hash (rs @ [r]) = ar_hash r" "last_sequence [] = 0" "last_hash [] = []"
  by (simp_all add: last_sequence_def last_hash_def)

lemma verify_lines_chained: "verify_lines digest seq prev ls = Inr rs \<Longrightarrow> chained digest seq prev rs"
proof (induction digest seq prev ls arbitrary: rs rule: verify_lines.induct)
  case (2 digest seq prev l ls)
  from 2(2) obtain j r rs' where r: "\<not> maxLine \<le> int (length l)" "jfirst (drop_cr l) = Raw j" "dec_record j = Inr r"
    "ar_sequence r = seq + 1" "ar_previous r = prev" "ar_hash r \<noteq> []" "ar_hash r = hashAuditRecord digest r"
    "verify_lines digest (ar_sequence r) (ar_hash r) ls = Inr rs'" "rs = r # rs'"
    by (auto split: if_splits raw_message.splits sum.splits elim!: map_sum_Inr)
  have "chained digest (ar_sequence r) (ar_hash r) rs'" using 2(1) [OF r(1-3)] r(4-8) by simp
  with r show ?case by (simp add: hashAuditRecord_def hashed_text_def)
qed simp

definition short_line :: "audit_record \<Rightarrow> bool" where
  "short_line r \<longleftrightarrow> int (length (jprint (enc_record r))) < maxLine"

lemma verify_lines_records:
  "chained digest seq prev rs \<Longrightarrow> list_all plain_record rs \<Longrightarrow> list_all short_line rs \<Longrightarrow>
   verify_lines digest seq prev (map (\<lambda>r. jprint (enc_record r)) rs) = Inr rs"
proof (induction rs arbitrary: seq prev)
  case (Cons r rs)
  have c: "ar_sequence r = seq + 1" "ar_previous r = prev" "ar_hash r \<noteq> []" "ar_hash r = hashAuditRecord digest r"
    "chained digest (ar_sequence r) (ar_hash r) rs"
    using Cons.prems(1) unfolding chained.simps hashAuditRecord_def hashed_text_def by blast+
  have p: "dec_record (enc_record r) = Inr r" "\<not> maxLine \<le> int (length (jprint (enc_record r)))"
    using Cons.prems(2,3) by (simp_all add: short_line_def dec_enc_record)
  have "verify_lines digest (ar_sequence r) (ar_hash r) (map (\<lambda>r. jprint (enc_record r)) rs) = Inr rs"
    using Cons.prems(2,3) by (intro Cons.IH c(5)) simp_all
  with c(1-4) p show ?case by (simp del: chained.simps add: read_record)
qed simp

end
