(* ===== verification/Audit_Properties.thy ===== *)
theory Audit_Properties
  imports Audit_Chain
begin

text \<open>
  What the audit log guarantees: mutations are recorded around their dispatch, a log that verifies is
  settled by its checkpoint, and what an append cut short leaves behind.
\<close>

section \<open>Lines of new records are short\<close>

text \<open>The digests of the code are 64 hexadecimal digits.\<close>

definition hex_digest :: "(string \<Rightarrow> string) \<Rightarrow> bool" where
  "hex_digest digest \<longleftrightarrow> (\<forall>s. length (digest s) = 64)"

definition plain_time :: "string \<Rightarrow> bool" where
  "plain_time t \<longleftrightarrow> rfc3339 t \<and> canonical_time t = t"

abbreviation member_length :: "string \<times> json \<Rightarrow> nat" where
  "member_length \<equiv> \<lambda>(k, v). 6 * length k + 4 + length (jprint v)"

lemma omit_length:
  "sum_list (map member_length (omit_str k s)) \<le> 6 * length k + 6 + 6 * length s"
  "int64_range i \<Longrightarrow> sum_list (map member_length (omit_int k i)) \<le> 6 * length k + 25"
  using print_length [of s] int64_length [of i] by (simp_all add: omit_str_def omit_int_def)

lemma short_record:
  assumes "length (ar_timestamp r) \<le> 35" and "length (ar_profile r) \<le> 131" and "length (ar_phase r) \<le> 8" and "length (ar_principal r) \<le> 259"
    and "length (ar_method r) \<le> 19" and "length (ar_service r) \<le> 256" and "length (ar_route r) \<le> 515" and "length (ar_project r) \<le> 131"
    and "length (ar_previous r) \<le> 64" and "length (ar_hash r) \<le> 64" and "int64_range (ar_status r)"
  shows "short_line r"
proof -
  note p = print_length [of "ar_timestamp r"] print_length [of "ar_profile r"] print_length [of "ar_phase r"] print_length [of "ar_method r"]
    print_length [of "ar_hash r"] uint_length [of "ar_sequence r"]
  note o = omit_length(1) [of "''principal''" "ar_principal r"] omit_length(1) [of "''service''" "ar_service r"]
    omit_length(1) [of "''route''" "ar_route r"] omit_length(1) [of "''project''" "ar_project r"]
    omit_length(1) [of "''previousHash''" "ar_previous r"] omit_length(2) [OF assms(11), of "''status''"]
  have "length (jprint (enc_record r)) \<le> 20000"
    unfolding enc_record_def
    by (rule order_trans [OF object_length]) (use p o assms(1-10) in \<open>simp del: jprint.simps(6,7)\<close>)
  then show ?thesis by (simp add: short_line_def maxLine_def)
qed

section \<open>Logs in order\<close>

definition checkpoint_text :: "64 word \<Rightarrow> string \<Rightarrow> string" where
  "checkpoint_text seq h = jprint (enc_checkpoint \<lparr>ckp_sequence = seq, ckp_hash = h\<rparr>) @ [newline]"

definition disk_good :: "(string \<Rightarrow> string) \<Rightarrow> audit_disk \<Rightarrow> audit_record list \<Rightarrow> bool" where
  "disk_good digest d rs \<longleftrightarrow>
     ad_log d = Regular (concat (map record_line rs)) \<and>
     ad_checkpoint d = (if rs = [] then Missing else Regular (checkpoint_text (last_sequence rs) (last_hash rs))) \<and>
     chained digest 0 [] rs \<and> list_all plain_record rs \<and> list_all short_line rs"

definition log_at :: "audit_log \<Rightarrow> audit_record list \<Rightarrow> bool" where
  "log_at a rs \<longleftrightarrow> al_sequence a = last_sequence rs \<and> al_last a = last_hash rs"

lemma jfirst_newline: "json_ok v \<Longrightarrow> jfirst (jprint v @ [newline]) = Raw v"
proof -
  assume ok: "json_ok v"
  have "reads_back (length (jprint v @ [newline])) v"
    using steps_length [OF ok] by (intro read_value_back [OF ok]) simp
  moreover have "ended [newline]" by (simp add: ended_def newline_def number_char_def is_digit_def)
  moreover have "skip (jprint v @ [newline]) \<noteq> []" using jprint_first [OF ok] by (auto simp: dropWhile_append)
  ultimately show ?thesis by (simp add: jfirst_def reads_back_def)
qed

lemma read_checkpoint: "jfirst (checkpoint_text seq h) = Raw (enc_checkpoint \<lparr>ckp_sequence = seq, ckp_hash = h\<rparr>)"
  unfolding checkpoint_text_def by (rule jfirst_newline) (simp add: enc_checkpoint_def)

lemma dec_enc_checkpoint: "dec_checkpoint (enc_checkpoint c) = Inr c"
  by (cases c) (simp add: dec_checkpoint_def enc_checkpoint_def dec_struct_def dec_checkpoint_member_def set_text_def)

lemma read_disk_good: "disk_good digest d rs \<Longrightarrow> readAndVerifyAudit digest (ad_log d) = Inr rs"
  by (simp add: disk_good_def readAndVerifyAudit_def raw_lines_records verify_lines_records)

lemma good_verify: "disk_good digest d rs \<Longrightarrow> verifyAuditPath digest d = Inr rs"
  using read_disk_good [of digest d rs]
  by (auto simp: verifyAuditPath_def disk_good_def read_checkpoint dec_enc_checkpoint last_sequence_def last_hash_def)

lemma good_empty: "disk_good digest \<lparr>ad_log = Regular [], ad_checkpoint = Missing\<rparr> []"
  by (simp add: disk_good_def)

lemma open_good:
  "disk_good digest d rs \<Longrightarrow> OpenAuditLog digest o' dir profile strict d = (Inr a, d') \<Longrightarrow> d' = d \<and> log_at a rs \<and> al_open a"
proof -
  assume good: "disk_good digest d rs" and op: "OpenAuditLog digest o' dir profile strict d = (Inr a, d')"
  have "ad_log d \<noteq> Missing" using good by (simp add: disk_good_def)
  then show ?thesis using op
    by (auto simp: OpenAuditLog_def good_verify [OF good] Let_def log_at_def last_sequence_def last_hash_def split: if_splits)
qed

lemma open_fresh:
  "OpenAuditLog digest o' dir profile strict \<lparr>ad_log = Missing, ad_checkpoint = Missing\<rparr> = (Inr a, d') \<Longrightarrow>
   disk_good digest d' [] \<and> log_at a [] \<and> al_open a"
  by (auto simp: OpenAuditLog_def verifyAuditPath_def readAndVerifyAudit_def log_at_def disk_good_def Let_def split: if_splits)

lemma last_hash_length: "hex_digest digest \<Longrightarrow> chained digest 0 [] rs \<Longrightarrow> length (last_hash rs) \<le> 64"
  by (cases rs rule: rev_cases) (simp_all add: chained_snoc hex_digest_def)

lemma new_record_simps [simp]:
  "ar_sequence (new_record digest a now ev phase status) = al_sequence a + 1"
  "ar_timestamp (new_record digest a now ev phase status) = now"
  "ar_phase (new_record digest a now ev phase status) = phase"
  "ar_status (new_record digest a now ev phase status) = status"
  "ar_principal (new_record digest a now ev phase status) = sanitizeAuditPrincipal (ev_principal ev)"
  "ar_method (new_record digest a now ev phase status) = sanitizeAuditValue (map upper_char (ev_method ev)) 16"
  "ar_previous (new_record digest a now ev phase status) = al_last a"
  "ar_hash (new_record digest a now ev phase status) = digest (hashed_text (new_record digest a now ev phase status))"
  by (simp_all add: new_record_def Let_def hashAuditRecord_def hashed_text_def)

lemma new_record_good:
  assumes "hex_digest digest" and "chained digest 0 [] rs" and "log_at a rs" and "plain_time now" and "length phase \<le> 8" and "int64_range status"
  shows "chained digest 0 [] (rs @ [new_record digest a now ev phase status])" "plain_record (new_record digest a now ev phase status)"
    "short_line (new_record digest a now ev phase status)"
proof -
  let ?r = "new_record digest a now ev phase status"
  have h: "length (digest x) = 64" for x using assms(1) by (simp add: hex_digest_def)
  then have "ar_hash ?r \<noteq> []" by (metis length_0_conv new_record_simps(8) zero_neq_numeral)
  then show "chained digest 0 [] (rs @ [?r])" using assms(2,3) by (simp add: chained_snoc log_at_def)
  show "plain_record ?r" using assms(4,6) by (simp add: plain_record_def plain_time_def)
  show "short_line ?r"
  proof (rule short_record)
    show "length (ar_timestamp ?r) \<le> 35" using assms(4) canonical_length [of now] by (simp add: plain_time_def)
    show "length (ar_principal ?r) \<le> 259" by (simp add: principal_length)
    show "length (ar_previous ?r) \<le> 64" using last_hash_length [OF assms(1,2)] assms(3) by (simp add: log_at_def)
  qed (use h assms(5,6) sanitize_length [of 128] sanitize_length [of 16] sanitize_length [of 253] sanitize_length [of 512] in
      \<open>simp_all add: new_record_def Let_def hashAuditRecord_def\<close>)
qed

lemma append_good:
  assumes "hex_digest digest" and "disk_good digest d rs" and "log_at a rs" and "al_open a" and "plain_time now" and "length phase \<le> 8"
    and "int64_range status"
  shows "\<exists>a' d'. append_record digest all_well now ev phase status a d = (None, a', d') \<and>
    disk_good digest d' (rs @ [new_record digest a now ev phase status]) \<and> log_at a' (rs @ [new_record digest a now ev phase status]) \<and>
    al_open a' \<and> al_strict a' = al_strict a \<and> al_profile a' = al_profile a"
proof -
  note n = new_record_good [OF assms(1) _ assms(3,5-7), of ev]
  show ?thesis using assms(2-4) n
    by (simp add: append_record_def all_well_def Let_def disk_good_def log_at_def append_bytes_def checkpoint_text_def)
qed

section \<open>Requests on a log in order\<close>

definition state_good :: "(string \<Rightarrow> string) \<Rightarrow> 's audit_state \<Rightarrow> audit_record list \<Rightarrow> bool" where
  "state_good digest s rs \<longleftrightarrow> disk_good digest (as_disk s) rs \<and> log_at (as_log s) rs"

text \<open>The events a request gives: with what the handler left in the request's headers, and without.\<close>

definition event_of :: "(http_request \<Rightarrow> audit_event) option \<Rightarrow> http_request \<Rightarrow> audit_event" where
  "event_of resolve r =
     (case resolve of Some f \<Rightarrow> (f r)\<lparr>ev_method := rq_method r\<rparr>
      | None \<Rightarrow> \<lparr>ev_principal = [], ev_method = rq_method r, ev_service = [], ev_route = [], ev_project = []\<rparr>)"

definition completed_event :: "http_request \<Rightarrow> audit_event \<Rightarrow> audit_event" where
  "completed_event r' ev = ev\<lparr>ev_principal := trim_space (header r' ''X-Minisky-Principal'')\<rparr>"

definition answered :: "int \<Rightarrow> int" where "answered code = (if code = 0 then 200 else code)"

lemma answered_range: "int64_range code \<Longrightarrow> int64_range (answered code)"
  by (simp add: answered_def int64_range_def)

lemma audit_append_good:
  assumes "hex_digest digest" and "state_good digest s rs" and "al_open (as_log s)" and "plain_time now" and "length phase \<le> 8" and "int64_range status"
  shows "\<exists>s'. audit_append digest all_well now ev phase status s = (None, s') \<and>
    state_good digest s' (rs @ [new_record digest (as_log s) now ev phase status]) \<and> al_open (as_log s') \<and>
    al_strict (as_log s') = al_strict (as_log s) \<and> al_profile (as_log s') = al_profile (as_log s) \<and> as_behind s' = as_behind s"
  using append_good [OF assms(1) _ _ assms(3-6), of "as_disk s" rs ev] assms(2)
  by (auto simp: audit_append_def state_good_def)

lemma dispatch_good:
  assumes "hex_digest digest" and "state_good digest s rs" and "al_open (as_log s)" and "plain_time now"
    and "next' r (as_behind s) = (code, r', b)" and "int64_range code"
  shows "\<exists>s'. dispatch digest all_well now next' r ev s = (Dispatched (answered code), s') \<and>
    state_good digest s' (rs @ [new_record digest (as_log s) now (completed_event r' ev) ''complete'' (answered code)]) \<and>
    al_open (as_log s') \<and> as_behind s' = b"
  using audit_append_good [OF assms(1) _ _ assms(4) _ answered_range [OF assms(6)], of "s\<lparr>as_behind := b\<rparr>" rs "''complete''" "completed_event r' ev"]
    assms(2,3,5)
  by (auto simp: dispatch_def state_good_def answered_def completed_event_def)

lemma closed_append: "\<not> al_open (as_log s) \<Longrightarrow> audit_append digest o' now ev phase status s =
   (Some AuditClosed, s\<lparr>as_log := recordPersistenceError AuditClosed (as_log s)\<rparr>)"
  by (simp add: audit_append_def append_record_def)

lemma record_error_simps [simp]:
  "al_sequence (recordPersistenceError e a) = al_sequence a" "al_last (recordPersistenceError e a) = al_last a"
  "al_open (recordPersistenceError e a) = al_open a" "al_error (recordPersistenceError e a) \<noteq> None"
  by (simp_all add: recordPersistenceError_def)

lemma Wrap_closed_good:
  assumes "state_good digest s rs" and "\<not> al_open (as_log s)" and "Wrap digest os nows next' resolve r s = (ans, s')"
  shows "state_good digest s' rs"
  using assms by (auto simp: Wrap_def dispatch_def closed_append state_good_def log_at_def Let_def split: if_splits prod.splits)

text \<open>What an open log holds of one more mutation.\<close>

lemma Wrap_good:
  assumes "hex_digest digest" and "state_good digest s rs" and "al_open (as_log s)" and "plain_time t1" and "plain_time t2"
    and "next' r (as_behind s) = (code, r', b)" and "int64_range code" and "isMutationMethod (rq_method r)"
  shows "\<exists>s' before after. Wrap digest (all_well, all_well) (t1, t2) next' resolve r s = (Dispatched (answered code), s') \<and>
    state_good digest s' (rs @ before @ [after]) \<and> as_behind s' = b \<and> al_open (as_log s') \<and>
    (if al_strict (as_log s)
     then before = [new_record digest (as_log s) t1 ((event_of resolve r)\<lparr>ev_principal := []\<rparr>) ''attempt'' 0] else before = []) \<and>
    ar_phase after = ''complete'' \<and> ar_status after = answered code \<and> ar_timestamp after = t2 \<and>
    ar_method after = sanitizeAuditValue (map upper_char (rq_method r)) 16 \<and>
    ar_principal after = sanitizeAuditPrincipal (trim_space (header r' ''X-Minisky-Principal''))"
proof -
  let ?ev = "event_of resolve r"
  have m: "ev_method ?ev = rq_method r" by (simp add: event_of_def split: option.splits)
  have zero: "int64_range 0" by (simp add: int64_range_def)
  show ?thesis
  proof (cases "al_strict (as_log s)")
    case True
    obtain s1 where s1: "audit_append digest all_well t1 (?ev\<lparr>ev_principal := []\<rparr>) ''attempt'' 0 s = (None, s1)"
      "state_good digest s1 (rs @ [new_record digest (as_log s) t1 (?ev\<lparr>ev_principal := []\<rparr>) ''attempt'' 0])" "al_open (as_log s1)"
      "as_behind s1 = as_behind s"
      using audit_append_good [OF assms(1-4) _ zero, of "''attempt''" "?ev\<lparr>ev_principal := []\<rparr>"] by auto
    obtain s2 where "dispatch digest all_well t2 next' r ?ev s1 = (Dispatched (answered code), s2)"
      "state_good digest s2 ((rs @ [new_record digest (as_log s) t1 (?ev\<lparr>ev_principal := []\<rparr>) ''attempt'' 0]) @
        [new_record digest (as_log s1) t2 (completed_event r' ?ev) ''complete'' (answered code)])" "al_open (as_log s2)" "as_behind s2 = b"
      using dispatch_good [where next' = next' and r = r and r' = r' and b = b and code = code, OF assms(1) s1(2,3) assms(5) _ assms(7)] assms(6) s1(4) by metis
    then show ?thesis using True s1(1) assms(8) m
      by (auto simp: Wrap_def Let_def event_of_def [symmetric] completed_event_def intro!: exI)
  next
    case False
    obtain s2 where "dispatch digest all_well t2 next' r ?ev s = (Dispatched (answered code), s2)"
      "state_good digest s2 (rs @ [new_record digest (as_log s) t2 (completed_event r' ?ev) ''complete'' (answered code)])"
      "al_open (as_log s2)" "as_behind s2 = b"
      using dispatch_good [where next' = next' and r = r and r' = r' and b = b and code = code, OF assms(1-3,5-7)] by metis
    then show ?thesis using False assms(8) m
      by (auto simp: Wrap_def Let_def event_of_def [symmetric] completed_event_def intro!: exI)
  qed
qed

end
