(* ===== verification/Audit_Guarantees.thy ===== *)
theory Audit_Guarantees
  imports Audit_Properties
begin

text \<open>
  The guarantees of the audit log over its life: opened on an empty directory, serving requests, closed,
  and opened again.
\<close>

section \<open>What is recorded of a value\<close>

text \<open>
  C38: The sanitizer cuts at whole runes.  Reading the value as runes, a byte that is no UTF-8 as the
  replacement character, what is written is the shortest prefix that reaches the limit in bytes of the
  trimmed value's runes that are no control characters, all of them when none does; it exceeds the limit
  by at most three bytes.  A principal is written so too, unless it shows a credential, and then it is
  replaced; what is written shows none.
\<close>
theorem sanitizer_reference:
  assumes "0 < limit"
  shows "(\<exists>ps qs. filter (Not \<circ> rune_control) (trim_runes (runes v)) = ps @ qs \<and> sanitizeAuditValue v limit = rune_text ps \<and>
      (qs = [] \<or> limit \<le> length (rune_text ps)) \<and> (ps \<noteq> [] \<longrightarrow> length (rune_text (butlast ps)) < limit)) \<and>
    length (sanitizeAuditValue v limit) \<le> limit + 3 \<and>
    sanitizeAuditPrincipal v =
      (let s = sanitizeAuditValue v 256 in
       if (\<exists>a b. to_lower s = a @ ''bearer '' @ b) \<or> (\<exists>b. to_lower s = ''ms1.'' @ b) then ''[REDACTED]'' else s) \<and>
    \<not> has_prefix (to_lower (sanitizeAuditPrincipal v)) ''ms1.'' \<and> \<not> contains (to_lower (sanitizeAuditPrincipal v)) ''bearer ''"
proof -
  have "\<not> has_prefix (to_lower ''[REDACTED]'') ''ms1.''" "\<not> contains (to_lower ''[REDACTED]'') ''bearer ''" by code_simp+
  moreover have "\<exists>ps qs. filter (Not \<circ> rune_control) (trim_runes (runes v)) = ps @ qs \<and> sanitizeAuditValue v limit = rune_text ps \<and>
      (qs = [] \<or> limit \<le> length (rune_text ps)) \<and> (ps \<noteq> [] \<longrightarrow> length (rune_text (butlast ps)) < limit)"
    using sanitize_cut [OF assms, of v] by (auto simp: cut_at_def)
  moreover have "contains x y \<longleftrightarrow> (\<exists>a b. x = a @ y @ b)" for x y by (auto simp: contains_iff)
  ultimately show ?thesis using sanitize_length [OF assms, of v]
    by (simp add: sanitizeAuditPrincipal_def Let_def has_prefix_iff)
qed

text \<open>Three runes of two, three and one byte, between a no-break space and a C1 control; cut at four bytes.\<close>

theorem sanitizer_reference_witness:
  "sanitizeAuditValue [CHR 0xC2, CHR 0xA0, CHR 0xC3, CHR 0xA9, CHR 0xC2, CHR 0x85, CHR 0xFF, CHR ''a''] 4 =
     [CHR 0xC3, CHR 0xA9, CHR 0xEF, CHR 0xBF, CHR 0xBD] \<and>
   length (sanitizeAuditValue [CHR 0xC2, CHR 0xA0, CHR 0xC3, CHR 0xA9, CHR 0xC2, CHR 0x85, CHR 0xFF, CHR ''a''] 4) \<le> 7 \<and>
   sanitizeAuditPrincipal ''user:ada'' = ''user:ada''"
proof -
  let ?v = "[CHR 0xC2, CHR 0xA0, CHR 0xC3, CHR 0xA9, CHR 0xC2, CHR 0x85, CHR 0xFF, CHR ''a'']"
  have "runes ?v = [160, 233, 133, 65533, 97]"
    by (simp add: runes_def decode_rune_def continuation_def)
  then have "trim_runes (runes ?v) = [233, 133, 65533, 97]" by (simp add: trim_runes_def rune_space_def)
  moreover have "char_of (195 :: nat) = CHR 0xC3" "char_of (169 :: nat) = CHR 0xA9" "char_of (239 :: nat) = CHR 0xEF"
    "char_of (191 :: nat) = CHR 0xBF" "char_of (189 :: nat) = CHR 0xBD" by code_simp+
  ultimately have "sanitizeAuditValue ?v 4 = [CHR 0xC3, CHR 0xA9, CHR 0xEF, CHR 0xBF, CHR 0xBD]"
    by (simp add: sanitizeAuditValue_def rune_control_def rune_bytes_def Let_def)
  moreover have "sanitizeAuditPrincipal ''user:ada'' = ''user:ada''" by code_simp
  ultimately show ?thesis using sanitizer_reference [of 4 ?v] by simp
qed

section \<open>The life of a log\<close>

inductive audit_reach :: "(string \<Rightarrow> string) \<Rightarrow> 's audit_state \<Rightarrow> bool" for digest where
  opened: "OpenAuditLog digest o' dir profile strict \<lparr>ad_log = Missing, ad_checkpoint = Missing\<rparr> = (Inr a, d) \<Longrightarrow>
     audit_reach digest \<lparr>as_log = a, as_disk = d, as_behind = b\<rparr>"
| served: "audit_reach digest s \<Longrightarrow> plain_time t1 \<Longrightarrow> plain_time t2 \<Longrightarrow> int64_range (fst (next' r (as_behind s))) \<Longrightarrow>
     audit_reach digest (snd (Wrap digest (all_well, all_well) (t1, t2) next' resolve r s))"
| closed: "audit_reach digest s \<Longrightarrow> audit_reach digest (s\<lparr>as_log := Close (as_log s)\<rparr>)"
| reopened: "audit_reach digest s \<Longrightarrow> OpenAuditLog digest o' dir profile strict (as_disk s) = (Inr a, d) \<Longrightarrow>
     audit_reach digest (s\<lparr>as_log := a, as_disk := d\<rparr>)"

lemma Wrap_reading: "\<not> isMutationMethod (rq_method r) \<Longrightarrow> next' r (as_behind s) = (code, r', b) \<Longrightarrow>
   Wrap digest os nows next' resolve r s = (Dispatched (answered code), s\<lparr>as_behind := b\<rparr>)"
  by (simp add: Wrap_def answered_def)

lemma reach_good: "audit_reach digest s \<Longrightarrow> hex_digest digest \<Longrightarrow> \<exists>rs. state_good digest s rs"
proof (induction rule: audit_reach.induct)
  case (opened o' dir profile strict a d b)
  then show ?case using open_fresh [OF opened(1)] by (auto simp: state_good_def)
next
  case (served s t1 t2 next' r resolve)
  then obtain rs where g: "state_good digest s rs" by blast
  obtain code r' b where n: "next' r (as_behind s) = (code, r', b)" by (cases "next' r (as_behind s)")
  show ?case
  proof (cases "isMutationMethod (rq_method r) \<and> al_open (as_log s)")
    case True
    then show ?thesis
      using Wrap_good [where next' = next' and r = r and r' = r' and b = b and code = code, OF served(6) g _ served(2,3) n, of resolve] served(4) n by fastforce
  next
    case False
    then consider "\<not> isMutationMethod (rq_method r)" | "\<not> al_open (as_log s)" by blast
    then show ?thesis
    proof cases
      case 1
      then show ?thesis using g Wrap_reading [where next' = next' and s = s and r' = r' and b = b and code = code, OF 1 n] by (auto simp: state_good_def)
    next
      case 2
      then show ?thesis using Wrap_closed_good [OF g 2] by (metis prod.collapse)
    qed
  qed
next
  case (closed s)
  then show ?case by (auto simp: state_good_def log_at_def Close_def)
next
  case (reopened s o' dir profile strict a d)
  then obtain rs where "state_good digest s rs" by blast
  then show ?case using open_good [OF _ reopened(2)] by (auto simp: state_good_def)
qed

lemma good_read: "state_good digest s rs \<Longrightarrow> verifyAuditPath digest (as_disk s) = Inr rs"
  by (simp add: state_good_def good_verify)

text \<open>
  Every mutation is recorded.  On the disk of a log that has served any requests, the records verify;
  after one more mutation they verify again, and are the ones there were, then, in strict mode, the attempt,
  written before the dispatch and without a principal, then the outcome: its status, the method, and the
  principal the handler left in the request.
\<close>
theorem mutation_is_recorded:
  assumes "audit_reach digest s" and "hex_digest digest" and "al_open (as_log s)" and "plain_time t1" and "plain_time t2"
    and "next' r (as_behind s) = (code, r', b)" and "int64_range code" and "isMutationMethod (rq_method r)"
  shows "\<exists>rs s' before after. verifyAuditPath digest (as_disk s) = Inr rs \<and>
    Wrap digest (all_well, all_well) (t1, t2) next' resolve r s = (Dispatched (answered code), s') \<and> as_behind s' = b \<and>
    verifyAuditPath digest (as_disk s') = Inr (rs @ before @ [after]) \<and>
    map (\<lambda>x. (ar_phase x, ar_principal x, ar_status x)) before = (if al_strict (as_log s) then [(''attempt'', [], 0)] else []) \<and>
    ar_phase after = ''complete'' \<and> ar_status after = answered code \<and>
    ar_method after = sanitizeAuditValue (map upper_char (rq_method r)) 16 \<and>
    ar_principal after = sanitizeAuditPrincipal (trim_space (header r' ''X-Minisky-Principal''))"
proof -
  have e: "sanitizeAuditPrincipal [] = []" by code_simp
  obtain rs where g: "state_good digest s rs" using reach_good [OF assms(1,2)] by blast
  obtain s' before after where w: "Wrap digest (all_well, all_well) (t1, t2) next' resolve r s = (Dispatched (answered code), s')"
    "state_good digest s' (rs @ before @ [after])" "as_behind s' = b"
    "if al_strict (as_log s)
     then before = [new_record digest (as_log s) t1 ((event_of resolve r)\<lparr>ev_principal := []\<rparr>) ''attempt'' 0] else before = []"
    "ar_phase after = ''complete''" "ar_status after = answered code"
    "ar_method after = sanitizeAuditValue (map upper_char (rq_method r)) 16"
    "ar_principal after = sanitizeAuditPrincipal (trim_space (header r' ''X-Minisky-Principal''))"
    using Wrap_good [where next' = next' and r = r and r' = r' and b = b and code = code, OF assms(2) g assms(3-8), of resolve] by blast
  have "map (\<lambda>x. (ar_phase x, ar_principal x, ar_status x)) before = (if al_strict (as_log s) then [(''attempt'', [], 0)] else [])"
    using w(4) e by (auto split: if_splits)
  then show ?thesis using good_read [OF g] good_read [OF w(2)] w by (intro exI [of _ rs] exI [of _ s'] exI [of _ before] exI [of _ after]) blast
qed

section \<open>The checkpoint settles the log\<close>

lemma verify_read: "verifyAuditPath digest d = Inr rs \<Longrightarrow> readAndVerifyAudit digest (ad_log d) = Inr rs"
  unfolding verifyAuditPath_def
  by (cases "readAndVerifyAudit digest (ad_log d)")
    (simp_all split: if_split_asm node.split_asm raw_message.split_asm sum.split_asm)

lemma verify_chained: "verifyAuditPath digest d = Inr rs \<Longrightarrow> chained digest 0 [] rs"
  by (drule verify_read, cases "ad_log d") (auto simp: readAndVerifyAudit_def intro: verify_lines_chained)

text \<open>What a checkpoint says of the records it verifies with.\<close>

definition checkpoint_says :: "node \<Rightarrow> string option" where
  "checkpoint_says f =
     (case f of Regular text \<Rightarrow> (case jfirst text of
          Raw j \<Rightarrow> (case dec_checkpoint j of Inr c \<Rightarrow> Some (ckp_hash c) | Inl e \<Rightarrow> None) | _ \<Rightarrow> None)
      | _ \<Rightarrow> None)"

lemma verify_says: "verifyAuditPath digest d = Inr rs \<Longrightarrow> (case checkpoint_says (ad_checkpoint d) of None \<Rightarrow> rs = [] | Some h \<Rightarrow> rs \<noteq> [] \<and> h = last_hash rs)"
  unfolding verifyAuditPath_def checkpoint_says_def
  by (cases "readAndVerifyAudit digest (ad_log d)")
    (simp_all add: last_hash_def split: if_split_asm node.split_asm raw_message.split_asm sum.split_asm)

lemma verify_checkpoint:
  assumes "verifyAuditPath digest d = Inr rs" and "verifyAuditPath digest d' = Inr rs'" and "ad_checkpoint d' = ad_checkpoint d"
  shows "last_hash rs = last_hash rs'"
  using verify_says [OF assms(1)] verify_says [OF assms(2)] assms(3) by (auto split: option.splits)

lemma chained_last: "chained digest 0 [] rs \<Longrightarrow> rs \<noteq> [] \<Longrightarrow> last_hash rs \<noteq> []"
  by (cases rs rule: rev_cases) (simp, metis chained_snoc last_snoc_simps(2))

lemma chained_unique:
  assumes "chained digest 0 [] rs" and "chained digest 0 [] rs'" and "last_hash rs = last_hash rs'"
    and "inj_on digest (hashed_text ` (set rs \<union> set rs'))"
  shows "rs = rs'"
  using assms
proof (induction rs arbitrary: rs' rule: rev_induct)
  case Nil
  then show ?case using chained_last [of digest rs'] by (metis last_snoc_simps(4))
next
  case (snoc r rs)
  have "last_hash (rs @ [r]) \<noteq> []" using snoc.prems(1) chained_last by blast
  then have "rs' \<noteq> []" using snoc.prems(3) by auto
  then obtain r' qs where rs': "rs' = qs @ [r']" by (cases rs' rule: rev_cases) auto
  have h: "ar_hash r = ar_hash r'" using snoc.prems(3) rs' by simp
  have c: "chained digest 0 [] rs" "ar_previous r = last_hash rs" "ar_hash r = digest (hashed_text r)"
    using snoc.prems(1) unfolding chained_snoc by blast+
  have c': "chained digest 0 [] qs" "ar_previous r' = last_hash qs" "ar_hash r' = digest (hashed_text r')"
    using snoc.prems(2) unfolding rs' chained_snoc by blast+
  have "digest (hashed_text r) = digest (hashed_text r')" by (simp only: c(3) [symmetric] c'(3) [symmetric] h)
  then have "hashed_text r = hashed_text r'"
    by (rule inj_onD [OF snoc.prems(4)]) (simp_all add: rs')
  then have r: "r = r'" using h by (rule hashed_text_inj)
  have "rs = qs"
  proof (rule snoc.IH)
    show "chained digest 0 [] rs" "chained digest 0 [] qs" by (rule c(1), rule c'(1))
    show "last_hash rs = last_hash qs" using c(2) c'(2) r by simp
    show "inj_on digest (hashed_text ` (set rs \<union> set qs))" by (rule inj_on_subset [OF snoc.prems(4)]) (auto simp: rs')
  qed
  with r rs' show ?case by simp
qed

text \<open>
  C19: no record can be altered, dropped, added or moved unnoticed.  Two logs that verify against the same
  checkpoint hold the same records, as long as the digest does not collide on the texts hashed in them.
\<close>
theorem checkpoint_settles_log:
  assumes "verifyAuditPath digest d = Inr rs" and "verifyAuditPath digest d' = Inr rs'" and "ad_checkpoint d' = ad_checkpoint d"
    and "inj_on digest (hashed_text ` (set rs \<union> set rs'))"
  shows "rs = rs'"
  using chained_unique [OF verify_chained verify_chained, OF assms(1,2) _ assms(4)] verify_checkpoint [OF assms(1-3)] by blast

section \<open>Strict mode\<close>

lemma append_None:
  assumes "append_record digest o' now ev phase status a d = (None, a', d')" and "ad_log d = Regular t"
  shows "al_open a \<and> ad_log d' = Regular (t @ record_line (new_record digest a now ev phase status)) \<and> al_error a' = al_error a"
  using assms by (auto simp: append_record_def Let_def append_bytes_def split: if_splits option.splits)

lemma append_grows: "append_record digest o' now ev phase status a d = (e, a', d') \<Longrightarrow> ad_log d = Regular t \<Longrightarrow> \<exists>u. ad_log d' = Regular (t @ u)"
  by (auto simp: append_record_def Let_def append_bytes_def split: if_splits option.splits)

lemma record_error_Some: "\<exists>e'. al_error (recordPersistenceError e a) = Some e'"
  by (auto simp: recordPersistenceError_def)

lemma append_Some: "append_record digest o' now ev phase status a d = (Some e, a', d') \<Longrightarrow> al_error a' \<noteq> None"
  by (auto simp: record_error_Some append_record_def Let_def split: if_splits option.splits)

text \<open>
  C20: in strict mode nothing is dispatched unrecorded.  Whatever the system calls do, a mutation either
  reaches the handler with its attempt already appended to the log, or is refused, the state behind the
  handler as it was and the failure remembered for the health check.
\<close>
theorem strict_records_before_dispatch:
  assumes "al_strict (as_log s)" and "isMutationMethod (rq_method r)" and "ad_log (as_disk s) = Regular t"
    and "Wrap digest os nows next' resolve r s = (answer, s')"
  shows "(\<exists>status ev rest. answer = Dispatched status \<and> al_open (as_log s) \<and> ev_principal ev = [] \<and> ev_method ev = rq_method r \<and>
      ad_log (as_disk s') = Regular (t @ record_line (new_record digest (as_log s) (fst nows) ev ''attempt'' 0) @ rest)) \<or>
    answer = AuditUnavailable \<and> as_behind s' = as_behind s \<and> al_error (as_log s') \<noteq> None"
proof -
  let ?ev = "(event_of resolve r)\<lparr>ev_principal := []\<rparr>"
  have m: "ev_principal ?ev = []" "ev_method ?ev = rq_method r" by (simp_all add: event_of_def split: option.splits)
  obtain e a d where a: "append_record digest (fst os) (fst nows) ?ev ''attempt'' 0 (as_log s) (as_disk s) = (e, a, d)"
    by (cases "append_record digest (fst os) (fst nows) ?ev ''attempt'' 0 (as_log s) (as_disk s)")
  show ?thesis
  proof (cases e)
    case None
    let ?s1 = "s\<lparr>as_log := a, as_disk := d\<rparr>"
    have w: "dispatch digest (snd os) (snd nows) next' r (event_of resolve r) ?s1 = (answer, s')"
      using assms(1,2,4) a None by (simp add: Wrap_def Let_def audit_append_def event_of_def [symmetric])
    note n = append_None [OF a [unfolded None] assms(3)]
    obtain status where "answer = Dispatched status" using w by (auto simp: dispatch_def Let_def split: prod.splits)
    moreover obtain rest where "ad_log (as_disk s') = Regular ((t @ record_line (new_record digest (as_log s) (fst nows) ?ev ''attempt'' 0)) @ rest)"
      using w n by (auto simp: dispatch_def Let_def audit_append_def split: prod.splits dest!: append_grows)
    ultimately show ?thesis using n m by (simp only: append_assoc) blast
  next
    case (Some x)
    then show ?thesis using assms(1,2,4) a append_Some [OF a [unfolded Some]]
      by (auto simp: Wrap_def Let_def audit_append_def event_of_def [symmetric])
  qed
qed

section \<open>Appends cut short\<close>

lemma next_word: "w + 1 \<noteq> (w :: 64 word)"
  by simp

lemma verify_lag:
  assumes "ad_log d = Regular (concat (map record_line (rs @ [r])))" and "chained digest 0 [] (rs @ [r])"
    and "list_all plain_record (rs @ [r])" and "list_all short_line (rs @ [r])"
    and "ad_checkpoint d = (if rs = [] then Missing else Regular (checkpoint_text (last_sequence rs) (last_hash rs)))"
  shows "verifyAuditPath digest d = Inl AuditTampered"
proof -
  have "readAndVerifyAudit digest (ad_log d) = Inr (rs @ [r])"
    unfolding readAndVerifyAudit_def assms(1) node.case raw_lines_records by (rule verify_lines_records [OF assms(2-4)])
  then show ?thesis using assms(1,2,5)
    by (auto simp: verifyAuditPath_def read_checkpoint dec_enc_checkpoint chained_snoc last_sequence_def)
qed

text \<open>
  A crash in the middle of an append disables the log.  When the process stops after a record is
  written and before its checkpoint is, the log left by a correct program no longer verifies: opening it
  again is refused as tampering, in every later start.
\<close>
theorem crash_reads_as_tampering:
  assumes "audit_reach digest s" and "hex_digest digest" and "al_open (as_log s)" and "plain_time now"
    and "ao_torn o' = None" and "\<not> ao_sync o' \<or> \<not> ao_checkpoint o'" and "int64_range status" and "length phase \<le> 8"
    and "append_record digest o' now ev phase status (as_log s) (as_disk s) = (e, a, d)"
  shows "e \<noteq> None \<and> verifyAuditPath digest d = Inl AuditTampered \<and>
    (\<forall>oo dir profile strict. \<exists>e'. OpenAuditLog digest oo dir profile strict d = (Inl e', d))"
proof -
  let ?r = "new_record digest (as_log s) now ev phase status"
  obtain rs where g: "disk_good digest (as_disk s) rs" "log_at (as_log s) rs"
    using reach_good [OF assms(1,2)] by (auto simp: state_good_def)
  have c: "chained digest 0 [] rs" "list_all plain_record rs" "list_all short_line rs" using g(1) by (simp_all add: disk_good_def)
  note n = new_record_good [OF assms(2) c(1) g(2) assms(4,8,7), of ev]
  have d: "ad_log d = Regular (concat (map record_line (rs @ [?r])))" "ad_checkpoint d = ad_checkpoint (as_disk s)" "e \<noteq> None"
    using assms(3,5,6,9) g(1) by (auto simp: append_record_def Let_def disk_good_def append_bytes_def split: if_splits)
  have "verifyAuditPath digest d = Inl AuditTampered"
    using verify_lag [OF d(1) n(1)] c(2,3) n(2,3) d(2) g(1) by (simp add: disk_good_def)
  then show ?thesis using d(3) by (auto simp: OpenAuditLog_def)
qed

section \<open>A concrete log\<close>

text \<open>A stand-in for the digest: 64 characters of the text from the sequence number on.\<close>

definition sample_digest :: "string \<Rightarrow> string" where
  "sample_digest s = take 64 (drop 12 s @ replicate 64 CHR ''0'')"

definition sample_opening :: open_outcome where
  "sample_opening = \<lparr>oo_profile_link = False, oo_mkdir = True, oo_private = True, oo_open = True, oo_mode = True\<rparr>"

definition sample_log :: audit_log where
  "sample_log = \<lparr>al_profile = ''dev'', al_strict = True, al_open = True, al_sequence = 0, al_last = [], al_error = None\<rparr>"

definition sample_state :: "nat audit_state" where
  "sample_state = \<lparr>as_log = sample_log, as_disk = \<lparr>ad_log = Regular [], ad_checkpoint = Missing\<rparr>, as_behind = 0\<rparr>"

definition sample_post :: http_request where
  "sample_post = \<lparr>rq_method = ''POST'', rq_path = ''/v1/things'', rq_header = [(''X-Minisky-Principal'', ''user:ada'')], rq_query = [], rq_body = RawNil\<rparr>"

definition counting :: "http_request \<Rightarrow> nat \<Rightarrow> int \<times> http_request \<times> nat" where
  "counting r n = (201, r, Suc n)"

definition sample_time :: string where "sample_time = ''2024-02-29T12:00:00.5Z''"

definition sample_event :: audit_event where
  "sample_event = \<lparr>ev_principal = ''user:ada'', ev_method = ''POST'', ev_service = ''things'', ev_route = [], ev_project = []\<rparr>"

lemma sample_hex: "hex_digest sample_digest"
proof -
  have "min (n - 12) 64 + (64 - (n - 12)) = (64 :: nat)" for n by simp
  then show ?thesis by (simp add: hex_digest_def sample_digest_def)
qed

lemma sample_plain: "plain_time sample_time"
  by code_simp

lemma sample_reach: "audit_reach sample_digest sample_state"
proof -
  have "trim_space ''/p'' = ''/p''" "trim_space ''dev'' = ''dev''" by code_simp+
  then have "OpenAuditLog sample_digest sample_opening ''/p'' ''dev'' True \<lparr>ad_log = Missing, ad_checkpoint = Missing\<rparr> =
      (Inr sample_log, \<lparr>ad_log = Regular [], ad_checkpoint = Missing\<rparr>)"
    by (simp add: OpenAuditLog_def verifyAuditPath_def readAndVerifyAudit_def sample_opening_def sample_log_def)
  then show ?thesis unfolding sample_state_def by (rule opened)
qed

lemma sample_sizes: "int64_range 201" "isMutationMethod (rq_method sample_post)" "al_open (as_log sample_state)" "al_strict (as_log sample_state)"
  by (simp_all add: int64_range_def isMutationMethod_def sample_post_def sample_state_def sample_log_def)

theorem mutation_is_recorded_witness:
  "\<exists>rs s' before after. verifyAuditPath sample_digest (as_disk sample_state) = Inr rs \<and>
    Wrap sample_digest (all_well, all_well) (sample_time, sample_time) counting None sample_post sample_state = (Dispatched 201, s') \<and>
    as_behind s' = 1 \<and> verifyAuditPath sample_digest (as_disk s') = Inr (rs @ before @ [after]) \<and>
    map (\<lambda>x. (ar_phase x, ar_principal x, ar_status x)) before = [(''attempt'', [], 0)] \<and>
    ar_phase after = ''complete'' \<and> ar_status after = 201 \<and> ar_method after = ''POST'' \<and> ar_principal after = ''user:ada''"
proof -
  have n: "counting sample_post (as_behind sample_state) = (201, sample_post, 1)" by (simp add: counting_def sample_state_def)
  have "sanitizeAuditValue (map upper_char (rq_method sample_post)) 16 = ''POST''"
    "sanitizeAuditPrincipal (trim_space (header sample_post ''X-Minisky-Principal'')) = ''user:ada''" "answered 201 = 201"
    by code_simp+
  with mutation_is_recorded [where next' = counting and r = sample_post and r' = sample_post and b = 1 and code = 201,
      OF sample_reach sample_hex sample_sizes(3) sample_plain sample_plain n sample_sizes(1,2), of None] sample_sizes(4)
  show ?thesis by simp
qed

lemma sample_log_opened: "disk_good sample_digest (as_disk sample_state) []" "log_at (as_log sample_state) []"
  by (simp_all add: sample_state_def disk_good_def log_at_def sample_log_def)

theorem checkpoint_settles_log_witness:
  "\<exists>d d' rs. verifyAuditPath sample_digest d = Inr rs \<and> verifyAuditPath sample_digest d' = Inr rs \<and> ad_log d \<noteq> ad_log d' \<and> length rs = 1"
proof -
  let ?r = "new_record sample_digest sample_log sample_time sample_event ''attempt'' 0"
  have zero: "int64_range 0" by (simp add: int64_range_def)
  have good: "chained sample_digest 0 [] [?r]" "plain_record ?r" "short_line ?r"
    using new_record_good [OF sample_hex _ _ sample_plain _ zero, of "[]" sample_log "''attempt''" sample_event]
    by (simp_all add: log_at_def sample_log_def)
  define d where "d = \<lparr>ad_log = Regular (record_line ?r), ad_checkpoint = Regular (checkpoint_text (ar_sequence ?r) (ar_hash ?r))\<rparr>"
  define d' where "d' = d\<lparr>ad_log := Regular (jprint (enc_record ?r))\<rparr>"
  have d: "verifyAuditPath sample_digest d = Inr [?r]"
    by (rule good_verify) (use good in \<open>simp add: disk_good_def d_def last_sequence_def last_hash_def\<close>)
  have "raw_lines (jprint (enc_record ?r)) = [jprint (enc_record ?r)]"
    unfolding raw_lines_def split_no_occ [OF record_no_newline] using jprint_first [OF json_ok_record, of ?r] by (auto simp: Let_def)
  then have "readAndVerifyAudit sample_digest (ad_log d') = Inr [?r]"
    using verify_lines_records [OF good(1)] good(2,3) by (simp add: readAndVerifyAudit_def d'_def)
  then have d': "verifyAuditPath sample_digest d' = Inr [?r]"
    by (simp add: verifyAuditPath_def d'_def d_def read_checkpoint dec_enc_checkpoint)
  have "[?r] = [?r]" by (rule checkpoint_settles_log [OF d d']) (simp_all add: d'_def)
  with d d' show ?thesis by (intro exI [of _ d] exI [of _ d'] exI [of _ "[?r]"]) (simp add: d'_def d_def record_line_def)
qed

theorem strict_records_before_dispatch_witness:
  "let s = sample_state\<lparr>as_log := Close sample_log\<rparr>;
       w = Wrap sample_digest (all_well, all_well) (sample_time, sample_time) counting None sample_post s
   in fst w = AuditUnavailable \<and> as_behind (snd w) = 0 \<and> al_error (as_log (snd w)) \<noteq> None"
proof -
  let ?s = "sample_state\<lparr>as_log := Close sample_log\<rparr>"
  obtain a s' where w: "Wrap sample_digest (all_well, all_well) (sample_time, sample_time) counting None sample_post ?s = (a, s')"
    by (cases "Wrap sample_digest (all_well, all_well) (sample_time, sample_time) counting None sample_post ?s")
  have "al_strict (as_log ?s)" "ad_log (as_disk ?s) = Regular []" "\<not> al_open (as_log ?s)" "as_behind ?s = 0"
    by (simp_all add: Close_def sample_log_def sample_state_def)
  with strict_records_before_dispatch [OF _ sample_sizes(2) _ w] show ?thesis by (auto simp: w Let_def)
qed

theorem crash_reads_as_tampering_witness:
  "\<exists>e a d. append_record sample_digest \<lparr>ao_torn = None, ao_sync = True, ao_checkpoint = False\<rparr> sample_time sample_event ''attempt'' 0
      (as_log sample_state) (as_disk sample_state) = (e, a, d) \<and> verifyAuditPath sample_digest d = Inl AuditTampered"
proof -
  let ?o = "\<lparr>ao_torn = None, ao_sync = True, ao_checkpoint = False\<rparr>"
  have zero: "int64_range 0" by (simp add: int64_range_def)
  obtain e a d where "append_record sample_digest ?o sample_time sample_event ''attempt'' 0 (as_log sample_state) (as_disk sample_state) = (e, a, d)"
    by (cases "append_record sample_digest ?o sample_time sample_event ''attempt'' 0 (as_log sample_state) (as_disk sample_state)")
  with crash_reads_as_tampering [OF sample_reach sample_hex sample_sizes(3) sample_plain _ _ zero _ this] show ?thesis by auto
qed

end
