(* ===== verification/Page_Token.thy ===== *)
theory Page_Token
  imports Pagination Json_Text Base64_Url Http
begin

text \<open>
  The text of a page token (\<open>encode\<close>, \<open>decode\<close> of \<open>pagination.go\<close>), and a page of a collection asked for by
  the query of a request, as the list handlers of the metadata shims do.
\<close>

definition enc_token :: "token_payload \<Rightarrow> json" where
  "enc_token p = JObj [(''v'', JInt (tp_version p)), (''s'', JStr (tp_scope p)), (''g'', JStr (tp_generation p)), (''a'', JStr (tp_after p))]"

definition zero_token :: token_payload where
  "zero_token = \<lparr>tp_version = 0, tp_scope = [], tp_generation = [], tp_after = []\<rparr>"

definition dec_token_member :: "string \<Rightarrow> json \<Rightarrow> token_payload \<Rightarrow> json_error + token_payload" where
  "dec_token_member k v p =
     (case match_field [''v'', ''s'', ''g'', ''a''] k of
        None \<Rightarrow> Inr p
      | Some f \<Rightarrow>
          if f = ''v'' then map_sum id (\<lambda>i. p\<lparr>tp_version := i\<rparr>) (dec_int v (tp_version p))
          else if f = ''s'' then map_sum id (\<lambda>s. p\<lparr>tp_scope := s\<rparr>) (dec_string v (tp_scope p))
          else if f = ''g'' then map_sum id (\<lambda>s. p\<lparr>tp_generation := s\<rparr>) (dec_string v (tp_generation p))
          else map_sum id (\<lambda>s. p\<lparr>tp_after := s\<rparr>) (dec_string v (tp_after p)))"

definition encode_token :: "token_payload \<Rightarrow> string" where
  "encode_token p = rawurl_encode (jprint (enc_token p))"

definition decode_token :: "string \<Rightarrow> page_token" where
  "decode_token s =
     (if s = [] then NoToken
      else case rawurl_decode s of
        None \<Rightarrow> BadToken
      | Some text \<Rightarrow>
          (case jparse text of
             Raw (JObj kvs) \<Rightarrow> (case decode_members dec_token_member kvs zero_token of Inr p \<Rightarrow> Token p | Inl e \<Rightarrow> BadToken)
           | Raw JNull \<Rightarrow> Token zero_token
           | _ \<Rightarrow> BadToken))"

text \<open>The text of the token that comes with a page; none is the empty string.\<close>

definition token_text :: "page_token \<Rightarrow> string" where
  "token_text t = (case t of Token p \<Rightarrow> encode_token p | _ \<Rightarrow> [])"

lemma decode_encode_token: "int64_range (tp_version p) \<Longrightarrow> decode_token (encode_token p) = Token p"
proof -
  assume v: "int64_range (tp_version p)"
  obtain c s where c: "jprint (enc_token p) = c # s" using jprint_first [of "enc_token p"] by (auto simp: enc_token_def)
  have "rawurl_encode (c # s) \<noteq> []"
  proof
    assume "rawurl_encode (c # s) = []"
    then have "rawurl_decode [] = Some (c # s)" by (metis rawurl_roundtrip)
    moreover have "rawurl_decode [] = Some []" by code_simp
    ultimately show False by simp
  qed
  then have "encode_token p \<noteq> []" by (simp add: encode_token_def c)
  moreover have "jparse (jprint (enc_token p)) = Raw (enc_token p)" by (rule jparse_jprint) (simp add: enc_token_def)
  moreover have "decode_members dec_token_member [(''v'', JInt (tp_version p)), (''s'', JStr (tp_scope p)), (''g'', JStr (tp_generation p)),
      (''a'', JStr (tp_after p))] zero_token = Inr p"
    using v by (simp add: dec_token_member_def zero_token_def)
  ultimately show ?thesis by (simp add: decode_token_def encode_token_def rawurl_roundtrip enc_token_def)
qed

section \<open>Pages asked for by a request\<close>

text \<open>The page size of a query: its positive number or the default, at most the limit.\<close>

definition page_size :: "int \<Rightarrow> http_request \<Rightarrow> int" where
  "page_size dflt r =
     (let n = (case atoi (query r ''pageSize'') of Some n \<Rightarrow> if 0 < n then n else dflt | None \<Rightarrow> dflt) in if 500 < n then 500 else n)"

lemma page_size_bounds: "0 < dflt \<Longrightarrow> dflt \<le> 500 \<Longrightarrow> 0 < page_size dflt r \<and> page_size dflt r \<le> 500"
  by (simp add: page_size_def Let_def split: option.split)

definition query_page ::
    "(string list \<Rightarrow> string) \<Rightarrow> int \<Rightarrow> scope \<Rightarrow> ('a \<Rightarrow> string) \<Rightarrow> 'a list \<Rightarrow> http_request \<Rightarrow> page_error + ('a list \<times> string)" where
  "query_page digest dflt s key items r =
     map_sum id (map_prod id token_text) (Page digest items (page_size dflt r) (decode_token (query r ''pageToken'')) s key)"

end
