(* ===== verification/Shim_Mutation.thy ===== *)
theory Shim_Mutation
  imports Operation_Properties Json_Into Page_Token
begin

text \<open>
  What the metadata shims share: their answers, the saving of their tables, and \<open>finishMutation\<close>, the
  protocol that ties a change of the tables to an operation of the manager.  The code has one copy of it in
  each of \<open>networksecurity\<close>, \<open>apigateway\<close>, \<open>clouddeploy\<close> and \<open>accesscontextmanager\<close>; they differ in whether a
  failed compensation is reported to the manager and in the asynchronous end.  The tables of a shim are
  one value.  The shim and the manager have a handle each on the document of the profile: what one writes the
  other reads, but each has its own latch, the shim's that of \<open>GuardedEntryStore\<close>.
\<close>

section \<open>Answers\<close>

text \<open>A JSON answer, or the code and status of an error; the text of an error message is not kept.\<close>

datatype reply = Reply json | Fail int string | ReplyPanics

definition paged :: "string \<Rightarrow> ('a \<Rightarrow> json) \<Rightarrow> page_error + ('a list \<times> string) \<Rightarrow> reply" where
  "paged name enc r =
     (case r of
        Inl InvalidToken \<Rightarrow> Fail 400 ''INVALID_ARGUMENT''
      | Inl PagePanics \<Rightarrow> ReplyPanics
      | Inr (page, next) \<Rightarrow> Reply (JObj [(name, JArr (map enc page)), (''nextPageToken'', JStr next)]))"

definition replied :: "reply \<times> 'a \<Rightarrow> bool" where
  "replied x = (case fst x of Reply v \<Rightarrow> True | _ \<Rightarrow> False)"

lemma repliedE: "replied x \<Longrightarrow> (\<And>v s. x = (Reply v, s) \<Longrightarrow> P) \<Longrightarrow> P"
  by (cases x) (auto simp: replied_def split: reply.splits)

definition refused :: "reply \<times> 'a \<Rightarrow> bool" where
  "refused x = (case fst x of Fail c e \<Rightarrow> c = 503 | _ \<Rightarrow> False)"

lemma refusedE: "refused x \<Longrightarrow> (\<And>e s. x = (Fail 503 e, s) \<Longrightarrow> P) \<Longrightarrow> P"
  by (cases x) (auto simp: refused_def split: reply.splits)

section \<open>State\<close>

text \<open>
  \<open>sh_degraded\<close> is the latch of the guarded store of the shim; the store itself is the one of the manager, or
  neither has one.
\<close>

record ('d, 's) shim =
  sh_data :: 'd
  sh_degraded :: "store_error option"
  sh_mgr :: "'s manager"

text \<open>The handle of the operation manager and the one the shim has opened.\<close>

record 's shim_api =
  sa_mgr :: "'s entry_api"
  sa_own :: "'s entry_api"

text \<open>
  A second handle on the disk of a store: it reads and writes the same document, and its failures do not reach
  the latch of the first.  Its own latch is set only together with the one of the guard before it, which
  then stops every call, so that it is open whenever it is asked.
\<close>

definition own_Save :: "string \<Rightarrow> json option \<Rightarrow> store \<Rightarrow> store_error option \<times> store" where
  "own_Save n v s = (case Save n v (s\<lparr>st_degraded := None\<rparr>) of (e, s') \<Rightarrow> (e, s'\<lparr>st_degraded := st_degraded s\<rparr>))"

definition own_Load :: "string \<Rightarrow> store \<Rightarrow> (store_error + json) \<times> store" where
  "own_Load n s = (case Load n (s\<lparr>st_degraded := None\<rparr>) of (r, s') \<Rightarrow> (r, s'\<lparr>st_degraded := st_degraded s\<rparr>))"

abbreviation shim_store :: "store shim_api" where
  "shim_store \<equiv> \<lparr>sa_mgr = store_api, sa_own = \<lparr>api_save = own_Save, api_load = own_Load\<rparr>\<rparr>"

text \<open>
  What distinguishes one shim: the name of its entry, the kind of its operations, the JSON of its tables, an
  error that stops saving, and whether it reports a failed compensation.
\<close>

record 'd shim_kind =
  sk_entry :: string
  sk_service :: string
  sk_enc :: "'d \<Rightarrow> json"
  sk_block :: "'d \<Rightarrow> store_error option"
  sk_marks :: bool

definition persistState :: "'s shim_api \<Rightarrow> 'd shim_kind \<Rightarrow> ('d, 's) shim \<Rightarrow> store_error option \<times> ('d, 's) shim" where
  "persistState api k st =
     (case om_store (sh_mgr st) of None \<Rightarrow> (None, st) | Some s \<Rightarrow>
      case sk_block k (sh_data st) of Some e \<Rightarrow> (Some e, st) | None \<Rightarrow>
      case guarded_Save (api_save (sa_own api)) (sk_entry k) (Some (sk_enc k (sh_data st))) \<lparr>g_delegate = Some s, g_degraded = sh_degraded st\<rparr> of
        (e, g) \<Rightarrow> (e, st\<lparr>sh_degraded := g_degraded g, sh_mgr := (sh_mgr st)\<lparr>om_store := g_delegate g\<rparr>\<rparr>))"

text \<open>
  \<open>loadState\<close> of a new shim: a store that fails, or an entry that does not decode, leaves the empty tables and
  the guard closed for every later save; an absent entry leaves it open.
\<close>

definition shim_load :: "'s shim_api \<Rightarrow> 'd shim_kind \<Rightarrow> (json \<Rightarrow> 'd \<times> bool) \<Rightarrow> 'd \<Rightarrow> 's manager \<Rightarrow> ('d, 's) shim" where
  "shim_load api k read none m =
     (case om_store m of None \<Rightarrow> \<lparr>sh_data = none, sh_degraded = None, sh_mgr = m\<rparr> | Some s \<Rightarrow>
      case guarded_Load (api_load (sa_own api)) (sk_entry k) \<lparr>g_delegate = Some s, g_degraded = None\<rparr> of (r, g) \<Rightarrow>
      case (case r of Inr (Some v) \<Rightarrow> (case read v of (d, ok) \<Rightarrow> if ok then (d, g_degraded g) else (none, Some (ErrDecode (TypeMismatch (sk_entry k)))))
                    | _ \<Rightarrow> (none, g_degraded g)) of
        (d, degraded) \<Rightarrow> \<lparr>sh_data = d, sh_degraded = degraded, sh_mgr = m\<lparr>om_store := g_delegate g\<rparr>\<rparr>)"

definition MarkPersistenceFailure :: "op_error option \<Rightarrow> 's manager \<Rightarrow> 's manager" where
  "MarkPersistenceFailure e m = (case e of None \<Rightarrow> m | Some err \<Rightarrow> recordPersistenceFailure [] False err m)"

section \<open>The protocol\<close>

definition compensate ::
    "'s shim_api \<Rightarrow> 'd shim_kind \<Rightarrow> ('d \<Rightarrow> 'd) \<Rightarrow> string \<Rightarrow> ('d, 's) shim \<Rightarrow> ('d, 's) shim" where
  "compensate api k rollback name st =
     (case persistState api k (st\<lparr>sh_data := rollback (sh_data st)\<rparr>) of (stateErr, st1) \<Rightarrow>
      case RollbackScopedRegistration (sa_mgr api) name (sh_mgr st1) of (operationErr, m2) \<Rightarrow>
      st1\<lparr>sh_mgr := (if sk_marks k then MarkPersistenceFailure (map_option OpSaveFailed stateErr) m2 else m2)\<rparr>)"

text \<open>The tables are already changed; \<open>rollback\<close> takes the change back.\<close>

definition finishMutation ::
    "'s shim_api \<Rightarrow> 'd shim_kind \<Rightarrow> draw \<Rightarrow> string \<Rightarrow> string \<Rightarrow> string \<Rightarrow> json \<Rightarrow> bool \<Rightarrow> ('d \<Rightarrow> 'd) \<Rightarrow> ('d, 's) shim \<Rightarrow>
      reply \<times> ('d, 's) shim" where
  "finishMutation api k e now verb target response async rollback st =
     (case RegisterScopedTargetDurable (sa_mgr api) e (sk_service k) verb target (sh_mgr st) of
        (Inl err, m) \<Rightarrow> (Fail 503 ''UNAVAILABLE'', st\<lparr>sh_data := rollback (sh_data st), sh_mgr := m\<rparr>)
      | (Inr op, m) \<Rightarrow>
          (case persistState api k (st\<lparr>sh_mgr := m\<rparr>) of
             (Some err, st2) \<Rightarrow> (Fail 503 ''UNAVAILABLE'', compensate api k rollback (o_name op) st2)
           | (None, st2) \<Rightarrow>
               if async then (Reply (JObj (ScopedOperationResponse op)), st2)
               else (case finalizeDurable (sa_mgr api) now (o_name op) (Raw response) 0 [] (sh_mgr st2) of
                   (Some err, m3) \<Rightarrow> (Fail 503 ''UNAVAILABLE'', compensate api k rollback (o_name op) (st2\<lparr>sh_mgr := m3\<rparr>))
                 | (None, m3) \<Rightarrow>
                     ((case Get (o_name op) m3 of Some op' \<Rightarrow> Reply (JObj (ScopedOperationResponse op')) | None \<Rightarrow> ReplyPanics),
                      st2\<lparr>sh_mgr := m3\<rparr>))))"

text \<open>The goroutine of an asynchronous mutation, once its pause is over.\<close>

definition finish_later :: "'s shim_api \<Rightarrow> string \<Rightarrow> string \<Rightarrow> json \<Rightarrow> ('d, 's) shim \<Rightarrow> ('d, 's) shim" where
  "finish_later api now name response st = st\<lparr>sh_mgr := snd (finalizeDurable (sa_mgr api) now name (Raw response) 0 [] (sh_mgr st))\<rparr>"

definition getOperation :: "'d shim_kind \<Rightarrow> string \<Rightarrow> ('d, 's) shim \<Rightarrow> reply" where
  "getOperation k path st =
     (case PollScoped path (sk_service k) (sh_mgr st) of
        Inl e \<Rightarrow> Fail 404 ''NOT_FOUND'' | Inr op \<Rightarrow> Reply (JObj (ScopedOperationResponse op)))"

text \<open>The segment of a path after the first \<open>segment\<close> that another follows.\<close>

fun after_segment :: "string \<Rightarrow> string list \<Rightarrow> string" where
  "after_segment s (p # q # ps) = (if p = s then q else after_segment s (q # ps))"
| "after_segment s _ = []"

definition extractAfter :: "string \<Rightarrow> string \<Rightarrow> string" where
  "extractAfter path s = after_segment s (split (CHR ''/'') path)"

text \<open>\<open>parseParent\<close>: project and location of a path.\<close>

definition parseParent :: "string \<Rightarrow> (string \<times> string) option" where
  "parseParent path =
     (let project = extractAfter path ''projects''; location = extractAfter path ''locations'' in
      if project = [] \<or> location = [] then None else Some (project, location))"

definition location_name :: "string \<Rightarrow> string \<Rightarrow> string \<Rightarrow> string \<Rightarrow> string" where
  "location_name project location collection i = ''projects/'' @ project @ ''/locations/'' @ location @ ''/'' @ collection @ ''/'' @ i"

text \<open>Lowercase letters, digits and inner hyphens; the segment of a project.\<close>

definition lower_alnum :: "char \<Rightarrow> bool" where
  "lower_alnum c \<longleftrightarrow> is_lower c \<or> is_digit c"

definition lower_segment :: "string \<Rightarrow> bool" where
  "lower_segment s \<longleftrightarrow> s \<noteq> [] \<and> list_all (\<lambda>c. lower_alnum c \<or> c = CHR ''-'') s \<and> lower_alnum (hd s) \<and> lower_alnum (last s)"

text \<open>The text before the last occurrence of \<open>p\<close>, as \<open>strings.LastIndex\<close> finds it.\<close>

fun before_last_text :: "string \<Rightarrow> string \<Rightarrow> string option" where
  "before_last_text [] p = (if p = [] then Some [] else None)"
| "before_last_text (c # s) p =
     (case before_last_text s p of Some a \<Rightarrow> Some (c # a) | None \<Rightarrow> if has_prefix (c # s) p then Some [] else None)"

end
