(* ===== verification/Org_Policy.thy ===== *)
theory Org_Policy
  imports Shim_Mutation Json_Into_Laws
begin

text \<open>
  \<open>pkg/shims/orgpolicy\<close>: organization policies of projects, the seeded constraints and the evaluation of a
  boolean constraint along a hierarchy.  A request's path comes with its raw and its escaped form.
\<close>

section \<open>Policies and constraints\<close>

record policy_rule =
  pr_enforce :: bool

record policy_spec =
  ps_rules :: "policy_rule list"
  ps_update :: string

record org_policy =
  op_name :: string
  op_spec :: "policy_spec option"
  op_alternate :: json
  op_dry_run :: json

record org_constraint =
  oc_name :: string
  oc_display :: string
  oc_description :: string
  oc_default :: string

definition enc_policy_rule :: "policy_rule \<Rightarrow> json" where
  "enc_policy_rule r = JObj (omit_true ''enforce'' (pr_enforce r))"

definition enc_policy_spec :: "policy_spec \<Rightarrow> json" where
  "enc_policy_spec s = JObj (omit_list ''rules'' enc_policy_rule (ps_rules s) @ omit_str ''updateTime'' (ps_update s))"

definition enc_org_policy :: "org_policy \<Rightarrow> json" where
  "enc_org_policy p = JObj ([(''name'', JStr (op_name p))] @ omit_ptr ''spec'' enc_policy_spec (op_spec p) @
     omit_any ''alternate'' (op_alternate p) @ omit_any ''dryRunSpec'' (op_dry_run p))"

definition enc_constraint :: "org_constraint \<Rightarrow> json" where
  "enc_constraint c = JObj ([(''name'', JStr (oc_name c))] @ omit_str ''displayName'' (oc_display c) @
     omit_str ''description'' (oc_description c) @ omit_str ''constraintDefault'' (oc_default c) @ [(''booleanConstraint'', JObj [])])"

definition into_policy_rule :: "bool \<Rightarrow> policy_rule into" where
  "into_policy_rule strict = into_struct (in_fields strict
     [(''enforce'', at_field pr_enforce (\<lambda>x r. r\<lparr>pr_enforce := x\<rparr>) into_bool)])"

definition zero_spec :: policy_spec where "zero_spec = \<lparr>ps_rules = [], ps_update = []\<rparr>"

definition into_policy_spec :: "bool \<Rightarrow> policy_spec into" where
  "into_policy_spec strict = into_struct (in_fields strict
     [(''rules'', at_field ps_rules (\<lambda>x s. s\<lparr>ps_rules := x\<rparr>) (into_slice (into_policy_rule strict) \<lparr>pr_enforce = False\<rparr>)),
      (''updateTime'', at_field ps_update (\<lambda>x s. s\<lparr>ps_update := x\<rparr>) into_string)])"

definition zero_org_policy :: org_policy where
  "zero_org_policy = \<lparr>op_name = [], op_spec = None, op_alternate = JNull, op_dry_run = JNull\<rparr>"

definition into_org_policy :: "bool \<Rightarrow> org_policy into" where
  "into_org_policy strict = into_struct (in_fields strict
     [(''name'', at_field op_name (\<lambda>x p. p\<lparr>op_name := x\<rparr>) into_string),
      (''spec'', at_field op_spec (\<lambda>x p. p\<lparr>op_spec := x\<rparr>) (into_ptr (into_policy_spec strict) zero_spec)),
      (''alternate'', at_field op_alternate (\<lambda>x p. p\<lparr>op_alternate := x\<rparr>) into_any),
      (''dryRunSpec'', at_field op_dry_run (\<lambda>x p. p\<lparr>op_dry_run := x\<rparr>) into_any)])"

text \<open>\<open>deepCopyPolicy\<close>; a nil pointer gives the zero policy.\<close>

definition deepCopyPolicy :: "org_policy option \<Rightarrow> org_policy" where
  "deepCopyPolicy p = fst (into_org_policy False (case p of Some x \<Rightarrow> enc_org_policy x | None \<Rightarrow> JNull) zero_org_policy)"

definition org_constraint_of :: "string \<times> string \<times> string \<Rightarrow> org_constraint" where
  "org_constraint_of t = (case t of (n, d, e) \<Rightarrow> \<lparr>oc_name = n, oc_display = d, oc_description = e, oc_default = ''ALLOW''\<rparr>)"

definition seedConstraints :: "org_constraint list" where
  "seedConstraints = map org_constraint_of
     [(''constraints/compute.disableSerialPortAccess'', ''Disable VM serial port access'', ''Disable VM serial port access''),
      (''constraints/compute.requireOsLogin'', ''Require OS Login'', ''Require OS Login''),
      (''constraints/iam.disableServiceAccountKeyCreation'', ''Disable SA key creation'', ''Disable service account key creation''),
      (''constraints/storage.uniformBucketLevelAccess'', ''Uniform bucket access'', ''Enforce uniform bucket-level access''),
      (''constraints/compute.restrictVpcPeering'', ''Restrict VPC peering'', ''Restrict VPC peering'')]"

section \<open>State\<close>

record 's orgpolicy_api =
  og_store :: "'s guarded option"
  og_policies :: "org_policy option gomap"
  og_constraints :: "org_constraint gomap"

definition orgPolicyStateEntry :: string where "orgPolicyStateEntry = ''orgpolicy/metadata''"

definition enc_org_metadata :: "org_policy option gomap \<Rightarrow> json" where
  "enc_org_metadata m = JObj [(''policies'', JObj (map (\<lambda>(k, p). (k, enc_org_policy (deepCopyPolicy p))) (sort_members m)))]"

definition into_org_metadata :: "bool \<Rightarrow> org_policy option gomap into" where
  "into_org_metadata strict = into_struct (in_fields strict
     [(''policies'', at_field id (\<lambda>x m. x) (into_map (into_ptr (into_org_policy strict) zero_org_policy) None))])"

definition persist_orgpolicy :: "'s entry_api \<Rightarrow> 's orgpolicy_api \<Rightarrow> store_error option \<times> 's orgpolicy_api" where
  "persist_orgpolicy api st =
     (case og_store st of None \<Rightarrow> (None, st) | Some g \<Rightarrow>
      case guarded_Save (api_save api) orgPolicyStateEntry (Some (enc_org_metadata (og_policies st))) g of
        (e, g') \<Rightarrow> (e, st\<lparr>og_store := Some g'\<rparr>))"

text \<open>
  A new shim over a guarded store: what \<open>loadState\<close> reads is taken over when it decodes; a store that fails, or
  an entry that does not decode, leaves an empty shim and a closed guard, so that no later save overwrites it.
\<close>

definition new_orgpolicy :: "'s entry_api \<Rightarrow> 's guarded option \<Rightarrow> 's orgpolicy_api" where
  "new_orgpolicy api store =
     (let st = \<lparr>og_store = store, og_policies = [], og_constraints = map (\<lambda>c. (oc_name c, c)) seedConstraints\<rparr> in
      case store of None \<Rightarrow> st | Some g \<Rightarrow>
      case guarded_Load (api_load api) orgPolicyStateEntry g of
        (Inr (Some v), g') \<Rightarrow>
          (case into_org_metadata False v [] of (m, ok) \<Rightarrow>
             if ok then st\<lparr>og_store := Some g', og_policies := m\<rparr>
             else st\<lparr>og_store := Some (g'\<lparr>g_degraded := Some (ErrDecode (TypeMismatch orgPolicyStateEntry))\<rparr>)\<rparr>)
      | (_, g') \<Rightarrow> st\<lparr>og_store := Some g'\<rparr>)"

section \<open>Evaluation\<close>

datatype hierarchy_stage = AtTop | BelowOrganization | BelowFolder

fun ancestors_valid :: "hierarchy_stage \<Rightarrow> string list \<Rightarrow> bool" where
  "ancestors_valid stage [] = True"
| "ancestors_valid stage (a # as) =
     (if has_prefix a ''organizations/'' \<and> count_char (CHR ''/'') a = 1 then stage = AtTop \<and> ancestors_valid BelowOrganization as
      else if has_prefix a ''folders/'' \<and> count_char (CHR ''/'') a = 1 then stage \<noteq> AtTop \<and> ancestors_valid BelowFolder as
      else False)"

definition validHierarchy :: "string \<Rightarrow> string list \<Rightarrow> bool" where
  "validHierarchy resource ancestors \<longleftrightarrow>
     has_prefix resource ''projects/'' \<and> count_char (CHR ''/'') resource = 1 \<and> ancestors_valid AtTop ancestors"

text \<open>A decision and its source; the error cases tell what the code says of them.\<close>

datatype evaluation_error = BadHierarchy | BadConstraint | UnknownConstraint

definition decided_by :: "org_policy option gomap \<Rightarrow> string \<Rightarrow> string \<Rightarrow> (bool \<times> string) option" where
  "decided_by policies i resource =
     (let name = resource @ ''/policies/'' @ i in
      case ptr_get policies name of
        None \<Rightarrow> None
      | Some p \<Rightarrow> (case op_spec p of None \<Rightarrow> None | Some s \<Rightarrow> (case ps_rules s of [] \<Rightarrow> None | r # _ \<Rightarrow> Some (pr_enforce r, name))))"

fun climb :: "org_policy option gomap \<Rightarrow> string \<Rightarrow> string list \<Rightarrow> (bool \<times> string) option" where
  "climb policies i [] = None"
| "climb policies i (r # rs) = (case decided_by policies i r of Some d \<Rightarrow> Some d | None \<Rightarrow> climb policies i rs)"

definition Evaluate :: "string \<Rightarrow> string \<Rightarrow> string list \<Rightarrow> 's orgpolicy_api \<Rightarrow> evaluation_error + bool \<times> string" where
  "Evaluate resource constraint ancestors st =
     (if \<not> validHierarchy resource ancestors then Inl BadHierarchy
      else if \<not> has_prefix constraint ''constraints/'' then Inl BadConstraint
      else case gm_get (og_constraints st) constraint of
        None \<Rightarrow> Inl UnknownConstraint
      | Some c \<Rightarrow>
          (case climb (og_policies st) (trim_prefix constraint ''constraints/'') (resource # rev ancestors) of
             Some d \<Rightarrow> Inr d
           | None \<Rightarrow> Inr (oc_default c = ''DENY'', ''constraintDefault'')))"

section \<open>Names and routes\<close>

definition parsePolicyName :: "string \<Rightarrow> string" where
  "parsePolicyName path = trim_prefix (trim_prefix path ''/v2/'') ''v2/''"

definition parsePolicyParent :: "string \<Rightarrow> string" where
  "parsePolicyParent path =
     (let trimmed = trim_prefix (trim_prefix path ''/v2/'') ''v2/'' in
      case before_last_text trimmed ''/policies'' of Some a \<Rightarrow> a | None \<Rightarrow> trimmed)"

definition isCollectionPath :: "string \<Rightarrow> bool" where
  "isCollectionPath path =
     (let parts = split (CHR ''/'') (trim_prefix (trim_prefix path ''/v2/'') ''v2/'') in 2 \<le> length parts \<and> last parts = ''policies'')"

definition policyIDAlphaNumeric :: "char \<Rightarrow> bool" where
  "policyIDAlphaNumeric c \<longleftrightarrow> is_lower c \<or> is_upper c \<or> is_digit c"

fun policy_id_loop :: "bool \<Rightarrow> string \<Rightarrow> bool" where
  "policy_id_loop separated [] = True"
| "policy_id_loop separated (c # s) =
     (if policyIDAlphaNumeric c then policy_id_loop False s
      else if c \<notin> {CHR ''.'', CHR ''_'', CHR ''-''} then False
      else if separated then False else policy_id_loop True s)"

definition validPolicyID :: "string \<Rightarrow> bool" where
  "validPolicyID i \<longleftrightarrow> i \<noteq> [] \<and> policyIDAlphaNumeric (hd i) \<and> policyIDAlphaNumeric (last i) \<and> policy_id_loop False i"

definition validPolicyScopeSegment :: "string \<Rightarrow> bool" where
  "validPolicyScopeSegment s \<longleftrightarrow> s \<noteq> [] \<and> s \<noteq> ''.'' \<and> s \<noteq> ''..'' \<and> lower_segment s"

definition policyConstraintForRequest :: "string \<Rightarrow> string \<Rightarrow> string option" where
  "policyConstraintForRequest path name =
     (let parent = parsePolicyParent path in
      case split (CHR ''/'') parent of
        [a, b] \<Rightarrow>
          if a \<noteq> ''projects'' \<or> \<not> validPolicyScopeSegment b then None
          else (case cut_prefix name (parent @ ''/policies/'') of
              None \<Rightarrow> None | Some i \<Rightarrow> if validPolicyID i then Some (''constraints/'' @ i) else None)
      | _ \<Rightarrow> None)"

text \<open>Whether a path names a collection; \<open>None\<close> when it is no route of policies.\<close>

definition canonicalPolicyRoute :: "string \<Rightarrow> bool option" where
  "canonicalPolicyRoute path =
     (case cut_prefix path ''/v2/'' of
        None \<Rightarrow> None
      | Some rest \<Rightarrow>
          (case split (CHR ''/'') rest of
             [a, b, c] \<Rightarrow> if a = ''projects'' \<and> validPolicyScopeSegment b \<and> c = ''policies'' then Some True else None
           | [a, b, c, d] \<Rightarrow> if a = ''projects'' \<and> validPolicyScopeSegment b \<and> c = ''policies'' \<and> validPolicyID d then Some False else None
           | _ \<Rightarrow> None))"

definition plain_part :: "string \<Rightarrow> bool" where
  "plain_part p \<longleftrightarrow> p \<noteq> [] \<and> p \<noteq> ''.'' \<and> p \<noteq> ''..'' \<and> CHR 0x5C \<notin> set p \<and>
     list_all (\<lambda>c. 32 \<le> (of_char c :: nat) \<and> (of_char c :: nat) \<noteq> 127) p"

definition canonicalOrgPolicyRequestPath :: "string \<Rightarrow> string \<Rightarrow> string \<Rightarrow> bool" where
  "canonicalOrgPolicyRequestPath raw escaped path \<longleftrightarrow>
     raw = [] \<and> CHR ''%'' \<notin> set escaped \<and> list_all plain_part (split (CHR ''/'') (trim_prefix path ''/''))"

section \<open>Handlers\<close>

definition createPolicy ::
    "'s entry_api \<Rightarrow> string \<Rightarrow> http_request \<Rightarrow> 's orgpolicy_api \<Rightarrow> reply \<times> 's orgpolicy_api" where
  "createPolicy api now r st =
     (case body_into (into_org_policy False) zero_org_policy (rq_body r) of
        Inl e \<Rightarrow> (Fail 400 ''INVALID_ARGUMENT'', st)
      | Inr p0 \<Rightarrow>
          if op_name p0 = [] then (Fail 400 ''INVALID_ARGUMENT'', st)
          else if policyConstraintForRequest (rq_path r) (op_name p0) = None then (Fail 400 ''INVALID_ARGUMENT'', st)
          else let p = p0\<lparr>op_spec := map_option (\<lambda>s. s\<lparr>ps_update := now\<rparr>) (op_spec p0)\<rparr> in
            if gm_get (og_policies st) (op_name p) \<noteq> None then (Fail 409 ''ALREADY_EXISTS'', st)
            else (case persist_orgpolicy api (st\<lparr>og_policies := gm_set (op_name p) (Some p) (og_policies st)\<rparr>) of
                (Some e, st1) \<Rightarrow> (Fail 503 ''UNAVAILABLE'', st1\<lparr>og_policies := gm_del (op_name p) (og_policies st1)\<rparr>)
              | (None, st1) \<Rightarrow> (Reply (enc_org_policy (deepCopyPolicy (Some p))), st1)))"

definition getPolicy :: "http_request \<Rightarrow> 's orgpolicy_api \<Rightarrow> reply" where
  "getPolicy r st =
     (case gm_get (og_policies st) (parsePolicyName (rq_path r)) of
        None \<Rightarrow> Fail 404 ''NOT_FOUND'' | Some p \<Rightarrow> Reply (enc_org_policy (deepCopyPolicy p)))"

definition listPolicies :: "(string list \<Rightarrow> string) \<Rightarrow> http_request \<Rightarrow> 's orgpolicy_api \<Rightarrow> reply" where
  "listPolicies digest r st =
     (let parent = parsePolicyParent (rq_path r);
          all = map (deepCopyPolicy \<circ> snd) (filter (\<lambda>(k, p). has_prefix k (parent @ ''/policies/'')) (og_policies st)) in
      paged ''policies'' enc_org_policy
        (query_page digest 100 \<lparr>sc_service = ''orgpolicy.policies'', sc_parent = parent, sc_filter = [], sc_order_by = []\<rparr> op_name all r))"

text \<open>A nil policy panics when a field of it is written.\<close>

definition patch_org_policy :: "string \<Rightarrow> org_policy \<Rightarrow> org_policy \<Rightarrow> org_policy" where
  "patch_org_policy now patch p =
     (let p1 = (case op_spec patch of Some s \<Rightarrow> p\<lparr>op_spec := Some (s\<lparr>ps_update := now\<rparr>)\<rparr> | None \<Rightarrow> p);
          p2 = (if op_alternate patch \<noteq> JNull then p1\<lparr>op_alternate := op_alternate patch\<rparr> else p1)
      in if op_dry_run patch \<noteq> JNull then p2\<lparr>op_dry_run := op_dry_run patch\<rparr> else p2)"

definition patchPolicy ::
    "'s entry_api \<Rightarrow> string \<Rightarrow> http_request \<Rightarrow> 's orgpolicy_api \<Rightarrow> reply \<times> 's orgpolicy_api" where
  "patchPolicy api now r st =
     (let name = parsePolicyName (rq_path r) in
      if policyConstraintForRequest (rq_path r) name = None then (Fail 400 ''INVALID_ARGUMENT'', st)
      else case gm_get (og_policies st) name of
        None \<Rightarrow> (Fail 404 ''NOT_FOUND'', st)
      | Some existing \<Rightarrow>
          (case body_into (into_org_policy False) zero_org_policy (rq_body r) of
             Inl e \<Rightarrow> (Fail 400 ''INVALID_ARGUMENT'', st)
           | Inr patch \<Rightarrow>
               (case existing of
                  None \<Rightarrow>
                    if op_spec patch \<noteq> None \<or> op_alternate patch \<noteq> JNull \<or> op_dry_run patch \<noteq> JNull then (ReplyPanics, st)
                    else (case persist_orgpolicy api st of
                        (Some e, st1) \<Rightarrow> (Fail 503 ''UNAVAILABLE'', st1)
                      | (None, st1) \<Rightarrow> (Reply (enc_org_policy (deepCopyPolicy None)), st1))
                | Some p \<Rightarrow>
                    let p' = patch_org_policy now patch p in
                    (case persist_orgpolicy api (st\<lparr>og_policies := gm_set name (Some p') (og_policies st)\<rparr>) of
                       (Some e, st1) \<Rightarrow> (Fail 503 ''UNAVAILABLE'', st1)
                     | (None, st1) \<Rightarrow> (Reply (enc_org_policy (deepCopyPolicy (Some p'))), st1)))))"

definition deletePolicy ::
    "'s entry_api \<Rightarrow> http_request \<Rightarrow> 's orgpolicy_api \<Rightarrow> reply \<times> 's orgpolicy_api" where
  "deletePolicy api r st =
     (let name = parsePolicyName (rq_path r) in
      if policyConstraintForRequest (rq_path r) name = None then (Fail 400 ''INVALID_ARGUMENT'', st)
      else case gm_get (og_policies st) name of
        None \<Rightarrow> (Fail 404 ''NOT_FOUND'', st)
      | Some p \<Rightarrow>
          (case persist_orgpolicy api (st\<lparr>og_policies := gm_del name (og_policies st)\<rparr>) of
             (Some e, st1) \<Rightarrow> (Fail 503 ''UNAVAILABLE'', st1\<lparr>og_policies := gm_set name p (og_policies st1)\<rparr>)
           | (None, st1) \<Rightarrow> (Reply (JObj []), st1)))"

definition listConstraints :: "(string list \<Rightarrow> string) \<Rightarrow> http_request \<Rightarrow> 's orgpolicy_api \<Rightarrow> reply" where
  "listConstraints digest r st =
     paged ''constraints'' enc_constraint
       (query_page digest 100
          \<lparr>sc_service = ''orgpolicy.constraints'', sc_parent = trim_suffix (trim_prefix (rq_path r) ''/v2/'') ''/constraints'',
            sc_filter = [], sc_order_by = []\<rparr> oc_name (map snd (og_constraints st)) r)"

definition routePolicies ::
    "'s entry_api \<Rightarrow> (string list \<Rightarrow> string) \<Rightarrow> string \<Rightarrow> http_request \<Rightarrow> 's orgpolicy_api \<Rightarrow> reply \<times> 's orgpolicy_api" where
  "routePolicies api digest now r st =
     (case canonicalPolicyRoute (rq_path r) of
        None \<Rightarrow> (Fail 400 ''INVALID_ARGUMENT'', st)
      | Some collection \<Rightarrow>
          if rq_method r = ''POST'' \<and> \<not> collection \<or> rq_method r \<in> {''PATCH'', ''DELETE''} \<and> collection then (Fail 400 ''INVALID_ARGUMENT'', st)
          else if rq_method r = ''POST'' then createPolicy api now r st
          else if rq_method r = ''GET'' then ((if isCollectionPath (rq_path r) then listPolicies digest r st else getPolicy r st), st)
          else if rq_method r = ''PATCH'' then patchPolicy api now r st
          else if rq_method r = ''DELETE'' then deletePolicy api r st
          else (Fail 405 ''METHOD_NOT_ALLOWED'', st))"

record evaluate_request =
  er_resource :: string
  er_constraint :: string
  er_ancestors :: "string list"

definition into_evaluate :: "evaluate_request into" where
  "into_evaluate = into_struct (in_fields False
     [(''resource'', at_field er_resource (\<lambda>x e. e\<lparr>er_resource := x\<rparr>) into_string),
      (''constraint'', at_field er_constraint (\<lambda>x e. e\<lparr>er_constraint := x\<rparr>) into_string),
      (''ancestors'', at_field er_ancestors (\<lambda>x e. e\<lparr>er_ancestors := x\<rparr>) (into_slice into_string []))])"

definition enc_evaluation :: "bool \<times> string \<Rightarrow> json" where
  "enc_evaluation d = JObj [(''enforced'', JBool (fst d)), (''source'', JStr (snd d))]"

definition orgpolicy_serve ::
    "'s entry_api \<Rightarrow> (string list \<Rightarrow> string) \<Rightarrow> string \<Rightarrow> string \<Rightarrow> string \<Rightarrow> http_request \<Rightarrow> 's orgpolicy_api \<Rightarrow>
      reply \<times> 's orgpolicy_api" where
  "orgpolicy_serve api digest now raw escaped r st =
     (let path = rq_path r in
      if \<not> canonicalOrgPolicyRequestPath raw escaped path then (Fail 400 ''INVALID_ARGUMENT'', st)
      else if has_suffix path '':evaluate'' \<and> rq_method r = ''POST'' then
        (case body_into into_evaluate \<lparr>er_resource = [], er_constraint = [], er_ancestors = []\<rparr> (rq_body r) of
           Inl e \<Rightarrow> (Fail 400 ''INVALID_ARGUMENT'', st)
         | Inr q \<Rightarrow>
             (case Evaluate (er_resource q) (er_constraint q) (er_ancestors q) st of
                Inl e \<Rightarrow> (Fail 400 ''INVALID_ARGUMENT'', st) | Inr d \<Rightarrow> (Reply (enc_evaluation d), st)))
      else if contains path ''/constraints'' then
        (if rq_method r \<noteq> ''GET'' then (Fail 405 ''METHOD_NOT_ALLOWED'', st) else (listConstraints digest r st, st))
      else if contains path ''/policies'' then routePolicies api digest now r st
      else (Fail 404 ''NOT_FOUND'', st))"

end
