(* ===== verification/Org_Policy_Properties.thy ===== *)
theory Org_Policy_Properties
  imports Org_Policy
begin

text \<open>
  Policies are read back as they were saved, a created policy decides the constraint at once and after a
  restart, and what a refused change leaves.
\<close>

section \<open>Reading back\<close>

definition org_policy_ok :: "org_policy \<Rightarrow> bool" where
  "org_policy_ok p \<longleftrightarrow> any_json (op_alternate p) = op_alternate p \<and> any_json (op_dry_run p) = op_dry_run p"

lemma into_enc_rule: "into_policy_rule s (enc_policy_rule r) \<lparr>pr_enforce = False\<rparr> = (r, True)"
  by (simp add: into_policy_rule_def enc_policy_rule_def into_struct_def into_simps)

lemma into_enc_spec: "into_policy_spec s (enc_policy_spec x) zero_spec = (x, True)"
  by (simp add: into_policy_spec_def enc_policy_spec_def into_struct_def zero_spec_def into_members_append into_simps into_enc_rule)

lemma into_enc_org_policy: "org_policy_ok p \<Longrightarrow> into_org_policy s (enc_org_policy p) zero_org_policy = (p, True)"
proof -
  have nn: "enc_policy_spec x \<noteq> JNull" for x by (simp add: enc_policy_spec_def)
  show "org_policy_ok p \<Longrightarrow> ?thesis"
    by (simp add: into_org_policy_def enc_org_policy_def into_struct_def zero_org_policy_def into_members_append into_simps
        into_enc_spec nn org_policy_ok_def)
qed

lemma deepCopyPolicy_ok: "org_policy_ok p \<Longrightarrow> deepCopyPolicy (Some p) = p"
  by (simp add: deepCopyPolicy_def into_enc_org_policy)

lemma into_org_policy_keeps: "org_policy_ok p \<Longrightarrow> org_policy_ok (fst (into_org_policy s v p))"
  unfolding into_org_policy_def by (rule into_struct_inv) (simp_all add: org_policy_ok_def)

lemma body_org_policy_ok: "body_into (into_org_policy s) zero_org_policy b = Inr p \<Longrightarrow> org_policy_ok p"
proof -
  assume "body_into (into_org_policy s) zero_org_policy b = Inr p"
  then obtain v where "into_org_policy s v zero_org_policy = (p, True)" by (blast dest: body_into_Inr)
  moreover have "org_policy_ok zero_org_policy" by (simp add: org_policy_ok_def zero_org_policy_def)
  ultimately show ?thesis using into_org_policy_keeps [of zero_org_policy s v] by simp
qed

definition policies_ok :: "org_policy option gomap \<Rightarrow> bool" where
  "policies_ok m \<longleftrightarrow> gm_wf m \<and> (\<forall>(k, p) \<in> set m. \<exists>x. p = Some x \<and> org_policy_ok x)"

lemma policies_ok_set: "policies_ok m \<Longrightarrow> org_policy_ok x \<Longrightarrow> policies_ok (gm_set k (Some x) m)"
proof -
  have "set (gm_set k (Some x) m) \<subseteq> insert (k, Some x) (set m)" by (induction m) auto
  then show "policies_ok m \<Longrightarrow> org_policy_ok x \<Longrightarrow> ?thesis" by (auto simp: policies_ok_def)
qed

lemma policies_ok_del: "policies_ok m \<Longrightarrow> policies_ok (gm_del k m)"
  by (auto simp: policies_ok_def AList.delete_eq)

lemma policies_ok_get: "policies_ok m \<Longrightarrow> gm_get m k = Some p \<Longrightarrow> \<exists>x. p = Some x \<and> org_policy_ok x"
  by (auto simp: policies_ok_def dest!: map_of_SomeD)

lemma into_enc_org_metadata:
  assumes "policies_ok m"
  shows "into_org_metadata s (enc_org_metadata m) [] = (sort_members m, True)"
proof -
  have "into_map (into_ptr (into_org_policy s) zero_org_policy) None
      (JObj (map (\<lambda>(k, p). (k, enc_org_policy (deepCopyPolicy p))) (sort_members m))) [] = (sort_members m, True)"
  proof (rule into_map_map)
    fix k p assume "(k, p) \<in> set (sort_members m)"
    then obtain x where "p = Some x" "org_policy_ok x" using assms by (auto simp: policies_ok_def)
    moreover have "enc_org_policy x \<noteq> JNull" for x by (simp add: enc_org_policy_def)
    ultimately show "into_ptr (into_org_policy s) zero_org_policy (enc_org_policy (deepCopyPolicy p)) None = (p, True)"
      by (simp add: into_ptr_def deepCopyPolicy_ok into_enc_org_policy)
  qed (use assms in \<open>simp add: policies_ok_def\<close>)
  then show ?thesis by (simp add: into_org_metadata_def enc_org_metadata_def into_struct_def into_simps)
qed

section \<open>Over the contract\<close>

definition durable_policies :: "(string \<Rightarrow> 's \<Rightarrow> json option) \<Rightarrow> 's orgpolicy_api \<Rightarrow> bool" where
  "durable_policies durable st \<longleftrightarrow>
     (case og_store st of None \<Rightarrow> True
      | Some g \<Rightarrow> (case g_delegate g of None \<Rightarrow> True | Some s \<Rightarrow> durable orgPolicyStateEntry s = Some (enc_org_metadata (og_policies st))))"

context entry_store
begin

abbreviation api where "api \<equiv> \<lparr>api_save = save, api_load = load\<rparr>"

lemma persist_orgpolicy_result:
  assumes "persist_orgpolicy api st = (e, st')"
  shows "og_policies st' = og_policies st" and "og_constraints st' = og_constraints st" and "og_store st' = None \<longleftrightarrow> og_store st = None"
    and "e = None \<Longrightarrow> durable_policies durable st'"
  using assms save_ok [of orgPolicyStateEntry "Some (enc_org_metadata (og_policies st))"]
  by (auto simp: persist_orgpolicy_def guarded_Save_def durable_policies_def split: option.splits prod.splits)

text \<open>An entry that was not understood is never overwritten.\<close>

lemma closed_guard_keeps:
  assumes "og_store st = Some g" and "g_degraded g = Some e"
  shows "persist_orgpolicy api st = (Some e, st)"
  using assms by (simp add: persist_orgpolicy_def guarded_Save_def)

text \<open>A shim that starts on a store whose entry can be read has the policies that were saved.\<close>

lemma restart_orgpolicy:
  assumes "durable_policies durable st" and "policies_ok (og_policies st)" and "og_store st = Some g" and "g_delegate g = Some s"
    and "load orgPolicyStateEntry s = (Inr v, s')"
  shows "og_policies (new_orgpolicy api (Some (NewGuardedEntryStore (Some s) None))) = sort_members (og_policies st)"
proof -
  have "v = enc_org_metadata (og_policies st)" using load_value [OF assms(5)] assms(1,3,4) by (simp add: durable_policies_def)
  then show ?thesis using assms(5) into_enc_org_metadata [OF assms(2), of False]
    by (simp add: new_orgpolicy_def guarded_Load_def NewGuardedEntryStore_def)
qed

end

section \<open>A created policy decides\<close>

lemma createPolicy_reply:
  assumes "createPolicy api now r st = (Reply v, st')"
  shows "\<exists>p0 p. body_into (into_org_policy False) zero_org_policy (rq_body r) = Inr p0 \<and>
    p = p0\<lparr>op_spec := map_option (\<lambda>s. s\<lparr>ps_update := now\<rparr>) (op_spec p0)\<rparr> \<and>
    persist_orgpolicy api (st\<lparr>og_policies := gm_set (op_name p) (Some p) (og_policies st)\<rparr>) = (None, st') \<and> v = enc_org_policy (deepCopyPolicy (Some p)) \<and>
    policyConstraintForRequest (rq_path r) (op_name p) \<noteq> None \<and> gm_get (og_policies st) (op_name p) = None"
  using assms by (auto simp: createPolicy_def Let_def split: sum.splits if_splits option.splits prod.splits)

lemma climb_first: "decided_by m i r = Some d \<Longrightarrow> climb m i (r # rs) = Some d"
  by simp

lemma decided_by_sorted: "gm_wf m \<Longrightarrow> decided_by (sort_members m) i r = decided_by m i r"
  by (simp add: decided_by_def Let_def)

text \<open>The name a request creates is that of a policy of its project.\<close>

lemma request_policy_name:
  "policyConstraintForRequest path name = Some c \<Longrightarrow>
   \<exists>project i. name = ''projects/'' @ project @ ''/policies/'' @ i \<and> c = ''constraints/'' @ i \<and> validPolicyScopeSegment project \<and> validPolicyID i"
proof -
  assume a: "policyConstraintForRequest path name = Some c"
  then obtain p where p: "split (CHR ''/'') (parsePolicyParent path) = [''projects'', p]" "validPolicyScopeSegment p"
    by (auto simp: policyConstraintForRequest_def Let_def split: list.splits if_splits)
  then have "parsePolicyParent path = ''projects/'' @ p" using join_split [of "CHR ''/''" "parsePolicyParent path"] by simp
  with a p show ?thesis
    by (auto simp: policyConstraintForRequest_def Let_def cut_prefix_Some split: option.splits if_splits)
qed

lemma project_hierarchy_name: "validPolicyScopeSegment p \<Longrightarrow> validHierarchy (''projects/'' @ p) []"
proof -
  assume "validPolicyScopeSegment p"
  then have "list_all (\<lambda>c. lower_alnum c \<or> c = CHR ''-'') p" by (simp add: validPolicyScopeSegment_def lower_segment_def)
  then have "CHR ''/'' \<notin> set p" by (auto simp: list_all_iff lower_alnum_def is_lower_def is_digit_def)
  then have "filter (\<lambda>c. c = CHR ''/'') p = []" by (auto simp: filter_empty_conv)
  then show ?thesis by (simp add: validHierarchy_def count_char_def has_prefix_def)
qed

text \<open>
  C37: a policy that was created decides.  Once the creation is acknowledged, the constraint of its name
  evaluates on its project to its first rule, under whatever ancestors and other policies, and so it
  does after a restart on the same store, unless that store cannot be read.
\<close>
theorem created_policy_decides:
  assumes "createPolicy store_api now r st = (Reply v, st')" and "policies_ok (og_policies st)"
    and "og_constraints st = map (\<lambda>c. (oc_name c, c)) seedConstraints"
    and "body_into (into_org_policy False) zero_org_policy (rq_body r) = Inr p" and "op_spec p = Some spec" and "ps_rules spec = rule # others"
    and "op_name p = resource @ ''/policies/'' @ i" and "gm_get (og_constraints st) (''constraints/'' @ i) \<noteq> None"
    and "validHierarchy resource ancestors"
  shows "Evaluate resource (''constraints/'' @ i) ancestors st' = Inr (pr_enforce rule, op_name p) \<and>
    (\<forall>g s w s'. og_store st' = Some g \<and> g_delegate g = Some s \<and> Load orgPolicyStateEntry s = (Inr w, s') \<longrightarrow>
       Evaluate resource (''constraints/'' @ i) ancestors (new_orgpolicy store_api (Some (NewGuardedEntryStore (Some s) None))) =
         Inr (pr_enforce rule, op_name p))"
proof -
  let ?p = "p\<lparr>op_spec := Some (spec\<lparr>ps_update := now\<rparr>)\<rparr>"
  let ?st = "st\<lparr>og_policies := gm_set (op_name p) (Some ?p) (og_policies st)\<rparr>"
  have c: "persist_orgpolicy store_api ?st = (None, st')" using createPolicy_reply [OF assms(1)] assms(4,5) by auto
  note q = disk_store.persist_orgpolicy_result [OF c]
  have ok: "policies_ok (og_policies st')"
    using body_org_policy_ok [OF assms(4)] policies_ok_set [OF assms(2)] by (simp add: q org_policy_ok_def)
  have d: "decided_by (og_policies st') i resource = Some (pr_enforce rule, op_name p)"
    using assms(6,7) by (simp add: q decided_by_def)
  have ev: "Evaluate resource (''constraints/'' @ i) ancestors x = Inr (pr_enforce rule, op_name p)"
    if "og_constraints x = og_constraints st" "decided_by (og_policies x) i resource = Some (pr_enforce rule, op_name p)" for x :: "store orgpolicy_api"
    using that assms(8,9) trim_prefix_append [of "''constraints/''" i] has_prefix_append [of "''constraints/''" i]
    by (auto simp: Evaluate_def split: option.splits)
  have "Evaluate resource (''constraints/'' @ i) ancestors (new_orgpolicy store_api (Some (NewGuardedEntryStore (Some s) None))) =
      Inr (pr_enforce rule, op_name p)"
    if "og_store st' = Some g" "g_delegate g = Some s" "Load orgPolicyStateEntry s = (Inr w, s')" for g s w s'
  proof (rule ev)
    show "og_constraints (new_orgpolicy store_api (Some (NewGuardedEntryStore (Some s) None))) = og_constraints st"
      using that(3) by (simp add: new_orgpolicy_def guarded_Load_def NewGuardedEntryStore_def Let_def assms(3) split: prod.splits)
    have "og_policies (new_orgpolicy store_api (Some (NewGuardedEntryStore (Some s) None))) = sort_members (og_policies st')"
      using disk_store.restart_orgpolicy [OF q(4) ok that] by simp
    with d ok show "decided_by (og_policies (new_orgpolicy store_api (Some (NewGuardedEntryStore (Some s) None)))) i resource = Some (pr_enforce rule, op_name p)"
      by (simp add: decided_by_sorted policies_ok_def)
  qed
  then show ?thesis using ev [of st'] d q by auto
qed

definition first_orgpolicy :: "store orgpolicy_api" where
  "first_orgpolicy = new_orgpolicy store_api (Some (NewGuardedEntryStore (Some (fresh_store [])) None))"

definition enforce_body :: json where
  "enforce_body = JObj [(''name'', JStr ''projects/demo-one/policies/compute.requireOsLogin''),
     (''spec'', JObj [(''rules'', JArr [JObj [(''enforce'', JBool True)]])])]"

definition enforce_post :: http_request where
  "enforce_post = \<lparr>rq_method = ''POST'', rq_path = ''/v2/projects/demo-one/policies'', rq_header = [], rq_query = [], rq_body = Raw enforce_body\<rparr>"

lemma first_orgpolicy_created: "replied (createPolicy store_api ''2024-02-29T12:00:00Z'' enforce_post first_orgpolicy)"
  by code_simp

lemma first_orgpolicy_empty: "og_policies first_orgpolicy = []" "og_constraints first_orgpolicy = map (\<lambda>c. (oc_name c, c)) seedConstraints"
  by code_simp+

definition enforce_policy :: org_policy where
  "enforce_policy = \<lparr>op_name = ''projects/demo-one/policies/compute.requireOsLogin'',
     op_spec = Some \<lparr>ps_rules = [\<lparr>pr_enforce = True\<rparr>], ps_update = []\<rparr>, op_alternate = JNull, op_dry_run = JNull\<rparr>"

lemma enforce_body_read: "body_into (into_org_policy False) zero_org_policy (rq_body enforce_post) = Inr enforce_policy"
  by code_simp

theorem created_policy_decides_witness:
  "\<exists>v st'. createPolicy store_api ''2024-02-29T12:00:00Z'' enforce_post first_orgpolicy = (Reply v, st') \<and>
     Evaluate ''projects/demo-one'' ''constraints/compute.requireOsLogin'' [''organizations/1'', ''folders/2''] st' =
       Inr (True, ''projects/demo-one/policies/compute.requireOsLogin'')"
proof -
  obtain v st' where r: "createPolicy store_api ''2024-02-29T12:00:00Z'' enforce_post first_orgpolicy = (Reply v, st')"
    using first_orgpolicy_created by (rule repliedE)
  have h: "policies_ok (og_policies first_orgpolicy)" "op_spec enforce_policy = Some \<lparr>ps_rules = [\<lparr>pr_enforce = True\<rparr>], ps_update = []\<rparr>"
    "ps_rules \<lparr>ps_rules = [\<lparr>pr_enforce = True\<rparr>], ps_update = []\<rparr> = \<lparr>pr_enforce = True\<rparr> # []"
    "op_name enforce_policy = ''projects/demo-one'' @ ''/policies/'' @ ''compute.requireOsLogin''"
    by (simp_all add: first_orgpolicy_empty policies_ok_def enforce_policy_def)
  have k: "gm_get (og_constraints first_orgpolicy) (''constraints/'' @ ''compute.requireOsLogin'') \<noteq> None"
    unfolding first_orgpolicy_empty by code_simp
  have a: "validHierarchy ''projects/demo-one'' [''organizations/1'', ''folders/2'']" by code_simp
  from created_policy_decides [OF r h(1) first_orgpolicy_empty(2) enforce_body_read h(2,3,4) k a] r show ?thesis
    by (simp add: enforce_policy_def)
qed

section \<open>Refused changes\<close>

text \<open>
  A creation or deletion that could not be saved leaves every policy as it was, and the answer is
  503; the lookups of the shim are those of before.
\<close>
theorem refused_policy_change_leaves_policies:
  assumes "createPolicy api now r st = (Fail code e, st') \<or> deletePolicy api r st = (Fail code e, st')" and "gm_wf (og_policies st)"
  shows "gm_get (og_policies st') = gm_get (og_policies st)"
proof -
  have p: "og_policies st2 = og_policies st1" if "persist_orgpolicy api st1 = (x, st2)" for st1 st2 :: "'a orgpolicy_api" and x
    using that by (auto simp: persist_orgpolicy_def split: option.splits prod.splits)
  from assms show ?thesis
    by (auto simp: createPolicy_def deletePolicy_def Let_def fun_eq_iff split: sum.splits if_splits option.splits prod.splits dest!: p)
qed

definition failing_orgpolicy :: "store orgpolicy_api" where
  "failing_orgpolicy = new_orgpolicy store_api (Some (NewGuardedEntryStore (Some (fresh_store (replicate 40 OsFail))) None))"

lemma failing_orgpolicy_refuses:
  "refused (createPolicy store_api ''2024-02-29T12:00:00Z'' enforce_post failing_orgpolicy)" "og_policies failing_orgpolicy = []"
  by code_simp+

theorem refused_policy_change_leaves_policies_witness:
  "\<exists>e st'. createPolicy store_api ''2024-02-29T12:00:00Z'' enforce_post failing_orgpolicy = (Fail 503 e, st') \<and>
     gm_get (og_policies st') ''projects/demo-one/policies/compute.requireOsLogin'' = None"
proof -
  obtain e st' where r: "createPolicy store_api ''2024-02-29T12:00:00Z'' enforce_post failing_orgpolicy = (Fail 503 e, st')"
    using failing_orgpolicy_refuses(1) by (rule refusedE)
  from refused_policy_change_leaves_policies [OF disjI1 [OF r]] r failing_orgpolicy_refuses(2) show ?thesis by simp
qed

text \<open>A patch that could not be saved stays: \<open>patchPolicy\<close> answers 503 and has no rollback.\<close>

theorem refused_patch_stays:
  assumes "persist_orgpolicy api (st\<lparr>og_policies := gm_set (parsePolicyName (rq_path r)) (Some (patch_org_policy now patch p)) (og_policies st)\<rparr>) = (Some err, st1)"
    and "policyConstraintForRequest (rq_path r) (parsePolicyName (rq_path r)) \<noteq> None"
    and "gm_get (og_policies st) (parsePolicyName (rq_path r)) = Some (Some p)"
    and "body_into (into_org_policy False) zero_org_policy (rq_body r) = Inr patch"
  shows "\<exists>st'. patchPolicy api now r st = (Fail 503 ''UNAVAILABLE'', st') \<and>
    ptr_get (og_policies st') (parsePolicyName (rq_path r)) = Some (patch_org_policy now patch p)"
proof -
  have "og_policies st1 = gm_set (parsePolicyName (rq_path r)) (Some (patch_org_policy now patch p)) (og_policies st)"
    using assms(1) by (auto simp: persist_orgpolicy_def split: option.splits prod.splits)
  then show ?thesis using assms by (auto simp: patchPolicy_def Let_def)
qed

text \<open>A policy whose ID starts with \<open>constraints\<close> can be created and is out of reach of every later request.\<close>

lemma constraints_path_shadows:
  assumes "canonicalOrgPolicyRequestPath raw escaped (rq_path r)" and "contains (rq_path r) ''/constraints''" and "rq_method r \<in> {''PATCH'', ''DELETE''}"
  shows "orgpolicy_serve api digest now raw escaped r st = (Fail 405 ''METHOD_NOT_ALLOWED'', st)"
  using assms by (auto simp: orgpolicy_serve_def Let_def)

end
