(* ===== verification/Netip.thy ===== *)
theory Netip
  imports Strconv "HOL-Library.Word"
begin

unbundle bit_operations_syntax

text \<open>
  Package \<open>net/netip\<close> as the policy evaluators use it: addresses of 32 and 128 bits with the texts
  \<open>ParseAddr\<close> and \<open>ParsePrefix\<close> accept, and \<open>Prefix.Contains\<close>.  An IPv6 address keeps its zone.
\<close>

section \<open>Addresses\<close>

datatype addr = IP4 "32 word" | IP6 "128 word" string

record ip_prefix =
  px_addr :: addr
  px_bits :: nat

definition octet :: "string \<Rightarrow> int option" where
  "octet s = (if s \<noteq> [] \<and> list_all is_digit s \<and> (length s = 1 \<or> hd s \<noteq> CHR ''0'') \<and> length s \<le> 3 \<and> parse_digits s \<le> 255 then Some (int (parse_digits s)) else None)"

definition parseIPv4 :: "string \<Rightarrow> int option" where
  "parseIPv4 s =
     (case map octet (split (CHR ''.'') s) of
        [Some a, Some b, Some c, Some d] \<Rightarrow> Some (((a * 256 + b) * 256 + c) * 256 + d)
      | _ \<Rightarrow> None)"

definition hex_value :: "char \<Rightarrow> int option" where
  "hex_value c =
     (let n = of_char c :: nat in
      if is_digit c then Some (int n - 48) else if 97 \<le> n \<and> n \<le> 102 then Some (int n - 87) else if 65 \<le> n \<and> n \<le> 70 then Some (int n - 55) else None)"

definition is_hex :: "char \<Rightarrow> bool" where "is_hex c \<longleftrightarrow> hex_value c \<noteq> None"

definition hex_number :: "string \<Rightarrow> int" where
  "hex_number s = foldl (\<lambda>n c. 16 * n + (case hex_value c of Some d \<Rightarrow> d | None \<Rightarrow> 0)) 0 s"

text \<open>
  The loop of \<open>parseIPv6\<close>: the groups so far, where the ellipsis was, the text left.  There is room for eight
  groups, each round adds one or two.
\<close>

function groups6 :: "int list \<Rightarrow> nat option \<Rightarrow> string \<Rightarrow> (int list \<times> nat option) option" where
  "groups6 gs el s =
     (if 8 \<le> length gs then (if s = [] then Some (gs, el) else None)
      else let h = takeWhile is_hex s; r = dropWhile is_hex s in
        if h = [] \<or> 4 < length h then None
        else case r of
          [] \<Rightarrow> Some (gs @ [hex_number h], el)
        | c # t \<Rightarrow>
            if c = CHR ''.'' then
              (if el = None \<and> length gs \<noteq> 6 \<or> 6 < length gs then None
               else case parseIPv4 s of None \<Rightarrow> None | Some n \<Rightarrow> Some (gs @ [n div 65536, n mod 65536], el))
            else if c \<noteq> CHR '':'' \<or> t = [] then None
            else if hd t = CHR '':'' then
              (if el \<noteq> None then None
               else if tl t = [] then Some (gs @ [hex_number h], Some (Suc (length gs)))
               else groups6 (gs @ [hex_number h]) (Some (Suc (length gs))) (tl t))
            else groups6 (gs @ [hex_number h]) el t)"
  by pat_completeness auto
termination by (relation "measure (\<lambda>(gs, el, s). 8 - length gs)") auto

declare groups6.simps [simp del]

definition number_of_groups :: "int list \<Rightarrow> int" where
  "number_of_groups gs = foldl (\<lambda>n g. 65536 * n + g) 0 gs"

definition parseIPv6 :: "string \<Rightarrow> addr option" where
  "parseIPv6 text =
     (case cut (CHR ''%'') text of (s, zone, zoned) \<Rightarrow>
      if zoned \<and> zone = [] then None
      else if s = ''::'' then Some (IP6 0 zone)
      else let (el, s') = (if has_prefix s ''::'' then (Some 0, drop 2 s) else (None, s)) in
        case groups6 [] el s' of
          None \<Rightarrow> None
        | Some (gs, e) \<Rightarrow>
            (case e of
               None \<Rightarrow> if length gs = 8 then Some (IP6 (of_int (number_of_groups gs)) zone) else None
             | Some i \<Rightarrow>
                 if length gs < 8
                 then Some (IP6 (of_int (number_of_groups (take i gs @ replicate (8 - length gs) 0 @ drop i gs))) zone) else None))"

text \<open>The first of \<open>.\<close>, \<open>:\<close> and \<open>%\<close> decides.\<close>

definition ParseAddr :: "string \<Rightarrow> addr option" where
  "ParseAddr s =
     (case List.find (\<lambda>c. c \<in> set ''.:%'') s of
        Some c \<Rightarrow> if c = CHR ''.'' then map_option (\<lambda>n. IP4 (of_int n)) (parseIPv4 s) else if c = CHR '':'' then parseIPv6 s else None
      | None \<Rightarrow> None)"

definition addr_bits :: "addr \<Rightarrow> nat" where
  "addr_bits a = (case a of IP4 w \<Rightarrow> 32 | IP6 w z \<Rightarrow> 128)"

definition addr_zone :: "addr \<Rightarrow> string" where
  "addr_zone a = (case a of IP4 w \<Rightarrow> [] | IP6 w z \<Rightarrow> z)"

definition before_last :: "char \<Rightarrow> string \<Rightarrow> string" where
  "before_last c s = rev (tl (dropWhile (\<lambda>d. d \<noteq> c) (rev s)))"

definition after_last :: "char \<Rightarrow> string \<Rightarrow> string" where
  "after_last c s = rev (takeWhile (\<lambda>d. d \<noteq> c) (rev s))"

definition ParsePrefix :: "string \<Rightarrow> ip_prefix option" where
  "ParsePrefix s =
     (if CHR ''/'' \<notin> set s then None
      else case ParseAddr (before_last (CHR ''/'') s) of
        None \<Rightarrow> None
      | Some a \<Rightarrow>
          let bits = after_last (CHR ''/'') s in
          if addr_zone a \<noteq> [] \<or> 1 < length bits \<and> (hd bits = CHR ''0'' \<or> \<not> is_digit (hd bits)) then None
          else case atoi bits of
            Some n \<Rightarrow> if n < 0 \<or> int (addr_bits a) < n then None else Some \<lparr>px_addr = a, px_bits = nat n\<rparr>
          | None \<Rightarrow> None)"

section \<open>Prefixes\<close>

definition prefix_contains :: "ip_prefix \<Rightarrow> addr \<Rightarrow> bool" where
  "prefix_contains p a =
     (case (px_addr p, a) of
        (IP4 v, IP4 w) \<Rightarrow> drop_bit (32 - px_bits p) (w XOR v) = 0
      | (IP6 v y, IP6 w z) \<Rightarrow> z = [] \<and> (w XOR v) AND push_bit (128 - px_bits p) (mask (px_bits p)) = 0
      | _ \<Rightarrow> False)"

text \<open>A prefix contains the addresses that agree with it in its leading bits.\<close>

lemma contains_ip4:
  "px_addr p = IP4 v \<Longrightarrow> px_bits p \<le> 32 \<Longrightarrow>
   prefix_contains p (IP4 w) \<longleftrightarrow> (\<forall>n < 32. 32 - px_bits p \<le> n \<longrightarrow> bit w n = bit v n)"
proof -
  assume p: "px_addr p = IP4 v" "px_bits p \<le> 32"
  have "drop_bit (32 - px_bits p) (w XOR v) = 0 \<longleftrightarrow> (\<forall>n < 32. 32 - px_bits p \<le> n \<longrightarrow> bit w n = bit v n)" (is "?L \<longleftrightarrow> ?R")
  proof
    assume l: ?L
    show ?R
    proof (intro allI impI)
      fix n :: nat assume n: "n < 32" "32 - px_bits p \<le> n"
      have "\<not> bit (drop_bit (32 - px_bits p) (w XOR v)) (n - (32 - px_bits p))" using l by simp
      then show "bit w n = bit v n" using n by (simp add: bit_drop_bit_eq bit_xor_iff)
    qed
  next
    assume r: ?R
    have "bit w (32 - px_bits p + n) = bit v (32 - px_bits p + n)" for n
    proof (cases "32 - px_bits p + n < 32")
      case False
      then show ?thesis using bit_imp_le_length [of w] bit_imp_le_length [of v] by auto
    qed (use r in auto)
    then show ?L
      by (intro bit_word_eqI) (simp add: bit_drop_bit_eq bit_xor_iff)
  qed
  with p show ?thesis by (simp add: prefix_contains_def)
qed

lemma contains_ip6:
  "px_addr p = IP6 v y \<Longrightarrow> px_bits p \<le> 128 \<Longrightarrow>
   prefix_contains p (IP6 w z) \<longleftrightarrow> z = [] \<and> (\<forall>n < 128. 128 - px_bits p \<le> n \<longrightarrow> bit w n = bit v n)"
proof -
  assume p: "px_addr p = IP6 v y" "px_bits p \<le> 128"
  have "(w XOR v) AND push_bit (128 - px_bits p) (mask (px_bits p)) = 0 \<longleftrightarrow> (\<forall>n < 128. 128 - px_bits p \<le> n \<longrightarrow> bit w n = bit v n)" (is "?L \<longleftrightarrow> ?R")
  proof
    assume l: ?L
    show ?R
    proof (intro allI impI)
      fix n :: nat assume n: "n < 128" "128 - px_bits p \<le> n"
      have "\<not> bit ((w XOR v) AND push_bit (128 - px_bits p) (mask (px_bits p))) n" using l by simp
      then show "bit w n = bit v n" using n p(2) by (auto simp: bit_push_bit_iff bit_mask_iff bit_and_iff bit_xor_iff)
    qed
  next
    assume ?R
    then show ?L
      by (intro bit_word_eqI) (auto simp: bit_push_bit_iff bit_mask_iff bit_and_iff bit_xor_iff)
  qed
  with p show ?thesis by (simp add: prefix_contains_def)
qed

lemma ParsePrefix_bits: "ParsePrefix s = Some p \<Longrightarrow> px_bits p \<le> addr_bits (px_addr p)"
  by (auto simp: ParsePrefix_def Let_def split: if_splits option.splits)

text \<open>A shorter prefix of the same address contains what a longer one contains.\<close>

lemma contains_mono:
  "prefix_contains \<lparr>px_addr = a, px_bits = m\<rparr> b \<Longrightarrow> n \<le> m \<Longrightarrow> m \<le> addr_bits a \<Longrightarrow> prefix_contains \<lparr>px_addr = a, px_bits = n\<rparr> b"
  by (cases a; cases b) (auto simp: addr_bits_def contains_ip4 contains_ip6, auto simp: prefix_contains_def)

end
