(* ===== verification/Path_Match.thy ===== *)
theory Path_Match
  imports Prelude "HOL-Library.Char_ord"
begin

text \<open>
  \<open>path.Match\<close> as the policy evaluators use it, on ASCII names: shell patterns of \<open>*\<close>, \<open>?\<close>, classes and escapes.
  \<open>None\<close> is \<open>ErrBadPattern\<close>.
\<close>

section \<open>Chunks\<close>

text \<open>The loop of \<open>scanChunk\<close>: a chunk ends before the next star outside a class.\<close>

fun scan_loop :: "bool \<Rightarrow> string \<Rightarrow> string \<times> string" where
  "scan_loop inrange [] = ([], [])"
| "scan_loop inrange (c # s) =
     (if c = CHR ''*'' \<and> \<not> inrange then ([], c # s)
      else if c = CHR 0x5C then
        (case s of [] \<Rightarrow> ([c], []) | d # t \<Rightarrow> (case scan_loop inrange t of (a, b) \<Rightarrow> (c # d # a, b)))
      else (case scan_loop (if c = CHR ''['' then True else if c = CHR '']'' then False else inrange) s of (a, b) \<Rightarrow> (c # a, b)))"

definition scanChunk :: "string \<Rightarrow> bool \<times> string \<times> string" where
  "scanChunk p = (let p' = dropWhile (\<lambda>c. c = CHR ''*'') p in (p' \<noteq> p, scan_loop False p'))"

definition getEsc :: "string \<Rightarrow> (char \<times> string) option" where
  "getEsc chunk =
     (case chunk of
        [] \<Rightarrow> None
      | c # t \<Rightarrow>
          if c = CHR ''-'' \<or> c = CHR '']'' then None
          else (case (if c = CHR 0x5C then t else chunk) of
              [] \<Rightarrow> None
            | d # u \<Rightarrow> if u = [] then None else Some (d, u)))"

lemma getEsc_shorter: "getEsc chunk = Some (c, t) \<Longrightarrow> length t < length chunk"
  by (auto simp: getEsc_def split: list.splits if_splits)

text \<open>The ranges of a class after its opening; \<open>any\<close> once one was read.  The rest follows the closing bracket.\<close>

function class_loop :: "char option \<Rightarrow> bool \<Rightarrow> bool \<Rightarrow> string \<Rightarrow> (bool \<times> string) option" where
  "class_loop r any match chunk =
     (if any \<and> chunk \<noteq> [] \<and> hd chunk = CHR '']'' then Some (match, tl chunk)
      else case getEsc chunk of
        None \<Rightarrow> None
      | Some (lo, t) \<Rightarrow>
          if hd t = CHR ''-'' then
            (case getEsc (tl t) of
               None \<Rightarrow> None
             | Some (hi, u) \<Rightarrow> class_loop r True (match \<or> (case r of Some x \<Rightarrow> lo \<le> x \<and> x \<le> hi | None \<Rightarrow> False)) u)
          else class_loop r True (match \<or> r = Some lo) t)"
  by pat_completeness auto
termination
proof (relation "measure (\<lambda>(r, any, match, chunk). length chunk)")
  fix r :: "char option" and any match :: bool and chunk :: string and x :: "char \<times> string" and lo t y hi u
  assume "getEsc chunk = Some x" "(lo, t) = x" "getEsc (tl t) = Some y" "(hi, u) = y"
  then have "length t < length chunk" "length u < length (tl t)"
    using getEsc_shorter [of chunk lo t] getEsc_shorter [of "tl t" hi u] by (simp_all del: length_tl)
  then show "((r, True, match \<or> (case r of Some x \<Rightarrow> lo \<le> x \<and> x \<le> hi | None \<Rightarrow> False), u), r, any, match, chunk) \<in> measure (\<lambda>(r, any, match, chunk). length chunk)"
    by simp
next
  fix r :: "char option" and any match :: bool and chunk :: string and x :: "char \<times> string" and lo t
  assume "getEsc chunk = Some x" "(lo, t) = x"
  then show "((r, True, match \<or> r = Some lo, t), r, any, match, chunk) \<in> measure (\<lambda>(r, any, match, chunk). length chunk)"
    using getEsc_shorter by auto
qed auto

declare class_loop.simps [simp del]

lemma class_loop_shorter: "class_loop r any match chunk = Some (b, t) \<Longrightarrow> length t < length chunk"
proof (induction r any match chunk rule: class_loop.induct)
  case (1 r any match chunk)
  show ?case
  proof (cases "any \<and> chunk \<noteq> [] \<and> hd chunk = CHR '']''")
    case True
    with "1.prems" have "t = tl chunk" by (simp add: class_loop.simps [of r True match chunk])
    with True show ?thesis by (cases chunk) auto
  next
    case False
    with "1.prems" obtain lo s where s: "getEsc chunk = Some (lo, s)"
      by (auto simp: class_loop.simps [of r any match chunk] split: option.splits if_splits)
    note l = getEsc_shorter [OF s]
    show ?thesis
    proof (cases "hd s = CHR ''-''")
      case True
      with "1.prems" False s obtain hi u where u: "getEsc (tl s) = Some (hi, u)"
        by (auto simp: class_loop.simps [of r any match chunk] split: option.splits if_splits)
      have "length t < length u" by (rule "1.IH"(1) [OF False s refl True u refl]) (use "1.prems" False s True u in \<open>simp add: class_loop.simps [of r any match chunk]\<close>)
      with getEsc_shorter [OF u] l show ?thesis by simp
    next
      case False2: False
      have "length t < length s" by (rule "1.IH"(2) [OF False s refl False2]) (use "1.prems" False s False2 in \<open>simp add: class_loop.simps [of r any match chunk]\<close>)
      with l show ?thesis by simp
    qed
  qed
qed

text \<open>
  \<open>matchChunk\<close>: \<open>None\<close> for a bad pattern, else the rest of the name when the chunk matches its start.  The name
  is \<open>None\<close> once the match failed; the pattern is still checked then.
\<close>

function match_chunk :: "string \<Rightarrow> string option \<Rightarrow> string option option" where
  "match_chunk [] name = Some name"
| "match_chunk (c # chunk) name0 =
     (let name = (if name0 = Some [] then None else name0) in
      if c = CHR ''['' then
        (let negated = (chunk \<noteq> [] \<and> hd chunk = CHR ''^''); body = (if negated then tl chunk else chunk) in
         case class_loop (map_option hd name) False False body of
           None \<Rightarrow> None
         | Some (m, rest) \<Rightarrow> match_chunk rest (if m = negated then None else map_option tl name))
      else if c = CHR ''?'' then match_chunk chunk (case name of Some (d # s) \<Rightarrow> if d = CHR ''/'' then None else Some s | _ \<Rightarrow> None)
      else if c = CHR 0x5C then
        (case chunk of
           [] \<Rightarrow> None
         | e # chunk' \<Rightarrow> match_chunk chunk' (case name of Some (d # s) \<Rightarrow> if d = e then Some s else None | _ \<Rightarrow> None))
      else match_chunk chunk (case name of Some (d # s) \<Rightarrow> if d = c then Some s else None | _ \<Rightarrow> None))"
  by pat_completeness auto
termination
proof (relation "measure (\<lambda>(chunk, name). length chunk)")
  fix c chunk and name0 :: "string option" and x xa xb xc m rest
  assume "x = (if name0 = Some [] then None else name0)" "c = CHR ''[''" "xa = (chunk \<noteq> [] \<and> hd chunk = CHR ''^'')"
    "xb = (if xa then tl chunk else chunk)" "class_loop (map_option hd x) False False xb = Some xc" "(m, rest) = xc"
  then have "length rest < length xb" "length xb \<le> length chunk"
    using class_loop_shorter [of "map_option hd x" False False xb m rest] by simp_all
  then show "((rest, if m = xa then None else map_option tl x), c # chunk, name0) \<in> measure (\<lambda>(chunk, name). length chunk)" by simp
qed auto

section \<open>Match\<close>

text \<open>The names a star can leave: what follows one to all of the characters before the next slash.\<close>

fun star_tails :: "string \<Rightarrow> string list" where
  "star_tails [] = []"
| "star_tails (c # s) = (if c = CHR ''/'' then [] else s # star_tails s)"

text \<open>The first of them whose start matches the chunk, to the end if it is the last; \<open>None\<close> for a bad pattern.\<close>

fun first_match :: "string \<Rightarrow> bool \<Rightarrow> string list \<Rightarrow> string option option" where
  "first_match chunk final [] = Some None"
| "first_match chunk final (s # ss) =
     (case match_chunk chunk (Some s) of
        None \<Rightarrow> None
      | Some (Some t) \<Rightarrow> if final \<and> t \<noteq> [] then first_match chunk final ss else Some (Some t)
      | Some None \<Rightarrow> first_match chunk final ss)"

text \<open>Each round reads a star or a chunk, so as many rounds as the pattern is long suffice.\<close>

fun check_rest :: "nat \<Rightarrow> string \<Rightarrow> bool" where
  "check_rest 0 p = True"
| "check_rest (Suc n) p =
     (if p = [] then True
      else case scanChunk p of (star, chunk, rest) \<Rightarrow> match_chunk chunk (Some []) \<noteq> None \<and> check_rest n rest)"

fun match_loop :: "nat \<Rightarrow> string \<Rightarrow> string \<Rightarrow> bool option" where
  "match_loop 0 p name = Some (p = [] \<and> name = [])"
| "match_loop (Suc n) p name =
     (if p = [] then Some (name = [])
      else case scanChunk p of (star, chunk, rest) \<Rightarrow>
        if star \<and> chunk = [] then Some (CHR ''/'' \<notin> set name)
        else case match_chunk chunk (Some name) of
          Some (Some t) \<Rightarrow>
            if t = [] \<or> rest \<noteq> [] then match_loop n rest t
            else if star then
              (case first_match chunk (rest = []) (star_tails name) of
                 None \<Rightarrow> None | Some (Some u) \<Rightarrow> match_loop n rest u
               | Some None \<Rightarrow> if check_rest n rest then Some False else None)
            else if check_rest n rest then Some False else None
        | None \<Rightarrow> None
        | Some None \<Rightarrow>
            if star then
              (case first_match chunk (rest = []) (star_tails name) of
                 None \<Rightarrow> None | Some (Some u) \<Rightarrow> match_loop n rest u
               | Some None \<Rightarrow> if check_rest n rest then Some False else None)
            else if check_rest n rest then Some False else None)"

definition path_match :: "string \<Rightarrow> string \<Rightarrow> bool option" where
  "path_match p name = match_loop (length p) p name"

text \<open>\<open>containsMatch\<close> of the evaluators: equal to a pattern, or matched by a good one.\<close>

definition containsMatch :: "string list \<Rightarrow> string \<Rightarrow> bool" where
  "containsMatch patterns value0 \<longleftrightarrow> list_ex (\<lambda>p. p = value0 \<or> path_match p value0 = Some True) patterns"

end
