(* ===== verification/Network_Security.thy ===== *)
theory Network_Security
  imports Shim_Mutation Json_Into_Laws Netip Path_Match
begin

text \<open>
  \<open>pkg/shims/networksecurity\<close>: authorization policies of a location, their handlers over \<open>finishMutation\<close>, and
  the two evaluators, the advisory one and the one the HTTP proxy asks.
\<close>

section \<open>Policies\<close>

record net_source =
  src_principals :: "string list"
  src_blocks :: "string list"

record net_destination =
  dst_hosts :: "string list"
  dst_ports :: "int list"
  dst_methods :: "string list"
  dst_paths :: "string list"

record net_rule =
  nr_sources :: "net_source list"
  nr_destinations :: "net_destination list"

record net_policy =
  np_name :: string
  np_create :: string
  np_update :: string
  np_description :: string
  np_action :: string
  np_rules :: "net_rule list"
  np_labels :: "string gomap"

definition zero_source :: net_source where "zero_source = \<lparr>src_principals = [], src_blocks = []\<rparr>"

definition zero_destination :: net_destination where
  "zero_destination = \<lparr>dst_hosts = [], dst_ports = [], dst_methods = [], dst_paths = []\<rparr>"

definition zero_rule :: net_rule where "zero_rule = \<lparr>nr_sources = [], nr_destinations = []\<rparr>"

definition zero_net_policy :: net_policy where
  "zero_net_policy = \<lparr>np_name = [], np_create = [], np_update = [], np_description = [], np_action = [], np_rules = [], np_labels = []\<rparr>"

definition enc_source :: "net_source \<Rightarrow> json" where
  "enc_source s = JObj (omit_list ''principals'' JStr (src_principals s) @ omit_list ''ipBlocks'' JStr (src_blocks s))"

definition enc_destination :: "net_destination \<Rightarrow> json" where
  "enc_destination d = JObj (omit_list ''hosts'' JStr (dst_hosts d) @ omit_list ''ports'' JInt (dst_ports d) @
     omit_list ''methods'' JStr (dst_methods d) @ omit_list ''paths'' JStr (dst_paths d))"

definition enc_rule :: "net_rule \<Rightarrow> json" where
  "enc_rule r = JObj (omit_list ''sources'' enc_source (nr_sources r) @ omit_list ''destinations'' enc_destination (nr_destinations r))"

definition enc_net_policy :: "net_policy \<Rightarrow> json" where
  "enc_net_policy p = JObj ([(''name'', JStr (np_name p))] @ omit_str ''createTime'' (np_create p) @ omit_str ''updateTime'' (np_update p) @
     omit_str ''description'' (np_description p) @ [(''action'', JStr (np_action p))] @ omit_list ''rules'' enc_rule (np_rules p) @
     omit_map ''labels'' JStr (np_labels p))"

abbreviation strings_into :: "string list into" where "strings_into \<equiv> into_slice into_string []"

definition into_source :: "bool \<Rightarrow> net_source into" where
  "into_source strict = into_struct (in_fields strict
     [(''principals'', at_field src_principals (\<lambda>x s. s\<lparr>src_principals := x\<rparr>) strings_into),
      (''ipBlocks'', at_field src_blocks (\<lambda>x s. s\<lparr>src_blocks := x\<rparr>) strings_into)])"

definition into_destination :: "bool \<Rightarrow> net_destination into" where
  "into_destination strict = into_struct (in_fields strict
     [(''hosts'', at_field dst_hosts (\<lambda>x d. d\<lparr>dst_hosts := x\<rparr>) strings_into),
      (''ports'', at_field dst_ports (\<lambda>x d. d\<lparr>dst_ports := x\<rparr>) (into_slice into_int 0)),
      (''methods'', at_field dst_methods (\<lambda>x d. d\<lparr>dst_methods := x\<rparr>) strings_into),
      (''paths'', at_field dst_paths (\<lambda>x d. d\<lparr>dst_paths := x\<rparr>) strings_into)])"

definition into_rule :: "bool \<Rightarrow> net_rule into" where
  "into_rule strict = into_struct (in_fields strict
     [(''sources'', at_field nr_sources (\<lambda>x r. r\<lparr>nr_sources := x\<rparr>) (into_slice (into_source strict) zero_source)),
      (''destinations'', at_field nr_destinations (\<lambda>x r. r\<lparr>nr_destinations := x\<rparr>) (into_slice (into_destination strict) zero_destination))])"

definition into_net_policy :: "bool \<Rightarrow> net_policy into" where
  "into_net_policy strict = into_struct (in_fields strict
     [(''name'', at_field np_name (\<lambda>x p. p\<lparr>np_name := x\<rparr>) into_string),
      (''createTime'', at_field np_create (\<lambda>x p. p\<lparr>np_create := x\<rparr>) into_string),
      (''updateTime'', at_field np_update (\<lambda>x p. p\<lparr>np_update := x\<rparr>) into_string),
      (''description'', at_field np_description (\<lambda>x p. p\<lparr>np_description := x\<rparr>) into_string),
      (''action'', at_field np_action (\<lambda>x p. p\<lparr>np_action := x\<rparr>) into_string),
      (''rules'', at_field np_rules (\<lambda>x p. p\<lparr>np_rules := x\<rparr>) (into_slice (into_rule strict) zero_rule)),
      (''labels'', at_field np_labels (\<lambda>x p. p\<lparr>np_labels := x\<rparr>) (into_map into_string []))])"

text \<open>\<open>clonePolicy\<close>; a nil pointer gives the zero policy.\<close>

definition clone_net_policy :: "net_policy option \<Rightarrow> net_policy" where
  "clone_net_policy p = fst (into_net_policy False (case p of Some x \<Rightarrow> enc_net_policy x | None \<Rightarrow> JNull) zero_net_policy)"

section \<open>State\<close>

type_synonym 's net_api = "(net_policy option gomap, 's) shim"

definition enc_net_metadata :: "net_policy option gomap \<Rightarrow> json" where
  "enc_net_metadata m = JObj [(''policies'', JObj (map (\<lambda>(k, p). (k, enc_net_policy (clone_net_policy p))) (sort_members m)))]"

definition into_net_metadata :: "bool \<Rightarrow> net_policy option gomap into" where
  "into_net_metadata strict = into_struct (in_fields strict
     [(''policies'', at_field id (\<lambda>x m. x) (into_map (into_ptr (into_net_policy strict) zero_net_policy) None))])"

definition net_kind :: "net_policy option gomap shim_kind" where
  "net_kind = \<lparr>sk_entry = ''networksecurity/metadata'', sk_service = ''networksecurity#operation'', sk_enc = enc_net_metadata,
     sk_block = (\<lambda>_. None), sk_marks = True\<rparr>"

definition net_load :: "'s shim_api \<Rightarrow> 's manager \<Rightarrow> 's net_api" where
  "net_load api m = shim_load api net_kind (\<lambda>v. into_net_metadata False v []) [] m"

section \<open>Evaluation\<close>

record net_request =
  nq_project :: string
  nq_location :: string
  nq_principal :: string
  nq_source :: string
  nq_host :: string
  nq_port :: int
  nq_method :: string
  nq_path :: string

definition validScopePart :: "string \<Rightarrow> bool" where
  "validScopePart v \<longleftrightarrow> v = trim_space v \<and> v \<noteq> [] \<and> v \<noteq> ''.'' \<and> v \<noteq> ''..'' \<and> \<not> contains_any v [CHR ''/'', CHR 0x5C]"

definition block_matches :: "string \<Rightarrow> string \<Rightarrow> bool" where
  "block_matches source block =
     (case (ParseAddr source, ParsePrefix block) of (Some a, Some p) \<Rightarrow> prefix_contains p a | _ \<Rightarrow> False)"

definition matchesSource :: "net_source \<Rightarrow> net_request \<Rightarrow> bool" where
  "matchesSource s q \<longleftrightarrow> (src_principals s = [] \<or> containsMatch (src_principals s) (nq_principal q)) \<and>
     (src_blocks s = [] \<or> list_ex (block_matches (nq_source q)) (src_blocks s))"

definition matchesDestination :: "net_destination \<Rightarrow> net_request \<Rightarrow> bool" where
  "matchesDestination d q \<longleftrightarrow> (dst_hosts d = [] \<or> containsMatch (dst_hosts d) (nq_host q)) \<and>
     (dst_ports d = [] \<or> nq_port q \<in> set (dst_ports d)) \<and>
     (dst_methods d = [] \<or> containsMatch (dst_methods d) (nq_method q)) \<and>
     (dst_paths d = [] \<or> containsMatch (dst_paths d) (nq_path q))"

definition policyMatches :: "net_policy \<Rightarrow> net_request \<Rightarrow> bool" where
  "policyMatches p q \<longleftrightarrow> np_rules p = [] \<or>
     list_ex (\<lambda>r. (nr_sources r = [] \<or> list_ex (\<lambda>s. matchesSource s q) (nr_sources r)) \<and>
       (nr_destinations r = [] \<or> list_ex (\<lambda>d. matchesDestination d q) (nr_destinations r))) (np_rules p)"

definition scoped_policies :: "string \<Rightarrow> string \<Rightarrow> net_policy option gomap \<Rightarrow> net_policy list" where
  "scoped_policies project location m =
     sort_key np_name (map (clone_net_policy \<circ> snd)
       (filter (\<lambda>(k, p). has_prefix k (location_name project location ''authorizationPolicies'' [])) m))"

text \<open>The answer of \<open>AuthorizeHTTP\<close>: an error, or whether a policy matched, whether the request may pass, and the policy.\<close>

fun authorize_loop :: "net_policy list \<Rightarrow> net_request \<Rightarrow> string \<Rightarrow> string + bool \<times> bool \<times> string" where
  "authorize_loop [] q allow = Inr (if allow \<noteq> [] then (True, True, allow) else (False, True, []))"
| "authorize_loop (p # ps) q allow =
     (if \<not> policyMatches p q then authorize_loop ps q allow
      else if np_action p = ''DENY'' then Inr (True, False, np_name p)
      else if np_action p = ''ALLOW'' then authorize_loop ps q (if allow = [] then np_name p else allow)
      else Inl (np_name p))"

definition AuthorizeHTTP ::
    "string \<Rightarrow> string \<Rightarrow> string \<Rightarrow> string \<Rightarrow> string \<Rightarrow> string \<Rightarrow> net_policy option gomap \<Rightarrow> string + bool \<times> bool \<times> string" where
  "AuthorizeHTTP project location source host verb path m =
     (if \<not> validScopePart project \<or> \<not> validScopePart location then Inl []
      else authorize_loop (scoped_policies project location m)
        \<lparr>nq_project = project, nq_location = location, nq_principal = [], nq_source = source, nq_host = host, nq_port = 80,
         nq_method = verb, nq_path = path\<rparr> [])"

record net_decision =
  nd_allowed :: bool
  nd_policy :: string
  nd_reason :: string

fun evaluate_loop :: "net_policy list \<Rightarrow> net_request \<Rightarrow> string \<Rightarrow> net_decision" where
  "evaluate_loop [] q allow = \<lparr>nd_allowed = True, nd_policy = allow, nd_reason = []\<rparr>"
| "evaluate_loop (p # ps) q allow =
     (if \<not> policyMatches p q then evaluate_loop ps q allow
      else if np_action p = ''DENY'' then \<lparr>nd_allowed = False, nd_policy = np_name p, nd_reason = []\<rparr>
      else evaluate_loop ps q (if np_action p = ''ALLOW'' \<and> allow = [] then np_name p else allow))"

definition net_Evaluate :: "net_request \<Rightarrow> net_policy option gomap \<Rightarrow> net_decision" where
  "net_Evaluate q m =
     (if \<not> validScopePart (nq_project q) \<or> \<not> validScopePart (nq_location q)
      then \<lparr>nd_allowed = False, nd_policy = [], nd_reason = ''invalid evaluation scope''\<rparr>
      else evaluate_loop (scoped_policies (nq_project q) (nq_location q) m) q [])"

definition enc_net_decision :: "net_decision \<Rightarrow> json" where
  "enc_net_decision d = JObj ([(''allowed'', JBool (nd_allowed d))] @ omit_str ''policy'' (nd_policy d) @
     [(''enforcement'', JStr ''METADATA_ONLY'')] @ omit_str ''reason'' (nd_reason d))"

definition zero_net_request :: net_request where
  "zero_net_request = \<lparr>nq_project = [], nq_location = [], nq_principal = [], nq_source = [], nq_host = [], nq_port = 0, nq_method = [], nq_path = []\<rparr>"

definition into_net_request :: "net_request into" where
  "into_net_request = into_struct (in_fields False
     [(''project'', at_field nq_project (\<lambda>x q. q\<lparr>nq_project := x\<rparr>) into_string),
      (''location'', at_field nq_location (\<lambda>x q. q\<lparr>nq_location := x\<rparr>) into_string),
      (''principal'', at_field nq_principal (\<lambda>x q. q\<lparr>nq_principal := x\<rparr>) into_string),
      (''sourceIp'', at_field nq_source (\<lambda>x q. q\<lparr>nq_source := x\<rparr>) into_string),
      (''host'', at_field nq_host (\<lambda>x q. q\<lparr>nq_host := x\<rparr>) into_string),
      (''port'', at_field nq_port (\<lambda>x q. q\<lparr>nq_port := x\<rparr>) into_int),
      (''method'', at_field nq_method (\<lambda>x q. q\<lparr>nq_method := x\<rparr>) into_string),
      (''path'', at_field nq_path (\<lambda>x q. q\<lparr>nq_path := x\<rparr>) into_string)])"

section \<open>Handlers\<close>

definition policy_name_of :: "string \<Rightarrow> string" where
  "policy_name_of path = location_name (extractAfter path ''projects'') (extractAfter path ''locations'') ''authorizationPolicies''
     (extractAfter path ''authorizationPolicies'')"

definition create_net_policy ::
    "'s shim_api \<Rightarrow> draw \<Rightarrow> string \<Rightarrow> http_request \<Rightarrow> 's net_api \<Rightarrow> reply \<times> 's net_api" where
  "create_net_policy api e now r st =
     (case parseParent (rq_path r) of
        None \<Rightarrow> (Fail 400 ''INVALID_ARGUMENT'', st)
      | Some (project, location) \<Rightarrow>
          let i = query r ''authorizationPolicyId'' in
          if i = [] then (Fail 400 ''INVALID_ARGUMENT'', st)
          else case body_into (into_net_policy False) zero_net_policy (rq_body r) of
            Inl x \<Rightarrow> (Fail 400 ''INVALID_ARGUMENT'', st)
          | Inr p0 \<Rightarrow>
              if np_action p0 \<noteq> ''ALLOW'' \<and> np_action p0 \<noteq> ''DENY'' then (Fail 400 ''INVALID_ARGUMENT'', st)
              else let name = location_name project location ''authorizationPolicies'' i;
                       p = p0\<lparr>np_name := name, np_create := now, np_update := now\<rparr> in
                if gm_get (sh_data st) name \<noteq> None then (Fail 409 ''ALREADY_EXISTS'', st)
                else finishMutation api net_kind e now ''create'' name (enc_net_policy p) True (gm_del name)
                  (st\<lparr>sh_data := gm_set name (Some p) (sh_data st)\<rparr>))"

definition get_net_policy :: "http_request \<Rightarrow> 's net_api \<Rightarrow> reply" where
  "get_net_policy r st =
     (case gm_get (sh_data st) (policy_name_of (rq_path r)) of
        None \<Rightarrow> Fail 404 ''NOT_FOUND'' | Some p \<Rightarrow> Reply (enc_net_policy (clone_net_policy p)))"

definition list_net_policies :: "(string list \<Rightarrow> string) \<Rightarrow> http_request \<Rightarrow> 's net_api \<Rightarrow> reply" where
  "list_net_policies digest r st =
     (case parseParent (rq_path r) of
        None \<Rightarrow> Fail 400 ''INVALID_ARGUMENT''
      | Some (project, location) \<Rightarrow>
          let all = map (clone_net_policy \<circ> snd)
            (filter (\<lambda>(k, p). has_prefix k (location_name project location ''authorizationPolicies'' [])) (sh_data st)) in
          paged ''authorizationPolicies'' enc_net_policy
            (query_page digest 100 \<lparr>sc_service = ''networksecurity.authorizationPolicies'',
               sc_parent = ''projects/'' @ project @ ''/locations/'' @ location, sc_filter = query r ''filter'', sc_order_by = query r ''orderBy''\<rparr>
               np_name all r))"

definition patch_net_policy ::
    "'s shim_api \<Rightarrow> draw \<Rightarrow> string \<Rightarrow> http_request \<Rightarrow> 's net_api \<Rightarrow> reply \<times> 's net_api" where
  "patch_net_policy api e now r st =
     (let name = policy_name_of (rq_path r) in
      case gm_get (sh_data st) name of
        None \<Rightarrow> (Fail 404 ''NOT_FOUND'', st)
      | Some existing \<Rightarrow>
          (case patch_body (rq_body r) of
             None \<Rightarrow> (Fail 400 ''INVALID_ARGUMENT'', st)
           | Some patch \<Rightarrow>
               (case existing of
                  None \<Rightarrow> (ReplyPanics, st)
                | Some p \<Rightarrow>
                    let p' = patched enc_net_policy (into_net_policy False) zero_net_policy (query r ''updateMask'') patch
                          [(''name'', JStr (np_name p)), (''createTime'', JStr (np_create p)), (''updateTime'', JStr now)] p in
                    finishMutation api net_kind e now ''update'' name (enc_net_policy p') False
                      (gm_set name (Some (clone_net_policy (Some p)))) (st\<lparr>sh_data := gm_set name (Some p') (sh_data st)\<rparr>))))"

definition delete_net_policy ::
    "'s shim_api \<Rightarrow> draw \<Rightarrow> string \<Rightarrow> http_request \<Rightarrow> 's net_api \<Rightarrow> reply \<times> 's net_api" where
  "delete_net_policy api e now r st =
     (let name = policy_name_of (rq_path r) in
      case gm_get (sh_data st) name of
        None \<Rightarrow> (Fail 404 ''NOT_FOUND'', st)
      | Some p \<Rightarrow> finishMutation api net_kind e now ''delete'' name (JObj []) False (gm_set name p)
          (st\<lparr>sh_data := gm_del name (sh_data st)\<rparr>))"

definition net_serve ::
    "'s shim_api \<Rightarrow> (string list \<Rightarrow> string) \<Rightarrow> draw \<Rightarrow> string \<Rightarrow> http_request \<Rightarrow> 's net_api \<Rightarrow> reply \<times> 's net_api" where
  "net_serve api digest e now r st =
     (let path = rq_path r; verb = rq_method r in
      if has_suffix path '':evaluate'' \<and> verb = ''POST'' then
        (case body_into into_net_request zero_net_request (rq_body r) of
           Inl x \<Rightarrow> (Fail 400 ''INVALID_ARGUMENT'', st) | Inr q \<Rightarrow> (Reply (enc_net_decision (net_Evaluate q (sh_data st))), st))
      else if contains path ''/operations/'' \<and> verb = ''GET'' then (getOperation net_kind path st, st)
      else if has_suffix path ''/authorizationPolicies'' \<and> verb = ''POST'' then create_net_policy api e now r st
      else if has_suffix path ''/authorizationPolicies'' \<and> verb = ''GET'' then (list_net_policies digest r st, st)
      else if contains path ''/authorizationPolicies/'' \<and> verb = ''GET'' then (get_net_policy r st, st)
      else if contains path ''/authorizationPolicies/'' \<and> verb = ''PATCH'' then patch_net_policy api e now r st
      else if contains path ''/authorizationPolicies/'' \<and> verb = ''DELETE'' then delete_net_policy api e now r st
      else (Fail 404 ''NOT_FOUND'', st))"

end
