(* ===== verification/Shim_Laws.thy ===== *)
theory Shim_Laws
  imports Shim_Mutation Json_Into_Laws
begin

text \<open>
  What \<open>finishMutation\<close> guarantees over any entry store: the manager writes only its own entry, an
  acknowledged change of the tables is durable, a refused one is taken back in memory.
\<close>

section \<open>The manager writes only its own entry\<close>

definition untouched :: "(string \<Rightarrow> 's \<Rightarrow> json option) \<Rightarrow> 's manager \<Rightarrow> 's manager \<Rightarrow> bool" where
  "untouched dur m m' \<longleftrightarrow> (om_store m' = None \<longleftrightarrow> om_store m = None) \<and>
     (\<forall>s s' n. om_store m = Some s \<longrightarrow> om_store m' = Some s' \<longrightarrow> n \<noteq> operationStateEntry \<longrightarrow> dur n s' = dur n s)"

lemma untouched_refl [simp]: "untouched dur m m"
  by (simp add: untouched_def)

lemma untouched_trans: "untouched dur a b \<Longrightarrow> untouched dur b c \<Longrightarrow> untouched dur a c"
  unfolding untouched_def by (metis not_Some_eq)

lemma untouched_upd [simp]:
  "untouched dur m (m'\<lparr>om_ops := x\<rparr>) = untouched dur m m'"
  "untouched dur m (m'\<lparr>om_persistence_error := y\<rparr>) = untouched dur m m'"
  "untouched dur (m\<lparr>om_ops := x\<rparr>) m' = untouched dur m m'"
  "untouched dur m (recordPersistenceFailure n False err m') = untouched dur m m'"
  "untouched dur m (notifyTerminal op m') = untouched dur m m'"
  "untouched dur m (publishTerminalCandidate n op m') = untouched dur m m'"
  by (simp_all add: untouched_def notifyTerminal_def publishTerminalCandidate_def)

lemma MarkPersistenceFailure_simps [simp]:
  "om_ops (MarkPersistenceFailure e m) = om_ops m" "om_store (MarkPersistenceFailure e m) = om_store m"
  by (simp_all add: MarkPersistenceFailure_def split: option.split)

context operation_store
begin

lemma persist_untouched: "persistOperationSnapshotLocked api snap m = (e, m') \<Longrightarrow> untouched durable m m'"
  using save_other by (auto simp: persistOperationSnapshotLocked_def untouched_def split: option.splits prod.splits)

lemma persistLocked_untouched: "persistLocked api m = (e, m') \<Longrightarrow> untouched durable m m'"
  unfolding persistLocked_def by (rule persist_untouched)

lemma load_untouched: "loadOperationSnapshot api s = (r, s') \<Longrightarrow> durable n s' = durable n s"
proof -
  assume l: "loadOperationSnapshot api s = (r, s')"
  obtain x s1 where x: "load operationStateEntry s = (x, s1)" by (cases "load operationStateEntry s")
  with l have "s1 = s'" by (auto simp: loadOperationSnapshot_def split: sum.splits)
  with load_same [OF x] show ?thesis by simp
qed

lemma readback_untouched: "readback api m = (r, m') \<Longrightarrow> untouched durable m m'"
  using load_untouched by (auto simp: readback_def untouched_def split: option.splits prod.splits)

lemma insertDurable_untouched: "insertDurable api op rb m = (r, m') \<Longrightarrow> untouched durable m m'"
proof -
  assume i: "insertDurable api op rb m = (r, m')"
  obtain e1 m2 where p1: "persistLocked api (m\<lparr>om_ops := gm_set (o_name op) op (om_ops m)\<rparr>) = (e1, m2)"
    by (cases "persistLocked api (m\<lparr>om_ops := gm_set (o_name op) op (om_ops m)\<rparr>)")
  obtain e2 m4 where p2: "persistLocked api (m2\<lparr>om_ops := gm_del (o_name op) (om_ops m2)\<rparr>) = (e2, m4)"
    by (cases "persistLocked api (m2\<lparr>om_ops := gm_del (o_name op) (om_ops m2)\<rparr>)")
  obtain r0 m5 where rd: "readback api m4 = (r0, m5)" by (cases "readback api m4")
  have u: "untouched durable m m2" "untouched durable m2 m4" "untouched durable m4 m5"
    using persistLocked_untouched [OF p1] persistLocked_untouched [OF p2] readback_untouched [OF rd] by simp_all
  then have "untouched durable m m4" "untouched durable m m5" using untouched_trans by blast+
  with u(1) i p1 p2 rd show ?thesis
    by (auto simp: insertDurable_def Let_def split: option.splits if_splits sum.splits)
qed

lemma register_target_untouched:
  "RegisterScopedTargetDurable api e k t target m = (r, m') \<Longrightarrow> untouched durable m m'"
  by (auto simp: RegisterScopedTargetDurable_def RegisterScopedDurable_def Let_def split: prod.splits if_splits dest: insertDurable_untouched)

lemma candidate_untouched:
  assumes "persistTerminalCandidateLocked api n c snap m = (x, m')"
  shows "untouched durable m m'" and "om_ops m' = om_ops m"
proof -
  obtain e m1 where p: "persistOperationSnapshotLocked api snap m = (e, m1)" by (cases "persistOperationSnapshotLocked api snap m")
  have ops: "om_ops m1 = om_ops m" using p by (auto simp: persistOperationSnapshotLocked_def split: option.splits prod.splits)
  note u = persist_untouched [OF p]
  have l: "untouched durable m (m1\<lparr>om_store := Some s'\<rparr>)"
    if "om_store m1 = Some s" "loadOperationSnapshot api s = (r, s')" for s s' r
  proof -
    have "untouched durable m1 (m1\<lparr>om_store := Some s'\<rparr>)" using that load_untouched [OF that(2)] by (simp add: untouched_def)
    with u show ?thesis by (rule untouched_trans)
  qed
  have rc: "(recordPersistenceFailure n False err m1)\<lparr>om_store := Some s'\<rparr> = recordPersistenceFailure n False err (m1\<lparr>om_store := Some s'\<rparr>)" for err s'
    by (simp add: recordPersistenceFailure_def)
  from assms p u l show "untouched durable m m'"
    by (auto simp: persistTerminalCandidateLocked_def Let_def rc split: option.splits prod.splits sum.splits)
  from assms p ops show "om_ops m' = om_ops m"
    by (auto simp: persistTerminalCandidateLocked_def Let_def split: option.splits prod.splits sum.splits)
qed

lemma finalize_untouched:
  assumes "finalizeDurable api now n resp code msg m = (e, m')"
  shows "untouched durable m m'" and "gm_get (om_ops m') n = None \<longleftrightarrow> gm_get (om_ops m) n = None"
proof -
  have f: "untouched durable m m' \<and> (om_ops m' = om_ops m \<or> (\<exists>c. om_ops m' = gm_set n c (om_ops m)))"
    if "finish_candidate api now n cur resp code msg b m = (e, m')" for cur b
    using that candidate_untouched
    by (auto simp: finish_candidate_def publishTerminalCandidate_def notifyTerminal_def untouched_def
        split: option.splits if_splits sum.splits prod.splits; blast)
  then show "untouched durable m m'" using assms by (auto simp: finalizeDurable_def split: option.splits)
  show "gm_get (om_ops m') n = None \<longleftrightarrow> gm_get (om_ops m) n = None"
    using f assms by (auto simp: finalizeDurable_def split: option.splits) (metis gm_get_set option.distinct(1))+
qed

lemma rollback_untouched: "RollbackScopedRegistration api n m = (e, m') \<Longrightarrow> untouched durable m m'"
proof -
  assume r: "RollbackScopedRegistration api n m = (e, m')"
  obtain e1 m1 where p1: "persistLocked api (m\<lparr>om_ops := gm_del n (om_ops m)\<rparr>) = (e1, m1)"
    by (cases "persistLocked api (m\<lparr>om_ops := gm_del n (om_ops m)\<rparr>)")
  obtain r0 m2 where rd: "readback api m1 = (r0, m2)" by (cases "readback api m1")
  have u: "untouched durable m m1" "untouched durable m1 m2" using persistLocked_untouched [OF p1] readback_untouched [OF rd] by simp_all
  then have "untouched durable m m2" by (rule untouched_trans)
  with u(1) r p1 rd show ?thesis by (auto simp: RollbackScopedRegistration_def split: option.splits)
qed

lemma register_target_registered:
  "RegisterScopedTargetDurable api e k t target m = (Inr op, m') \<Longrightarrow> gm_get (om_ops m') (o_name op) = Some op"
proof -
  have i: "insertDurable api op' True m = (Inr op, m') \<Longrightarrow> gm_get (om_ops m') (o_name op) = Some op" for op'
    by (auto simp: insertDurable_def Let_def persistLocked_def persistOperationSnapshotLocked_def split: option.splits prod.splits sum.splits if_splits)
  show "RegisterScopedTargetDurable api e k t target m = (Inr op, m') \<Longrightarrow> ?thesis"
    by (auto simp: RegisterScopedTargetDurable_def RegisterScopedDurable_def Let_def split: prod.splits if_splits dest: i)
qed

end

section \<open>The second handle\<close>

lemma durable_entry_latch [simp]: "durable_entry n (s\<lparr>st_degraded := e\<rparr>) = durable_entry n s"
  by (simp add: durable_entry_def)

lemma own_SaveE:
  assumes "own_Save n v s = (e, s')"
  obtains s1 where "Save n v (s\<lparr>st_degraded := None\<rparr>) = (e, s1)" "s' = s1\<lparr>st_degraded := st_degraded s\<rparr>"
  using assms by (auto simp: own_Save_def split: prod.splits)

lemma own_LoadE:
  assumes "own_Load n s = (r, s')"
  obtains s1 where "Load n (s\<lparr>st_degraded := None\<rparr>) = (r, s1)" "s' = s1\<lparr>st_degraded := st_degraded s\<rparr>"
  using assms by (auto simp: own_Load_def split: prod.splits)

interpretation own_store: entry_store own_Save own_Load durable_entry
proof
  fix n v s s' assume "own_Save n v s = (None, s')"
  then show "v = durable_entry n s' \<and> v \<noteq> None" by (rule own_SaveE) (use disk_store.save_ok in fastforce)
next
  fix n v s e s' assume "own_Save n v s = (Some e, s')"
  then show "durable_entry n s' = durable_entry n s \<or> v = durable_entry n s' \<and> v \<noteq> None"
    by (rule own_SaveE) (use disk_store.save_fail in fastforce)
next
  fix n v s err s' and n' :: string assume "own_Save n v s = (err, s')" "n' \<noteq> n"
  then show "durable_entry n' s' = durable_entry n' s" by (elim own_SaveE) (use disk_store.save_other in fastforce)
next
  fix n s r s' n' assume "own_Load n s = (r, s')"
  then show "durable_entry n' s' = durable_entry n' s" by (rule own_LoadE) (use disk_store.load_same in fastforce)
next
  fix n s j s' assume "own_Load n s = (Inr j, s')"
  then show "durable_entry n s = Some j" by (rule own_LoadE) (use disk_store.load_value in fastforce)
next
  fix n s e s' assume "own_Load n s = (Inl e, s')" "is_err ErrNotFound e"
  then show "durable_entry n s = None" by (elim own_LoadE) (use disk_store.load_absent in fastforce)
qed

section \<open>The contract of a metadata shim\<close>

definition entry_of :: "(string \<Rightarrow> 's \<Rightarrow> json option) \<Rightarrow> 'd shim_kind \<Rightarrow> 's manager \<Rightarrow> json option" where
  "entry_of dur k m = (case om_store m of None \<Rightarrow> None | Some s \<Rightarrow> dur (sk_entry k) s)"

definition tables_durable :: "(string \<Rightarrow> 's \<Rightarrow> json option) \<Rightarrow> 'd shim_kind \<Rightarrow> ('d, 's) shim \<Rightarrow> bool" where
  "tables_durable dur k st \<longleftrightarrow> om_store (sh_mgr st) = None \<or> entry_of dur k (sh_mgr st) = Some (sk_enc k (sh_data st))"

text \<open>A guard that is closed stops every later save: the document keeps what it has.\<close>

lemma guard_stops:
  "om_store (sh_mgr st) \<noteq> None \<Longrightarrow> sh_degraded st = Some e \<Longrightarrow> \<exists>x. persistState api k st = (Some x, st)"
  by (cases st) (auto simp: persistState_def guarded_Save_def split: option.splits)

text \<open>The shim has an entry of its own and reads back the tables it writes, in a normal form.\<close>

locale metadata_shim = operation_store save load durable + own: entry_store own_save own_load durable
  for save :: "string \<Rightarrow> json option \<Rightarrow> 's \<Rightarrow> store_error option \<times> 's"
    and load :: "string \<Rightarrow> 's \<Rightarrow> (store_error + json) \<times> 's"
    and own_save :: "string \<Rightarrow> json option \<Rightarrow> 's \<Rightarrow> store_error option \<times> 's"
    and own_load :: "string \<Rightarrow> 's \<Rightarrow> (store_error + json) \<times> 's"
    and durable :: "string \<Rightarrow> 's \<Rightarrow> json option" +
  fixes kind :: "'d shim_kind"
    and read :: "json \<Rightarrow> 'd \<times> bool"
    and ok :: "'d \<Rightarrow> bool"
    and norm :: "'d \<Rightarrow> 'd"
  assumes own_entry: "sk_entry kind \<noteq> operationStateEntry"
    and reads_back: "ok d \<Longrightarrow> read (sk_enc kind d) = (norm d, True)"
begin

abbreviation handles where "handles \<equiv> \<lparr>sa_mgr = api, sa_own = \<lparr>api_save = own_save, api_load = own_load\<rparr>\<rparr>"

lemma untouched_entry: "untouched durable m m' \<Longrightarrow> entry_of durable kind m' = entry_of durable kind m"
  using own_entry by (auto simp: untouched_def entry_of_def split: option.splits)

lemma untouched_tables:
  "untouched durable m m' \<Longrightarrow> tables_durable durable kind \<lparr>sh_data = d, sh_degraded = x, sh_mgr = m'\<rparr> =
     tables_durable durable kind \<lparr>sh_data = d, sh_degraded = y, sh_mgr = m\<rparr>"
  by (simp add: tables_durable_def untouched_entry) (simp add: untouched_def)

lemma persistState_result:
  assumes "persistState handles kind st = (e, st')"
  shows "sh_data st' = sh_data st" and "om_ops (sh_mgr st') = om_ops (sh_mgr st)"
    and "om_store (sh_mgr st') = None \<longleftrightarrow> om_store (sh_mgr st) = None" and "e = None \<Longrightarrow> tables_durable durable kind st'"
  using assms own.save_ok [of "sk_entry kind" "Some (sk_enc kind (sh_data st))"]
  by (auto simp: persistState_def guarded_Save_def tables_durable_def entry_of_def split: option.splits prod.splits)

lemma compensate_result:
  assumes "compensate handles kind rb n st = st'"
  shows "sh_data st' = rb (sh_data st)"
    and "sk_marks kind \<Longrightarrow> tables_durable durable kind st' \<or> om_persistence_error (sh_mgr st') \<noteq> None"
proof -
  obtain e1 st1 where p: "persistState handles kind (st\<lparr>sh_data := rb (sh_data st)\<rparr>) = (e1, st1)" by (cases "persistState handles kind (st\<lparr>sh_data := rb (sh_data st)\<rparr>)")
  obtain e2 m2 where r: "RollbackScopedRegistration api n (sh_mgr st1) = (e2, m2)" by (cases "RollbackScopedRegistration api n (sh_mgr st1)")
  note q = persistState_result [OF p]
  have st': "st' = st1\<lparr>sh_mgr := (if sk_marks kind then MarkPersistenceFailure (map_option OpSaveFailed e1) m2 else m2)\<rparr>"
    using assms p r by (simp add: compensate_def)
  with q(1) show "sh_data st' = rb (sh_data st)" by simp
  assume marks: "sk_marks kind"
  show "tables_durable durable kind st' \<or> om_persistence_error (sh_mgr st') \<noteq> None"
  proof (cases e1)
    case None
    have "tables_durable durable kind (st1\<lparr>sh_mgr := m2\<rparr>)"
      using untouched_tables [OF rollback_untouched [OF r], of "sh_data st1" "sh_degraded st1" "sh_degraded st1"] q(4) [OF None] by (cases st1) simp
    with st' None marks show ?thesis by (simp add: MarkPersistenceFailure_def)
  next
    case (Some x)
    with st' marks show ?thesis by (simp add: MarkPersistenceFailure_def recordPersistenceFailure_def Let_def)
  qed
qed

lemma finishMutation_cases:
  assumes "finishMutation handles kind e now verb target resp async rb st = (v, st')"
  obtains (unregistered) m where "untouched durable (sh_mgr st) m" "v = Fail 503 ''UNAVAILABLE''" "st' = st\<lparr>sh_data := rb (sh_data st), sh_mgr := m\<rparr>"
    | (compensated) n st1 where "v = Fail 503 ''UNAVAILABLE''" "sh_data st1 = sh_data st" "st' = compensate handles kind rb n st1"
    | (acknowledged) j where "v = Reply j" "sh_data st' = sh_data st" "tables_durable durable kind st'"
proof -
  obtain r m where r: "RegisterScopedTargetDurable api e (sk_service kind) verb target (sh_mgr st) = (r, m)"
    by (cases "RegisterScopedTargetDurable api e (sk_service kind) verb target (sh_mgr st)")
  note u = register_target_untouched [OF r]
  show ?thesis
  proof (cases r)
    case (Inl x)
    with assms r u show ?thesis by (intro unregistered) (auto simp: finishMutation_def)
  next
    case (Inr op)
    note reg = register_target_registered [OF r [unfolded Inr]]
    obtain e2 st2 where p: "persistState handles kind (st\<lparr>sh_mgr := m\<rparr>) = (e2, st2)" by (cases "persistState handles kind (st\<lparr>sh_mgr := m\<rparr>)")
    note q = persistState_result [OF p]
    show ?thesis
    proof (cases e2)
      case (Some x)
      with assms r Inr p q(1) show ?thesis by (intro compensated [of st2 "o_name op"]) (auto simp: finishMutation_def)
    next
      case None
      show ?thesis
      proof (cases async)
        case True
        with assms r Inr p q(1) q(4) [OF None] None show ?thesis by (intro acknowledged) (auto simp: finishMutation_def)
      next
        case False
        obtain e3 m3 where f: "finalizeDurable api now (o_name op) (Raw resp) 0 [] (sh_mgr st2) = (e3, m3)"
          by (cases "finalizeDurable api now (o_name op) (Raw resp) 0 [] (sh_mgr st2)")
        show ?thesis
        proof (cases e3)
          case (Some x)
          with assms r Inr p q(1) None False f show ?thesis
            by (intro compensated [of "st2\<lparr>sh_mgr := m3\<rparr>" "o_name op"]) (auto simp: finishMutation_def)
        next
          case ok3: None
          have "gm_get (om_ops m3) (o_name op) \<noteq> None" using finalize_untouched(2) [OF f] reg q(2) by simp
          then obtain op' where op': "Get (o_name op) m3 = Some op'" by (auto simp: Get_def)
          have "tables_durable durable kind (st2\<lparr>sh_mgr := m3\<rparr>)"
            using untouched_tables [OF finalize_untouched(1) [OF f], of "sh_data st2" "sh_degraded st2" "sh_degraded st2"] q(4) [OF None] by (cases st2) simp
          with assms r Inr p q(1) None False f ok3 op' show ?thesis by (intro acknowledged) (auto simp: finishMutation_def)
        qed
      qed
    qed
  qed
qed

lemma acknowledged_durable:
  "finishMutation handles kind e now verb target resp async rb st = (Reply j, st') \<Longrightarrow> sh_data st' = sh_data st \<and> tables_durable durable kind st'"
  by (erule finishMutation_cases) auto

lemma refused_rolled_back:
  "finishMutation handles kind e now verb target resp async rb st = (Fail c x, st') \<Longrightarrow> c = 503 \<and> sh_data st' = rb (sh_data st)"
  by (erule finishMutation_cases) (simp_all add: compensate_result(1) [OF refl])

lemma refused_reported:
  "finishMutation handles kind e now verb target resp async rb st = (Fail c x, st') \<Longrightarrow> sk_marks kind \<Longrightarrow>
   entry_of durable kind (sh_mgr st') = entry_of durable kind (sh_mgr st) \<and> (om_store (sh_mgr st') = None \<longleftrightarrow> om_store (sh_mgr st) = None) \<or>
   tables_durable durable kind st' \<or> om_persistence_error (sh_mgr st') \<noteq> None"
proof (erule finishMutation_cases, goal_cases)
  case (1 m)
  then show ?case by (simp add: untouched_entry) (simp add: untouched_def)
next
  case (2 n st1)
  then have "sk_marks kind" and "st' = compensate handles kind rb n st1" by simp_all
  from compensate_result(2) [OF this(2) [symmetric] this(1)] show ?case by blast
qed simp

lemma finishMutation_data:
  "finishMutation handles kind e now verb target resp async rb st = (v, st') \<Longrightarrow> sh_data st' = sh_data st \<or> sh_data st' = rb (sh_data st)"
  by (erule finishMutation_cases) (simp_all add: compensate_result(1) [OF refl])

lemma never_panics: "fst (finishMutation handles kind e now verb target resp async rb st) \<noteq> ReplyPanics"
  by (cases "finishMutation handles kind e now verb target resp async rb st") (auto elim: finishMutation_cases)

lemma finish_later_keeps:
  "sh_data (finish_later handles now n resp st) = sh_data st \<and> (tables_durable durable kind (finish_later handles now n resp st) = tables_durable durable kind st)"
proof -
  obtain e m where f: "finalizeDurable api now n (Raw resp) 0 [] (sh_mgr st) = (e, m)" by (cases "finalizeDurable api now n (Raw resp) 0 [] (sh_mgr st)")
  from untouched_tables [OF finalize_untouched(1) [OF f], of "sh_data st" "sh_degraded st" "sh_degraded st"] f show ?thesis by (cases st) (simp add: finish_later_def)
qed

lemma restart_reads:
  assumes "tables_durable durable kind st" and "ok (sh_data st)" and "om_store (sh_mgr st) = Some s" and "om_store m = Some s"
    and "own_load (sk_entry kind) s = (Inr v, s')"
  shows "sh_data (shim_load handles kind read none m) = norm (sh_data st)"
proof -
  have "v = sk_enc kind (sh_data st)" using own.load_value [OF assms(5)] assms(1,3) by (simp add: tables_durable_def entry_of_def)
  then show ?thesis using assms(4,5) reads_back [OF assms(2)] by (simp add: shim_load_def guarded_Load_def)
qed

end

end
