(* ===== verification/Network_Security_Properties.thy ===== *)
theory Network_Security_Properties
  imports Network_Security Shim_Laws
begin

text \<open>
  Network Security: its tables are read back, so \<open>finishMutation\<close> keeps its contract; the invariant of the
  stored policies; and what the evaluators decide, in terms that do not name an order.
\<close>

section \<open>Reading back\<close>

definition net_policy_ok :: "net_policy \<Rightarrow> bool" where
  "net_policy_ok p \<longleftrightarrow> map_ok (np_labels p) \<and> list_all (\<lambda>r. list_all (\<lambda>d. list_all int64_range (dst_ports d)) (nr_destinations r)) (np_rules p)"

lemma int64_range_0 [simp]: "int64_range 0"
  by (simp add: int64_range_def)

lemma into_enc_source: "into_source s (enc_source x) zero_source = (x, True)"
  by (simp add: into_source_def enc_source_def into_struct_def zero_source_def into_members_append into_simps)

lemma into_enc_destination: "list_all int64_range (dst_ports x) \<Longrightarrow> into_destination s (enc_destination x) zero_destination = (x, True)"
  by (simp add: into_destination_def enc_destination_def into_struct_def zero_destination_def into_members_append into_simps list_all_iff)

lemma into_enc_net_rule:
  "list_all (\<lambda>d. list_all int64_range (dst_ports d)) (nr_destinations x) \<Longrightarrow> into_rule s (enc_rule x) zero_rule = (x, True)"
  by (simp add: into_rule_def enc_rule_def into_struct_def zero_rule_def into_members_append into_simps into_enc_source into_enc_destination list_all_iff)

lemma into_enc_net_policy: "net_policy_ok p \<Longrightarrow> into_net_policy s (enc_net_policy p) zero_net_policy = (p, True)"
  by (simp add: into_net_policy_def enc_net_policy_def into_struct_def zero_net_policy_def into_members_append into_simps into_enc_net_rule
      net_policy_ok_def list_all_iff)

lemma clone_net_policy_ok: "net_policy_ok p \<Longrightarrow> clone_net_policy (Some p) = p"
  by (simp add: clone_net_policy_def into_enc_net_policy)

section \<open>The invariant\<close>

lemma into_destination_keeps: "list_all int64_range (dst_ports d) \<Longrightarrow> list_all int64_range (dst_ports (fst (into_destination s v d)))"
  unfolding into_destination_def by (rule into_struct_inv) (simp_all add: into_slice_inv into_int_inv)

lemma into_rule_keeps:
  "list_all (\<lambda>d. list_all int64_range (dst_ports d)) (nr_destinations r) \<Longrightarrow>
   list_all (\<lambda>d. list_all int64_range (dst_ports d)) (nr_destinations (fst (into_rule s v r)))"
  unfolding into_rule_def
  by (rule into_struct_inv) (simp_all add: into_slice_inv into_destination_keeps zero_destination_def)

lemma into_net_policy_keeps: "net_policy_ok p \<Longrightarrow> net_policy_ok (fst (into_net_policy s v p))"
proof -
  have m: "map_ok m \<Longrightarrow> map_ok (fst (into_map into_string [] v m))" for m v
    using into_map_inv [of "\<lambda>_. True" into_string "[]" m v] by (simp add: list_all_iff)
  let ?P = "\<lambda>r. list_all (\<lambda>d. list_all int64_range (dst_ports d)) (nr_destinations r)"
  have r: "list_all ?P rs \<Longrightarrow> list_all ?P (fst (into_slice (into_rule s) zero_rule v rs))" for v rs
    by (rule into_slice_inv) (simp_all only: into_rule_keeps, simp add: zero_rule_def)
  show "net_policy_ok p \<Longrightarrow> ?thesis"
    unfolding into_net_policy_def by (rule into_struct_inv) (simp_all add: net_policy_ok_def m r)
qed

lemma zero_net_policy_ok [simp]: "net_policy_ok zero_net_policy"
  by (simp add: net_policy_ok_def zero_net_policy_def)

lemma body_net_policy_ok: "body_into (into_net_policy s) zero_net_policy b = Inr p \<Longrightarrow> net_policy_ok p"
  using into_net_policy_keeps [OF zero_net_policy_ok] by (metis body_into_Inr fst_conv)

text \<open>A stored policy has the name it is stored under.\<close>

definition net_ok :: "net_policy option gomap \<Rightarrow> bool" where
  "net_ok m \<longleftrightarrow> gm_wf m \<and> (\<forall>(k, p) \<in> set m. \<exists>x. p = Some x \<and> np_name x = k \<and> net_policy_ok x)"

lemma net_ok_Nil [simp]: "net_ok []"
  by (simp add: net_ok_def)

lemma net_ok_set: "net_ok m \<Longrightarrow> net_policy_ok x \<Longrightarrow> np_name x = k \<Longrightarrow> net_ok (gm_set k (Some x) m)"
proof -
  have "set (gm_set k (Some x) m) \<subseteq> insert (k, Some x) (set m)" by (induction m) auto
  then show "net_ok m \<Longrightarrow> net_policy_ok x \<Longrightarrow> np_name x = k \<Longrightarrow> ?thesis" unfolding net_ok_def by auto
qed

lemma net_ok_del: "net_ok m \<Longrightarrow> net_ok (gm_del k m)"
  by (auto simp: net_ok_def AList.delete_eq)

lemma net_ok_get: "net_ok m \<Longrightarrow> gm_get m k = Some p \<Longrightarrow> \<exists>x. p = Some x \<and> np_name x = k \<and> net_policy_ok x"
  by (auto simp: net_ok_def dest!: map_of_SomeD)

lemma into_enc_net_metadata:
  assumes "net_ok m"
  shows "into_net_metadata s (enc_net_metadata m) [] = (sort_members m, True)"
proof -
  have "into_map (into_ptr (into_net_policy s) zero_net_policy) None
      (JObj (map (\<lambda>(k, p). (k, enc_net_policy (clone_net_policy p))) (sort_members m))) [] = (sort_members m, True)"
  proof (rule into_map_map)
    fix k p assume "(k, p) \<in> set (sort_members m)"
    then obtain x where "p = Some x" "net_policy_ok x" using assms by (auto simp: net_ok_def)
    moreover have "enc_net_policy x \<noteq> JNull" for x by (simp add: enc_net_policy_def)
    ultimately show "into_ptr (into_net_policy s) zero_net_policy (enc_net_policy (clone_net_policy p)) None = (p, True)"
      by (simp add: into_ptr_def clone_net_policy_ok into_enc_net_policy)
  qed (use assms in \<open>simp add: net_ok_def\<close>)
  then show ?thesis by (simp add: into_net_metadata_def enc_net_metadata_def into_struct_def into_simps)
qed

interpretation net_shim: metadata_shim Save Load own_Save own_Load durable_entry net_kind "\<lambda>v. into_net_metadata False v []" net_ok sort_members
  by unfold_locales (simp_all add: net_kind_def operationStateEntry_def into_enc_net_metadata)

text \<open>Whatever members a patch has, the pinned name wins.\<close>

lemma patched_name:
  "np_name (patched enc_net_policy (into_net_policy s) z fm patch [(''name'', JStr n), (''createTime'', c), (''updateTime'', u)] p) = n"
  unfolding patched_def into_net_policy_def
  by (rule patched_pinned [where n = "''name''" and h = "at_field np_name (\<lambda>x p. p\<lparr>np_name := x\<rparr>) into_string" and v = "JStr n"])
    (simp_all add: set_all_def mask_merge_wf, simp add: to_lower_def lower_char_def)

lemma patched_ok: "net_policy_ok (patched enc_net_policy (into_net_policy s) zero_net_policy fm patch pinned p)"
  by (simp add: patched_def into_net_policy_keeps)

section \<open>Requests\<close>

abbreviation (input) net_finish where
  "net_finish \<equiv> finishMutation shim_store net_kind"

text \<open>The three changes of the tables that are handed to \<open>finishMutation\<close>; each can be taken back.\<close>

definition net_change :: "string \<Rightarrow> (net_policy option gomap \<Rightarrow> net_policy option gomap) \<Rightarrow> net_policy option gomap \<Rightarrow> net_policy option gomap \<Rightarrow> bool" where
  "net_change name undo m m' \<longleftrightarrow>
     (\<exists>x. gm_get m name = None \<and> net_policy_ok x \<and> np_name x = name \<and> m' = gm_set name (Some x) m \<and> undo = gm_del name) \<or>
     (\<exists>x y. gm_get m name = Some (Some x) \<and> net_policy_ok x \<and> np_name x = name \<and> net_policy_ok y \<and> np_name y = name \<and>
        m' = gm_set name (Some y) m \<and> undo = gm_set name (Some x)) \<or>
     (\<exists>x. gm_get m name = Some (Some x) \<and> net_policy_ok x \<and> np_name x = name \<and> m' = gm_del name m \<and> undo = gm_set name (Some x))"

lemma net_change_ok: "net_ok m \<Longrightarrow> net_change name undo m m' \<Longrightarrow> net_ok m' \<and> net_ok (undo m')"
  unfolding net_change_def by (elim disjE exE conjE) (simp_all add: net_ok_set net_ok_del)

lemma net_change_back: "net_ok m \<Longrightarrow> net_change name undo m m' \<Longrightarrow> gm_get (undo m') = gm_get m"
  unfolding net_change_def by (elim disjE exE conjE) (auto simp: fun_eq_iff net_ok_def)

definition net_finished ::
    "(string list \<Rightarrow> string) \<Rightarrow> draw \<Rightarrow> string \<Rightarrow> http_request \<Rightarrow> store net_api \<Rightarrow> reply \<times> store net_api \<Rightarrow> bool" where
  "net_finished digest e now r st x \<longleftrightarrow>
     (\<exists>name undo m' verb resp later. net_change name undo (sh_data st) m' \<and>
        x = finishMutation shim_store net_kind e now verb name resp later undo (st\<lparr>sh_data := m'\<rparr>))"

lemma create_finished:
  "snd (create_net_policy shim_store e now r st) = st \<and> (\<exists>c x. fst (create_net_policy shim_store e now r st) = Fail c x \<and> c \<noteq> 503) \<or>
   net_finished digest e now r st (create_net_policy shim_store e now r st)"
proof (cases "\<exists>project location p0. parseParent (rq_path r) = Some (project, location) \<and> query r ''authorizationPolicyId'' \<noteq> [] \<and>
    body_into (into_net_policy False) zero_net_policy (rq_body r) = Inr p0 \<and> (np_action p0 = ''ALLOW'' \<or> np_action p0 = ''DENY'') \<and>
    gm_get (sh_data st) (location_name project location ''authorizationPolicies'' (query r ''authorizationPolicyId'')) = None")
  case True
  then obtain project location p0 where g: "parseParent (rq_path r) = Some (project, location)" "query r ''authorizationPolicyId'' \<noteq> []"
    "body_into (into_net_policy False) zero_net_policy (rq_body r) = Inr p0" "np_action p0 = ''ALLOW'' \<or> np_action p0 = ''DENY''"
    "gm_get (sh_data st) (location_name project location ''authorizationPolicies'' (query r ''authorizationPolicyId'')) = None" by blast
  let ?n = "location_name project location ''authorizationPolicies'' (query r ''authorizationPolicyId'')"
  let ?p = "p0\<lparr>np_name := ?n, np_create := now, np_update := now\<rparr>"
  have "net_change ?n (gm_del ?n) (sh_data st) (gm_set ?n (Some ?p) (sh_data st))"
    using g(5) body_net_policy_ok [OF g(3)] unfolding net_change_def
    by (intro disjI1 exI [of _ ?p]) (simp add: net_policy_ok_def)
  moreover have "create_net_policy shim_store e now r st =
      finishMutation shim_store net_kind e now ''create'' ?n (enc_net_policy ?p) True (gm_del ?n) (st\<lparr>sh_data := gm_set ?n (Some ?p) (sh_data st)\<rparr>)"
    using g by (auto simp: create_net_policy_def Let_def)
  ultimately show ?thesis unfolding net_finished_def by blast
next
  case False
  then show ?thesis
    by (auto simp: create_net_policy_def Let_def split: option.splits sum.splits)
qed

lemma patch_finished:
  assumes "net_ok (sh_data st)"
  shows "snd (patch_net_policy shim_store e now r st) = st \<and> (\<exists>c x. fst (patch_net_policy shim_store e now r st) = Fail c x \<and> c \<noteq> 503) \<or>
     net_finished digest e now r st (patch_net_policy shim_store e now r st)"
proof (cases "\<exists>p patch. gm_get (sh_data st) (policy_name_of (rq_path r)) = Some p \<and> patch_body (rq_body r) = Some patch")
  case True
  let ?n = "policy_name_of (rq_path r)"
  from True obtain q patch where g: "gm_get (sh_data st) ?n = Some q" "patch_body (rq_body r) = Some patch" by blast
  from net_ok_get [OF assms g(1)] obtain p where p: "q = Some p" "np_name p = ?n" "net_policy_ok p" by blast
  let ?y = "patched enc_net_policy (into_net_policy False) zero_net_policy (query r ''updateMask'') patch
    [(''name'', JStr (np_name p)), (''createTime'', JStr (np_create p)), (''updateTime'', JStr now)] p"
  have "net_change ?n (gm_set ?n (Some p)) (sh_data st) (gm_set ?n (Some ?y) (sh_data st))"
    using g(1) p patched_name patched_ok unfolding net_change_def
    by (intro disjI2 disjI1 exI [of _ p] exI [of _ ?y]) simp
  moreover have "patch_net_policy shim_store e now r st =
      finishMutation shim_store net_kind e now ''update'' ?n (enc_net_policy ?y) False (gm_set ?n (Some p)) (st\<lparr>sh_data := gm_set ?n (Some ?y) (sh_data st)\<rparr>)"
    using g p by (simp add: patch_net_policy_def Let_def clone_net_policy_ok)
  ultimately show ?thesis unfolding net_finished_def by blast
next
  case False
  then show ?thesis by (auto simp: patch_net_policy_def Let_def split: option.splits)
qed

lemma delete_finished:
  assumes "net_ok (sh_data st)"
  shows "snd (delete_net_policy shim_store e now r st) = st \<and> (\<exists>c x. fst (delete_net_policy shim_store e now r st) = Fail c x \<and> c \<noteq> 503) \<or>
     net_finished digest e now r st (delete_net_policy shim_store e now r st)"
proof (cases "gm_get (sh_data st) (policy_name_of (rq_path r))")
  case (Some q)
  let ?n = "policy_name_of (rq_path r)"
  from net_ok_get [OF assms Some] obtain p where p: "q = Some p" "np_name p = ?n" "net_policy_ok p" by blast
  have "net_change ?n (gm_set ?n (Some p)) (sh_data st) (gm_del ?n (sh_data st))"
    using Some p unfolding net_change_def by (intro disjI2 exI [of _ p]) simp
  moreover have "delete_net_policy shim_store e now r st =
      finishMutation shim_store net_kind e now ''delete'' ?n (JObj []) False (gm_set ?n (Some p)) (st\<lparr>sh_data := gm_del ?n (sh_data st)\<rparr>)"
    using Some p by (simp add: delete_net_policy_def Let_def)
  ultimately show ?thesis unfolding net_finished_def by blast
qed (simp add: delete_net_policy_def Let_def)

text \<open>A request of the API: it changes nothing, or it is one of those changes.\<close>

lemma net_serve_cases:
  assumes "net_ok (sh_data st)"
  shows "snd (net_serve shim_store digest e now r st) = st \<and>
      ((\<exists>c x. fst (net_serve shim_store digest e now r st) = Fail c x) \<or> rq_method r = ''GET'' \<or> has_suffix (rq_path r) '':evaluate'') \<or>
    net_finished digest e now r st (net_serve shim_store digest e now r st)"
  unfolding net_serve_def Let_def
  using create_finished [of e now r st digest] patch_finished [OF assms, of e now r digest] delete_finished [OF assms, of e now r digest]
  by (auto split: sum.splits)

section \<open>What the API guarantees\<close>

text \<open>
  Whatever a request says, a refused one and a rolled back one included, every stored policy keeps the
  name it is stored under, no stored policy is nil and what is stored can be written and read back.
\<close>
theorem stored_policies_keep_their_names:
  assumes "net_ok (sh_data st)"
  shows "net_ok (sh_data (snd (net_serve shim_store digest e now r st)))"
proof -
  consider "snd (net_serve shim_store digest e now r st) = st" | "net_finished digest e now r st (net_serve shim_store digest e now r st)"
    using net_serve_cases [OF assms, of digest e now r] by blast
  then show ?thesis
  proof cases
    case 2
    then obtain name undo m' verb resp later where c: "net_change name undo (sh_data st) m'"
      "net_serve shim_store digest e now r st = finishMutation shim_store net_kind e now verb name resp later undo (st\<lparr>sh_data := m'\<rparr>)"
      unfolding net_finished_def by blast
    obtain v st' where v: "net_serve shim_store digest e now r st = (v, st')" by (cases "net_serve shim_store digest e now r st")
    from net_shim.finishMutation_data [OF c(2) [symmetric, unfolded v]] show ?thesis using net_change_ok [OF assms c(1)] v by auto
  qed (use assms in simp)
qed

text \<open>
  A change the API acknowledged is durable.  A server that starts on a store holding what the
  acknowledged request left, before or after its operation ends, has the same policies, unless that
  store cannot be read.
\<close>
theorem acknowledged_network_change_survives_restart:
  assumes "net_serve shim_store digest e now r st = (Reply v, st')" and "net_ok (sh_data st)"
    and "rq_method r \<noteq> ''GET''" and "\<not> has_suffix (rq_path r) '':evaluate''"
    and "st'' = st' \<or> st'' = finish_later shim_store later name resp st'"
    and "om_store (sh_mgr st'') = Some s" and "om_store m = Some s" and "own_Load ''networksecurity/metadata'' s = (Inr w, s')"
  shows "sh_data (net_load shim_store m) = sort_members (sh_data st')"
proof -
  have "net_finished digest e now r st (Reply v, st')"
    using net_serve_cases [OF assms(2), of digest e now r] assms(1,3,4) by auto
  then obtain n undo m' verb resp async where c: "net_change n undo (sh_data st) m'"
    "finishMutation shim_store net_kind e now verb n resp async undo (st\<lparr>sh_data := m'\<rparr>) = (Reply v, st')"
    unfolding net_finished_def by metis
  note d = net_shim.acknowledged_durable [OF c(2)]
  have "tables_durable durable_entry net_kind st'' \<and> sh_data st'' = sh_data st'"
    using d assms(5) net_shim.finish_later_keeps by auto
  moreover have "net_ok (sh_data st'')" using calculation d net_change_ok [OF assms(2) c(1)] by simp
  moreover have "sk_entry net_kind = ''networksecurity/metadata''" by (simp add: net_kind_def)
  ultimately show ?thesis
    using net_shim.restart_reads [of st'' s m w s' "[]"] assms(6-8) by (simp add: net_load_def)
qed

text \<open>
  C15: a refused change (503) is taken back.  Every policy is looked up as before; and the entry in
  the store is the one of before, or agrees with the tables, or the manager has latched a persistence error.
\<close>
theorem refused_network_change_is_taken_back:
  assumes "net_serve shim_store digest e now r st = (Fail 503 x, st')" and "net_ok (sh_data st)"
  shows "gm_get (sh_data st') = gm_get (sh_data st) \<and>
    (entry_of durable_entry net_kind (sh_mgr st') = entry_of durable_entry net_kind (sh_mgr st) \<or>
     tables_durable durable_entry net_kind st' \<or> om_persistence_error (sh_mgr st') \<noteq> None)"
proof -
  consider "st' = st" | "net_finished digest e now r st (Fail 503 x, st')"
    using net_serve_cases [OF assms(2), of digest e now r] assms(1) by auto
  then show ?thesis
  proof cases
    case 2
    then obtain n undo m' verb resp async where c: "net_change n undo (sh_data st) m'"
      "finishMutation shim_store net_kind e now verb n resp async undo (st\<lparr>sh_data := m'\<rparr>) = (Fail 503 x, st')"
      unfolding net_finished_def by metis
    have "sk_marks net_kind" by (simp add: net_kind_def)
    from net_shim.refused_rolled_back [OF c(2)] net_shim.refused_reported [OF c(2) this] net_change_back [OF assms(2) c(1)]
    show ?thesis by auto
  qed simp
qed

section \<open>What the evaluators decide\<close>

text \<open>A stored policy of the location that matches the request.\<close>

definition applies_to :: "string \<Rightarrow> string \<Rightarrow> net_policy option gomap \<Rightarrow> net_request \<Rightarrow> net_policy \<Rightarrow> bool" where
  "applies_to project location m q p \<longleftrightarrow> (np_name p, Some p) \<in> set m \<and>
     has_prefix (np_name p) (location_name project location ''authorizationPolicies'' []) \<and> policyMatches p q"

lemma scoped_policies_set:
  assumes "net_ok m"
  shows "p \<in> set (scoped_policies project location m) \<and> policyMatches p q \<longleftrightarrow> applies_to project location m q p"
proof -
  have "p \<in> set (scoped_policies project location m) \<longleftrightarrow>
      (\<exists>k y. (k, y) \<in> set m \<and> has_prefix k (location_name project location ''authorizationPolicies'' []) \<and> p = clone_net_policy y)"
    by (auto simp: scoped_policies_def image_iff)
  also have "\<dots> \<longleftrightarrow> (np_name p, Some p) \<in> set m \<and> has_prefix (np_name p) (location_name project location ''authorizationPolicies'' [])"
    using assms by (fastforce simp: net_ok_def clone_net_policy_ok)
  finally show ?thesis by (auto simp: applies_to_def)
qed

lemma scoped_policies_named: "net_ok m \<Longrightarrow> p \<in> set (scoped_policies project location m) \<Longrightarrow> np_name p \<noteq> []"
  by (fastforce simp: scoped_policies_def net_ok_def clone_net_policy_ok location_name_def has_prefix_def)

lemma scoped_policies_sorted: "net_ok m \<Longrightarrow> sorted_wrt (<) (map np_name (scoped_policies project location m))"
proof -
  assume ok: "net_ok m"
  let ?l = "filter (\<lambda>(k, p). has_prefix k (location_name project location ''authorizationPolicies'' [])) m"
  have "map (np_name \<circ> (clone_net_policy \<circ> snd)) ?l = map fst ?l"
    by (rule map_cong [OF refl]) (use ok in \<open>fastforce simp: net_ok_def clone_net_policy_ok\<close>)
  moreover have "distinct (map fst ?l)" using ok gm_wf_filter by (auto simp: net_ok_def gm_wf_def)
  ultimately have "distinct (map np_name (map (clone_net_policy \<circ> snd) ?l))" by (simp only: map_map)
  moreover have "mset (map np_name (scoped_policies project location m)) = mset (map np_name (map (clone_net_policy \<circ> snd) ?l))"
    unfolding scoped_policies_def mset_map mset_sort by (rule refl)
  ultimately have "distinct (map np_name (scoped_policies project location m))" using mset_eq_imp_distinct_iff by blast
  then show ?thesis by (simp add: strict_sorted_iff scoped_policies_def)
qed

lemma find_least:
  "sorted_wrt (<) (map f xs) \<Longrightarrow> find P xs = Some x \<longleftrightarrow> x \<in> set xs \<and> P x \<and> (\<forall>y \<in> set xs. P y \<longrightarrow> \<not> f y < (f x :: 'b :: linorder))"
  by (induction xs) (auto dest: less_asym)

text \<open>The policy that decides: the first by name of those that apply and do not allow.\<close>

definition decides :: "string \<Rightarrow> string \<Rightarrow> net_policy option gomap \<Rightarrow> net_request \<Rightarrow> net_policy \<Rightarrow> bool" where
  "decides project location m q p \<longleftrightarrow> applies_to project location m q p \<and> np_action p \<noteq> ''ALLOW'' \<and>
     (\<forall>p'. applies_to project location m q p' \<and> np_name p' < np_name p \<longrightarrow> np_action p' = ''ALLOW'')"

lemma decides_find:
  assumes "net_ok m"
  shows "find (\<lambda>p. policyMatches p q \<and> np_action p \<noteq> ''ALLOW'') (scoped_policies project location m) = Some p \<longleftrightarrow> decides project location m q p"
  unfolding find_least [OF scoped_policies_sorted [OF assms]] decides_def scoped_policies_set [OF assms, symmetric] by blast

lemma authorize_loop_find:
  "(\<And>p. p \<in> set ps \<Longrightarrow> np_name p \<noteq> []) \<Longrightarrow>
   authorize_loop ps q allow =
     (case find (\<lambda>p. policyMatches p q \<and> np_action p \<noteq> ''ALLOW'') ps of
        Some p \<Rightarrow> if np_action p = ''DENY'' then Inr (True, False, np_name p) else Inl (np_name p)
      | None \<Rightarrow> let n = (if allow \<noteq> [] then allow else case find (\<lambda>p. policyMatches p q) ps of Some p \<Rightarrow> np_name p | None \<Rightarrow> [])
                in Inr (n \<noteq> [], True, n))"
  by (induction ps q allow rule: authorize_loop.induct) (auto simp: Let_def split: option.split)

lemma authorized:
  assumes "net_ok m" and "validScopePart project" and "validScopePart location"
    and "q = \<lparr>nq_project = project, nq_location = location, nq_principal = [], nq_source = source, nq_host = host, nq_port = 80, nq_method = verb, nq_path = path\<rparr>"
  shows "AuthorizeHTTP project location source host verb path m = authorize_loop (scoped_policies project location m) q []"
  using assms by (simp add: AuthorizeHTTP_def)

text \<open>
  What \<open>AuthorizeHTTP\<close> answers in a valid scope, however many policies there are and in whichever order they
  are stored.  It lets a request pass exactly if every policy of the location that applies to it has the
  action \<open>ALLOW\<close>, so that one denial outweighs every permission; it reports that nothing matched exactly if
  none applies.  Otherwise the first by name of the policies that apply and do not allow decides: it
  denies if its action is \<open>DENY\<close>, and any other action, which a patch can set, is an error and never a pass.
\<close>
theorem denying_policy_takes_precedence:
  assumes "net_ok m" and "validScopePart project" and "validScopePart location"
    and "q = \<lparr>nq_project = project, nq_location = location, nq_principal = [], nq_source = source, nq_host = host, nq_port = 80, nq_method = verb, nq_path = path\<rparr>"
  shows "((\<exists>matched n. AuthorizeHTTP project location source host verb path m = Inr (matched, True, n)) \<longleftrightarrow>
      (\<forall>p. applies_to project location m q p \<longrightarrow> np_action p = ''ALLOW'')) \<and>
    ((\<exists>allowed n. AuthorizeHTTP project location source host verb path m = Inr (False, allowed, n)) \<longleftrightarrow> (\<nexists>p. applies_to project location m q p)) \<and>
    (\<forall>n matched. AuthorizeHTTP project location source host verb path m = Inr (matched, False, n) \<longleftrightarrow>
      matched \<and> (\<exists>p. decides project location m q p \<and> np_action p = ''DENY'' \<and> n = np_name p)) \<and>
    (\<forall>n. AuthorizeHTTP project location source host verb path m = Inl n \<longleftrightarrow>
      (\<exists>p. decides project location m q p \<and> np_action p \<noteq> ''DENY'' \<and> n = np_name p))"
proof -
  let ?ps = "scoped_policies project location m"
  note set = scoped_policies_set [OF assms(1), of _ project location q] and named = scoped_policies_named [OF assms(1), of _ project location]
  note run = authorized [OF assms] and loop = authorize_loop_find [OF named, of ?ps q "[]", simplified]
  show ?thesis
  proof (cases "find (\<lambda>p. policyMatches p q \<and> np_action p \<noteq> ''ALLOW'') ?ps")
    case (Some p)
    have u: "decides project location m q p' \<longleftrightarrow> p' = p" for p'
      unfolding decides_find [OF assms(1), of q project location, symmetric] Some by auto
    have "applies_to project location m q p \<and> np_action p \<noteq> ''ALLOW''" using u [of p] unfolding decides_def by blast
    with u show ?thesis unfolding run loop Some by auto
  next
    case None
    then have all: "\<And>p. applies_to project location m q p \<Longrightarrow> np_action p = ''ALLOW''" unfolding find_None_iff set [symmetric] by blast
    have none: "\<not> decides project location m q p'" for p'
      unfolding decides_find [OF assms(1), of q project location, symmetric] None by simp
    have "find (\<lambda>p. policyMatches p q) ?ps = None \<longleftrightarrow> (\<nexists>p. applies_to project location m q p)" using set by (auto simp: find_None_iff)
    moreover have "np_name p \<noteq> []" if "find (\<lambda>p. policyMatches p q) ?ps = Some p" for p
      using named [of p] that by (auto simp: find_Some_iff)
    ultimately show ?thesis using all none unfolding run loop None by (auto simp: Let_def split: option.splits)
  qed
qed

lemma loops_agree:
  "authorize_loop ps q allow = Inr (matched, allowed, n) \<Longrightarrow>
   nd_allowed (evaluate_loop ps q allow) = allowed \<and> nd_policy (evaluate_loop ps q allow) = n \<and>
   ((\<forall>p \<in> set ps. np_name p \<noteq> []) \<longrightarrow> (matched \<longleftrightarrow> n \<noteq> []))"
  by (induction ps q allow rule: authorize_loop.induct) (auto split: if_splits)

text \<open>
  The advisory evaluator and the one that serves HTTP agree.  On a request as the load balancer asks
  about it, without a principal, to port 80 and in a valid scope, either \<open>AuthorizeHTTP\<close> answers, and then
  \<open>Evaluate\<close> advises the same decision with the same policy; or the policy that decides has an action other than
  \<open>ALLOW\<close> and \<open>DENY\<close>, and \<open>AuthorizeHTTP\<close> fails where \<open>Evaluate\<close> passes over that policy.
\<close>
theorem advice_agrees_with_serving:
  assumes "net_ok m" and "validScopePart project" and "validScopePart location"
    and "q = \<lparr>nq_project = project, nq_location = location, nq_principal = [], nq_source = source, nq_host = host, nq_port = 80, nq_method = verb, nq_path = path\<rparr>"
  shows "AuthorizeHTTP project location source host verb path m =
      Inr (nd_policy (net_Evaluate q m) \<noteq> [], nd_allowed (net_Evaluate q m), nd_policy (net_Evaluate q m)) \<or>
    (\<exists>p. decides project location m q p \<and> np_action p \<noteq> ''DENY'' \<and> AuthorizeHTTP project location source host verb path m = Inl (np_name p))"
proof (cases "authorize_loop (scoped_policies project location m) q []")
  case (Inl n)
  then obtain p where "find (\<lambda>p. policyMatches p q \<and> np_action p \<noteq> ''ALLOW'') (scoped_policies project location m) = Some p"
      "np_action p \<noteq> ''DENY''" "n = np_name p"
    using authorize_loop_find [OF scoped_policies_named [OF assms(1), of _ project location], of "scoped_policies project location m" q "[]"]
    by (auto simp: Let_def split: option.splits if_splits)
  then show ?thesis using authorized [OF assms] Inl decides_find [OF assms(1), of q project location] by auto
next
  case (Inr x)
  obtain matched allowed n where x: "x = (matched, allowed, n)" by (cases x)
  from loops_agree [OF Inr [unfolded x]] scoped_policies_named [OF assms(1), of _ project location] Inr x authorized [OF assms] assms(2-4)
  show ?thesis by (simp add: net_Evaluate_def)
qed

section \<open>At concrete requests\<close>

definition first_net :: "store net_api" where
  "first_net = net_load shim_store empty_manager"

definition net_digest :: "string list \<Rightarrow> string" where
  "net_digest parts = concat (map (\<lambda>p. p @ ''|'') parts)"

definition deny_admin :: json where
  "deny_admin = JObj [(''name'', JStr ''mine''), (''action'', JStr ''DENY''),
     (''rules'', JArr [JObj [(''destinations'', JArr [JObj [(''paths'', JArr [JStr ''/admin/*''])]])]])]"

definition deny_post :: http_request where
  "deny_post = \<lparr>rq_method = ''POST'', rq_path = ''/v1/projects/demo/locations/global/authorizationPolicies'', rq_header = [],
     rq_query = [(''authorizationPolicyId'', ''admins'')], rq_body = Raw deny_admin\<rparr>"

definition deny_policy :: net_policy where
  "deny_policy = \<lparr>np_name = ''projects/demo/locations/global/authorizationPolicies/admins'', np_create = ''t'', np_update = ''t'',
     np_description = [], np_action = ''DENY'',
     np_rules = [\<lparr>nr_sources = [], nr_destinations = [\<lparr>dst_hosts = [], dst_ports = [], dst_methods = [], dst_paths = [''/admin/*'']\<rparr>]\<rparr>], np_labels = []\<rparr>"

definition posted :: "reply \<times> store net_api" where
  "posted = net_serve shim_store net_digest sample_draw ''t'' deny_post first_net"

lemma posted_facts:
  "let x = posted in replied x \<and> sh_data (snd x) = [(''projects/demo/locations/global/authorizationPolicies/admins'', Some deny_policy)] \<and>
     (case om_store (sh_mgr (snd x)) of None \<Rightarrow> False | Some s \<Rightarrow> (case fst (own_Load ''networksecurity/metadata'' s) of Inl e \<Rightarrow> False | Inr w \<Rightarrow> True))"
  by code_simp

lemmas posted_unfolded = posted_facts [unfolded Let_def]
lemmas posted_replied = posted_unfolded [THEN conjunct1]
lemmas posted_policies = posted_unfolded [THEN conjunct2, THEN conjunct1]
lemmas posted_loads = posted_unfolded [THEN conjunct2, THEN conjunct2]

lemma first_net_empty: "sh_data first_net = []"
  by code_simp

lemma first_net_ok: "net_ok (sh_data first_net)"
  by (simp add: first_net_empty)

lemma deny_policy_ok: "net_policy_ok deny_policy"
  by (simp add: net_policy_ok_def deny_policy_def)

theorem stored_policies_keep_their_names_witness:
  "net_ok (sh_data (snd posted)) \<and> map fst (sh_data (snd posted)) = [''projects/demo/locations/global/authorizationPolicies/admins'']"
  using stored_policies_keep_their_names [OF first_net_ok, of net_digest sample_draw "''t''" deny_post] posted_policies
  by (simp add: posted_def)

theorem acknowledged_network_change_survives_restart_witness:
  "\<exists>v st'. posted = (Reply v, st') \<and>
     sh_data (net_load shim_store (sh_mgr st')) = [(''projects/demo/locations/global/authorizationPolicies/admins'', Some deny_policy)]"
proof -
  obtain v st' where p: "posted = (Reply v, st')" using posted_replied by (rule repliedE)
  have loads: "(case om_store (sh_mgr st') of None \<Rightarrow> False | Some s \<Rightarrow> (case fst (own_Load ''networksecurity/metadata'' s) of Inl e \<Rightarrow> False | Inr w \<Rightarrow> True))"
    by (rule posted_loads [unfolded p snd_conv])
  then obtain s where s: "om_store (sh_mgr st') = Some s" by (cases "om_store (sh_mgr st')") simp_all
  obtain x s' where x: "own_Load ''networksecurity/metadata'' s = (x, s')" by (cases "own_Load ''networksecurity/metadata'' s")
  from loads obtain w where "x = Inr w" unfolding s option.case x fst_conv by (cases x) simp_all
  with s x have l: "om_store (sh_mgr st') = Some s" "own_Load ''networksecurity/metadata'' s = (Inr w, s')" by simp_all
  have g: "rq_method deny_post \<noteq> ''GET''" "\<not> has_suffix (rq_path deny_post) '':evaluate''" by code_simp+
  have "sh_data (net_load shim_store (sh_mgr st')) = sort_members (sh_data st')"
    by (rule acknowledged_network_change_survives_restart [OF p [unfolded posted_def] first_net_ok g disjI1 [OF refl] l(1) l(1) l(2)])
  then have "sh_data (net_load shim_store (sh_mgr st')) = [(''projects/demo/locations/global/authorizationPolicies/admins'', Some deny_policy)]"
    unfolding posted_policies [unfolded p snd_conv] by (simp add: sort_members_def)
  with p show ?thesis by blast
qed

definition refused_net :: "store net_api" where
  "refused_net = net_load shim_store (NewOperationManager\<lparr>om_store := Some (fresh_store (replicate 60 OsFail))\<rparr>)"

lemma refused_net_refuses: "refused (net_serve shim_store net_digest sample_draw ''t'' deny_post refused_net)" "sh_data refused_net = []"
  by code_simp+

theorem refused_network_change_is_taken_back_witness:
  "\<exists>e st'. net_serve shim_store net_digest sample_draw ''t'' deny_post refused_net = (Fail 503 e, st') \<and>
     gm_get (sh_data st') ''projects/demo/locations/global/authorizationPolicies/admins'' = None"
proof -
  obtain e st' where r: "net_serve shim_store net_digest sample_draw ''t'' deny_post refused_net = (Fail 503 e, st')"
    using refused_net_refuses(1) by (rule refusedE)
  have "net_ok (sh_data refused_net)" by (simp add: refused_net_refuses)
  from refused_network_change_is_taken_back [OF r this] r show ?thesis by (simp add: refused_net_refuses)
qed

lemma posted_ok: "net_ok (sh_data (snd posted))"
  by (simp add: posted_policies net_ok_def deny_policy_ok) (simp add: gm_wf_def deny_policy_def)

lemma demo_scope: "validScopePart ''demo''" "validScopePart ''global''"
  by code_simp+

theorem denying_policy_takes_precedence_witness:
  "AuthorizeHTTP ''demo'' ''global'' ''10.0.0.1'' ''shop'' ''GET'' ''/admin/x'' (sh_data (snd posted)) =
     Inr (True, False, ''projects/demo/locations/global/authorizationPolicies/admins'') \<and>
   (\<exists>p. decides ''demo'' ''global'' (sh_data (snd posted))
      \<lparr>nq_project = ''demo'', nq_location = ''global'', nq_principal = [], nq_source = ''10.0.0.1'', nq_host = ''shop'', nq_port = 80,
        nq_method = ''GET'', nq_path = ''/admin/x''\<rparr> p \<and> np_action p = ''DENY'')"
proof -
  have a: "AuthorizeHTTP ''demo'' ''global'' ''10.0.0.1'' ''shop'' ''GET'' ''/admin/x'' (sh_data (snd posted)) =
      Inr (True, False, ''projects/demo/locations/global/authorizationPolicies/admins'')"
    unfolding posted_policies by code_simp
  from denying_policy_takes_precedence [OF posted_ok demo_scope refl, of "''10.0.0.1''" "''shop''" "''GET''" "''/admin/x''"] a show ?thesis by blast
qed

theorem advice_agrees_with_serving_witness:
  "AuthorizeHTTP ''demo'' ''global'' ''10.0.0.1'' ''shop'' ''GET'' ''/admin/x'' (sh_data (snd posted)) =
     Inr (True, False, ''projects/demo/locations/global/authorizationPolicies/admins'')"
proof -
  let ?q = "\<lparr>nq_project = ''demo'', nq_location = ''global'', nq_principal = [], nq_source = ''10.0.0.1'', nq_host = ''shop'', nq_port = 80,
    nq_method = ''GET'', nq_path = ''/admin/x''\<rparr>"
  have a: "np_action p = ''DENY''" if "decides ''demo'' ''global'' (sh_data (snd posted)) ?q p" for p
    using that by (simp add: decides_def applies_to_def posted_policies deny_policy_def)
  have e: "net_Evaluate ?q (sh_data (snd posted)) =
      \<lparr>nd_allowed = False, nd_policy = ''projects/demo/locations/global/authorizationPolicies/admins'', nd_reason = []\<rparr>"
    unfolding posted_policies by code_simp
  from advice_agrees_with_serving [OF posted_ok demo_scope refl, of "''10.0.0.1''" "''shop''" "''GET''" "''/admin/x''"] a e
  show ?thesis by auto
qed

text \<open>A patch may set any action; the advisory evaluator then passes what the serving one refuses to judge.\<close>

definition careless_patch :: http_request where
  "careless_patch = \<lparr>rq_method = ''PATCH'', rq_path = ''/v1/projects/demo/locations/global/authorizationPolicies/admins'', rq_header = [],
     rq_query = [], rq_body = Raw (JObj [(''action'', JStr ''deny'')])\<rparr>"

theorem patched_action_is_not_checked:
  "let m = sh_data (snd (net_serve shim_store net_digest sample_draw ''t2'' careless_patch
      (first_net\<lparr>sh_data := [(''projects/demo/locations/global/authorizationPolicies/admins'', Some deny_policy)]\<rparr>))) in
     map (map_option np_action \<circ> snd) m = [Some ''deny''] \<and>
     AuthorizeHTTP ''demo'' ''global'' ''10.0.0.1'' ''shop'' ''GET'' ''/admin/x'' m = Inl ''projects/demo/locations/global/authorizationPolicies/admins'' \<and>
     nd_allowed (net_Evaluate \<lparr>nq_project = ''demo'', nq_location = ''global'', nq_principal = [], nq_source = ''10.0.0.1'', nq_host = ''shop'',
       nq_port = 80, nq_method = ''GET'', nq_path = ''/admin/x''\<rparr> m)"
  by code_simp

end
