(* ===== verification/Access_Context.thy ===== *)
theory Access_Context
  imports Shim_Mutation Json_Into_Laws Netip
begin

text \<open>
  \<open>pkg/shims/accesscontextmanager\<close>: access policies with the service perimeters and access levels under
  them, their handlers over \<open>finishMutation\<close>, the check of the stored tables at start and the decision
  other components ask for.
\<close>

section \<open>Resources\<close>

record access_policy =
  ap_name :: string
  ap_title :: string
  ap_parent :: string
  ap_create :: string
  ap_update :: string

record perimeter_status =
  ps_resources :: "string list"
  ps_services :: "string list"
  ps_levels :: "string list"

record service_perimeter =
  sp_name :: string
  sp_title :: string
  sp_status :: "perimeter_status option"
  sp_create :: string
  sp_update :: string

record level_condition =
  cd_subnets :: "string list"
  cd_regions :: "string list"

record access_level =
  al_name :: string
  al_title :: string
  al_basic :: "level_condition list option"
  al_create :: string
  al_update :: string

definition zero_access_policy :: access_policy where
  "zero_access_policy = \<lparr>ap_name = [], ap_title = [], ap_parent = [], ap_create = [], ap_update = []\<rparr>"

definition zero_status :: perimeter_status where "zero_status = \<lparr>ps_resources = [], ps_services = [], ps_levels = []\<rparr>"

definition zero_perimeter :: service_perimeter where
  "zero_perimeter = \<lparr>sp_name = [], sp_title = [], sp_status = None, sp_create = [], sp_update = []\<rparr>"

definition zero_condition :: level_condition where "zero_condition = \<lparr>cd_subnets = [], cd_regions = []\<rparr>"

definition zero_level :: access_level where
  "zero_level = \<lparr>al_name = [], al_title = [], al_basic = None, al_create = [], al_update = []\<rparr>"

definition enc_access_policy :: "access_policy \<Rightarrow> json" where
  "enc_access_policy p = JObj ([(''name'', JStr (ap_name p))] @ omit_str ''title'' (ap_title p) @ [(''parent'', JStr (ap_parent p))] @
     omit_str ''createTime'' (ap_create p) @ omit_str ''updateTime'' (ap_update p))"

definition enc_status :: "perimeter_status \<Rightarrow> json" where
  "enc_status s = JObj (omit_list ''resources'' JStr (ps_resources s) @ omit_list ''restrictedServices'' JStr (ps_services s) @
     omit_list ''accessLevels'' JStr (ps_levels s))"

definition enc_perimeter :: "service_perimeter \<Rightarrow> json" where
  "enc_perimeter p = JObj ([(''name'', JStr (sp_name p))] @ omit_str ''title'' (sp_title p) @ omit_ptr ''status'' enc_status (sp_status p) @
     omit_str ''createTime'' (sp_create p) @ omit_str ''updateTime'' (sp_update p))"

definition enc_condition :: "level_condition \<Rightarrow> json" where
  "enc_condition c = JObj (omit_list ''ipSubnetworks'' JStr (cd_subnets c) @ omit_list ''regions'' JStr (cd_regions c))"

definition enc_basic :: "level_condition list \<Rightarrow> json" where
  "enc_basic cs = JObj (omit_list ''conditions'' enc_condition cs)"

definition enc_level :: "access_level \<Rightarrow> json" where
  "enc_level l = JObj ([(''name'', JStr (al_name l))] @ omit_str ''title'' (al_title l) @ omit_ptr ''basic'' enc_basic (al_basic l) @
     omit_str ''createTime'' (al_create l) @ omit_str ''updateTime'' (al_update l))"

abbreviation texts_into :: "string list into" where "texts_into \<equiv> into_slice into_string []"

definition into_access_policy :: "bool \<Rightarrow> access_policy into" where
  "into_access_policy strict = into_struct (in_fields strict
     [(''name'', at_field ap_name (\<lambda>x p. p\<lparr>ap_name := x\<rparr>) into_string),
      (''title'', at_field ap_title (\<lambda>x p. p\<lparr>ap_title := x\<rparr>) into_string),
      (''parent'', at_field ap_parent (\<lambda>x p. p\<lparr>ap_parent := x\<rparr>) into_string),
      (''createTime'', at_field ap_create (\<lambda>x p. p\<lparr>ap_create := x\<rparr>) into_string),
      (''updateTime'', at_field ap_update (\<lambda>x p. p\<lparr>ap_update := x\<rparr>) into_string)])"

definition into_status :: "bool \<Rightarrow> perimeter_status into" where
  "into_status strict = into_struct (in_fields strict
     [(''resources'', at_field ps_resources (\<lambda>x s. s\<lparr>ps_resources := x\<rparr>) texts_into),
      (''restrictedServices'', at_field ps_services (\<lambda>x s. s\<lparr>ps_services := x\<rparr>) texts_into),
      (''accessLevels'', at_field ps_levels (\<lambda>x s. s\<lparr>ps_levels := x\<rparr>) texts_into)])"

definition into_perimeter :: "bool \<Rightarrow> service_perimeter into" where
  "into_perimeter strict = into_struct (in_fields strict
     [(''name'', at_field sp_name (\<lambda>x p. p\<lparr>sp_name := x\<rparr>) into_string),
      (''title'', at_field sp_title (\<lambda>x p. p\<lparr>sp_title := x\<rparr>) into_string),
      (''status'', at_field sp_status (\<lambda>x p. p\<lparr>sp_status := x\<rparr>) (into_ptr (into_status strict) zero_status)),
      (''createTime'', at_field sp_create (\<lambda>x p. p\<lparr>sp_create := x\<rparr>) into_string),
      (''updateTime'', at_field sp_update (\<lambda>x p. p\<lparr>sp_update := x\<rparr>) into_string)])"

definition into_condition :: "bool \<Rightarrow> level_condition into" where
  "into_condition strict = into_struct (in_fields strict
     [(''ipSubnetworks'', at_field cd_subnets (\<lambda>x c. c\<lparr>cd_subnets := x\<rparr>) texts_into),
      (''regions'', at_field cd_regions (\<lambda>x c. c\<lparr>cd_regions := x\<rparr>) texts_into)])"

definition into_basic :: "bool \<Rightarrow> level_condition list into" where
  "into_basic strict = into_struct (in_fields strict
     [(''conditions'', at_field (\<lambda>cs. cs) (\<lambda>x cs. x) (into_slice (into_condition strict) zero_condition))])"

definition into_level :: "bool \<Rightarrow> access_level into" where
  "into_level strict = into_struct (in_fields strict
     [(''name'', at_field al_name (\<lambda>x l. l\<lparr>al_name := x\<rparr>) into_string),
      (''title'', at_field al_title (\<lambda>x l. l\<lparr>al_title := x\<rparr>) into_string),
      (''basic'', at_field al_basic (\<lambda>x l. l\<lparr>al_basic := x\<rparr>) (into_ptr (into_basic strict) [])),
      (''createTime'', at_field al_create (\<lambda>x l. l\<lparr>al_create := x\<rparr>) into_string),
      (''updateTime'', at_field al_update (\<lambda>x l. l\<lparr>al_update := x\<rparr>) into_string)])"

text \<open>\<open>clonePolicy\<close>, \<open>clonePerimeter\<close>, \<open>cloneLevel\<close>: over JSON; a nil pointer gives the zero value.\<close>

definition clone_ptr :: "('a \<Rightarrow> json) \<Rightarrow> 'a into \<Rightarrow> 'a \<Rightarrow> 'a option \<Rightarrow> 'a" where
  "clone_ptr enc f zero p = fst (f (case p of Some x \<Rightarrow> enc x | None \<Rightarrow> JNull) zero)"

abbreviation clonePolicy where "clonePolicy \<equiv> clone_ptr enc_access_policy (into_access_policy False) zero_access_policy"
abbreviation clonePerimeter where "clonePerimeter \<equiv> clone_ptr enc_perimeter (into_perimeter False) zero_perimeter"
abbreviation cloneLevel where "cloneLevel \<equiv> clone_ptr enc_level (into_level False) zero_level"

section \<open>State\<close>

record acm_data =
  acm_policies :: "access_policy option gomap"
  acm_perimeters :: "service_perimeter option gomap"
  acm_levels :: "access_level option gomap"
  acm_seq :: int
  acm_error :: "store_error option"

type_synonym 's acm_api = "(acm_data, 's) shim"

definition empty_acm :: acm_data where
  "empty_acm = \<lparr>acm_policies = [], acm_perimeters = [], acm_levels = [], acm_seq = 0, acm_error = None\<rparr>"

definition enc_table :: "('a option \<Rightarrow> json) \<Rightarrow> 'a option gomap \<Rightarrow> json" where
  "enc_table enc m = JObj (map (\<lambda>(k, p). (k, enc p)) (sort_members m))"

definition enc_acm_metadata :: "acm_data \<Rightarrow> json" where
  "enc_acm_metadata d = JObj
     [(''policies'', enc_table (enc_access_policy \<circ> clonePolicy) (acm_policies d)),
      (''perimeters'', enc_table (enc_perimeter \<circ> clonePerimeter) (acm_perimeters d)),
      (''levels'', enc_table (enc_level \<circ> cloneLevel) (acm_levels d)),
      (''seqNum'', JInt (acm_seq d))]"

definition into_acm_metadata :: "bool \<Rightarrow> acm_data into" where
  "into_acm_metadata strict = into_struct (in_fields strict
     [(''policies'', at_field acm_policies (\<lambda>x d. d\<lparr>acm_policies := x\<rparr>) (into_map (into_ptr (into_access_policy strict) zero_access_policy) None)),
      (''perimeters'', at_field acm_perimeters (\<lambda>x d. d\<lparr>acm_perimeters := x\<rparr>) (into_map (into_ptr (into_perimeter strict) zero_perimeter) None)),
      (''levels'', at_field acm_levels (\<lambda>x d. d\<lparr>acm_levels := x\<rparr>) (into_map (into_ptr (into_level strict) zero_level) None)),
      (''seqNum'', at_field acm_seq (\<lambda>x d. d\<lparr>acm_seq := x\<rparr>) into_int)])"

definition named :: "('a \<Rightarrow> string) \<Rightarrow> 'a option gomap \<Rightarrow> bool" where
  "named name m \<longleftrightarrow> list_all (\<lambda>(k, p). case p of Some x \<Rightarrow> name x = k | None \<Rightarrow> False) m"

definition validateACMMetadata :: "acm_data \<Rightarrow> bool" where
  "validateACMMetadata d \<longleftrightarrow> 0 \<le> acm_seq d \<and> named ap_name (acm_policies d) \<and> named sp_name (acm_perimeters d) \<and> named al_name (acm_levels d)"

definition acm_kind :: "acm_data shim_kind" where
  "acm_kind = \<lparr>sk_entry = ''accesscontextmanager/metadata'', sk_service = ''accesscontextmanager#operation'', sk_enc = enc_acm_metadata,
     sk_block = acm_error, sk_marks = False\<rparr>"

definition clone_table :: "('a option \<Rightarrow> 'a) \<Rightarrow> 'a option gomap \<Rightarrow> 'a option gomap" where
  "clone_table clone m = map (\<lambda>(k, p). (k, Some (clone p))) m"

text \<open>\<open>NewAPI\<close>: a stored entry that cannot be read, or fails the check, latches the error that stops the shim.\<close>

definition acm_load :: "'s shim_api \<Rightarrow> 's manager \<Rightarrow> 's acm_api" where
  "acm_load api m =
     (case om_store m of None \<Rightarrow> \<lparr>sh_data = empty_acm, sh_degraded = None, sh_mgr = m\<rparr> | Some s \<Rightarrow>
      case guarded_Load (api_load (sa_own api)) (sk_entry acm_kind) \<lparr>g_delegate = Some s, g_degraded = None\<rparr> of (r, g) \<Rightarrow>
      case (case r of
              Inl e \<Rightarrow> (if is_err ErrNotFound e then empty_acm else empty_acm\<lparr>acm_error := Some e\<rparr>, g_degraded g)
            | Inr None \<Rightarrow> (empty_acm, g_degraded g)
            | Inr (Some v) \<Rightarrow>
                (case into_acm_metadata False v empty_acm of (d, ok) \<Rightarrow>
                 if \<not> ok then (let e = ErrDecode (TypeMismatch ''metadata'') in (empty_acm\<lparr>acm_error := Some e\<rparr>, Some e))
                 else if \<not> validateACMMetadata d then (empty_acm\<lparr>acm_error := Some (ErrFormat ''metadata'')\<rparr>, g_degraded g)
                 else (d\<lparr>acm_policies := clone_table clonePolicy (acm_policies d), acm_perimeters := clone_table clonePerimeter (acm_perimeters d),
                    acm_levels := clone_table cloneLevel (acm_levels d)\<rparr>, g_degraded g))) of
        (d, degraded) \<Rightarrow> \<lparr>sh_data = d, sh_degraded = degraded, sh_mgr = m\<lparr>om_store := g_delegate g\<rparr>\<rparr>)"

section \<open>Decisions\<close>

record access_request =
  ar_project :: string
  ar_service :: string
  ar_source :: string
  ar_region :: string

record access_decision =
  ad_allowed :: bool
  ad_reason :: string
  ad_perimeter :: string

definition validProjectResource :: "string \<Rightarrow> bool" where
  "validProjectResource p \<longleftrightarrow> has_prefix p ''projects/'' \<and> count_char (CHR ''/'') p = 1 \<and> lower_segment (trim_prefix p ''projects/'')"

definition subnet_matches :: "string \<Rightarrow> string \<Rightarrow> bool" where
  "subnet_matches source net =
     (case (ParsePrefix net, ParseAddr source) of (Some p, Some a) \<Rightarrow> prefix_contains p a | _ \<Rightarrow> False)"

definition condition_matches :: "level_condition \<Rightarrow> access_request \<Rightarrow> bool" where
  "condition_matches c q \<longleftrightarrow> (cd_regions c = [] \<or> ar_region q \<in> set (cd_regions c)) \<and>
     (cd_subnets c = [] \<or> list_ex (subnet_matches (ar_source q)) (cd_subnets c))"

definition levelMatches :: "access_level option \<Rightarrow> access_request \<Rightarrow> bool" where
  "levelMatches l q =
     (case l of Some x \<Rightarrow> (case al_basic x of Some cs \<Rightarrow> list_ex (\<lambda>c. condition_matches c q) cs | None \<Rightarrow> False) | None \<Rightarrow> False)"

definition restricting :: "acm_data \<Rightarrow> access_request \<Rightarrow> service_perimeter list" where
  "restricting d q =
     sort_key sp_name (List.map_filter (\<lambda>(k, p).
       case p of
         Some x \<Rightarrow> (case sp_status x of
             Some s \<Rightarrow> if ar_project q \<in> set (ps_resources s) \<and> ar_service q \<in> set (ps_services s) then Some x else None
           | None \<Rightarrow> None)
       | None \<Rightarrow> None) (acm_perimeters d))"

definition level_admits :: "acm_data \<Rightarrow> access_request \<Rightarrow> service_perimeter \<Rightarrow> bool" where
  "level_admits d q p =
     (case sp_status p of
        Some s \<Rightarrow> list_ex (\<lambda>n. levelMatches (ptr_get (acm_levels d) n) q) (ps_levels s) | None \<Rightarrow> False)"

fun perimeter_loop :: "acm_data \<Rightarrow> access_request \<Rightarrow> service_perimeter list \<Rightarrow> string \<Rightarrow> access_decision" where
  "perimeter_loop d q [] allowed =
     (if allowed \<noteq> [] then \<lparr>ad_allowed = True, ad_reason = ''access level matched'', ad_perimeter = allowed\<rparr>
      else \<lparr>ad_allowed = True, ad_reason = ''not restricted by a service perimeter'', ad_perimeter = []\<rparr>)"
| "perimeter_loop d q (p # ps) allowed =
     (if \<not> level_admits d q p then \<lparr>ad_allowed = False, ad_reason = ''restricted by service perimeter'', ad_perimeter = sp_name p\<rparr>
      else perimeter_loop d q ps (if allowed = [] then sp_name p else allowed))"

definition CheckAccess :: "access_request \<Rightarrow> acm_data \<Rightarrow> access_decision" where
  "CheckAccess q d =
     (if acm_error d \<noteq> None then \<lparr>ad_allowed = False, ad_reason = ''policy persistence is unavailable'', ad_perimeter = []\<rparr>
      else if \<not> validProjectResource (ar_project q) then \<lparr>ad_allowed = False, ad_reason = ''invalid project resource'', ad_perimeter = []\<rparr>
      else if trim_space (ar_service q) = [] then \<lparr>ad_allowed = False, ad_reason = ''invalid service'', ad_perimeter = []\<rparr>
      else perimeter_loop d q (restricting d q) [])"

definition EvaluateServicePerimeter :: "acm_data \<Rightarrow> string \<Rightarrow> string \<Rightarrow> string \<Rightarrow> string \<Rightarrow> bool \<times> bool" where
  "EvaluateServicePerimeter d project service source region =
     (let a = CheckAccess \<lparr>ar_project = project, ar_service = service, ar_source = source, ar_region = region\<rparr> d
      in (ad_perimeter a \<noteq> [] \<or> \<not> ad_allowed a, ad_allowed a))"

definition zero_access_request :: access_request where
  "zero_access_request = \<lparr>ar_project = [], ar_service = [], ar_source = [], ar_region = []\<rparr>"

definition into_access_request :: "access_request into" where
  "into_access_request = into_struct (in_fields False
     [(''project'', at_field ar_project (\<lambda>x q. q\<lparr>ar_project := x\<rparr>) into_string),
      (''service'', at_field ar_service (\<lambda>x q. q\<lparr>ar_service := x\<rparr>) into_string),
      (''sourceIp'', at_field ar_source (\<lambda>x q. q\<lparr>ar_source := x\<rparr>) into_string),
      (''region'', at_field ar_region (\<lambda>x q. q\<lparr>ar_region := x\<rparr>) into_string)])"

definition enc_access_decision :: "access_decision \<Rightarrow> json" where
  "enc_access_decision a = JObj ([(''allowed'', JBool (ad_allowed a)), (''reason'', JStr (ad_reason a))] @ omit_str ''perimeter'' (ad_perimeter a))"

section \<open>Names\<close>

definition extractPolicyName :: "string \<Rightarrow> string" where
  "extractPolicyName path =
     (case split (CHR ''/'') (trim_prefix path ''/v1/'') of
        c # i # rest \<Rightarrow> if c = ''accessPolicies'' then ''accessPolicies/'' @ i else []
      | _ \<Rightarrow> [])"

definition child_name :: "string \<Rightarrow> string \<Rightarrow> string \<Rightarrow> string" where
  "child_name policy collection i = policy @ ''/'' @ collection @ ''/'' @ i"

definition buildPerimeterName :: "string \<Rightarrow> string" where
  "buildPerimeterName path = child_name (extractPolicyName path) ''servicePerimeters'' (extractAfter path ''servicePerimeters'')"

definition buildLevelName :: "string \<Rightarrow> string" where
  "buildLevelName path = child_name (extractPolicyName path) ''accessLevels'' (extractAfter path ''accessLevels'')"

definition isAccessPolicyResource :: "string \<Rightarrow> bool" where
  "isAccessPolicyResource path =
     (case split (CHR ''/'') (trim_prefix path ''/v1/'') of [c, i] \<Rightarrow> c = ''accessPolicies'' | _ \<Rightarrow> False)"

section \<open>Handlers\<close>

text \<open>
  The tables of perimeters and levels have the same handlers, over their field, encoding, decoder and name;
  \<open>table\<close> is one of the two.
\<close>

record 'a table =
  tb_get :: "acm_data \<Rightarrow> 'a option gomap"
  tb_put :: "'a option gomap \<Rightarrow> acm_data \<Rightarrow> acm_data"
  tb_enc :: "'a \<Rightarrow> json"
  tb_into :: "'a into"
  tb_zero :: 'a
  tb_name :: "'a \<Rightarrow> string"
  tb_title :: "'a \<Rightarrow> string"
  tb_stamp :: "string \<Rightarrow> string \<Rightarrow> 'a \<Rightarrow> 'a"
  tb_create :: "'a \<Rightarrow> string"
  tb_collection :: string
  tb_id :: string

definition perimeter_table :: "service_perimeter table" where
  "perimeter_table = \<lparr>tb_get = acm_perimeters, tb_put = (\<lambda>m d. d\<lparr>acm_perimeters := m\<rparr>), tb_enc = enc_perimeter, tb_into = into_perimeter False,
     tb_zero = zero_perimeter, tb_name = sp_name, tb_title = sp_title,
     tb_stamp = (\<lambda>name now p. p\<lparr>sp_name := name, sp_create := now, sp_update := now\<rparr>), tb_create = sp_create,
     tb_collection = ''servicePerimeters'', tb_id = ''servicePerimeterId''\<rparr>"

definition level_table :: "access_level table" where
  "level_table = \<lparr>tb_get = acm_levels, tb_put = (\<lambda>m d. d\<lparr>acm_levels := m\<rparr>), tb_enc = enc_level, tb_into = into_level False,
     tb_zero = zero_level, tb_name = al_name, tb_title = al_title,
     tb_stamp = (\<lambda>name now l. l\<lparr>al_name := name, al_create := now, al_update := now\<rparr>), tb_create = al_create,
     tb_collection = ''accessLevels'', tb_id = ''accessLevelId''\<rparr>"

definition tb_clone :: "'a table \<Rightarrow> 'a option \<Rightarrow> 'a" where
  "tb_clone tb = clone_ptr (tb_enc tb) (tb_into tb) (tb_zero tb)"

abbreviation acm_finish where
  "acm_finish api e now verb name resp undo st \<equiv> finishMutation api acm_kind e now verb name resp False undo st"

text \<open>
  A create looks its policy up in one critical section and inserts into the table in a second one, with the
  lock free in between.  \<open>before\<close> are the tables the first section found and \<open>st\<close> is the state the second one
  finds; the two are the same when no other request runs in between.
\<close>

definition create_child ::
    "'a table \<Rightarrow> 's shim_api \<Rightarrow> draw \<Rightarrow> string \<Rightarrow> http_request \<Rightarrow> acm_data \<Rightarrow> 's acm_api \<Rightarrow> reply \<times> 's acm_api" where
  "create_child tb api e now r before st =
     (let policy = extractPolicyName (rq_path r) in
      if gm_get (acm_policies before) policy = None then (Fail 404 ''NOT_FOUND'', st)
      else case (case body_into (tb_into tb) (tb_zero tb) (rq_body r) of Inl BodyEOF \<Rightarrow> Inr (tb_zero tb) | x \<Rightarrow> x) of
        Inl x \<Rightarrow> (Fail 400 ''INVALID_ARGUMENT'', st)
      | Inr p0 \<Rightarrow>
          let i = (if query r (tb_id tb) = [] then tb_title tb p0 else query r (tb_id tb)) in
          if i = [] then (Fail 400 ''INVALID_ARGUMENT'', st)
          else let name = child_name policy (tb_collection tb) i; p = tb_stamp tb name now p0 in
            if gm_get (tb_get tb (sh_data st)) name \<noteq> None then (Fail 409 ''ALREADY_EXISTS'', st)
            else acm_finish api e now ''create'' name (tb_enc tb p) (\<lambda>d. tb_put tb (gm_del name (tb_get tb d)) d)
              (st\<lparr>sh_data := tb_put tb (gm_set name (Some p) (tb_get tb (sh_data st))) (sh_data st)\<rparr>))"

definition get_child :: "'a table \<Rightarrow> string \<Rightarrow> 's acm_api \<Rightarrow> reply" where
  "get_child tb name st =
     (case gm_get (tb_get tb (sh_data st)) name of None \<Rightarrow> Fail 404 ''NOT_FOUND'' | Some p \<Rightarrow> Reply (tb_enc tb (tb_clone tb p)))"

definition list_children :: "'a table \<Rightarrow> (string list \<Rightarrow> string) \<Rightarrow> http_request \<Rightarrow> 's acm_api \<Rightarrow> reply" where
  "list_children tb digest r st =
     (let policy = extractPolicyName (rq_path r);
          all = map (tb_clone tb \<circ> snd) (filter (\<lambda>(k, p). has_prefix k (child_name policy (tb_collection tb) [])) (tb_get tb (sh_data st))) in
      paged (tb_collection tb) (tb_enc tb)
        (query_page digest 50 \<lparr>sc_service = ''accesscontextmanager.'' @ tb_collection tb, sc_parent = policy, sc_filter = [], sc_order_by = []\<rparr>
           (tb_name tb) all r))"

definition patch_child ::
    "'a table \<Rightarrow> 's shim_api \<Rightarrow> draw \<Rightarrow> string \<Rightarrow> string \<Rightarrow> http_request \<Rightarrow> 's acm_api \<Rightarrow> reply \<times> 's acm_api" where
  "patch_child tb api e now name r st =
     (case gm_get (tb_get tb (sh_data st)) name of
        None \<Rightarrow> (Fail 404 ''NOT_FOUND'', st)
      | Some existing \<Rightarrow>
          (case patch_body (rq_body r) of
             None \<Rightarrow> (Fail 400 ''INVALID_ARGUMENT'', st)
           | Some patch \<Rightarrow>
               (case existing of
                  None \<Rightarrow> (ReplyPanics, st)
                | Some p \<Rightarrow>
                    let p' = patched (tb_enc tb) (tb_into tb) (tb_zero tb) [] patch
                          [(''name'', JStr (tb_name tb p)), (''createTime'', JStr (tb_create tb p)), (''updateTime'', JStr now)] p;
                        before = tb_clone tb (Some p) in
                    acm_finish api e now ''update'' name (tb_enc tb p') (\<lambda>d. tb_put tb (gm_set name (Some before) (tb_get tb d)) d)
                      (st\<lparr>sh_data := tb_put tb (gm_set name (Some p') (tb_get tb (sh_data st))) (sh_data st)\<rparr>))))"

definition delete_child ::
    "'a table \<Rightarrow> 's shim_api \<Rightarrow> draw \<Rightarrow> string \<Rightarrow> string \<Rightarrow> 's acm_api \<Rightarrow> reply \<times> 's acm_api" where
  "delete_child tb api e now name st =
     (case gm_get (tb_get tb (sh_data st)) name of
        None \<Rightarrow> (Fail 404 ''NOT_FOUND'', st)
      | Some p \<Rightarrow> acm_finish api e now ''delete'' name (JObj []) (\<lambda>d. tb_put tb (gm_set name p (tb_get tb d)) d)
          (st\<lparr>sh_data := tb_put tb (gm_del name (tb_get tb (sh_data st))) (sh_data st)\<rparr>))"

definition createServicePerimeter where "createServicePerimeter = create_child perimeter_table"
definition createAccessLevel where "createAccessLevel = create_child level_table"
definition patchServicePerimeter where "patchServicePerimeter api e now r st = patch_child perimeter_table api e now (buildPerimeterName (rq_path r)) r st"
definition patchAccessLevel where "patchAccessLevel api e now r st = patch_child level_table api e now (buildLevelName (rq_path r)) r st"
definition deleteServicePerimeter where "deleteServicePerimeter api e now r st = delete_child perimeter_table api e now (buildPerimeterName (rq_path r)) st"
definition deleteAccessLevel where "deleteAccessLevel api e now r st = delete_child level_table api e now (buildLevelName (rq_path r)) st"

text \<open>Access policies are numbered.\<close>

definition createAccessPolicy :: "'s shim_api \<Rightarrow> draw \<Rightarrow> string \<Rightarrow> http_request \<Rightarrow> 's acm_api \<Rightarrow> reply \<times> 's acm_api" where
  "createAccessPolicy api e now r st =
     (case body_into (into_access_policy False) zero_access_policy (rq_body r) of
        Inl x \<Rightarrow> (Fail 400 ''INVALID_ARGUMENT'', st)
      | Inr p0 \<Rightarrow>
          if ap_parent p0 = [] \<or> \<not> has_prefix (ap_parent p0) ''organizations/'' then (Fail 400 ''INVALID_ARGUMENT'', st)
          else let seq = wrap64 (acm_seq (sh_data st) + 1); name = ''accessPolicies/'' @ itoa seq;
                   p = p0\<lparr>ap_name := name, ap_create := now, ap_update := now\<rparr> in
            acm_finish api e now ''create'' name (enc_access_policy p) (\<lambda>d. d\<lparr>acm_policies := gm_del name (acm_policies d)\<rparr>)
              (st\<lparr>sh_data := (sh_data st)\<lparr>acm_seq := seq, acm_policies := gm_set name (Some p) (acm_policies (sh_data st))\<rparr>\<rparr>))"

definition getAccessPolicy :: "http_request \<Rightarrow> 's acm_api \<Rightarrow> reply" where
  "getAccessPolicy r st =
     (case gm_get (acm_policies (sh_data st)) (extractPolicyName (rq_path r)) of
        None \<Rightarrow> Fail 404 ''NOT_FOUND'' | Some p \<Rightarrow> Reply (enc_access_policy (clonePolicy p)))"

definition listAccessPolicies :: "(string list \<Rightarrow> string) \<Rightarrow> http_request \<Rightarrow> 's acm_api \<Rightarrow> reply" where
  "listAccessPolicies digest r st =
     paged ''accessPolicies'' enc_access_policy
       (query_page digest 50 \<lparr>sc_service = ''accesscontextmanager.accessPolicies'', sc_parent = query r ''parent'', sc_filter = [], sc_order_by = []\<rparr>
          ap_name (map (clonePolicy \<circ> snd) (acm_policies (sh_data st))) r)"

definition patchAccessPolicy :: "'s shim_api \<Rightarrow> draw \<Rightarrow> string \<Rightarrow> http_request \<Rightarrow> 's acm_api \<Rightarrow> reply \<times> 's acm_api" where
  "patchAccessPolicy api e now r st =
     (let name = extractPolicyName (rq_path r) in
      case gm_get (acm_policies (sh_data st)) name of
        None \<Rightarrow> (Fail 404 ''NOT_FOUND'', st)
      | Some existing \<Rightarrow>
          (case patch_body (rq_body r) of
             None \<Rightarrow> (Fail 400 ''INVALID_ARGUMENT'', st)
           | Some patch \<Rightarrow>
               (case existing of
                  None \<Rightarrow> (ReplyPanics, st)
                | Some p \<Rightarrow>
                    let p' = patched enc_access_policy (into_access_policy False) zero_access_policy (query r ''updateMask'') patch
                          [(''name'', JStr (ap_name p)), (''parent'', JStr (ap_parent p)), (''createTime'', JStr (ap_create p)), (''updateTime'', JStr now)] p;
                        before = clonePolicy (Some p) in
                    acm_finish api e now ''update'' name (enc_access_policy p') (\<lambda>d. d\<lparr>acm_policies := gm_set name (Some before) (acm_policies d)\<rparr>)
                      (st\<lparr>sh_data := (sh_data st)\<lparr>acm_policies := gm_set name (Some p') (acm_policies (sh_data st))\<rparr>\<rparr>))))"

text \<open>Deleting a policy deletes what is under it; the compensation puts the deleted ones back.\<close>

definition under :: "string \<Rightarrow> 'a gomap \<Rightarrow> 'a gomap" where
  "under name m = filter (\<lambda>(k, p). has_prefix k (name @ ''/'')) m"

definition not_under :: "string \<Rightarrow> 'a gomap \<Rightarrow> 'a gomap" where
  "not_under name m = filter (\<lambda>(k, p). \<not> has_prefix k (name @ ''/'')) m"

definition put_back :: "'a gomap \<Rightarrow> 'a gomap \<Rightarrow> 'a gomap" where
  "put_back deleted m = foldl (\<lambda>m (k, p). gm_set k p m) m deleted"

definition deleteAccessPolicy :: "'s shim_api \<Rightarrow> draw \<Rightarrow> string \<Rightarrow> http_request \<Rightarrow> 's acm_api \<Rightarrow> reply \<times> 's acm_api" where
  "deleteAccessPolicy api e now r st =
     (let name = extractPolicyName (rq_path r); d0 = sh_data st in
      case gm_get (acm_policies d0) name of
        None \<Rightarrow> (Fail 404 ''NOT_FOUND'', st)
      | Some p \<Rightarrow>
          let perimeters = under name (acm_perimeters d0); levels = under name (acm_levels d0) in
          acm_finish api e now ''delete'' name (JObj [])
            (\<lambda>d. d\<lparr>acm_policies := gm_set name p (acm_policies d), acm_perimeters := put_back perimeters (acm_perimeters d),
               acm_levels := put_back levels (acm_levels d)\<rparr>)
            (st\<lparr>sh_data := d0\<lparr>acm_policies := gm_del name (acm_policies d0), acm_perimeters := not_under name (acm_perimeters d0),
               acm_levels := not_under name (acm_levels d0)\<rparr>\<rparr>))"

definition acm_serve ::
    "'s shim_api \<Rightarrow> (string list \<Rightarrow> string) \<Rightarrow> draw \<Rightarrow> string \<Rightarrow> http_request \<Rightarrow> acm_data \<Rightarrow> 's acm_api \<Rightarrow> reply \<times> 's acm_api" where
  "acm_serve api digest e now r before st =
     (let path = rq_path r; verb = rq_method r in
      if acm_error (sh_data st) \<noteq> None then (Fail 503 ''UNAVAILABLE'', st)
      else if has_suffix path '':checkAccess'' \<and> verb = ''POST'' then
        (case body_into into_access_request zero_access_request (rq_body r) of
           Inl x \<Rightarrow> (Fail 400 ''INVALID_ARGUMENT'', st) | Inr q \<Rightarrow> (Reply (enc_access_decision (CheckAccess q (sh_data st))), st))
      else if contains path ''/operations/'' \<and> verb = ''GET'' then (getOperation acm_kind path st, st)
      else if has_suffix path ''/accessLevels'' \<and> verb = ''POST'' then createAccessLevel api e now r before st
      else if has_suffix path ''/accessLevels'' \<and> verb = ''GET'' then (list_children level_table digest r st, st)
      else if contains path ''/accessLevels/'' \<and> verb = ''GET'' then (get_child level_table (buildLevelName path) st, st)
      else if contains path ''/accessLevels/'' \<and> verb = ''PATCH'' then patchAccessLevel api e now r st
      else if contains path ''/accessLevels/'' \<and> verb = ''DELETE'' then deleteAccessLevel api e now r st
      else if has_suffix path ''/servicePerimeters'' \<and> verb = ''POST'' then createServicePerimeter api e now r before st
      else if has_suffix path ''/servicePerimeters'' \<and> verb = ''GET'' then (list_children perimeter_table digest r st, st)
      else if contains path ''/servicePerimeters/'' \<and> verb = ''GET'' then (get_child perimeter_table (buildPerimeterName path) st, st)
      else if contains path ''/servicePerimeters/'' \<and> verb = ''PATCH'' then patchServicePerimeter api e now r st
      else if contains path ''/servicePerimeters/'' \<and> verb = ''DELETE'' then deleteServicePerimeter api e now r st
      else if path = ''/v1/accessPolicies'' \<and> verb = ''POST'' then createAccessPolicy api e now r st
      else if path = ''/v1/accessPolicies'' \<and> verb = ''GET'' then (listAccessPolicies digest r st, st)
      else if isAccessPolicyResource path \<and> verb = ''GET'' then (getAccessPolicy r st, st)
      else if isAccessPolicyResource path \<and> verb = ''PATCH'' then patchAccessPolicy api e now r st
      else if isAccessPolicyResource path \<and> verb = ''DELETE'' then deleteAccessPolicy api e now r st
      else (Fail 404 ''NOT_FOUND'', st))"

end
