(* ===== verification/Access_Context_Laws.thy ===== *)
theory Access_Context_Laws
  imports Access_Context Shim_Laws
begin

text \<open>
  Access Context Manager: what is written is read back, the invariant of its tables, and that every handler
  keeps it and hands \<open>finishMutation\<close> a change it can take back.
\<close>

section \<open>Reading back\<close>

lemma into_enc_access_policy: "into_access_policy s (enc_access_policy p) zero_access_policy = (p, True)"
  by (simp add: into_access_policy_def enc_access_policy_def into_struct_def zero_access_policy_def into_members_append into_simps)

lemma into_enc_status: "into_status s (enc_status p) zero_status = (p, True)"
  by (simp add: into_status_def enc_status_def into_struct_def zero_status_def into_members_append into_simps)

lemma into_enc_perimeter: "into_perimeter s (enc_perimeter p) zero_perimeter = (p, True)"
proof -
  have nn: "enc_status x \<noteq> JNull" for x by (simp add: enc_status_def)
  show ?thesis
    by (simp add: into_perimeter_def enc_perimeter_def into_struct_def zero_perimeter_def into_members_append into_simps into_enc_status nn)
qed

lemma into_enc_condition: "into_condition s (enc_condition c) zero_condition = (c, True)"
  by (simp add: into_condition_def enc_condition_def into_struct_def zero_condition_def into_members_append into_simps)

lemma into_enc_basic: "into_basic s (enc_basic cs) [] = (cs, True)"
  by (simp add: into_basic_def enc_basic_def into_struct_def into_simps into_enc_condition)

lemma into_enc_level: "into_level s (enc_level l) zero_level = (l, True)"
proof -
  have nn: "enc_basic x \<noteq> JNull" for x by (simp add: enc_basic_def)
  show ?thesis
    by (simp add: into_level_def enc_level_def into_struct_def zero_level_def into_members_append into_simps into_enc_basic nn)
qed

lemma clone_simps [simp]: "clonePolicy (Some p) = p" "clonePerimeter (Some q) = q" "cloneLevel (Some l) = l"
  by (simp_all add: clone_ptr_def into_enc_access_policy into_enc_perimeter into_enc_level)

section \<open>The invariant\<close>

text \<open>No entry is nil and every one has the name it is stored under.\<close>

definition table_ok :: "('a \<Rightarrow> string) \<Rightarrow> 'a option gomap \<Rightarrow> bool" where
  "table_ok name m \<longleftrightarrow> gm_wf m \<and> (\<forall>k p. gm_get m k = Some p \<longrightarrow> (\<exists>x. p = Some x \<and> name x = k))"

text \<open>What is under a policy has a policy.\<close>

definition has_parents :: "'a gomap \<Rightarrow> 'b gomap \<Rightarrow> bool" where
  "has_parents m policies \<longleftrightarrow> (\<forall>k p. gm_get m k = Some p \<longrightarrow> (\<exists>n q. gm_get policies n = Some q \<and> has_prefix k (n @ ''/'')))"

definition numbered :: "int \<Rightarrow> 'b gomap \<Rightarrow> bool" where
  "numbered seq policies \<longleftrightarrow> (\<forall>n q. gm_get policies n = Some q \<longrightarrow> (\<exists>i. 1 \<le> i \<and> i \<le> seq \<and> n = ''accessPolicies/'' @ itoa i))"

definition acm_ok :: "acm_data \<Rightarrow> bool" where
  "acm_ok d \<longleftrightarrow> 0 \<le> acm_seq d \<and> acm_seq d < 2 ^ 63 \<and>
     table_ok ap_name (acm_policies d) \<and> table_ok sp_name (acm_perimeters d) \<and> table_ok al_name (acm_levels d) \<and>
     numbered (acm_seq d) (acm_policies d)"

definition parented :: "acm_data \<Rightarrow> bool" where
  "parented d \<longleftrightarrow> has_parents (acm_perimeters d) (acm_policies d) \<and> has_parents (acm_levels d) (acm_policies d)"

text \<open>No policy was deleted between the two sections of a create.\<close>

definition policies_remain :: "acm_data \<Rightarrow> acm_data \<Rightarrow> bool" where
  "policies_remain before d \<longleftrightarrow> (\<forall>n. gm_get (acm_policies before) n \<noteq> None \<longrightarrow> gm_get (acm_policies d) n \<noteq> None)"

lemma policies_remain_refl [simp]: "policies_remain d d"
  by (simp add: policies_remain_def)

lemma table_ok_Nil [simp]: "table_ok name []"
  by (simp add: table_ok_def)

lemma has_parents_Nil [simp]: "has_parents [] m"
  by (simp add: has_parents_def)

lemma numbered_Nil [simp]: "numbered seq []"
  by (simp add: numbered_def)

lemma empty_acm_ok [simp]: "acm_ok empty_acm" "parented empty_acm"
  by (simp_all add: acm_ok_def parented_def empty_acm_def)

lemma table_ok_set: "table_ok name m \<Longrightarrow> name x = k \<Longrightarrow> table_ok name (gm_set k (Some x) m)"
  by (auto simp: table_ok_def)

lemma table_ok_del: "table_ok name m \<Longrightarrow> table_ok name (gm_del k m)"
  by (auto simp: table_ok_def split: if_splits)

lemma table_ok_get: "table_ok name m \<Longrightarrow> gm_get m k = Some p \<Longrightarrow> \<exists>x. p = Some x \<and> name x = k"
  by (simp add: table_ok_def)

lemma has_parents_set: "has_parents m ps \<Longrightarrow> gm_get ps n = Some q \<Longrightarrow> has_prefix k (n @ ''/'') \<Longrightarrow> has_parents (gm_set k x m) ps"
  by (auto simp: has_parents_def)

lemma has_parents_upd: "has_parents m ps \<Longrightarrow> gm_get m k = Some y \<Longrightarrow> has_parents (gm_set k x m) ps"
  by (auto simp: has_parents_def)

lemma has_parents_del: "has_parents m ps \<Longrightarrow> has_parents (gm_del k m) ps"
  by (auto simp: has_parents_def split: if_splits)

lemma has_parents_policy: "has_parents m ps \<Longrightarrow> has_parents m (gm_set n q ps)"
proof -
  assume h: "has_parents m ps"
  show ?thesis unfolding has_parents_def
  proof (intro allI impI)
    fix k p assume "gm_get m k = Some p"
    with h obtain l y where "gm_get ps l = Some y" "has_prefix k (l @ ''/'')" unfolding has_parents_def by blast
    then show "\<exists>l y. gm_get (gm_set n q ps) l = Some y \<and> has_prefix k (l @ ''/'')" by (cases "l = n") (auto intro: exI [of _ l])
  qed
qed

text \<open>Lookups decide the invariant.\<close>

lemma table_ok_cong: "table_ok name m \<Longrightarrow> gm_get m' = gm_get m \<Longrightarrow> gm_wf m' \<Longrightarrow> table_ok name m'"
  by (simp add: table_ok_def)

lemma has_parents_cong: "has_parents m ps \<Longrightarrow> gm_get m' = gm_get m \<Longrightarrow> gm_get ps' = gm_get ps \<Longrightarrow> has_parents m' ps'"
  by (simp add: has_parents_def)

lemma numbered_cong: "numbered seq m \<Longrightarrow> gm_get m' = gm_get m \<Longrightarrow> seq \<le> seq' \<Longrightarrow> numbered seq' m'"
  by (auto simp: numbered_def) (meson order_trans)

text \<open>The same tables, whatever the order and the number of the next policy.\<close>

definition acm_same :: "acm_data \<Rightarrow> acm_data \<Rightarrow> bool" where
  "acm_same d d' \<longleftrightarrow> gm_get (acm_policies d') = gm_get (acm_policies d) \<and> gm_get (acm_perimeters d') = gm_get (acm_perimeters d) \<and>
     gm_get (acm_levels d') = gm_get (acm_levels d) \<and> acm_error d' = acm_error d"

definition acm_wf :: "acm_data \<Rightarrow> bool" where
  "acm_wf d \<longleftrightarrow> gm_wf (acm_policies d) \<and> gm_wf (acm_perimeters d) \<and> gm_wf (acm_levels d)"

lemma acm_ok_wf: "acm_ok d \<Longrightarrow> acm_wf d"
  by (simp add: acm_ok_def acm_wf_def table_ok_def)

lemma acm_same_ok:
  assumes "acm_ok d" and "acm_same d d'" and "acm_wf d'" and "acm_seq d \<le> acm_seq d'" and "acm_seq d' < 2 ^ 63"
  shows "acm_ok d'"
proof -
  note o = assms(1) [unfolded acm_ok_def] and s = assms(2) [unfolded acm_same_def] and w = assms(3) [unfolded acm_wf_def]
  have "table_ok ap_name (acm_policies d')" by (rule table_ok_cong [of _ "acm_policies d"]) (use o s w in blast)+
  moreover have "table_ok sp_name (acm_perimeters d')" by (rule table_ok_cong [of _ "acm_perimeters d"]) (use o s w in blast)+
  moreover have "table_ok al_name (acm_levels d')" by (rule table_ok_cong [of _ "acm_levels d"]) (use o s w in blast)+
  moreover have "numbered (acm_seq d') (acm_policies d')" by (rule numbered_cong [of "acm_seq d" "acm_policies d"]) (use o s assms(4) in blast)+
  moreover have "0 \<le> acm_seq d'" using o assms(4) by linarith
  ultimately show ?thesis using assms(5) unfolding acm_ok_def by blast
qed

lemma acm_same_parented: "parented d \<Longrightarrow> acm_same d d' \<Longrightarrow> parented d'"
  by (auto simp: parented_def acm_same_def intro: has_parents_cong)

section \<open>Taking back a cascade\<close>

lemma get_filter_key: "gm_get (filter (\<lambda>(k, p). P k) m) x = (if P x then gm_get m x else None)"
  by (induction m) auto

lemma get_put_back: "gm_wf m \<Longrightarrow> gm_get (put_back (under n m) (not_under n m)) = gm_get m"
proof
  fix x assume w: "gm_wf m"
  have d: "distinct (map fst (under n m))" using w gm_wf_filter unfolding under_def gm_wf_def by blast
  have "gm_get (put_back (under n m) (not_under n m)) x = (case map_of (rev (under n m)) x of Some v \<Rightarrow> Some v | None \<Rightarrow> gm_get (not_under n m) x)"
    unfolding put_back_def by (rule foldl_gm_set_get)
  also have "map_of (rev (under n m)) = gm_get (under n m)" using d by (simp add: map_of_inject_set rev_map [symmetric])
  finally show "gm_get (put_back (under n m) (not_under n m)) x = gm_get m x"
    by (auto simp: under_def not_under_def get_filter_key split: option.split)
qed

lemma put_back_wf: "gm_wf m \<Longrightarrow> gm_wf (put_back d (not_under n m))"
proof -
  assume "gm_wf m"
  then have "gm_wf (not_under n m)" unfolding not_under_def by (rule gm_wf_filter)
  then show ?thesis unfolding put_back_def by (rule foldl_gm_set_wf)
qed

lemma not_under_ok: "table_ok name m \<Longrightarrow> table_ok name (not_under n m)"
  by (simp add: table_ok_def not_under_def get_filter_key)

lemma not_under_parents: "has_parents m ps \<Longrightarrow> has_parents (not_under n m) (gm_del n ps)"
  unfolding has_parents_def not_under_def get_filter_key by (auto split: if_splits) metis

section \<open>What a handler hands on\<close>

text \<open>\<open>kept\<close> tells whether the change leaves what has a policy with a policy.\<close>

definition acm_finished :: "'s shim_api \<Rightarrow> draw \<Rightarrow> string \<Rightarrow> bool \<Rightarrow> 's acm_api \<Rightarrow> reply \<times> 's acm_api \<Rightarrow> bool" where
  "acm_finished api e now kept st x \<longleftrightarrow>
     (\<exists>name undo d' verb resp. acm_ok d' \<and> acm_ok (undo d') \<and> (kept \<longrightarrow> parented (sh_data st) \<longrightarrow> parented d') \<and> acm_same (sh_data st) (undo d') \<and> acm_error d' = acm_error (sh_data st) \<and>
        x = finishMutation api acm_kind e now verb name resp False undo (st\<lparr>sh_data := d'\<rparr>))"

definition acm_nothing :: "'s acm_api \<Rightarrow> reply \<times> 's acm_api \<Rightarrow> bool" where
  "acm_nothing st x \<longleftrightarrow> snd x = st \<and> (\<exists>c e. fst x = Fail c e \<and> c \<noteq> 503)"

text \<open>The two tables below a policy.\<close>

locale child_table =
  fixes tb :: "'a table"
  assumes get_put [simp]: "tb_get tb (tb_put tb m d) = m"
    and put_put [simp]: "tb_put tb m (tb_put tb m' d) = tb_put tb m d"
    and put_error [simp]: "acm_error (tb_put tb m d) = acm_error d"
    and put_policies [simp]: "acm_policies (tb_put tb m d) = acm_policies d"
    and put_seq [simp]: "acm_seq (tb_put tb m d) = acm_seq d"
    and ok_get: "acm_ok d \<Longrightarrow> table_ok (tb_name tb) (tb_get tb d)"
    and ok_put: "acm_ok d \<Longrightarrow> table_ok (tb_name tb) m \<Longrightarrow> acm_ok (tb_put tb m d)"
    and parented_get: "parented d \<Longrightarrow> has_parents (tb_get tb d) (acm_policies d)"
    and parented_put: "parented d \<Longrightarrow> has_parents m (acm_policies d) \<Longrightarrow> parented (tb_put tb m d)"
    and same_put: "gm_get m = gm_get (tb_get tb d) \<Longrightarrow> acm_same d (tb_put tb m d)"
    and stamped [simp]: "tb_name tb (tb_stamp tb n now p) = n"
    and cloned [simp]: "tb_clone tb (Some p) = p"
    and patched_name: "tb_name tb (patched (tb_enc tb) (tb_into tb) z fm patch [(''name'', JStr n), (''createTime'', c), (''updateTime'', u)] p) = n"
begin

lemma handed_on:
  assumes "acm_ok (sh_data st)" and "table_ok (tb_name tb) m"
    and "kept \<Longrightarrow> has_parents (tb_get tb (sh_data st)) (acm_policies (sh_data st)) \<Longrightarrow> has_parents m (acm_policies (sh_data st))"
    and "gm_get (rv m) = gm_get (tb_get tb (sh_data st))" and "gm_wf (rv m)"
    and "x = finishMutation api acm_kind e now verb name resp False (\<lambda>d. tb_put tb (rv (tb_get tb d)) d) (st\<lparr>sh_data := tb_put tb m (sh_data st)\<rparr>)"
  shows "acm_finished api e now kept st x"
proof -
  let ?d = "tb_put tb m (sh_data st)" and ?u = "\<lambda>d. tb_put tb (rv (tb_get tb d)) d"
  have "table_ok (tb_name tb) (rv m)" using table_ok_cong [OF ok_get [OF assms(1)] assms(4,5)] .
  then have "acm_ok (?u ?d)" using ok_put [OF assms(1)] by simp
  moreover have "acm_same (sh_data st) (?u ?d)" using same_put [OF assms(4)] by simp
  moreover have "acm_ok ?d" using ok_put [OF assms(1,2)] .
  moreover have "kept \<longrightarrow> parented (sh_data st) \<longrightarrow> parented ?d" using parented_put parented_get assms(3) by blast
  ultimately show ?thesis using assms(6) unfolding acm_finished_def
    by (intro exI [of _ name] exI [of _ ?u] exI [of _ ?d] exI [of _ verb] exI [of _ resp]) simp
qed

lemma create_child_finished:
  assumes "acm_ok (sh_data st)"
  shows "acm_nothing st (create_child tb api e now r before st) \<or> acm_finished api e now (policies_remain before (sh_data st)) st (create_child tb api e now r before st)"
proof (cases "\<exists>q p0 i. gm_get (acm_policies before) (extractPolicyName (rq_path r)) = Some q \<and>
    (case body_into (tb_into tb) (tb_zero tb) (rq_body r) of Inl BodyEOF \<Rightarrow> Inr (tb_zero tb) | x \<Rightarrow> x) = Inr p0 \<and>
    i = (if query r (tb_id tb) = [] then tb_title tb p0 else query r (tb_id tb)) \<and> i \<noteq> [] \<and>
    gm_get (tb_get tb (sh_data st)) (child_name (extractPolicyName (rq_path r)) (tb_collection tb) i) = None")
  case True
  then obtain q p0 i where g: "gm_get (acm_policies before) (extractPolicyName (rq_path r)) = Some q"
    "(case body_into (tb_into tb) (tb_zero tb) (rq_body r) of Inl BodyEOF \<Rightarrow> Inr (tb_zero tb) | x \<Rightarrow> x) = Inr p0"
    "i = (if query r (tb_id tb) = [] then tb_title tb p0 else query r (tb_id tb))" "i \<noteq> []"
    "gm_get (tb_get tb (sh_data st)) (child_name (extractPolicyName (rq_path r)) (tb_collection tb) i) = None" by blast
  let ?n = "child_name (extractPolicyName (rq_path r)) (tb_collection tb) i"
  let ?p = "tb_stamp tb ?n now p0"
  note t = ok_get [OF assms]
  have "acm_finished api e now (policies_remain before (sh_data st)) st (create_child tb api e now r before st)"
  proof (rule handed_on [where m = "gm_set ?n (Some ?p) (tb_get tb (sh_data st))" and rv = "gm_del ?n"])
    show "table_ok (tb_name tb) (gm_set ?n (Some ?p) (tb_get tb (sh_data st)))" using t by (simp add: table_ok_set)
    show "has_parents (gm_set ?n (Some ?p) (tb_get tb (sh_data st))) (acm_policies (sh_data st))"
      if kept: "policies_remain before (sh_data st)" "has_parents (tb_get tb (sh_data st)) (acm_policies (sh_data st))"
    proof -
      obtain q' where "gm_get (acm_policies (sh_data st)) (extractPolicyName (rq_path r)) = Some q'"
        using kept(1) g(1) unfolding policies_remain_def by (metis option.distinct(1) option.exhaust)
      from has_parents_set [OF kept(2) this] show ?thesis by (simp add: child_name_def has_prefix_iff)
    qed
    show "create_child tb api e now r before st = acm_finish api e now ''create'' ?n (tb_enc tb ?p) (\<lambda>d. tb_put tb (gm_del ?n (tb_get tb d)) d)
        (st\<lparr>sh_data := tb_put tb (gm_set ?n (Some ?p) (tb_get tb (sh_data st))) (sh_data st)\<rparr>)"
      unfolding create_child_def Let_def g(2) using g(1,3,4,5) by simp
  qed (use assms t g(5) in \<open>auto simp: table_ok_def fun_eq_iff\<close>)
  then show ?thesis ..
next
  case False
  have "acm_nothing st (create_child tb api e now r before st)"
  proof (cases "gm_get (acm_policies before) (extractPolicyName (rq_path r))")
    case (Some q)
    show ?thesis
    proof (cases "case body_into (tb_into tb) (tb_zero tb) (rq_body r) of Inl BodyEOF \<Rightarrow> Inr (tb_zero tb) | x \<Rightarrow> x")
      case (Inr p0)
      with Some False show ?thesis unfolding create_child_def Let_def Inr by (auto simp: acm_nothing_def)
    qed (use Some in \<open>simp add: create_child_def Let_def acm_nothing_def\<close>)
  qed (simp add: create_child_def Let_def acm_nothing_def)
  then show ?thesis ..
qed

lemma patch_child_finished:
  assumes "acm_ok (sh_data st)"
  shows "acm_nothing st (patch_child tb api e now name r st) \<or> acm_finished api e now kept st (patch_child tb api e now name r st)"
proof (cases "gm_get (tb_get tb (sh_data st)) name")
  case (Some q)
  note t = ok_get [OF assms]
  from table_ok_get [OF t Some] obtain p where p: "q = Some p" "tb_name tb p = name" by blast
  show ?thesis
  proof (cases "patch_body (rq_body r)")
    case (Some patch)
    let ?y = "patched (tb_enc tb) (tb_into tb) (tb_zero tb) [] patch
      [(''name'', JStr (tb_name tb p)), (''createTime'', JStr (tb_create tb p)), (''updateTime'', JStr now)] p"
    have g: "gm_get (tb_get tb (sh_data st)) name = Some (Some p)" using \<open>gm_get _ name = Some q\<close> p(1) by simp
    have "acm_finished api e now kept st (patch_child tb api e now name r st)"
    proof (rule handed_on [where m = "gm_set name (Some ?y) (tb_get tb (sh_data st))" and rv = "gm_set name (Some p)"])
      show "table_ok (tb_name tb) (gm_set name (Some ?y) (tb_get tb (sh_data st)))"
        using t p(2) patched_name by (simp add: table_ok_set)
      show "has_parents (gm_set name (Some ?y) (tb_get tb (sh_data st))) (acm_policies (sh_data st))" if "has_parents (tb_get tb (sh_data st)) (acm_policies (sh_data st))"
        by (rule has_parents_upd [OF that g])
      show "patch_child tb api e now name r st = acm_finish api e now ''update'' name (tb_enc tb ?y)
          (\<lambda>d. tb_put tb (gm_set name (Some p) (tb_get tb d)) d) (st\<lparr>sh_data := tb_put tb (gm_set name (Some ?y) (tb_get tb (sh_data st))) (sh_data st)\<rparr>)"
        using g Some by (simp add: patch_child_def Let_def)
    qed (use assms t g in \<open>auto simp: table_ok_def fun_eq_iff\<close>)
    then show ?thesis ..
  qed (simp add: patch_child_def acm_nothing_def Some)
qed (simp add: patch_child_def acm_nothing_def)

lemma delete_child_finished:
  assumes "acm_ok (sh_data st)"
  shows "acm_nothing st (delete_child tb api e now name st) \<or> acm_finished api e now kept st (delete_child tb api e now name st)"
proof (cases "gm_get (tb_get tb (sh_data st)) name")
  case (Some q)
  note t = ok_get [OF assms]
  have "acm_finished api e now kept st (delete_child tb api e now name st)"
  proof (rule handed_on [where m = "gm_del name (tb_get tb (sh_data st))" and rv = "gm_set name q"])
    show "delete_child tb api e now name st = acm_finish api e now ''delete'' name (JObj [])
        (\<lambda>d. tb_put tb (gm_set name q (tb_get tb d)) d) (st\<lparr>sh_data := tb_put tb (gm_del name (tb_get tb (sh_data st))) (sh_data st)\<rparr>)"
      using Some by (simp add: delete_child_def)
  qed (use assms t Some in \<open>auto simp: table_ok_del has_parents_del fun_eq_iff, simp add: table_ok_def\<close>)
  then show ?thesis ..
qed (simp add: delete_child_def acm_nothing_def)

end

interpretation perimeters: child_table perimeter_table
proof
  show "tb_name perimeter_table (patched (tb_enc perimeter_table) (tb_into perimeter_table) z fm patch
      [(''name'', JStr n), (''createTime'', c), (''updateTime'', u)] p) = n" for z fm patch n c u p
    unfolding patched_def perimeter_table_def table.simps into_perimeter_def
    by (rule patched_pinned [where n = "''name''" and h = "at_field sp_name (\<lambda>x p. p\<lparr>sp_name := x\<rparr>) into_string" and v = "JStr n"])
      (simp_all add: set_all_def mask_merge_wf, simp add: to_lower_def lower_char_def)
qed (auto simp: perimeter_table_def acm_ok_def parented_def acm_same_def tb_clone_def)

interpretation levels: child_table level_table
proof
  show "tb_name level_table (patched (tb_enc level_table) (tb_into level_table) z fm patch
      [(''name'', JStr n), (''createTime'', c), (''updateTime'', u)] p) = n" for z fm patch n c u p
    unfolding patched_def level_table_def table.simps into_level_def
    by (rule patched_pinned [where n = "''name''" and h = "at_field al_name (\<lambda>x p. p\<lparr>al_name := x\<rparr>) into_string" and v = "JStr n"])
      (simp_all add: set_all_def mask_merge_wf, simp add: to_lower_def lower_char_def)
qed (auto simp: level_table_def acm_ok_def parented_def acm_same_def tb_clone_def)

section \<open>Policies\<close>

lemma itoa_inj: "0 \<le> i \<Longrightarrow> i < 2 ^ 63 \<Longrightarrow> 0 \<le> j \<Longrightarrow> j < 2 ^ 63 \<Longrightarrow> itoa i = itoa j \<Longrightarrow> i = j"
proof -
  assume r: "0 \<le> i" "i < 2 ^ 63" "0 \<le> j" "j < 2 ^ 63" and e: "itoa i = itoa j"
  have "atoi (itoa i) = Some i" by (rule atoi_itoa) (use r in linarith)+
  moreover have "atoi (itoa j) = Some j" by (rule atoi_itoa) (use r in linarith)+
  ultimately show ?thesis unfolding e by (metis option.inject)
qed

lemma next_policy_is_new:
  assumes "acm_ok d" and "acm_seq d < 2 ^ 63 - 1"
  shows "wrap64 (acm_seq d + 1) = acm_seq d + 1" and "gm_get (acm_policies d) (''accessPolicies/'' @ itoa (acm_seq d + 1)) = None"
proof -
  have s: "0 \<le> acm_seq d" using assms(1) by (simp add: acm_ok_def)
  then show "wrap64 (acm_seq d + 1) = acm_seq d + 1" using assms(2) by (simp add: wrap64_small)
  show "gm_get (acm_policies d) (''accessPolicies/'' @ itoa (acm_seq d + 1)) = None"
  proof (cases "gm_get (acm_policies d) (''accessPolicies/'' @ itoa (acm_seq d + 1))")
    case (Some q)
    have "numbered (acm_seq d) (acm_policies d)" using assms(1) by (simp add: acm_ok_def)
    with Some obtain i where i: "1 \<le> i" "i \<le> acm_seq d" "itoa (acm_seq d + 1) = itoa i" unfolding numbered_def by force
    have "acm_seq d + 1 = i" by (rule itoa_inj [OF _ _ _ _ i(3)]) (use s assms(2) i(1,2) in linarith)+
    with i(2) show ?thesis by simp
  qed
qed

lemma numbered_next:
  assumes "numbered seq m" and "0 \<le> seq"
  shows "numbered (seq + 1) (gm_set (''accessPolicies/'' @ itoa (seq + 1)) x m)"
  unfolding numbered_def
proof (intro allI impI)
  fix n q assume g: "gm_get (gm_set (''accessPolicies/'' @ itoa (seq + 1)) x m) n = Some q"
  show "\<exists>i. 1 \<le> i \<and> i \<le> seq + 1 \<and> n = ''accessPolicies/'' @ itoa i"
  proof (cases "n = ''accessPolicies/'' @ itoa (seq + 1)")
    case True
    then show ?thesis using assms(2) by (intro exI [of _ "seq + 1"]) linarith
  next
    case False
    with g have "gm_get m n = Some q" by simp
    with assms(1) obtain i where "1 \<le> i" "i \<le> seq" "n = ''accessPolicies/'' @ itoa i" unfolding numbered_def by blast
    then show ?thesis by (intro exI [of _ i]) linarith
  qed
qed

lemma create_policy_finished:
  assumes "acm_ok (sh_data st)" and "acm_seq (sh_data st) < 2 ^ 63 - 1"
  shows "acm_nothing st (createAccessPolicy api e now r st) \<or> acm_finished api e now kept st (createAccessPolicy api e now r st)"
proof (cases "\<exists>p0. body_into (into_access_policy False) zero_access_policy (rq_body r) = Inr p0 \<and> ap_parent p0 \<noteq> [] \<and> has_prefix (ap_parent p0) ''organizations/''")
  case True
  then obtain p0 where g: "body_into (into_access_policy False) zero_access_policy (rq_body r) = Inr p0" "ap_parent p0 \<noteq> []"
    "has_prefix (ap_parent p0) ''organizations/''" by blast
  let ?d = "sh_data st" let ?n = "''accessPolicies/'' @ itoa (acm_seq ?d + 1)"
  let ?p = "p0\<lparr>ap_name := ?n, ap_create := now, ap_update := now\<rparr>"
  let ?d' = "?d\<lparr>acm_seq := acm_seq ?d + 1, acm_policies := gm_set ?n (Some ?p) (acm_policies ?d)\<rparr>"
  let ?u = "\<lambda>d. d\<lparr>acm_policies := gm_del ?n (acm_policies d)\<rparr>"
  note n = next_policy_is_new [OF assms]
  have new: "numbered (acm_seq ?d + 1) (gm_set ?n (Some ?p) (acm_policies ?d))"
    by (rule numbered_next) (use assms(1) in \<open>simp_all add: acm_ok_def\<close>)
  have ok: "acm_ok ?d'"
    using assms new by (simp add: acm_ok_def table_ok_set)
  have par: "parented ?d \<Longrightarrow> parented ?d'" by (simp add: parented_def has_parents_policy)
  have same: "acm_same ?d (?u ?d')" using n(2) by (auto simp: acm_same_def fun_eq_iff)
  have "acm_ok (?u ?d')"
    by (rule acm_same_ok [OF assms(1) same]) (use acm_ok_wf [OF ok] assms(2) in \<open>simp_all add: acm_wf_def\<close>)
  moreover have "createAccessPolicy api e now r st = acm_finish api e now ''create'' ?n (enc_access_policy ?p) ?u (st\<lparr>sh_data := ?d'\<rparr>)"
    using g n(1) by (simp add: createAccessPolicy_def Let_def)
  ultimately have "acm_finished api e now kept st (createAccessPolicy api e now r st)"
    unfolding acm_finished_def using ok same par
    by (intro exI [of _ ?n] exI [of _ ?u] exI [of _ ?d'] exI [of _ "''create''"] exI [of _ "enc_access_policy ?p"]) simp
  then show ?thesis ..
next
  case False
  then have "acm_nothing st (createAccessPolicy api e now r st)"
    by (auto simp: createAccessPolicy_def acm_nothing_def split: sum.split)
  then show ?thesis ..
qed

lemma patched_policy_name:
  "ap_name (patched enc_access_policy (into_access_policy s) z fm patch
     [(''name'', JStr n), (''parent'', a), (''createTime'', c), (''updateTime'', u)] p) = n"
  unfolding patched_def into_access_policy_def
  by (rule patched_pinned [where n = "''name''" and h = "at_field ap_name (\<lambda>x p. p\<lparr>ap_name := x\<rparr>) into_string" and v = "JStr n"])
    (simp_all add: set_all_def mask_merge_wf, simp add: to_lower_def lower_char_def)

text \<open>A policy table with one value replaced: the invariant stays, and the old value takes it back.\<close>

lemma policy_replaced:
  assumes "acm_ok d" and "gm_get (acm_policies d) n = Some (Some x)" and "ap_name y = n"
  shows "acm_ok (d\<lparr>acm_policies := gm_set n (Some y) (acm_policies d)\<rparr>)"
proof -
  have "numbered (acm_seq d) (gm_set n (Some y) (acm_policies d))" using assms by (auto simp: acm_ok_def numbered_def)
  with assms show ?thesis by (simp add: acm_ok_def table_ok_set)
qed

lemma patch_policy_finished:
  assumes "acm_ok (sh_data st)"
  shows "acm_nothing st (patchAccessPolicy api e now r st) \<or> acm_finished api e now kept st (patchAccessPolicy api e now r st)"
proof (cases "\<exists>q patch. gm_get (acm_policies (sh_data st)) (extractPolicyName (rq_path r)) = Some q \<and> patch_body (rq_body r) = Some patch")
  case True
  let ?d = "sh_data st" let ?n = "extractPolicyName (rq_path r)"
  from True obtain q patch where g: "gm_get (acm_policies ?d) ?n = Some q" "patch_body (rq_body r) = Some patch" by blast
  have "table_ok ap_name (acm_policies ?d)" using assms by (simp add: acm_ok_def)
  from table_ok_get [OF this g(1)] obtain p where p: "q = Some p" "ap_name p = ?n" by blast
  let ?y = "patched enc_access_policy (into_access_policy False) zero_access_policy (query r ''updateMask'') patch
    [(''name'', JStr (ap_name p)), (''parent'', JStr (ap_parent p)), (''createTime'', JStr (ap_create p)), (''updateTime'', JStr now)] p"
  let ?d' = "?d\<lparr>acm_policies := gm_set ?n (Some ?y) (acm_policies ?d)\<rparr>" and ?u = "\<lambda>d. d\<lparr>acm_policies := gm_set ?n (Some p) (acm_policies d)\<rparr>"
  have ok: "acm_ok ?d'" using policy_replaced [OF assms g(1) [unfolded p(1)], of ?y] patched_policy_name p(2) by simp
  have par: "parented ?d \<Longrightarrow> parented ?d'" by (simp add: parented_def has_parents_policy)
  have same: "acm_same ?d (?u ?d')" using g(1) p(1) by (auto simp: acm_same_def fun_eq_iff)
  have "acm_ok (?u ?d')"
    by (rule acm_same_ok [OF assms same]) (use acm_ok_wf [OF assms] assms in \<open>simp_all add: acm_wf_def acm_ok_def\<close>)
  moreover have "patchAccessPolicy api e now r st = acm_finish api e now ''update'' ?n (enc_access_policy ?y) ?u (st\<lparr>sh_data := ?d'\<rparr>)"
    using g p by (simp add: patchAccessPolicy_def Let_def)
  ultimately have "acm_finished api e now kept st (patchAccessPolicy api e now r st)"
    unfolding acm_finished_def using ok same par
    by (intro exI [of _ ?n] exI [of _ ?u] exI [of _ ?d'] exI [of _ "''update''"] exI [of _ "enc_access_policy ?y"]) simp
  then show ?thesis ..
next
  case False
  then have "acm_nothing st (patchAccessPolicy api e now r st)"
    by (auto simp: patchAccessPolicy_def acm_nothing_def Let_def split: option.split)
  then show ?thesis ..
qed

lemma delete_policy_finished:
  assumes "acm_ok (sh_data st)"
  shows "acm_nothing st (deleteAccessPolicy api e now r st) \<or> acm_finished api e now kept st (deleteAccessPolicy api e now r st)"
proof (cases "gm_get (acm_policies (sh_data st)) (extractPolicyName (rq_path r))")
  case (Some q)
  let ?d = "sh_data st" let ?n = "extractPolicyName (rq_path r)"
  let ?d' = "?d\<lparr>acm_policies := gm_del ?n (acm_policies ?d), acm_perimeters := not_under ?n (acm_perimeters ?d), acm_levels := not_under ?n (acm_levels ?d)\<rparr>"
  let ?u = "\<lambda>d. d\<lparr>acm_policies := gm_set ?n q (acm_policies d), acm_perimeters := put_back (under ?n (acm_perimeters ?d)) (acm_perimeters d),
    acm_levels := put_back (under ?n (acm_levels ?d)) (acm_levels d)\<rparr>"
  have w: "acm_wf ?d" by (rule acm_ok_wf [OF assms])
  have "numbered (acm_seq ?d) (gm_del ?n (acm_policies ?d))" using assms by (auto simp: acm_ok_def numbered_def split: if_splits)
  then have ok: "acm_ok ?d'" using assms by (simp add: acm_ok_def table_ok_del not_under_ok)
  have par: "parented ?d \<Longrightarrow> parented ?d'" by (simp add: parented_def not_under_parents)
  have same: "acm_same ?d (?u ?d')"
    using Some w by (auto simp: acm_same_def acm_wf_def get_put_back fun_eq_iff)
  have "acm_ok (?u ?d')"
    by (rule acm_same_ok [OF assms same]) (use w assms in \<open>simp_all add: acm_wf_def put_back_wf acm_ok_def\<close>)
  moreover have "deleteAccessPolicy api e now r st = acm_finish api e now ''delete'' ?n (JObj []) ?u (st\<lparr>sh_data := ?d'\<rparr>)"
    using Some by (simp add: deleteAccessPolicy_def Let_def)
  ultimately have "acm_finished api e now kept st (deleteAccessPolicy api e now r st)"
    unfolding acm_finished_def using ok same par
    by (intro exI [of _ ?n] exI [of _ ?u] exI [of _ ?d'] exI [of _ "''delete''"] exI [of _ "JObj []"]) simp
  then show ?thesis ..
qed (simp add: deleteAccessPolicy_def acm_nothing_def Let_def)

text \<open>A request of the API: it changes nothing, or it hands one such change to \<open>finishMutation\<close>.\<close>

lemma acm_serve_cases:
  assumes "acm_ok (sh_data st)" and "acm_seq (sh_data st) < 2 ^ 63 - 1"
  shows "snd (acm_serve api digest e now r before st) = st \<and>
      ((\<exists>c x. fst (acm_serve api digest e now r before st) = Fail c x) \<or> rq_method r = ''GET'' \<or> has_suffix (rq_path r) '':checkAccess'') \<or>
    acm_error (sh_data st) = None \<and> acm_finished api e now (policies_remain before (sh_data st)) st (acm_serve api digest e now r before st)"
proof -
  define Q where "Q x \<longleftrightarrow> snd x = st \<and> ((\<exists>c x'. fst x = Fail c x') \<or> rq_method r = ''GET'' \<or> has_suffix (rq_path r) '':checkAccess'') \<or>
    acm_error (sh_data st) = None \<and> acm_finished api e now (policies_remain before (sh_data st)) st x" for x
  have n: "acm_error (sh_data st) = None \<Longrightarrow> acm_nothing st x \<or> acm_finished api e now (policies_remain before (sh_data st)) st x \<Longrightarrow> Q x" for x
    by (auto simp: Q_def acm_nothing_def)
  have reads: "rq_method r = ''GET'' \<Longrightarrow> Q (v, st)" and fails: "Q (Fail c x, st)" for v c x by (simp_all add: Q_def)
  have check: "has_suffix (rq_path r) '':checkAccess'' \<Longrightarrow> Q (case y of Inl z \<Rightarrow> (Fail c x, st) | Inr q \<Rightarrow> (f q, st))" for y :: "body_error + access_request" and c x f
    by (simp add: Q_def split: sum.split)
  have i: "(b \<Longrightarrow> Q x) \<Longrightarrow> (\<not> b \<Longrightarrow> Q y) \<Longrightarrow> Q (if b then x else y)" for b x y by simp
  note facts = create_policy_finished [OF assms] patch_policy_finished [OF assms(1)] delete_policy_finished [OF assms(1)]
    perimeters.create_child_finished [OF assms(1), where before = before] perimeters.patch_child_finished [OF assms(1)] perimeters.delete_child_finished [OF assms(1)]
    levels.create_child_finished [OF assms(1), where before = before] levels.patch_child_finished [OF assms(1)] levels.delete_child_finished [OF assms(1)]
  have "Q (acm_serve api digest e now r before st)"
    unfolding acm_serve_def Let_def createServicePerimeter_def createAccessLevel_def patchServicePerimeter_def patchAccessLevel_def
      deleteServicePerimeter_def deleteAccessLevel_def
    by (intro i) (simp_all only: fails reads check n facts simp_thms not_not)
  then show ?thesis unfolding Q_def .
qed

end
