(* ===== verification/Access_Context_Properties.thy ===== *)
theory Access_Context_Properties
  imports Access_Context_Laws Iam_Credentials_Properties
begin

text \<open>
  Access Context Manager over the document store: its tables survive, nothing is left under a policy that is
  gone, what a perimeter decides, that an unreadable entry stops every decision, and what this means for
  service account tokens.
\<close>

section \<open>The store\<close>

definition acm_sorted :: "acm_data \<Rightarrow> acm_data" where
  "acm_sorted d = d\<lparr>acm_policies := sort_members (acm_policies d), acm_perimeters := sort_members (acm_perimeters d),
     acm_levels := sort_members (acm_levels d), acm_error := None\<rparr>"

lemma into_enc_table:
  assumes "table_ok name m" and "\<And>x. f (enc x) z = (x, True)" and "\<And>x. enc x \<noteq> JNull" and "\<And>x. clone (Some x) = x"
  shows "into_map (into_ptr f z) None (enc_table (enc \<circ> clone) m) [] = (sort_members m, True)"
  unfolding enc_table_def
proof (rule into_map_map)
  fix k p assume "(k, p) \<in> set (sort_members m)"
  then have "gm_get m k = Some p" using assms(1) by (simp add: table_ok_def gm_get_mem)
  then obtain x where "p = Some x" using table_ok_get [OF assms(1)] by blast
  then show "into_ptr f z ((enc \<circ> clone) p) None = (p, True)" using assms(2-4) by (simp add: into_ptr_def)
qed (use assms(1) in \<open>simp add: table_ok_def\<close>)

lemma into_enc_acm_metadata: "acm_ok d \<Longrightarrow> into_acm_metadata False (enc_acm_metadata d) empty_acm = (acm_sorted d, True)"
proof -
  assume ok: "acm_ok d"
  have "into_map (into_ptr (into_access_policy False) zero_access_policy) None (enc_table (enc_access_policy \<circ> clonePolicy) (acm_policies d)) [] =
      (sort_members (acm_policies d), True)"
    by (rule into_enc_table [of ap_name]) (use ok in \<open>simp_all add: acm_ok_def into_enc_access_policy, simp add: enc_access_policy_def\<close>)
  moreover have "into_map (into_ptr (into_perimeter False) zero_perimeter) None (enc_table (enc_perimeter \<circ> clonePerimeter) (acm_perimeters d)) [] =
      (sort_members (acm_perimeters d), True)"
    by (rule into_enc_table [of sp_name]) (use ok in \<open>simp_all add: acm_ok_def into_enc_perimeter, simp add: enc_perimeter_def\<close>)
  moreover have "into_map (into_ptr (into_level False) zero_level) None (enc_table (enc_level \<circ> cloneLevel) (acm_levels d)) [] =
      (sort_members (acm_levels d), True)"
    by (rule into_enc_table [of al_name]) (use ok in \<open>simp_all add: acm_ok_def into_enc_level, simp add: enc_level_def\<close>)
  moreover have "int64_range (acm_seq d)" using ok by (simp add: acm_ok_def int64_range_def)
  ultimately show ?thesis
    by (simp add: into_acm_metadata_def enc_acm_metadata_def into_struct_def into_simps empty_acm_def acm_sorted_def)
qed

interpretation acm_shim: metadata_shim Save Load own_Save own_Load durable_entry acm_kind "\<lambda>v. into_acm_metadata False v empty_acm" acm_ok acm_sorted
  by unfold_locales (simp_all add: acm_kind_def operationStateEntry_def into_enc_acm_metadata)

lemma acm_sorted_same: "acm_ok d \<Longrightarrow> acm_same (acm_sorted d) (d\<lparr>acm_error := None\<rparr>)"
  using acm_ok_wf [of d] by (simp add: acm_same_def acm_sorted_def acm_wf_def)

lemma acm_sorted_ok: "acm_ok d \<Longrightarrow> acm_ok (acm_sorted d)"
proof -
  assume ok: "acm_ok d"
  have "acm_ok (d\<lparr>acm_error := None\<rparr>)" using ok by (simp add: acm_ok_def)
  then show ?thesis
    by (rule acm_same_ok) (use ok acm_ok_wf [OF ok] in \<open>simp_all add: acm_same_def acm_sorted_def acm_wf_def acm_ok_def\<close>)
qed

lemma table_ok_named: "table_ok name m \<Longrightarrow> named name m"
  unfolding named_def list_all_iff
proof
  fix y assume ok: "table_ok name m" and y: "y \<in> set m"
  obtain k p where kp: "y = (k, p)" by (cases y)
  with ok y have "gm_get m k = Some p" by (simp add: table_ok_def gm_get_mem)
  from table_ok_get [OF ok this] kp show "case y of (k, p) \<Rightarrow> (case p of Some x \<Rightarrow> name x = k | None \<Rightarrow> False)" by auto
qed

lemma clone_table_id: "table_ok name m \<Longrightarrow> (\<And>x. clone (Some x) = x) \<Longrightarrow> clone_table clone m = m"
  unfolding clone_table_def
proof (rule map_idI)
  fix y assume ok: "table_ok name m" and c: "\<And>x. clone (Some x) = x" and y: "y \<in> set m"
  obtain k p where kp: "y = (k, p)" by (cases y)
  with ok y have "gm_get m k = Some p" by (simp add: table_ok_def gm_get_mem)
  from table_ok_get [OF ok this] kp c show "(case y of (k, p) \<Rightarrow> (k, Some (clone p))) = y" by auto
qed

text \<open>A shim that starts on a store whose entry can be read has the tables that were saved.\<close>

lemma acm_restart:
  assumes "tables_durable durable_entry acm_kind st" and "acm_ok (sh_data st)" and "om_store (sh_mgr st) = Some s" and "om_store m = Some s"
    and "own_Load (sk_entry acm_kind) s = (Inr v, s')"
  shows "sh_data (acm_load shim_store m) = acm_sorted (sh_data st)"
proof -
  have v: "v = enc_acm_metadata (sh_data st)"
    using own_store.load_value [OF assms(5)] assms(1,3) by (simp add: tables_durable_def entry_of_def acm_kind_def)
  note o = acm_sorted_ok [OF assms(2), unfolded acm_ok_def]
  then have "validateACMMetadata (acm_sorted (sh_data st))" by (simp add: validateACMMetadata_def table_ok_named)
  moreover have "clone_table clonePolicy (acm_policies (acm_sorted (sh_data st))) = acm_policies (acm_sorted (sh_data st))"
    "clone_table clonePerimeter (acm_perimeters (acm_sorted (sh_data st))) = acm_perimeters (acm_sorted (sh_data st))"
    "clone_table cloneLevel (acm_levels (acm_sorted (sh_data st))) = acm_levels (acm_sorted (sh_data st))"
    using o clone_table_id [of ap_name _ clonePolicy] clone_table_id [of sp_name _ clonePerimeter] clone_table_id [of al_name _ cloneLevel]
    by simp_all
  ultimately show ?thesis
    using assms(4,5) into_enc_acm_metadata [OF assms(2)] by (simp add: acm_load_def guarded_Load_def v split: prod.splits)
qed

section \<open>Changes\<close>

lemma finished_data:
  assumes "acm_finished shim_store e now kept st (v, st')"
  shows "acm_ok (sh_data st')" and "(\<exists>w. v = Reply w \<and> tables_durable durable_entry acm_kind st') \<or> (\<exists>x. v = Fail 503 x \<and> acm_same (sh_data st) (sh_data st'))"
    and "v = Reply w \<Longrightarrow> acm_error (sh_data st') = acm_error (sh_data st)"
proof -
  obtain name undo d' verb resp where c: "acm_ok d'" "acm_ok (undo d')" "acm_same (sh_data st) (undo d')" "acm_error d' = acm_error (sh_data st)"
    "finishMutation shim_store acm_kind e now verb name resp False undo (st\<lparr>sh_data := d'\<rparr>) = (v, st')"
    using assms unfolding acm_finished_def by metis
  show "acm_ok (sh_data st')" using acm_shim.finishMutation_data [OF c(5)] c(1,2) by auto
  show "v = Reply w \<Longrightarrow> acm_error (sh_data st') = acm_error (sh_data st)" using acm_shim.acknowledged_durable [of e now verb name resp False undo] c(4,5) by fastforce
  show "(\<exists>w. v = Reply w \<and> tables_durable durable_entry acm_kind st') \<or> (\<exists>x. v = Fail 503 x \<and> acm_same (sh_data st) (sh_data st'))"
  proof (cases v)
    case (Reply w)
    with acm_shim.acknowledged_durable [OF c(5) [unfolded Reply]] show ?thesis by simp
  next
    case (Fail code x)
    with acm_shim.refused_rolled_back [OF c(5) [unfolded Fail]] c(3) show ?thesis by simp
  next
    case ReplyPanics
    with acm_shim.never_panics [of e now verb name resp False undo "st\<lparr>sh_data := d'\<rparr>"] c(5) show ?thesis by simp
  qed
qed

lemma finished_parented: "acm_finished shim_store e now True st (v, st') \<Longrightarrow> parented (sh_data st) \<Longrightarrow> parented (sh_data st')"
  unfolding acm_finished_def using acm_shim.finishMutation_data acm_same_parented by (metis shim.select_convs(1) shim.update_convs(1) shim.surjective)

text \<open>
  C11: the tables stay consistent.  Whatever runs between the two critical sections of a create, every request,
  a cascading delete and a compensated one included, keeps each entry under the name it is stored under and
  the policies numbered up to the counter, so that no new policy takes a name in use.  And when no policy was
  deleted between the two sections, as is the case when requests come one after another, every perimeter
  and every level that had a policy still has one: nothing is left under a deleted policy.
\<close>
theorem access_tables_stay_consistent:
  assumes "acm_ok (sh_data st)" and "acm_seq (sh_data st) < 2 ^ 63 - 1"
  shows "acm_ok (sh_data (snd (acm_serve shim_store digest e now r before st))) \<and>
    (policies_remain before (sh_data st) \<longrightarrow> parented (sh_data st) \<longrightarrow> parented (sh_data (snd (acm_serve shim_store digest e now r before st))))"
proof -
  obtain v st' where v: "acm_serve shim_store digest e now r before st = (v, st')" by (cases "acm_serve shim_store digest e now r before st")
  from acm_serve_cases [OF assms, of shim_store digest e now r before] v
  have "st' = st \<or> acm_finished shim_store e now (policies_remain before (sh_data st)) st (v, st')" by auto
  then show ?thesis using finished_data(1) [of e now _ st v st'] finished_parented [of e now st v st'] assms(1) v by auto
qed

text \<open>
  C13: a change that was acknowledged is found by the next server on the same store, and one refused
  with 503 leaves every policy, perimeter and level looked up as before.
\<close>
theorem access_changes_are_all_or_nothing:
  assumes "acm_serve shim_store digest e now r before st = (v, st')" and "acm_ok (sh_data st)" and "acm_seq (sh_data st) < 2 ^ 63 - 1"
  shows "(v = Fail 503 x \<longrightarrow> acm_same (sh_data st) (sh_data st')) \<and>
    (v = Reply w \<and> rq_method r \<noteq> ''GET'' \<and> \<not> has_suffix (rq_path r) '':checkAccess'' \<and> om_store (sh_mgr st') = Some s \<and> om_store m = Some s \<and>
      own_Load ''accesscontextmanager/metadata'' s = (Inr u, s') \<longrightarrow> acm_same (sh_data st') (sh_data (acm_load shim_store m)))"
proof -
  let ?kept = "policies_remain before (sh_data st)"
  note c = acm_serve_cases [OF assms(2,3), of shim_store digest e now r before, unfolded assms(1)]
  have ok: "acm_ok (sh_data st')" using c finished_data(1) [of e now ?kept st v st'] assms(2) by auto
  have first: "acm_same (sh_data st) (sh_data st')" if "v = Fail 503 x"
    using c that finished_data(2) [of e now ?kept st v st'] by (auto simp: acm_same_def)
  have second: "acm_same (sh_data st') (sh_data (acm_load shim_store m))"
    if h: "v = Reply w" "rq_method r \<noteq> ''GET''" "\<not> has_suffix (rq_path r) '':checkAccess''" "om_store (sh_mgr st') = Some s" "om_store m = Some s"
      "own_Load ''accesscontextmanager/metadata'' s = (Inr u, s')"
  proof -
    have f: "acm_finished shim_store e now ?kept st (v, st')" "acm_error (sh_data st) = None" using c h(1-3) by auto
    have d: "tables_durable durable_entry acm_kind st'" "acm_error (sh_data st') = None" using finished_data [OF f(1)] f(2) h(1) by auto
    have e: "sk_entry acm_kind = ''accesscontextmanager/metadata''" by (simp add: acm_kind_def)
    have "sh_data (acm_load shim_store m) = acm_sorted (sh_data st')" by (rule acm_restart [OF d(1) ok h(4,5) h(6) [folded e]])
    then show ?thesis using acm_ok_wf [OF ok] d(2) by (simp add: acm_same_def acm_sorted_def acm_wf_def)
  qed
  show ?thesis using first second by blast
qed

section \<open>Decisions\<close>

text \<open>A perimeter that restricts the service for the project, and a level it names that the request matches.\<close>

definition restricts :: "acm_data \<Rightarrow> string \<Rightarrow> string \<Rightarrow> service_perimeter \<Rightarrow> perimeter_status \<Rightarrow> bool" where
  "restricts d project service p s \<longleftrightarrow> Some p \<in> snd ` set (acm_perimeters d) \<and> sp_status p = Some s \<and>
     project \<in> set (ps_resources s) \<and> service \<in> set (ps_services s)"

definition admitted :: "acm_data \<Rightarrow> perimeter_status \<Rightarrow> access_request \<Rightarrow> bool" where
  "admitted d s q \<longleftrightarrow> (\<exists>n \<in> set (ps_levels s). levelMatches (ptr_get (acm_levels d) n) q)"

lemma map_filter_mem: "y \<in> set (List.map_filter f xs) \<longleftrightarrow> (\<exists>x \<in> set xs. f x = Some y)"
  by (induction xs) (auto simp: List.map_filter_def split: option.splits)

lemma restricting_set: "p \<in> set (restricting d q) \<longleftrightarrow> (\<exists>s. restricts d (ar_project q) (ar_service q) p s)"
proof -
  have "p \<in> set (restricting d q) \<longleftrightarrow> (\<exists>k x s. (k, Some x) \<in> set (acm_perimeters d) \<and> sp_status x = Some s \<and>
      ar_project q \<in> set (ps_resources s) \<and> ar_service q \<in> set (ps_services s) \<and> p = x)"
    unfolding restricting_def set_sort map_filter_mem by (auto split: option.splits if_splits intro: bexI [rotated]) blast+
  also have "\<dots> \<longleftrightarrow> (\<exists>s. restricts d (ar_project q) (ar_service q) p s)"
    unfolding restricts_def image_iff by (metis (no_types, opaque_lifting) prod.collapse snd_conv)
  finally show ?thesis .
qed

lemma perimeter_loop_result:
  "ad_allowed (perimeter_loop d q ps allowed) \<longleftrightarrow> (\<forall>p \<in> set ps. level_admits d q p)"
  by (induction ps arbitrary: allowed) auto

lemma CheckAccess_allowed:
  assumes "acm_error d = None" and "validProjectResource (ar_project q)" and "trim_space (ar_service q) \<noteq> []"
  shows "ad_allowed (CheckAccess q d) \<longleftrightarrow> (\<forall>p s. restricts d (ar_project q) (ar_service q) p s \<longrightarrow> admitted d s q)"
proof -
  have l: "level_admits d q p \<longleftrightarrow> admitted d s q" if "restricts d (ar_project q) (ar_service q) p s" for p s
    using that by (simp add: level_admits_def restricts_def admitted_def list_ex_iff)
  have "ad_allowed (CheckAccess q d) \<longleftrightarrow> (\<forall>p \<in> set (restricting d q). level_admits d q p)"
    using assms by (simp add: CheckAccess_def perimeter_loop_result)
  also have "\<dots> \<longleftrightarrow> (\<forall>p s. restricts d (ar_project q) (ar_service q) p s \<longrightarrow> admitted d s q)"
    unfolding Ball_def restricting_set using l by blast
  finally show ?thesis .
qed

text \<open>
  C12: a request passes exactly if every perimeter that restricts its service for its project names an
  access level the request matches; a perimeter that names none admits nobody, and how many perimeters
  there are and in which order they are stored does not matter.
\<close>
theorem perimeters_decide:
  assumes "acm_error d = None" and "validProjectResource project" and "trim_space service \<noteq> []"
  shows "snd (EvaluateServicePerimeter d project service source region) \<longleftrightarrow>
    (\<forall>p s. restricts d project service p s \<longrightarrow>
       admitted d s \<lparr>ar_project = project, ar_service = service, ar_source = source, ar_region = region\<rparr>)"
  using CheckAccess_allowed [of d "\<lparr>ar_project = project, ar_service = service, ar_source = source, ar_region = region\<rparr>"] assms
  by (simp add: EvaluateServicePerimeter_def Let_def)

text \<open>
  The shim fails closed.  A server whose stored entry could not be read, or holds an entry under a
  wrong name, answers every request with 503, changes nothing, and reports every project as restricted
  and denied.
\<close>
theorem unreadable_perimeters_deny:
  assumes "om_store m = Some s" and "own_Load ''accesscontextmanager/metadata'' s = (x, s')"
    and "case x of Inl e \<Rightarrow> \<not> is_err ErrNotFound e
      | Inr v \<Rightarrow> (case into_acm_metadata False v empty_acm of (d, ok) \<Rightarrow> \<not> ok \<or> \<not> validateACMMetadata d)"
  shows "acm_serve shim_store digest e now r before (acm_load shim_store m) = (Fail 503 ''UNAVAILABLE'', acm_load shim_store m) \<and>
    EvaluateServicePerimeter (sh_data (acm_load shim_store m)) project service source region = (True, False)"
proof -
  have "acm_error (sh_data (acm_load shim_store m)) \<noteq> None"
    using assms by (auto simp: acm_load_def guarded_Load_def acm_kind_def empty_acm_def Let_def split: sum.splits prod.splits)
  then show ?thesis by (auto simp: acm_serve_def EvaluateServicePerimeter_def CheckAccess_def Let_def)
qed

lemma denied_when_blocked: "snd (EvaluateServicePerimeter d project service source region) \<or> fst (EvaluateServicePerimeter d project service source region)"
  by (simp add: EvaluateServicePerimeter_def Let_def)

text \<open>
  C3: service account tokens respect the perimeters.  When the credentials API, asking this shim, answers a
  token to a request, then the tables of the shim could be read, and for the project of every account the
  request names, the target of its path and each delegate of its body, every perimeter that restricts
  the credentials service there names a level that the caller's address matches.
\<close>
theorem tokens_respect_perimeters:
  assumes "generateAccessToken api raw_path remote r = CredToken token expires" and "cr_perimeters api = Some (EvaluateServicePerimeter d)"
  shows "\<exists>svc target input ids email emails. cr_iam api = Some svc \<and> requested_target r = sa_name_prefix @ target \<and>
    dec_body dec_token_input r = Some input \<and> ti_delegates input = map ((@) sa_name_prefix) ids \<and>
    list_all2 (\<lambda>i e. sv_resolve svc i = Some (e, False)) (ids @ [target]) (emails @ [email]) \<and> acm_error d = None \<and>
    (\<forall>a \<in> set (emails @ [email]). \<exists>i p. ParseCanonicalServiceAccountEmail a = Some (i, p) \<and>
       (\<forall>q s. restricts d (''projects/'' @ p) ''iamcredentials.googleapis.com'' q s \<longrightarrow>
          admitted d s \<lparr>ar_project = ''projects/'' @ p, ar_service = ''iamcredentials.googleapis.com'',
            ar_source = (case split_host remote of Some h \<Rightarrow> h | None \<Rightarrow> remote), ar_region = []\<rparr>))"
proof -
  obtain svc target input lifetime who ids email emails c where g: "cr_iam api = Some svc" "token_request_of raw_path r = Inr (target, input, lifetime)"
    "parse_delegates [target] (ti_delegates input) = Inr ids" "sv_resolve svc target = Some (email, False)" "resolve_delegates svc [email] ids = Inr emails" "enforceServicePerimeters api remote (email # emails)"
    using generated_token [OF assms(1)] by blast
  let ?src = "case split_host remote of Some h \<Rightarrow> h | None \<Rightarrow> remote"
  have al: "\<exists>i p. ParseCanonicalServiceAccountEmail a = Some (i, p) \<and> ad_allowed (CheckAccess \<lparr>ar_project = ''projects/'' @ p,
      ar_service = ''iamcredentials.googleapis.com'', ar_source = ?src, ar_region = []\<rparr> d)" if a: "a \<in> set (email # emails)" for a
  proof -
    obtain i p where p: "ParseCanonicalServiceAccountEmail a = Some (i, p)"
      "EvaluateServicePerimeter d (''projects/'' @ p) ''iamcredentials.googleapis.com'' ?src [] \<noteq> (True, False)"
      using perimeters_allow [OF g(6) assms(2) a] by blast
    then show ?thesis by (auto simp: EvaluateServicePerimeter_def Let_def)
  qed
  have err: "acm_error d = None" using al [of email] by (auto simp: CheckAccess_def split: if_splits)
  have "\<exists>i p. ParseCanonicalServiceAccountEmail a = Some (i, p) \<and>
      (\<forall>q s. restricts d (''projects/'' @ p) ''iamcredentials.googleapis.com'' q s \<longrightarrow>
        admitted d s \<lparr>ar_project = ''projects/'' @ p, ar_service = ''iamcredentials.googleapis.com'', ar_source = ?src, ar_region = []\<rparr>)"
    if a: "a \<in> set (email # emails)" for a
  proof -
    obtain i p where p: "ParseCanonicalServiceAccountEmail a = Some (i, p)" "ad_allowed (CheckAccess \<lparr>ar_project = ''projects/'' @ p,
        ar_service = ''iamcredentials.googleapis.com'', ar_source = ?src, ar_region = []\<rparr> d)" using al [OF a] by blast
    let ?q = "\<lparr>ar_project = ''projects/'' @ p, ar_service = ''iamcredentials.googleapis.com'', ar_source = ?src, ar_region = []\<rparr>"
    have v: "validProjectResource (ar_project ?q)" "trim_space (ar_service ?q) \<noteq> []"
      using p(2) err by (auto simp: CheckAccess_def split: if_splits)
    from CheckAccess_allowed [OF err v] p show ?thesis by (intro exI [of _ i] exI [of _ p]) simp
  qed
  then have "\<forall>a \<in> set (emails @ [email]). \<exists>i p. ParseCanonicalServiceAccountEmail a = Some (i, p) \<and>
      (\<forall>q s. restricts d (''projects/'' @ p) ''iamcredentials.googleapis.com'' q s \<longrightarrow>
        admitted d s \<lparr>ar_project = ''projects/'' @ p, ar_service = ''iamcredentials.googleapis.com'', ar_source = ?src, ar_region = []\<rparr>)"
    by simp
  with g(1) token_request_named [OF g(2)] parse_delegates_names [OF g(3)] chain_resolved(1) [OF g(4,5)] err show ?thesis by blast
qed

section \<open>At concrete requests\<close>

definition first_acm :: "store acm_api" where
  "first_acm = acm_load shim_store empty_manager"

definition acm_post :: "string \<Rightarrow> json \<Rightarrow> http_request" where
  "acm_post path body = \<lparr>rq_method = ''POST'', rq_path = path, rq_header = [], rq_query = [], rq_body = Raw body\<rparr>"

definition policy_posted :: "reply \<times> store acm_api" where
  "policy_posted = acm_serve shim_store (\<lambda>parts. []) sample_draw ''t''
     (acm_post ''/v1/accessPolicies'' (JObj [(''parent'', JStr ''organizations/1''), (''name'', JStr ''mine'')])) (sh_data first_acm) first_acm"

definition first_policy :: access_policy where
  "first_policy = \<lparr>ap_name = ''accessPolicies/1'', ap_title = [], ap_parent = ''organizations/1'', ap_create = ''t'', ap_update = ''t''\<rparr>"

lemma policy_posted_facts:
  "let x = policy_posted in replied x \<and> sh_data (snd x) = empty_acm\<lparr>acm_policies := [(''accessPolicies/1'', Some first_policy)], acm_seq := 1\<rparr> \<and>
     (case om_store (sh_mgr (snd x)) of None \<Rightarrow> False
      | Some s \<Rightarrow> (case fst (own_Load ''accesscontextmanager/metadata'' s) of Inl e \<Rightarrow> False | Inr w \<Rightarrow> True))"
  by code_simp

lemma first_acm_empty: "sh_data first_acm = empty_acm"
  by code_simp

lemma first_acm_parented: "parented (sh_data first_acm)"
  by (simp add: first_acm_empty)

lemma first_acm_ok: "acm_ok (sh_data first_acm)" "acm_seq (sh_data first_acm) < 2 ^ 63 - 1"
  by (simp_all add: first_acm_empty) (simp add: empty_acm_def)

theorem access_tables_stay_consistent_witness:
  "acm_ok (sh_data (snd policy_posted)) \<and> parented (sh_data (snd policy_posted)) \<and> map fst (acm_policies (sh_data (snd policy_posted))) = [''accessPolicies/1'']"
  using access_tables_stay_consistent [OF first_acm_ok, of "\<lambda>parts. []" sample_draw "''t''"
      "acm_post ''/v1/accessPolicies'' (JObj [(''parent'', JStr ''organizations/1''), (''name'', JStr ''mine'')])" "sh_data first_acm"]
    first_acm_parented policy_posted_facts [unfolded Let_def] by (simp add: policy_posted_def)

theorem access_changes_are_all_or_nothing_witness:
  "\<exists>v st'. policy_posted = (Reply v, st') \<and>
     gm_get (acm_policies (sh_data (acm_load shim_store (sh_mgr st')))) ''accessPolicies/1'' = Some (Some first_policy)"
proof -
  note f = policy_posted_facts [unfolded Let_def]
  obtain v st' where p: "policy_posted = (Reply v, st')" using conjunct1 [OF f] by (rule repliedE)
  have loads: "(case om_store (sh_mgr st') of None \<Rightarrow> False
      | Some s \<Rightarrow> (case fst (own_Load ''accesscontextmanager/metadata'' s) of Inl e \<Rightarrow> False | Inr w \<Rightarrow> True))"
    using f unfolding p snd_conv by blast
  then obtain s where s: "om_store (sh_mgr st') = Some s" by (cases "om_store (sh_mgr st')") simp_all
  obtain x s' where x: "own_Load ''accesscontextmanager/metadata'' s = (x, s')" by (cases "own_Load ''accesscontextmanager/metadata'' s")
  from loads obtain w where w: "x = Inr w" unfolding s option.case x fst_conv by (cases x) simp_all
  have g: "rq_method (acm_post path body) \<noteq> ''GET''" "\<not> has_suffix (rq_path (acm_post ''/v1/accessPolicies'' body)) '':checkAccess''" for path body
    by (simp_all add: acm_post_def) code_simp
  have "acm_same (sh_data st') (sh_data (acm_load shim_store (sh_mgr st')))"
    using access_changes_are_all_or_nothing [OF p [unfolded policy_posted_def] first_acm_ok, of "[]" v s "sh_mgr st'" w s'] s x w g by blast
  moreover have "acm_policies (sh_data st') = [(''accessPolicies/1'', Some first_policy)]" using f unfolding p snd_conv by simp
  ultimately have "gm_get (acm_policies (sh_data (acm_load shim_store (sh_mgr st')))) ''accessPolicies/1'' = Some (Some first_policy)"
    by (simp add: acm_same_def)
  with p show ?thesis by blast
qed

text \<open>
  A policy deleted between the two sections of a create: the perimeter is acknowledged under a policy that is
  gone, and stays after every restart, since the check at start does not ask for parents.
\<close>

definition late_perimeter :: "reply \<times> store acm_api" where
  "late_perimeter = acm_serve shim_store (\<lambda>parts. []) sample_draw ''t''
     ((acm_post ''/v1/accessPolicies/1/servicePerimeters'' (JObj []))\<lparr>rq_query := [(''servicePerimeterId'', ''late'')]\<rparr>)
     (empty_acm\<lparr>acm_policies := [(''accessPolicies/1'', Some first_policy)], acm_seq := 1\<rparr>)
     (first_acm\<lparr>sh_data := empty_acm\<lparr>acm_seq := 1\<rparr>\<rparr>)"

theorem late_create_leaves_an_orphan:
  "let x = late_perimeter in replied x \<and> acm_policies (sh_data (snd x)) = [] \<and>
     map fst (acm_perimeters (sh_data (snd x))) = [''accessPolicies/1/servicePerimeters/late'']"
  by code_simp

definition office_acm :: acm_data where
  "office_acm = empty_acm\<lparr>acm_policies := [(''accessPolicies/1'', Some first_policy)], acm_seq := 1,
     acm_perimeters := [(''accessPolicies/1/servicePerimeters/p'', Some \<lparr>sp_name = ''accessPolicies/1/servicePerimeters/p'', sp_title = [],
       sp_status = Some \<lparr>ps_resources = [''projects/demo-42''], ps_services = [''iamcredentials.googleapis.com''],
         ps_levels = [''accessPolicies/1/accessLevels/office'']\<rparr>, sp_create = [], sp_update = []\<rparr>)],
     acm_levels := [(''accessPolicies/1/accessLevels/office'', Some \<lparr>al_name = ''accessPolicies/1/accessLevels/office'', al_title = [],
       al_basic = Some [\<lparr>cd_subnets = [''10.0.0.0/24''], cd_regions = []\<rparr>], al_create = [], al_update = []\<rparr>)]\<rparr>"

theorem perimeters_decide_witness:
  "\<not> snd (EvaluateServicePerimeter office_acm ''projects/demo-42'' ''iamcredentials.googleapis.com'' ''10.0.1.7'' []) \<and>
   (\<exists>p s. restricts office_acm ''projects/demo-42'' ''iamcredentials.googleapis.com'' p s \<and>
      \<not> admitted office_acm s \<lparr>ar_project = ''projects/demo-42'', ar_service = ''iamcredentials.googleapis.com'', ar_source = ''10.0.1.7'', ar_region = []\<rparr>)"
proof -
  have e: "\<not> snd (EvaluateServicePerimeter office_acm ''projects/demo-42'' ''iamcredentials.googleapis.com'' ''10.0.1.7'' [])" by code_simp
  have h: "acm_error office_acm = None" "validProjectResource ''projects/demo-42''" "trim_space ''iamcredentials.googleapis.com'' \<noteq> []" by code_simp+
  from perimeters_decide [OF h, of "''10.0.1.7''" "[]"] e show ?thesis by blast
qed

theorem unreadable_perimeters_deny_witness:
  "\<exists>m s. om_store m = Some s \<and> is_err ErrNotFound (case fst (own_Load ''accesscontextmanager/metadata'' s) of Inl e \<Rightarrow> e | Inr v \<Rightarrow> ErrNotFound) = False \<and>
     EvaluateServicePerimeter (sh_data (acm_load shim_store m)) ''projects/p'' ''run.googleapis.com'' [] [] = (True, False)"
proof -
  let ?s = "fresh_store (replicate 40 OsFail)" let ?m = "empty_manager\<lparr>om_store := Some ?s\<rparr>"
  have l: "(case fst (own_Load ''accesscontextmanager/metadata'' ?s) of Inl e \<Rightarrow> \<not> is_err ErrNotFound e | Inr v \<Rightarrow> False)" by code_simp
  obtain x s' where x: "own_Load ''accesscontextmanager/metadata'' ?s = (x, s')" by (cases "own_Load ''accesscontextmanager/metadata'' ?s")
  with l obtain e where e: "x = Inl e" "\<not> is_err ErrNotFound e" by (cases x) simp_all
  have s: "om_store ?m = Some ?s" by simp
  have h: "case x of Inl e \<Rightarrow> \<not> is_err ErrNotFound e
      | Inr v \<Rightarrow> (case into_acm_metadata False v empty_acm of (d, ok) \<Rightarrow> \<not> ok \<or> \<not> validateACMMetadata d)" using e by simp
  from unreadable_perimeters_deny [OF s x h, of "\<lambda>parts. []" sample_draw "[]" chain_post empty_acm "''projects/p''" "''run.googleapis.com''" "[]" "[]"] s x e
  show ?thesis by (intro exI [of _ ?m] exI [of _ ?s]) simp
qed

definition guarded_chain :: cred_api where
  "guarded_chain = chain_api\<lparr>cr_perimeters := Some (EvaluateServicePerimeter office_acm)\<rparr>"

lemma guarded_chain_token: "\<exists>token expires. generateAccessToken guarded_chain [] ''10.0.0.7:4711'' chain_post = CredToken token expires"
proof -
  have "cr_iam guarded_chain = Some chain_service" by (simp add: guarded_chain_def chain_api_def chain_service_def)
  moreover have "enforceServicePerimeters guarded_chain ''10.0.0.7:4711'' [builder, robot]"
  proof -
    have "snd (EvaluateServicePerimeter office_acm ''projects/demo-42'' ''iamcredentials.googleapis.com'' ''10.0.0.7'' [])"
      "perimeter_projects [] [builder, robot] = Some [''demo-42'']" "split_host ''10.0.0.7:4711'' = Some ''10.0.0.7''" by code_simp+
    moreover obtain a b where "EvaluateServicePerimeter office_acm ''projects/demo-42'' ''iamcredentials.googleapis.com'' ''10.0.0.7'' [] = (a, b)"
      by (cases "EvaluateServicePerimeter office_acm ''projects/demo-42'' ''iamcredentials.googleapis.com'' ''10.0.0.7'' []")
    ultimately show ?thesis by (simp add: enforceServicePerimeters_def guarded_chain_def del: perimeter_projects.simps)
  qed
  ultimately show ?thesis using chain_issues chain_answers chain_caller chain_request by (auto simp: generateAccessToken_def)
qed

theorem tokens_respect_perimeters_witness:
  "\<exists>token expires target input. generateAccessToken guarded_chain [] ''10.0.0.7:4711'' chain_post = CredToken token expires \<and>
     requested_target chain_post = sa_name_prefix @ target \<and> dec_body dec_token_input chain_post = Some input \<and> acm_error office_acm = None"
proof -
  obtain token expires where t: "generateAccessToken guarded_chain [] ''10.0.0.7:4711'' chain_post = CredToken token expires"
    using guarded_chain_token by blast
  have "cr_perimeters guarded_chain = Some (EvaluateServicePerimeter office_acm)" by (simp add: guarded_chain_def)
  from tokens_respect_perimeters [OF t this] t show ?thesis by blast
qed

end
