(* ===== verification/Spec2Isabelle.thy ===== *)
theory Spec2Isabelle
  imports Operation_Lifecycle Operation_Polling Operation_Observer Quota Pagination Iam_Access Iam_Credentials_Properties Sts_Example Dashboard_Rbac_Properties Audit_Guarantees Org_Policy_Properties Network_Security_Properties Access_Context_Properties
begin

text \<open>
  \<^bold>\<open>MiniSky\<close>, a local emulator of Google Cloud services written in Go: the state, operation and
  access-control core under \<open>pkg/\<close>.

  \<^bold>\<open>The program.\<close>  One process serves many service shims behind a gateway.  A shim keeps its resources in
  memory and writes them as one named entry into the document store of the running profile
  (\<open>pkg/state\<close>).  Long mutations are operations of a shared manager (\<open>pkg/orchestrator/operations.go\<close>), which
  a client polls.  The gateway counts requests (\<open>pkg/observability\<close>), limits them (\<open>pkg/router/quota.go\<close>) and
  asks the IAM shim for permission; the IAM shim asks the Resource Manager for the ancestors of a project.
  Callers are identified by local tokens (\<open>pkg/security\<close>).

  \<^bold>\<open>Theories.\<close>
  \<^item> \<open>Prelude\<close>: Go maps as association lists (\<open>gm_get\<close>, \<open>gm_set\<close>, \<open>gm_del\<close>, \<open>gm_wf\<close>), package \<open>strings\<close>.
    \<open>Json\<close>: values, decoding into fields, \<open>Json_Text\<close>: their texts, with the parser reading back what the
    printer writes.  \<open>Strconv\<close>: decimal numbers.  \<open>Base64_Url\<close>: the encoding of tokens.  \<open>Http\<close>: requests, clock,
    RFC 3339 times, maps of pointers.
  \<^item> \<open>State_Store\<close> (\<open>store.go\<close>): document, locking envelope, \<open>Load\<close>, \<open>Save\<close>, \<open>Delete\<close>, \<open>Export\<close>, \<open>Import\<close>.  Every
    operating-system call takes its outcome from a script, so theorems hold for a failure at each point.
    \<open>State_Store_Envelope\<close> carries relations through the envelope, \<open>State_Store_Laws\<close> and \<open>State_Store_Properties\<close>
    prove atomicity, the sticky failure latch and the round trips.
  \<^item> \<open>Entry_Store\<close> (\<open>guard.go\<close>): the contract \<open>entry_store\<close> every client relies on, interpreted on the document
    store (\<open>disk_store\<close>), and the guarded store.
  \<^item> \<open>Operation_Model\<close>, \<open>Operation_Scope\<close>, \<open>Operation_Manager\<close> (\<open>operations.go\<close>): operations and their JSON, names and
    scopes, the manager as transitions over any entry store.  \<open>Operation_Laws\<close>, \<open>Operation_Invariants\<close> and
    \<open>Operation_Steps\<close> hold the locale over the contract with one preservation lemma per operation;
    \<open>Operation_Properties\<close>, \<open>Operation_Lifecycle\<close>, \<open>Operation_Polling\<close> the results over the real store.
    \<open>Operation_Observer\<close>: one terminal observer and its worker as an interleaving step relation.
  \<^item> \<open>Quota\<close>, \<open>Observability\<close>, \<open>Pagination\<close>: the limiter, the labels, request log and bounded metric registries, the
    page tokens.
  \<^item> \<open>Resource_Manager\<close> (\<open>resourcemanager/api.go\<close>) with its properties over any store and its hierarchy walk.
  \<^item> \<open>Iam_Base64\<close>, \<open>Iam_Model\<close>, \<open>Iam\<close> (\<open>iam/api.go\<close>): the shim with all its handlers; \<open>Iam_Laws\<close>, \<open>Iam_Properties\<close>,
    \<open>Iam_Restart\<close>: what is written is accepted and found again but for two accounts of one nanosecond; \<open>Iam_Access\<close>: decisions, also with the Resource
    Manager as the resolver, and the accounts tokens are issued for.
  \<^item> \<open>Security_Token\<close> (\<open>security.go\<close>): issuing and verifying local tokens.  \<open>Local_Credentials\<close>: what other
    components ask of the IAM shim (\<open>iam_service\<close>, the Go interfaces \<open>iamService\<close> and \<open>dashboardAuthorizer\<close>) and
    that the modelled shim provides it.
  \<^item> \<open>Iam_Credentials\<close> (\<open>iamcredentials/api.go\<close>): service account tokens through a chain of delegates.
    \<open>Workload_Identity\<close> (\<open>iam/wif.go\<close>: data and lookup; its handlers are not modelled, their commit is in \<open>Iam\<close>), \<open>Sts\<close> (\<open>sts/api.go\<close>): the exchange of an OIDC token for a
    federated one; \<open>Sts_Properties\<close>, \<open>Sts_Example\<close>: it is exchanged only when signature, issuer, audience and
    attribute condition hold, and the example of a whole exchange.
  \<^item> \<open>Dashboard_Rbac\<close> (\<open>dashboard/rbac.go\<close>, \<open>gke_route.go\<close>): the gate before the dashboard's handlers, and that what
    it passes on was authorized for the resource the handler will find.
  \<^item> \<open>Json_Into\<close>: decoding that keeps going over a member of a wrong type, and the merge of a \<open>PATCH\<close>;
    \<open>Json_Into_Laws\<close>: structs are read back as they were written.  \<open>Page_Token\<close>: the texts of page tokens.
  \<^item> \<open>Shim_Mutation\<close>: \<open>finishMutation\<close>, the protocol by which a metadata shim ties a change of its tables to an
    operation, with its compensation, over the shim's guarded handle; \<open>Shim_Laws\<close>: the locale \<open>metadata_shim\<close>, an acknowledged change is durable
    and a refused one is taken back.
  \<^item> \<open>Network_Security\<close> (\<open>networksecurity\<close>) over it, with \<open>Netip\<close> (addresses and prefixes as words) and
    \<open>Path_Match\<close> (\<open>path.Match\<close>): what the two evaluators decide.
  \<^item> \<open>Org_Policy\<close> (\<open>orgpolicy\<close>): boolean constraints through a hierarchy; a created policy decides.
  \<^item> \<open>Access_Context\<close> (\<open>accesscontextmanager\<close>): policies, perimeters and levels; the two tables of children are
    instances of one locale \<open>child_table\<close> (\<open>Access_Context_Laws\<close>).  \<open>Access_Context_Properties\<close>: what the evaluator
    the gateway asks decides, and that tokens are issued only past it.
  \<^item> \<open>Audit_Log\<close> (\<open>audit.go\<close>): the hash-chained log of mutations with scripted system calls; \<open>Audit_Chain\<close>,
    \<open>Audit_Properties\<close>, \<open>Audit_Guarantees\<close>: the chain, that strict mode records before it dispatches, that a
    checkpoint settles the records.

  \<^bold>\<open>How state corresponds.\<close>  A struct is a record whose fields are named after it (\<open>om_\<close>, \<open>rm_\<close>, \<open>im_\<close>, \<open>st_\<close> \<open>...\<close>), a
  mutex-protected method or handler is one function from a state to a response and a state, an error is a
  constructor, a panic is a response of its own.  A handler with two critical sections whose gap matters, the
  creation of a perimeter or level, takes the tables its first section saw as a further argument.  The operation manager and
  each metadata shim have handles of their own on the same document, the shims' behind a guarded store.  A shim is parametric in its store: the functions \<open>save\<close> and
  \<open>load\<close> are arguments, the locales \<open>operation_store\<close>, \<open>resource_store\<close> and \<open>iam_store\<close> extend \<open>entry_store\<close> and hold the lemmas, and each
  is interpreted on \<open>Save\<close>, \<open>Load\<close> and \<open>durable_entry\<close>.  Reachable states are inductive predicates: fresh start,
  any request, any failing save, any restart; those of the operation manager carry the names whose removal
  could neither be saved nor read back, those of IAM allow any reading of the clock, two equal ones included.

  \<^bold>\<open>Conventions and bounds.\<close>  Strings are lists of bytes, case and white space are ASCII
  except where the audit log reads runes; \<open>int\<close> is the 64-bit integer where its range matters (decoding,
  page arithmetic) and unbounded elsewhere.  A request body is its first JSON value.  The order of a Go map
  is one of its possible orders.  Times are their RFC 3339 texts and instants in nanoseconds; a handler reads
  its clock once.  The JSON reader is bounded by the length of its text, which \<open>steps_length\<close> shows to be
  enough; every other loop is structural or has a measure (the hierarchy walk: the parents not seen yet).

  \<^bold>\<open>What the code relies on, as arguments.\<close>  The keyed hash and the digest, the verification of a foreign
  signature, random bytes, the formatting of a time, what the rest of the program does while a lifecycle pauses.

  \<^bold>\<open>Not modelled.\<close>  Docker, process and network calls (most of \<open>pkg/orchestrator\<close> beside the operation manager, the
  container-backed shims), the reverse proxy, TLS and files of secrets, telemetry export, the dashboard's
  pages, command line and evidence tooling: input and output with little logic of their own.  The
  remaining metadata-only shims repeat the pattern of the modelled ones (a table, a validator, an entry
  in the store) and are not reached yet.
\<close>

end
